(* ===== verification/Prelude.thy ===== *)
theory Prelude
  imports Main "HOL-Library.Word" "HOL-Library.Char_ord"
begin

text \<open>
  Shared material: the Go notions every component uses. Results of fallible calls are sums
  (\<open>Inl\<close> the error, \<open>Inr\<close> the value); calls with effects are functions from a state to a result
  and the next state, sequenced by \<open>andThen\<close> (stop at the first error, as
  \<^verbatim>\<open>if err != nil { return ..., err }\<close> does) and \<open>attempt\<close> (hand the result, error or value, to
  the code that inspects it). Instants are nanoseconds since the Unix epoch.
\<close>

named_theorems keeps_rules \<open>which parts of the state a call leaves alone\<close>

subsection \<open>Instants and durations (package time)\<close>

type_synonym gotime = int
type_synonym duration = int

definition Second :: duration where "Second = 1000000000"
definition Minute :: duration where "Minute = 60 * Second"
definition Hour :: duration where "Hour = 60 * Minute"

text \<open>The zero \<^verbatim>\<open>time.Time\<close> is midnight, January 1, year 1, UTC.\<close>

definition zero_time :: gotime where "zero_time = - 62135596800 * Second"

definition IsZero :: "gotime \<Rightarrow> bool" where "IsZero t \<longleftrightarrow> t = zero_time"

definition Unix :: "gotime \<Rightarrow> int" where "Unix t = t div Second"

definition After :: "gotime \<Rightarrow> gotime \<Rightarrow> bool" where "After t u \<longleftrightarrow> u < t"
definition Before :: "gotime \<Rightarrow> gotime \<Rightarrow> bool" where "Before t u \<longleftrightarrow> t < u"

lemma Unix_mono: "t \<le> u \<Longrightarrow> Unix t \<le> Unix u"
  by (simp add: Unix_def Second_def zdiv_mono1)

lemma Unix_add_seconds: "Unix (t + n * Second) = Unix t + n"
  by (simp add: Unix_def Second_def)

subsection \<open>Calls with a state and an error\<close>

type_synonym ('w, 'e, 'a) eng = "'w \<Rightarrow> ('e + 'a) \<times> 'w"

definition ret :: "'a \<Rightarrow> ('w, 'e, 'a) eng" where
  "ret a w = (Inr a, w)"

definition fail :: "'e \<Rightarrow> ('w, 'e, 'a) eng" where
  "fail e w = (Inl e, w)"

definition andThen :: "('w, 'e, 'a) eng \<Rightarrow> ('a \<Rightarrow> ('w, 'e, 'b) eng) \<Rightarrow> ('w, 'e, 'b) eng" where
  "andThen m f w = (case m w of (Inl e, w') \<Rightarrow> (Inl e, w') | (Inr a, w') \<Rightarrow> f a w')"

definition attempt :: "('w, 'd, 'a) eng \<Rightarrow> ('d + 'a \<Rightarrow> ('w, 'e, 'b) eng) \<Rightarrow> ('w, 'e, 'b) eng" where
  "attempt m f w = (case m w of (r, w') \<Rightarrow> f r w')"

text \<open>Rewrapping an error, as \<^verbatim>\<open>fmt.Errorf("...: %w", err)\<close> does.\<close>

definition wrapErr :: "('d \<Rightarrow> 'e) \<Rightarrow> ('w, 'd, 'a) eng \<Rightarrow> ('w, 'e, 'a) eng" where
  "wrapErr g m w = (case m w of (Inl e, w') \<Rightarrow> (Inl (g e), w') | (Inr a, w') \<Rightarrow> (Inr a, w'))"

definition ofSum :: "'e + 'a \<Rightarrow> ('w, 'e, 'a) eng" where
  "ofSum r w = (r, w)"

lemma ret_eq [simp]: "ret a w = (r, w') \<longleftrightarrow> r = Inr a \<and> w' = w"
  by (auto simp: ret_def)

lemma fail_eq [simp]: "fail e w = (r, w') \<longleftrightarrow> r = Inl e \<and> w' = w"
  by (auto simp: fail_def)

lemma ofSum_eq [simp]: "ofSum s w = (r, w') \<longleftrightarrow> r = s \<and> w' = w"
  by (auto simp: ofSum_def)

lemma andThen_Inr:
  "andThen m f w = (Inr b, w'') \<longleftrightarrow> (\<exists>a w'. m w = (Inr a, w') \<and> f a w' = (Inr b, w''))"
  by (auto simp: andThen_def split: prod.splits sum.splits)

lemma andThen_Inl:
  "andThen m f w = (Inl e, w'') \<longleftrightarrow>
     m w = (Inl e, w'') \<or> (\<exists>a w'. m w = (Inr a, w') \<and> f a w' = (Inl e, w''))"
  by (auto simp: andThen_def split: prod.splits sum.splits)

lemma attempt_iff:
  "attempt m f w = (r, w'') \<longleftrightarrow> (\<exists>s w'. m w = (s, w') \<and> f s w' = (r, w''))"
  by (auto simp: attempt_def split: prod.splits)

lemma attempt_sum:
  "attempt m (\<lambda>r. case r of Inl e \<Rightarrow> f e | Inr a \<Rightarrow> g a) w = (r, w'') \<longleftrightarrow>
     (\<exists>e w'. m w = (Inl e, w') \<and> f e w' = (r, w'')) \<or> (\<exists>a w'. m w = (Inr a, w') \<and> g a w' = (r, w''))"
  by (auto simp: attempt_def split: prod.splits sum.splits)

lemma wrapErr_Inr: "wrapErr g m w = (Inr a, w') \<longleftrightarrow> m w = (Inr a, w')"
  by (auto simp: wrapErr_def split: prod.splits sum.splits)

lemma wrapErr_Inl: "wrapErr g m w = (Inl e, w') \<longleftrightarrow> (\<exists>d. m w = (Inl d, w') \<and> e = g d)"
  by (auto simp: wrapErr_def split: prod.splits sum.splits)

text \<open>Guards: what a successful call says about the tests it passed.\<close>

lemma guard_Inr:
  "(if c then fail e else m) w = (Inr b, w') \<longleftrightarrow> \<not> c \<and> m w = (Inr b, w')"
  "(case x of None \<Rightarrow> fail e | Some a \<Rightarrow> f a) w = (Inr b, w') \<longleftrightarrow> (\<exists>a. x = Some a \<and> f a w = (Inr b, w'))"
  "(case y of Some a \<Rightarrow> fail (g a) | None \<Rightarrow> m) w = (Inr b, w') \<longleftrightarrow> y = None \<and> m w = (Inr b, w')"
  by (auto split: option.splits)

lemmas eng_Inr = andThen_Inr attempt_sum wrapErr_Inr
lemmas eng_Inl = andThen_Inl attempt_sum wrapErr_Inl

lemma andThen_step_Inr: "m w = (Inr a, w') \<Longrightarrow> andThen m f w = f a w'"
  by (simp add: andThen_def)

lemma andThen_step_Inl: "m w = (Inl e, w') \<Longrightarrow> andThen m f w = (Inl e, w')"
  by (simp add: andThen_def)

lemma attempt_step: "m w = (r, w') \<Longrightarrow> attempt m f w = f r w'"
  by (simp add: attempt_def)

lemma wrapErr_step_Inr: "m w = (Inr a, w') \<Longrightarrow> wrapErr g m w = (Inr a, w')"
  by (simp add: wrapErr_def)

lemma wrapErr_step_Inl: "m w = (Inl e, w') \<Longrightarrow> wrapErr g m w = (Inl (g e), w')"
  by (simp add: wrapErr_def)

lemmas eng_steps = andThen_step_Inr andThen_step_Inl attempt_step wrapErr_step_Inr wrapErr_step_Inl

subsection \<open>Frame conditions\<close>

text \<open>\<open>keeps g m\<close>: the call \<open>m\<close> leaves the part \<open>g\<close> of the state unchanged, on every path.\<close>

definition keeps :: "('w \<Rightarrow> 'x) \<Rightarrow> ('w, 'e, 'a) eng \<Rightarrow> bool" where
  "keeps g m \<longleftrightarrow> (\<forall>w. g (snd (m w)) = g w)"

lemma keepsD: "keeps g m \<Longrightarrow> m w = (r, w') \<Longrightarrow> g w' = g w"
  by (metis keeps_def snd_conv)

lemma keepsI: "(\<And>w r w'. m w = (r, w') \<Longrightarrow> g w' = g w) \<Longrightarrow> keeps g m"
  by (metis keeps_def prod.collapse)

lemma keeps_ret [keeps_rules]: "keeps g (ret a)"
  by (simp add: keeps_def ret_def)

lemma keeps_fail [keeps_rules]: "keeps g (fail e)"
  by (simp add: keeps_def fail_def)

lemma keeps_ofSum [keeps_rules]: "keeps g (ofSum s)"
  by (simp add: keeps_def ofSum_def)

lemma keeps_andThen [keeps_rules]:
  "keeps g m \<Longrightarrow> (\<And>a. keeps g (f a)) \<Longrightarrow> keeps g (andThen m f)"
  by (auto simp: keeps_def andThen_def split: prod.splits sum.splits) (metis snd_conv)+

lemma keeps_attempt [keeps_rules]:
  "keeps g m \<Longrightarrow> (\<And>r. keeps g (f r)) \<Longrightarrow> keeps g (attempt m f)"
  by (auto simp: keeps_def attempt_def split: prod.splits) (metis snd_conv)+

lemma keeps_wrapErr [keeps_rules]: "keeps g m \<Longrightarrow> keeps g (wrapErr h m)"
  by (auto simp: keeps_def wrapErr_def split: prod.splits sum.splits) (metis snd_conv)+

lemma keeps_if [keeps_rules]: "keeps g m \<Longrightarrow> keeps g n \<Longrightarrow> keeps g (if b then m else n)"
  by simp

lemma keeps_sum [keeps_rules]:
  "(\<And>e. keeps g (f e)) \<Longrightarrow> (\<And>a. keeps g (h a)) \<Longrightarrow> keeps g (case s of Inl e \<Rightarrow> f e | Inr a \<Rightarrow> h a)"
  by (simp split: sum.splits)

lemma keeps_option [keeps_rules]:
  "keeps g f \<Longrightarrow> (\<And>a. keeps g (h a)) \<Longrightarrow> keeps g (case s of None \<Rightarrow> f | Some a \<Rightarrow> h a)"
  by (simp split: option.splits)

lemma keeps_let [keeps_rules]: "(\<And>x. keeps g (f x)) \<Longrightarrow> keeps g (let x = a in f x)"
  by simp

subsection \<open>Lists and options\<close>

lemma option_case_Inr:
  "(case x of None \<Rightarrow> Inl e | Some a \<Rightarrow> f a) = Inr c \<longleftrightarrow> (\<exists>a. x = Some a \<and> f a = Inr c)"
  by (auto split: option.splits)

lemma if_Inr: "(if b then Inl e else x) = Inr c \<longleftrightarrow> \<not> b \<and> x = Inr c"
  by simp

lemma Some_eq_if: "(if b then Some x else None) = Some y \<longleftrightarrow> b \<and> x = y"
  by auto

lemma list_ex_mem: "list_ex (\<lambda>x. x = a) xs \<longleftrightarrow> a \<in> set xs"
  by (auto simp: list_ex_iff)

end
