(* ===== verification/Json.thy ===== *)
theory Json
  imports GoStrings
begin

text \<open>
  The part of package \<^verbatim>\<open>encoding/json\<close> the program uses, at the level of JSON values: a document
  is a \<open>jval\<close>. \<open>marshal\<close> and \<open>decode_into\<close> work from a field table, one entry per struct field with
  its tag, exactly as Go's reflection does: a key selects the field of that name, failing that the
  field whose name equals it up to case; unknown keys are skipped; a missing key leaves the field
  alone; \<^verbatim>\<open>null\<close> leaves a scalar alone and clears a slice or pointer; a value of the wrong type is an
  error, after which decoding goes on (so the value may be partly filled when the error is reported).

  \<open>JTime\<close> is a string that spells an RFC 3339 instant; the spelling itself is not modelled.
  \<open>JInt\<close> is a number literal without fraction or exponent, \<open>JDec\<close> the text of any other number.
  A nil slice and an empty slice are both \<open>[]\<close>.
\<close>

datatype jval =
    JNull
  | JBool bool
  | JInt int
  | JDec string
  | JStr string
  | JTime gotime
  | JArr "jval list"
  | JObj "(string \<times> jval) list"

text \<open>The bytes of a stored object: a JSON document, or bytes that are not one.\<close>

datatype blob = Doc jval | Bytes string

definition blob_empty :: "blob \<Rightarrow> bool" where
  "blob_empty b \<longleftrightarrow> b = Bytes []"

subsection \<open>Assigning one value\<close>

definition int64 :: "int \<Rightarrow> bool" where
  "int64 i \<longleftrightarrow> - (2 ^ 63) \<le> i \<and> i < 2 ^ 63"

fun set_str :: "jval \<Rightarrow> string \<Rightarrow> bool \<times> string" where
  "set_str (JStr s) old = (True, s)"
| "set_str JNull old = (True, old)"
| "set_str _ old = (False, old)"

fun set_bool :: "jval \<Rightarrow> bool \<Rightarrow> bool \<times> bool" where
  "set_bool (JBool b) old = (True, b)"
| "set_bool JNull old = (True, old)"
| "set_bool _ old = (False, old)"

fun set_int :: "jval \<Rightarrow> int \<Rightarrow> bool \<times> int" where
  "set_int (JInt i) old = (if int64 i then (True, i) else (False, old))"
| "set_int JNull old = (True, old)"
| "set_int (JDec s) old = (if s = ''-0'' then (True, 0) else (False, old))"
| "set_int _ old = (False, old)"

fun set_time :: "jval \<Rightarrow> gotime \<Rightarrow> bool \<times> gotime" where
  "set_time (JTime t) old = (True, t)"
| "set_time JNull old = (True, old)"
| "set_time _ old = (False, old)"

fun set_strs :: "jval \<Rightarrow> string list \<Rightarrow> bool \<times> string list" where
  "set_strs (JArr vs) old = (list_all (\<lambda>v. fst (set_str v [])) vs, map (\<lambda>v. snd (set_str v [])) vs)"
| "set_strs JNull old = (True, [])"
| "set_strs _ old = (False, old)"

subsection \<open>Structs\<close>

datatype 'r field = Field (fname: string) (fset: "jval \<Rightarrow> 'r \<Rightarrow> bool \<times> 'r") (fenc: "'r \<Rightarrow> jval option")

definition lens_set :: "('r \<Rightarrow> 'a) \<Rightarrow> (('a \<Rightarrow> 'a) \<Rightarrow> 'r \<Rightarrow> 'r) \<Rightarrow> (jval \<Rightarrow> 'a \<Rightarrow> bool \<times> 'a) \<Rightarrow> jval \<Rightarrow> 'r \<Rightarrow> bool \<times> 'r" where
  "lens_set get upd put v r = (case put v (get r) of (ok, a) \<Rightarrow> (ok, upd (\<lambda>_. a) r))"

definition str_field where
  "str_field n get upd = Field n (lens_set get upd set_str) (\<lambda>r. Some (JStr (get r)))"

definition str_omit where
  "str_omit n get upd =
     Field n (lens_set get upd set_str) (\<lambda>r. if get r = [] then None else Some (JStr (get r)))"

definition bool_field where
  "bool_field n get upd = Field n (lens_set get upd set_bool) (\<lambda>r. Some (JBool (get r)))"

definition int_field where
  "int_field n get upd = Field n (lens_set get upd set_int) (\<lambda>r. Some (JInt (get r)))"

definition int_omit where
  "int_omit n get upd =
     Field n (lens_set get upd set_int) (\<lambda>r. if get r = 0 then None else Some (JInt (get r)))"

definition time_field where
  "time_field n get upd = Field n (lens_set get upd set_time) (\<lambda>r. Some (JTime (get r)))"

definition enc_strs :: "string list \<Rightarrow> jval" where
  "enc_strs ss = (if ss = [] then JNull else JArr (map JStr ss))"

definition strs_field where
  "strs_field n get upd = Field n (lens_set get upd set_strs) (\<lambda>r. Some (enc_strs (get r)))"

definition strs_omit where
  "strs_omit n get upd =
     Field n (lens_set get upd set_strs) (\<lambda>r. if get r = [] then None else Some (enc_strs (get r)))"

definition find_field :: "string \<Rightarrow> 'r field list \<Rightarrow> 'r field option" where
  "find_field k fs =
     (case List.find (\<lambda>f. fname f = k) fs of
        Some f \<Rightarrow> Some f
      | None \<Rightarrow> List.find (\<lambda>f. EqualFold (fname f) k) fs)"

fun decode_entries :: "'r field list \<Rightarrow> (string \<times> jval) list \<Rightarrow> bool \<times> 'r \<Rightarrow> bool \<times> 'r" where
  "decode_entries fs [] st = st"
| "decode_entries fs ((k, v) # es) (ok, r) =
     decode_entries fs es
       (case find_field k fs of
          None \<Rightarrow> (ok, r)
        | Some f \<Rightarrow> (case fset f v r of (ok', r') \<Rightarrow> (ok \<and> ok', r')))"

fun decode_into :: "'r field list \<Rightarrow> jval \<Rightarrow> 'r \<Rightarrow> bool \<times> 'r" where
  "decode_into fs (JObj es) r = decode_entries fs es (True, r)"
| "decode_into fs JNull r = (True, r)"
| "decode_into fs _ r = (False, r)"

definition marshal :: "'r field list \<Rightarrow> 'r \<Rightarrow> jval" where
  "marshal fs r =
     JObj (concat (map (\<lambda>f. case fenc f r of None \<Rightarrow> [] | Some v \<Rightarrow> [(fname f, v)]) fs))"

text \<open>\<^verbatim>\<open>json.Unmarshal(data, &x)\<close> with \<^verbatim>\<open>x\<close> zero: \<open>None\<close> when it returns an error.\<close>

definition unmarshal :: "'r field list \<Rightarrow> 'r \<Rightarrow> blob \<Rightarrow> 'r option" where
  "unmarshal fs zero b =
     (case b of
        Doc j \<Rightarrow> (case decode_into fs j zero of (ok, r) \<Rightarrow> if ok then Some r else None)
      | Bytes _ \<Rightarrow> None)"

text \<open>The same when the code drops the error and keeps what was filled in.\<close>

definition unmarshal_lax :: "'r field list \<Rightarrow> 'r \<Rightarrow> blob \<Rightarrow> 'r" where
  "unmarshal_lax fs zero b =
     (case b of Doc j \<Rightarrow> snd (decode_into fs j zero) | Bytes _ \<Rightarrow> zero)"

text \<open>A struct nested by value, and one nested by pointer.\<close>

definition obj_field where
  "obj_field n fs get upd = Field n (lens_set get upd (decode_into fs)) (\<lambda>r. Some (marshal fs (get r)))"

definition ptr_set :: "'r field list \<Rightarrow> 'r \<Rightarrow> jval \<Rightarrow> 'r option \<Rightarrow> bool \<times> 'r option" where
  "ptr_set fs zero v old =
     (case v of
        JNull \<Rightarrow> (True, None)
      | _ \<Rightarrow> (case decode_into fs v (case old of None \<Rightarrow> zero | Some r \<Rightarrow> r) of (ok, r) \<Rightarrow> (ok, Some r)))"

definition ptr_field where
  "ptr_field n fs zero get upd =
     Field n (lens_set get upd (ptr_set fs zero))
       (\<lambda>r. Some (case get r of None \<Rightarrow> JNull | Some x \<Rightarrow> marshal fs x))"

definition ptr_omit where
  "ptr_omit n fs zero get upd =
     Field n (lens_set get upd (ptr_set fs zero)) (\<lambda>r. map_option (marshal fs) (get r))"

definition time_ptr_omit where
  "time_ptr_omit n get upd =
     Field n
       (lens_set get upd (\<lambda>v old. case v of JNull \<Rightarrow> (True, None)
          | _ \<Rightarrow> (case set_time v (case old of None \<Rightarrow> zero_time | Some t \<Rightarrow> t) of (ok, t) \<Rightarrow> (ok, Some t))))
       (\<lambda>r. map_option JTime (get r))"

text \<open>\<^verbatim>\<open>map[string]string\<close>: an association list without repeated keys, in the order of insertion.\<close>

fun put_key :: "'k \<Rightarrow> 'v \<Rightarrow> ('k \<times> 'v) list \<Rightarrow> ('k \<times> 'v) list" where
  "put_key k v [] = [(k, v)]"
| "put_key k v ((k', v') # m) = (if k = k' then (k, v) # m else (k', v') # put_key k v m)"

fun set_smap :: "jval \<Rightarrow> (string \<times> string) list \<Rightarrow> bool \<times> (string \<times> string) list" where
  "set_smap (JObj es) old =
     (list_all (\<lambda>(k, v). fst (set_str v [])) es,
      foldl (\<lambda>m (k, v). put_key k (snd (set_str v [])) m) old es)"
| "set_smap JNull old = (True, [])"
| "set_smap _ old = (False, old)"

definition smap_omit where
  "smap_omit n get upd =
     Field n (lens_set get upd set_smap)
       (\<lambda>r. if get r = [] then None else Some (JObj (map (\<lambda>(k, v). (k, JStr v)) (get r))))"

subsection \<open>Round trips\<close>

lemmas field_defs = str_field_def str_omit_def bool_field_def int_field_def int_omit_def time_field_def
  strs_field_def strs_omit_def obj_field_def ptr_field_def ptr_omit_def time_ptr_omit_def smap_omit_def

lemma set_strs_enc [simp]: "set_strs (enc_strs ss) old = (True, ss)"
  by (simp add: enc_strs_def list_all_iff o_def)

text \<open>
  \<open>encoded_ok f r\<close>: what \<open>f\<close> writes for \<open>r\<close>, its setter reads back; and if it writes nothing
  the field already has the value it would have been given. \<open>copy\<close> moves one field.
\<close>

definition copies :: "'r field \<Rightarrow> 'r \<Rightarrow> 'r \<Rightarrow> 'r \<Rightarrow> bool" where
  "copies f r s s' \<longleftrightarrow> (case fenc f r of Some v \<Rightarrow> fset f v s = (True, s') | None \<Rightarrow> s' = s)"

fun copies_all :: "'r field list \<Rightarrow> 'r \<Rightarrow> 'r \<Rightarrow> 'r \<Rightarrow> bool" where
  "copies_all [] r s s' \<longleftrightarrow> s' = s"
| "copies_all (f # fs) r s s' \<longleftrightarrow> (\<exists>t. copies f r s t \<and> copies_all fs r t s')"

lemma decode_entries_append:
  "decode_entries fs (es @ es') st = decode_entries fs es' (decode_entries fs es st)"
proof (induction es arbitrary: st)
  case Nil
  show ?case by simp
next
  case (Cons e es)
  obtain k v where e: "e = (k, v)" by (cases e)
  obtain ok r where st: "st = (ok, r)" by (cases st)
  show ?case unfolding e st append_Cons decode_entries.simps by (rule Cons.IH)
qed

lemma decode_marshalled:
  assumes "\<forall>f \<in> set gs. find_field (fname f) fs = Some f"
    and "copies_all gs r s s'"
  shows "decode_entries fs
      (concat (map (\<lambda>f. case fenc f r of None \<Rightarrow> [] | Some v \<Rightarrow> [(fname f, v)]) gs)) (True, s) = (True, s')"
  using assms
proof (induction gs arbitrary: s)
  case Nil
  then show ?case by simp
next
  case (Cons f gs)
  then obtain t where t: "copies f r s t" "copies_all gs r t s'" by auto
  with Cons.prems(1) have
    "decode_entries fs (case fenc f r of None \<Rightarrow> [] | Some v \<Rightarrow> [(fname f, v)]) (True, s) = (True, t)"
    by (auto simp: copies_def split: option.splits)
  with Cons t show ?case by (simp add: decode_entries_append)
qed

lemma find_field_distinct:
  assumes "distinct (map fname fs)" and "f \<in> set fs"
  shows "find_field (fname f) fs = Some f"
proof -
  have "List.find (\<lambda>g. fname g = fname f) fs = Some f"
    using assms by (induction fs) (auto simp: image_iff)
  then show ?thesis by (simp add: find_field_def)
qed

lemma decode_marshal:
  assumes "distinct (map fname fs)" and "copies_all fs r zero r"
  shows "decode_into fs (marshal fs r) zero = (True, r)"
proof -
  have "\<forall>f \<in> set fs. find_field (fname f) fs = Some f"
    using assms(1) by (blast intro: find_field_distinct)
  from decode_marshalled [OF this assms(2)] show ?thesis by (simp add: marshal_def)
qed

lemma unmarshal_marshal:
  assumes "distinct (map fname fs)" and "copies_all fs r zero r"
  shows "unmarshal fs zero (Doc (marshal fs r)) = Some r"
  using decode_marshal [OF assms] by (simp add: unmarshal_def)

text \<open>One rule per kind of field: the field is copied when the target still has the zero value.\<close>

lemma copies_str [simp]: "copies (str_field n get upd) r s s' \<longleftrightarrow> s' = upd (\<lambda>_. get r) s"
  by (auto simp: copies_def str_field_def lens_set_def)

text \<open>A field that is left out when empty: the target's field must have the empty value already.\<close>

lemma copies_str_omit [simp]:
  "upd (\<lambda>_. []) s = s \<Longrightarrow> copies (str_omit n get upd) r s s' \<longleftrightarrow> s' = upd (\<lambda>_. get r) s"
  by (auto simp: copies_def str_omit_def lens_set_def)

lemma copies_bool [simp]: "copies (bool_field n get upd) r s s' \<longleftrightarrow> s' = upd (\<lambda>_. get r) s"
  by (auto simp: copies_def bool_field_def lens_set_def)

lemma copies_int [simp]:
  "int64 (get r) \<Longrightarrow> copies (int_field n get upd) r s s' \<longleftrightarrow> s' = upd (\<lambda>_. get r) s"
  by (auto simp: copies_def int_field_def lens_set_def)

lemma copies_int_omit [simp]:
  "int64 (get r) \<Longrightarrow> upd (\<lambda>_. 0) s = s \<Longrightarrow>
     copies (int_omit n get upd) r s s' \<longleftrightarrow> s' = upd (\<lambda>_. get r) s"
  by (auto simp: copies_def int_omit_def lens_set_def)

lemma copies_time [simp]: "copies (time_field n get upd) r s s' \<longleftrightarrow> s' = upd (\<lambda>_. get r) s"
  by (auto simp: copies_def time_field_def lens_set_def)

lemma copies_strs [simp]: "copies (strs_field n get upd) r s s' \<longleftrightarrow> s' = upd (\<lambda>_. get r) s"
  by (auto simp: copies_def strs_field_def lens_set_def)

lemma copies_strs_omit [simp]:
  "upd (\<lambda>_. []) s = s \<Longrightarrow> copies (strs_omit n get upd) r s s' \<longleftrightarrow> s' = upd (\<lambda>_. get r) s"
  by (auto simp: copies_def strs_omit_def lens_set_def)

lemma copies_obj [simp]:
  "decode_into fs (marshal fs (get r)) (get s) = (True, get r) \<Longrightarrow>
     copies (obj_field n fs get upd) r s s' \<longleftrightarrow> s' = upd (\<lambda>_. get r) s"
  by (auto simp: copies_def obj_field_def lens_set_def)

lemma marshal_not_null [simp]: "marshal fs r \<noteq> JNull" "JNull \<noteq> marshal fs r"
  by (auto simp: marshal_def)

lemma ptr_set_marshal:
  "decode_into fs (marshal fs x) zero = (True, x) \<Longrightarrow> ptr_set fs zero (marshal fs x) None = (True, Some x)"
  by (simp add: ptr_set_def marshal_def)

lemma ptr_set_null [simp]: "ptr_set fs zero JNull old = (True, None)"
  by (simp add: ptr_set_def)

lemma copies_ptr [simp]:
  "get s = None \<Longrightarrow> (\<And>x. get r = Some x \<Longrightarrow> decode_into fs (marshal fs x) zero = (True, x)) \<Longrightarrow>
     copies (ptr_field n fs zero get upd) r s s' \<longleftrightarrow> s' = upd (\<lambda>_. get r) s"
  by (cases "get r") (auto simp: copies_def ptr_field_def lens_set_def ptr_set_marshal)

lemma copies_ptr_omit [simp]:
  "get s = None \<Longrightarrow> upd (\<lambda>_. None) s = s \<Longrightarrow>
     (\<And>x. get r = Some x \<Longrightarrow> decode_into fs (marshal fs x) zero = (True, x)) \<Longrightarrow>
     copies (ptr_omit n fs zero get upd) r s s' \<longleftrightarrow> s' = upd (\<lambda>_. get r) s"
  by (cases "get r") (auto simp: copies_def ptr_omit_def lens_set_def ptr_set_marshal)

lemma copies_time_ptr [simp]:
  "upd (\<lambda>_. None) s = s \<Longrightarrow> copies (time_ptr_omit n get upd) r s s' \<longleftrightarrow> s' = upd (\<lambda>_. get r) s"
  by (cases "get r") (auto simp: copies_def time_ptr_omit_def lens_set_def)

lemma put_key_fresh: "k \<notin> fst ` set m \<Longrightarrow> put_key k v m = m @ [(k, v)]"
  by (induction m) auto

lemma foldl_put_key:
  "distinct (map fst (m @ es)) \<Longrightarrow> foldl (\<lambda>m (k, v). put_key k (snd (set_str v [])) m) m
     (map (\<lambda>(k, v). (k, JStr v)) es) = m @ es"
  by (induction es arbitrary: m) (auto simp: put_key_fresh)

lemma copies_smap [simp]:
  "get s = [] \<Longrightarrow> upd (\<lambda>_. []) s = s \<Longrightarrow> distinct (map fst (get r)) \<Longrightarrow>
     copies (smap_omit n get upd) r s s' \<longleftrightarrow> s' = upd (\<lambda>_. get r) s"
  by (auto simp: copies_def smap_omit_def lens_set_def foldl_put_key [of "[]", simplified] list_all_iff)

lemma fname_simps [simp]:
  "fname (str_field n g u) = n" "fname (str_omit n g u) = n" "fname (bool_field n g2 u2) = n"
  "fname (int_field n g3 u3) = n" "fname (int_omit n g3 u3) = n" "fname (time_field n g3 u3) = n"
  "fname (strs_field n g4 u4) = n" "fname (strs_omit n g4 u4) = n" "fname (obj_field n fs g5 u5) = n"
  "fname (ptr_field n fs z g6 u6) = n" "fname (ptr_omit n fs z g6 u6) = n"
  "fname (time_ptr_omit n g7 u7) = n" "fname (smap_omit n g8 u8) = n"
  by (simp_all add: field_defs)

end
