(* ===== verification/JsonText.thy ===== *)
theory JsonText
  imports Json
begin

text \<open>
  The text of JSON documents, for tokens: what \<^verbatim>\<open>json.Marshal\<close> writes (compact, object keys in field
  order, the characters \<^verbatim>\<open><\<close>, \<^verbatim>\<open>>\<close>, \<^verbatim>\<open>&\<close> and control characters escaped) and what \<^verbatim>\<open>json.Unmarshal\<close>
  accepts (white space between tokens, all escapes, any number literal). Text is bytes; bytes of 128
  and more are copied both ways, so the validity of UTF-8 is not checked here. \<open>tf\<close> spells an instant.
\<close>

subsection \<open>Writing\<close>

definition hexd :: "nat \<Rightarrow> char" where
  "hexd d = char_of (if d < 10 then 48 + d else 87 + d)"

definition esc_char :: "char \<Rightarrow> string" where
  "esc_char c =
     (let n = of_char c :: nat in
      if c = CHR 0x22 \<or> c = CHR 0x5C then [CHR 0x5C, c]
      else if n = 8 then [CHR 0x5C, CHR ''b'']
      else if n = 12 then [CHR 0x5C, CHR ''f'']
      else if n = 10 then [CHR 0x5C, CHR ''n'']
      else if n = 13 then [CHR 0x5C, CHR ''r'']
      else if n = 9 then [CHR 0x5C, CHR ''t'']
      else if n < 32 \<or> c = CHR ''<'' \<or> c = CHR ''>'' \<or> c = CHR ''&''
        then [CHR 0x5C] @ ''u00'' @ [hexd (n div 16), hexd (n mod 16)]
      else [c])"

definition esc :: "string \<Rightarrow> string" where
  "esc s = concat (map esc_char s)"

definition quote :: "string \<Rightarrow> string" where
  "quote s = [CHR 0x22] @ esc s @ [CHR 0x22]"

fun print_json :: "(gotime \<Rightarrow> string) \<Rightarrow> jval \<Rightarrow> string" where
  "print_json tf JNull = ''null''"
| "print_json tf (JBool b) = (if b then ''true'' else ''false'')"
| "print_json tf (JInt i) = FormatInt i"
| "print_json tf (JDec s) = s"
| "print_json tf (JStr s) = quote s"
| "print_json tf (JTime t) = quote (tf t)"
| "print_json tf (JArr vs) = ''['' @ Join (map (print_json tf) vs) '','' @ '']''"
| "print_json tf (JObj es) =
     ''{'' @ Join (map (\<lambda>(k, v). quote k @ '':'' @ print_json tf v) es) '','' @ ''}''"

subsection \<open>Reading\<close>

definition json_space :: "char \<Rightarrow> bool" where
  "json_space c \<longleftrightarrow> c = CHR 0x20 \<or> c = CHR 0x09 \<or> c = CHR 0x0A \<or> c = CHR 0x0D"

definition skip :: "string \<Rightarrow> string" where
  "skip s = dropWhile json_space s"

definition hexval :: "char \<Rightarrow> nat option" where
  "hexval c = (let n = of_char c :: nat in
     if 48 \<le> n \<and> n \<le> 57 then Some (n - 48)
     else if 97 \<le> n \<and> n \<le> 102 then Some (n - 87)
     else if 65 \<le> n \<and> n \<le> 70 then Some (n - 55)
     else None)"

definition hex4val :: "char \<Rightarrow> char \<Rightarrow> char \<Rightarrow> char \<Rightarrow> nat option" where
  "hex4val a b c d =
     (case (hexval a, hexval b, hexval c, hexval d) of
        (Some w, Some x, Some y, Some z) \<Rightarrow> Some (((w * 16 + x) * 16 + y) * 16 + z)
      | _ \<Rightarrow> None)"

text \<open>The bytes of a code point; a lone surrogate becomes U+FFFD.\<close>

definition utf8 :: "nat \<Rightarrow> string" where
  "utf8 n =
     (if n < 128 then [char_of n]
      else if n < 2048 then [char_of (192 + n div 64), char_of (128 + n mod 64)]
      else if n < 65536 then
        (let m = (if 55296 \<le> n \<and> n < 57344 then 65533 else n) in
         [char_of (224 + m div 4096), char_of (128 + m div 64 mod 64), char_of (128 + m mod 64)])
      else [char_of (240 + n div 262144), char_of (128 + n div 4096 mod 64),
            char_of (128 + n div 64 mod 64), char_of (128 + n mod 64)])"

definition push_str :: "string \<Rightarrow> (string \<times> string) option \<Rightarrow> (string \<times> string) option" where
  "push_str p r = map_option (\<lambda>(s, rest). (p @ s, rest)) r"

definition simple_esc :: "char \<Rightarrow> string option" where
  "simple_esc e =
     (if e = CHR 0x22 \<or> e = CHR 0x5C \<or> e = CHR ''/'' then Some [e]
      else if e = CHR ''b'' then Some [CHR 0x08]
      else if e = CHR ''f'' then Some [CHR 0x0C]
      else if e = CHR ''n'' then Some [CHR 0x0A]
      else if e = CHR ''r'' then Some [CHR 0x0D]
      else if e = CHR ''t'' then Some [CHR 0x09]
      else None)"

text \<open>
  A string after its opening quote: its contents and what follows the closing quote. A high surrogate
  followed by an escaped low one is one code point.
\<close>

fun unq_u :: "string \<Rightarrow> (nat \<times> string) option" where
  "unq_u (a # b # c # d # s) = map_option (\<lambda>n. (n, s)) (hex4val a b c d)"
| "unq_u _ = None"

definition low_surrogate :: "string \<Rightarrow> (nat \<times> string) option" where
  "low_surrogate s =
     (case s of
        e # u # t \<Rightarrow>
          (if e = CHR 0x5C \<and> u = CHR ''u'' then
             (case unq_u t of
                Some (n, r) \<Rightarrow> if 56320 \<le> n \<and> n < 57344 then Some (n, r) else None
              | None \<Rightarrow> None)
           else None)
      | _ \<Rightarrow> None)"

fun unq :: "nat \<Rightarrow> string \<Rightarrow> (string \<times> string) option" where
  "unq 0 s = None"
| "unq (Suc f) [] = None"
| "unq (Suc f) (c # s) =
     (if c = CHR 0x22 then Some ([], s)
      else if c = CHR 0x5C then
        (case s of
           [] \<Rightarrow> None
         | e # t \<Rightarrow>
             if e = CHR ''u'' then
               (case unq_u t of
                  None \<Rightarrow> None
                | Some (n, r) \<Rightarrow>
                    (case (if 55296 \<le> n \<and> n < 56320 then low_surrogate r else None) of
                       Some (m, r') \<Rightarrow> push_str (utf8 ((n - 55296) * 1024 + (m - 56320) + 65536)) (unq f r')
                     | None \<Rightarrow> push_str (utf8 n) (unq f r)))
             else (case simple_esc e of None \<Rightarrow> None | Some p \<Rightarrow> push_str p (unq f t)))
      else if (of_char c :: nat) < 32 then None
      else push_str [c] (unq f s))"

definition num_char :: "char \<Rightarrow> bool" where
  "num_char c \<longleftrightarrow> c \<in> set ''+-.eE0123456789''"

definition is_digit :: "char \<Rightarrow> bool" where
  "is_digit c \<longleftrightarrow> 48 \<le> (of_char c :: nat) \<and> (of_char c :: nat) \<le> 57"

definition digits_val :: "string \<Rightarrow> nat" where
  "digits_val s = foldl (\<lambda>n c. n * 10 + (of_char c - 48)) 0 s"

definition int_part_ok :: "string \<Rightarrow> bool" where
  "int_part_ok s \<longleftrightarrow> s \<noteq> [] \<and> list_all is_digit s \<and> (hd s = CHR ''0'' \<longrightarrow> length s = 1)"

text \<open>Fraction and exponent, checked after the integer part.\<close>

definition exp_ok :: "string \<Rightarrow> bool" where
  "exp_ok s =
     (case s of
        [] \<Rightarrow> True
      | e # t \<Rightarrow>
          (e = CHR ''e'' \<or> e = CHR ''E'') \<and>
          (let d = (case t of c # u \<Rightarrow> if c = CHR ''+'' \<or> c = CHR ''-'' then u else t | [] \<Rightarrow> t) in
           d \<noteq> [] \<and> list_all is_digit d))"

definition frac_exp_ok :: "string \<Rightarrow> bool" where
  "frac_exp_ok s =
     (case s of
        [] \<Rightarrow> True
      | c # t \<Rightarrow>
          if c = CHR ''.'' then
            takeWhile is_digit t \<noteq> [] \<and> exp_ok (dropWhile is_digit t)
          else exp_ok s)"

definition number :: "string \<Rightarrow> jval option" where
  "number s =
     (let (neg, u) = (case s of c # t \<Rightarrow> if c = CHR ''-'' then (True, t) else (False, s) | [] \<Rightarrow> (False, s));
          ip = takeWhile is_digit u; rest = dropWhile is_digit u in
      if \<not> int_part_ok ip \<or> \<not> frac_exp_ok rest then None
      else if rest = [] \<and> \<not> (neg \<and> digits_val ip = 0)
        then Some (JInt (if neg then - int (digits_val ip) else int (digits_val ip)))
      else Some (JDec s))"

definition literal :: "string \<Rightarrow> jval \<Rightarrow> string \<Rightarrow> (jval \<times> string) option" where
  "literal w v s = (if HasPrefix s w then Some (v, drop (length w) s) else None)"

text \<open>Values, the rest of an array, the rest of an object; the first argument is fuel.\<close>

fun pval :: "nat \<Rightarrow> string \<Rightarrow> (jval \<times> string) option"
  and parr :: "nat \<Rightarrow> string \<Rightarrow> (jval list \<times> string) option"
  and pobj :: "nat \<Rightarrow> string \<Rightarrow> ((string \<times> jval) list \<times> string) option"
where
  "pval 0 s = None"
| "pval (Suc f) s =
     (case skip s of
        [] \<Rightarrow> None
      | c # r \<Rightarrow>
          if c = CHR 0x22 then map_option (\<lambda>(t, r'). (JStr t, r')) (unq (Suc (length r)) r)
          else if c = CHR ''['' then
            (case skip r of
               [] \<Rightarrow> None
             | d # r' \<Rightarrow> if d = CHR '']'' then Some (JArr [], r')
                 else map_option (\<lambda>(vs, r''). (JArr vs, r'')) (parr f r))
          else if c = CHR ''{'' then
            (case skip r of
               [] \<Rightarrow> None
             | d # r' \<Rightarrow> if d = CHR ''}'' then Some (JObj [], r')
                 else map_option (\<lambda>(es, r''). (JObj es, r'')) (pobj f r))
          else if c = CHR ''t'' then literal ''true'' (JBool True) (c # r)
          else if c = CHR ''f'' then literal ''false'' (JBool False) (c # r)
          else if c = CHR ''n'' then literal ''null'' JNull (c # r)
          else map_option (\<lambda>v. (v, dropWhile num_char (c # r))) (number (takeWhile num_char (c # r))))"
| "parr 0 s = None"
| "parr (Suc f) s =
     (case pval f s of
        None \<Rightarrow> None
      | Some (v, r) \<Rightarrow>
          (case skip r of
             [] \<Rightarrow> None
           | c # r' \<Rightarrow>
               if c = CHR '']'' then Some ([v], r')
               else if c = CHR '','' then map_option (\<lambda>(vs, r''). (v # vs, r'')) (parr f r')
               else None))"
| "pobj 0 s = None"
| "pobj (Suc f) s =
     (case skip s of
        [] \<Rightarrow> None
      | q # t \<Rightarrow>
          if q \<noteq> CHR 0x22 then None
          else (case unq (Suc (length t)) t of
             None \<Rightarrow> None
           | Some (k, r) \<Rightarrow>
               (case skip r of
                  [] \<Rightarrow> None
                | c # r1 \<Rightarrow>
                    if c \<noteq> CHR '':'' then None
                    else (case pval f r1 of
                       None \<Rightarrow> None
                     | Some (v, r2) \<Rightarrow>
                         (case skip r2 of
                            [] \<Rightarrow> None
                          | d # r3 \<Rightarrow>
                              if d = CHR ''}'' then Some ([(k, v)], r3)
                              else if d = CHR '','' then map_option (\<lambda>(es, r4). ((k, v) # es, r4)) (pobj f r3)
                              else None)))))"

text \<open>No more than \<open>d\<close> arrays and objects inside each other.\<close>

fun shallow :: "nat \<Rightarrow> jval \<Rightarrow> bool" where
  "shallow d (JArr vs) \<longleftrightarrow> d \<noteq> 0 \<and> list_all (shallow (d - 1)) vs"
| "shallow d (JObj es) \<longleftrightarrow> d \<noteq> 0 \<and> list_all (\<lambda>(k, v). shallow (d - 1) v) es"
| "shallow d _ \<longleftrightarrow> True"

definition maxNestingDepth :: nat where
  "maxNestingDepth = 10000"

text \<open>The first value of a text, with what follows it.\<close>

definition read_value :: "string \<Rightarrow> (jval \<times> string) option" where
  "read_value s =
     (case pval (Suc (length s)) s of
        None \<Rightarrow> None
      | Some (v, r) \<Rightarrow> if shallow maxNestingDepth v then Some (v, r) else None)"

text \<open>A whole document: one value and nothing but white space after it.\<close>

definition parse_json :: "string \<Rightarrow> jval option" where
  "parse_json s =
     (case read_value s of
        None \<Rightarrow> None
      | Some (v, r) \<Rightarrow> if skip r = [] then Some v else None)"

subsection \<open>What is written is read back\<close>

lemma hexval_hexd [simp]: "d < 16 \<Longrightarrow> hexval (hexd d) = Some d"
  by (auto simp: hexval_def hexd_def)

lemma utf8_char [simp]: "utf8 (of_char c) = [c]" if "(of_char c :: nat) < 128"
  using that by (simp add: utf8_def)

lemma unq_esc_char: "unq (Suc f) (esc_char c @ s) = push_str [c] (unq f s)"
proof -
  let ?n = "of_char c :: nat"
  have n: "hex4val (CHR ''0'') (CHR ''0'') (hexd (?n div 16)) (hexd (?n mod 16)) = Some ?n" if "?n < 128"
    using that by (simp add: hex4val_def hexval_def [of "CHR ''0''"])
  have eq: "of_char c = (of_char d :: nat) \<longleftrightarrow> c = d" for d :: char by simp
  consider "c = CHR 0x22 \<or> c = CHR 0x5C" | "?n = 8 \<or> ?n = 12 \<or> ?n = 10 \<or> ?n = 13 \<or> ?n = 9"
    | "c \<noteq> CHR 0x22 \<and> c \<noteq> CHR 0x5C \<and> (?n < 32 \<or> c = CHR ''<'' \<or> c = CHR ''>'' \<or> c = CHR ''&'')
        \<and> ?n \<notin> {8, 9, 10, 12, 13}"
    | "c \<noteq> CHR 0x22 \<and> c \<noteq> CHR 0x5C \<and> \<not> ?n < 32 \<and> c \<noteq> CHR ''<'' \<and> c \<noteq> CHR ''>'' \<and> c \<noteq> CHR ''&''"
    by auto
  then show ?thesis
  proof cases
    case 1
    then show ?thesis by (auto simp: esc_char_def simple_esc_def)
  next
    case 2
    then have "c = CHR 0x08 \<or> c = CHR 0x0C \<or> c = CHR 0x0A \<or> c = CHR 0x0D \<or> c = CHR 0x09"
      using eq [of "CHR 0x08"] eq [of "CHR 0x0C"] eq [of "CHR 0x0A"] eq [of "CHR 0x0D"] eq [of "CHR 0x09"]
      by simp
    then show ?thesis by (auto simp: esc_char_def simple_esc_def)
  next
    case 3
    then have lt: "?n < 128" by auto
    from 3 have "esc_char c = [CHR 0x5C] @ ''u00'' @ [hexd (?n div 16), hexd (?n mod 16)]"
      by (auto simp: esc_char_def Let_def)
    with lt n show ?thesis by simp
  next
    case 4
    then have "esc_char c = [c]" by (auto simp: esc_char_def Let_def)
    with 4 show ?thesis by simp
  qed
qed

lemma push_str_Some [simp]: "push_str p (Some (s, r)) = Some (p @ s, r)"
  by (simp add: push_str_def)

lemma unq_esc: "length s < f \<Longrightarrow> unq f (esc s @ CHR 0x22 # r) = Some (s, r)"
proof (induction s arbitrary: f)
  case Nil
  then show ?case by (cases f) (auto simp: esc_def)
next
  case (Cons c s)
  then obtain g where g: "f = Suc g" "length s < g" by (cases f) auto
  have "unq f (esc (c # s) @ CHR 0x22 # r) = unq (Suc g) (esc_char c @ (esc s @ CHR 0x22 # r))"
    by (simp add: esc_def g)
  also have "\<dots> = push_str [c] (unq g (esc s @ CHR 0x22 # r))" by (rule unq_esc_char)
  finally show ?case using Cons.IH [OF g(2)] by simp
qed

lemma esc_char_length: "1 \<le> length (esc_char c)"
  by (simp add: esc_char_def Let_def)

lemma esc_length: "length s \<le> length (esc s)"
proof (induction s)
  case (Cons c s)
  with esc_char_length [of c] show ?case by (simp add: esc_def)
qed (simp add: esc_def)

lemma unq_quote: "unq (Suc (length (esc s @ CHR 0x22 # r))) (esc s @ CHR 0x22 # r) = Some (s, r)"
  by (rule unq_esc) (use esc_length [of s] in simp)

text \<open>Decimal numbers.\<close>

lemma digits_val_snoc: "digits_val (s @ [digit d]) = digits_val s * 10 + d" if "d < 10"
  using that by (simp add: digits_val_def)

lemma digits_val_nat_str: "digits_val (nat_str n) = n"
proof (induction n rule: nat_str.induct)
  case (1 n)
  show ?case
  proof (cases "n < 10")
    case True
    then show ?thesis by (subst nat_str.simps) (simp add: digits_val_def)
  next
    case False
    then have "nat_str n = nat_str (n div 10) @ [digit (n mod 10)]" by (subst nat_str.simps) simp
    with 1 False show ?thesis by (simp add: digits_val_snoc)
  qed
qed

lemma nat_str_is_digit: "c \<in> set (nat_str n) \<Longrightarrow> is_digit c"
  using nat_str_digits by (auto simp: is_digit_def)

lemma nat_str_leading: "hd (nat_str n) = CHR ''0'' \<Longrightarrow> n = 0"
proof (induction n rule: nat_str.induct)
  case (1 n)
  show ?case
  proof (cases "n < 10")
    case True
    with "1.prems" have "digit n = CHR ''0''" by (subst (asm) nat_str.simps) simp
    with True have "48 + n = (of_char (CHR ''0'') :: nat)" by (metis of_char_digit)
    then show ?thesis by simp
  next
    case False
    with "1.prems" have "hd (nat_str (n div 10)) = CHR ''0''" by (subst (asm) nat_str.simps) simp
    with "1.IH" False show ?thesis by simp
  qed
qed

lemma nat_str_int_part: "int_part_ok (nat_str n)"
proof -
  have "nat_str 0 = [digit 0]" by (subst nat_str.simps) simp
  then show ?thesis
    using nat_str_leading [of n] nat_str_is_digit by (auto simp: int_part_ok_def list_all_iff)
qed

lemma is_digit_num_char: "is_digit c \<Longrightarrow> num_char c"
proof -
  assume d: "is_digit c"
  have c: "c = char_of (of_char c :: nat)" by simp
  from d have "(of_char c :: nat) \<in> {48, 49, 50, 51, 52, 53, 54, 55, 56, 57}"
    unfolding is_digit_def by (simp only: insert_iff empty_iff) presburger
  then have "(char_of (of_char c :: nat) :: char) \<in> char_of ` {48, 49, 50, 51, 52, 53, 54, 55, 56, 57::nat}"
    by (rule imageI)
  also have "char_of ` {48, 49, 50, 51, 52, 53, 54, 55, 56, 57::nat} \<subseteq> {c. num_char c}"
    by (simp add: num_char_def char_of_def bit_0)
  finally show ?thesis using c by simp
qed

lemma takeWhile_digits: "(\<forall>c \<in> set ds. is_digit c) \<Longrightarrow> takeWhile is_digit ds = ds \<and> dropWhile is_digit ds = []"
  by (simp add: takeWhile_eq_all_conv)

lemma minus_not_digit: "\<not> is_digit CHR ''-''"
  by (simp add: is_digit_def)

lemma number_digits:
  "int_part_ok u \<Longrightarrow> number u = Some (JInt (int (digits_val u)))"
  "int_part_ok u \<Longrightarrow> digits_val u \<noteq> 0 \<Longrightarrow> number (CHR ''-'' # u) = Some (JInt (- int (digits_val u)))"
proof -
  assume u: "int_part_ok u"
  then have d: "takeWhile is_digit u = u" "dropWhile is_digit u = []"
    using takeWhile_digits [of u] by (auto simp: int_part_ok_def list_all_iff)
  show "number (CHR ''-'' # u) = Some (JInt (- int (digits_val u)))" if "digits_val u \<noteq> 0"
    using that u by (simp add: number_def frac_exp_ok_def Let_def d)
  obtain c t where ct: "u = c # t" using u by (cases u) (auto simp: int_part_ok_def)
  with u have "c \<noteq> CHR ''-''" using minus_not_digit by (auto simp: int_part_ok_def)
  then have "(case u of [] \<Rightarrow> (False, u) | c # t \<Rightarrow> if c = CHR ''-'' then (True, t) else (False, u)) = (False, u)"
    by (simp add: ct)
  moreover have "(case u of [] \<Rightarrow> (False, []) | c # t \<Rightarrow> if c = CHR ''-'' then (True, t) else (False, u)) =
      (case u of [] \<Rightarrow> (False, u) | c # t \<Rightarrow> if c = CHR ''-'' then (True, t) else (False, u))"
    by (simp split: list.split)
  ultimately show "number u = Some (JInt (int (digits_val u)))"
    using u by (simp add: number_def frac_exp_ok_def Let_def d)
qed

lemma number_FormatInt: "number (FormatInt i) = Some (JInt i)"
  using number_digits [OF nat_str_int_part] by (simp add: FormatInt_def digits_val_nat_str)

lemma FormatInt_num_chars: "\<forall>c \<in> set (FormatInt i). num_char c"
proof -
  have "num_char CHR ''-''" by (simp add: num_char_def)
  then show ?thesis using nat_str_is_digit is_digit_num_char by (auto simp: FormatInt_def)
qed

text \<open>
  Documents without instants and without fractions are read back exactly, unless they are nested too deeply; the fuel of \<open>parse_json\<close>,
  one more than the length of the text, is enough for every text \<open>print_json\<close> writes.
\<close>

fun plain_json :: "jval \<Rightarrow> bool" where
  "plain_json (JDec s) \<longleftrightarrow> False"
| "plain_json (JTime t) \<longleftrightarrow> False"
| "plain_json (JArr vs) \<longleftrightarrow> list_all plain_json vs"
| "plain_json (JObj es) \<longleftrightarrow> list_all (\<lambda>(k, v). plain_json v) es"
| "plain_json _ \<longleftrightarrow> True"

definition stops :: "string \<Rightarrow> bool" where
  "stops rest \<longleftrightarrow> rest = [] \<or> \<not> num_char (hd rest)"

lemma stops_simps [simp]: "stops []" "stops (c # s) \<longleftrightarrow> \<not> num_char c"
  by (simp_all add: stops_def)

lemma not_num_char [simp]:
  "\<not> num_char CHR '',''" "\<not> num_char CHR '']''" "\<not> num_char CHR ''}''" "\<not> num_char CHR ''{''"
  "\<not> num_char CHR ''[''" "\<not> num_char CHR 0x22" "\<not> num_char CHR ''t''" "\<not> num_char CHR ''f''"
  "\<not> num_char CHR ''n''" "\<not> num_char CHR 0x20" "\<not> num_char CHR 0x09" "\<not> num_char CHR 0x0A"
  "\<not> num_char CHR 0x0D"
  by (simp_all add: num_char_def)

lemma skip_Cons [simp]: "\<not> json_space c \<Longrightarrow> skip (c # s) = c # s"
  by (simp add: skip_def)

lemma not_json_space [simp]:
  "\<not> json_space CHR '',''" "\<not> json_space CHR '']''" "\<not> json_space CHR ''}''" "\<not> json_space CHR ''{''"
  "\<not> json_space CHR ''[''" "\<not> json_space CHR 0x22" "\<not> json_space CHR '':''"
  "\<not> json_space CHR ''t''" "\<not> json_space CHR ''f''" "\<not> json_space CHR ''n''"
  by (simp_all add: json_space_def)

lemma num_char_not_space: "num_char c \<Longrightarrow> \<not> json_space c"
  by (auto simp: num_char_def json_space_def)

lemma takeWhile_num:
  assumes "\<forall>c \<in> set s. num_char c" and "stops rest"
  shows "takeWhile num_char (s @ rest) = s" and "dropWhile num_char (s @ rest) = rest"
  using assms by (cases rest; simp)+

lemma FormatInt_nonempty [simp]: "FormatInt i \<noteq> []"
  by (simp add: FormatInt_def)

lemma pval_int: "stops rest \<Longrightarrow> pval (Suc f) (FormatInt i @ rest) = Some (JInt i, rest)"
proof -
  assume rest: "stops rest"
  obtain c t where ct: "FormatInt i = c # t" by (cases "FormatInt i") auto
  have c: "num_char c" using FormatInt_num_chars [of i] ct by simp
  then have "c \<noteq> CHR 0x22" "c \<noteq> CHR ''[''" "c \<noteq> CHR ''{''" "c \<noteq> CHR ''t''" "c \<noteq> CHR ''f''" "c \<noteq> CHR ''n''"
    by auto
  moreover have "skip (FormatInt i @ rest) = c # t @ rest" using c num_char_not_space ct by simp
  moreover have "takeWhile num_char (c # t @ rest) = FormatInt i" "dropWhile num_char (c # t @ rest) = rest"
    using takeWhile_num [OF FormatInt_num_chars rest, of i] ct by auto
  ultimately show ?thesis by (simp add: number_FormatInt del: takeWhile.simps dropWhile.simps)
qed

lemma pval_quote: "pval (Suc f) (quote s @ rest) = Some (JStr s, rest)"
  using unq_quote [of s rest] by (simp add: quote_def)

text \<open>Where a printed value starts: never with white space or a closing bracket.\<close>

definition opens :: "string \<Rightarrow> bool" where
  "opens s \<longleftrightarrow> s \<noteq> [] \<and> \<not> json_space (hd s) \<and> hd s \<noteq> CHR '']'' \<and> hd s \<noteq> CHR ''}''"

lemma print_opens: "plain_json v \<Longrightarrow> opens (print_json tf v)"
proof (cases v)
  case (JInt i)
  have "num_char (hd (FormatInt i))" using FormatInt_num_chars [of i] by (cases "FormatInt i") auto
  then have "hd (FormatInt i) \<noteq> CHR '']''" "hd (FormatInt i) \<noteq> CHR ''}''" "\<not> json_space (hd (FormatInt i))"
    using num_char_not_space by auto
  with JInt show ?thesis by (simp add: opens_def)
qed (auto simp: opens_def quote_def)

lemma opens_length: "opens s \<Longrightarrow> 1 \<le> length s"
  by (cases s) (auto simp: opens_def)

definition reads :: "(gotime \<Rightarrow> string) \<Rightarrow> jval \<Rightarrow> bool" where
  "reads tf v \<longleftrightarrow> opens (print_json tf v) \<and>
     (\<forall>f rest. length (print_json tf v) \<le> f \<longrightarrow> stops rest \<longrightarrow>
        pval f (print_json tf v @ rest) = Some (v, rest))"

lemma parr_elems:
  assumes "\<forall>v \<in> set vs. reads tf v" and "vs \<noteq> []"
    and "length (Join (map (print_json tf) vs) '','') < f"
  shows "parr f (Join (map (print_json tf) vs) '','' @ CHR '']'' # rest) = Some (vs, rest)"
  using assms
proof (induction vs arbitrary: f rule: induct_list012)
  case (2 v)
  then obtain g where g: "f = Suc g" by (cases f) auto
  with 2 show ?case by (simp add: reads_def)
next
  case (3 v w vs)
  then obtain g where g: "f = Suc g" by (cases f) auto
  let ?r = "Join (map (print_json tf) (w # vs)) '','' @ CHR '']'' # rest"
  have v: "pval g (print_json tf v @ CHR '','' # ?r) = Some (v, CHR '','' # ?r)"
    using 3 g by (simp add: reads_def)
  have "opens (print_json tf v)" using 3 by (simp add: reads_def)
  then have l: "1 \<le> length (print_json tf v)" by (rule opens_length)
  have "parr g ?r = Some (w # vs, rest)"
    by (rule "3.IH"(2)) (use 3 g l in auto)
  with v show ?case by (simp add: g)
qed simp

lemma pobj_fields:
  assumes "\<forall>(k, v) \<in> set es. reads tf v" and "es \<noteq> []"
    and "length (Join (map (\<lambda>(k, v). quote k @ '':'' @ print_json tf v) es) '','') < f"
  shows "pobj f (Join (map (\<lambda>(k, v). quote k @ '':'' @ print_json tf v) es) '','' @ CHR ''}'' # rest)
    = Some (es, rest)"
  using assms
proof (induction es arbitrary: f rule: induct_list012)
  case (2 e)
  obtain k v where e: "e = (k, v)" by (cases e)
  from 2 obtain g where g: "f = Suc g" by (cases f) auto
  have "unq (Suc (length (esc k @ CHR 0x22 # CHR '':'' # print_json tf v @ CHR ''}'' # rest)))
      (esc k @ CHR 0x22 # CHR '':'' # print_json tf v @ CHR ''}'' # rest)
      = Some (k, CHR '':'' # print_json tf v @ CHR ''}'' # rest)"
    by (rule unq_quote)
  moreover have "pval g (print_json tf v @ CHR ''}'' # rest) = Some (v, CHR ''}'' # rest)"
    using 2 g e by (simp add: reads_def quote_def)
  ultimately show ?case by (simp add: e g quote_def)
next
  case (3 e e' es)
  obtain k v where e: "e = (k, v)" by (cases e)
  from 3 obtain g where g: "f = Suc g" by (cases f) auto
  let ?r = "Join (map (\<lambda>(k, v). quote k @ '':'' @ print_json tf v) (e' # es)) '','' @ CHR ''}'' # rest"
  have "unq (Suc (length (esc k @ CHR 0x22 # CHR '':'' # print_json tf v @ CHR '','' # ?r)))
      (esc k @ CHR 0x22 # CHR '':'' # print_json tf v @ CHR '','' # ?r)
      = Some (k, CHR '':'' # print_json tf v @ CHR '','' # ?r)"
    by (rule unq_quote)
  moreover have "pval g (print_json tf v @ CHR '','' # ?r) = Some (v, CHR '','' # ?r)"
    using 3 g e by (simp add: reads_def quote_def)
  moreover have "pobj g ?r = Some (e' # es, rest)"
    by (rule "3.IH"(2)) (use 3 g e in \<open>auto simp: quote_def\<close>)
  ultimately show ?case by (simp add: e g quote_def)
qed simp

lemma opens_skip: "opens s \<Longrightarrow> \<exists>c t. s @ r = c # t @ r \<and> s = c # t \<and> skip (s @ r) = c # t @ r \<and> c \<noteq> CHR '']'' \<and> c \<noteq> CHR ''}''"
  by (cases s) (auto simp: opens_def)

lemma print_reads_arr:
  assumes ih: "\<forall>v \<in> set vs. reads tf v" and o: "opens (print_json tf (JArr vs))"
  shows "reads tf (JArr vs)"
proof -
  have "pval f (print_json tf (JArr vs) @ rest) = Some (JArr vs, rest)"
    if len: "length (print_json tf (JArr vs)) \<le> f" and "stops rest" for f rest
  proof (cases "vs = []")
    case True
    from len obtain g where "f = Suc g" by (cases f) auto
    with True show ?thesis by simp
  next
    case False
    let ?j = "Join (map (print_json tf) vs) '',''"
    from len obtain g where g: "f = Suc g" "length ?j < g" by (cases f) auto
    have p: "parr g (?j @ CHR '']'' # rest) = Some (vs, rest)" by (rule parr_elems [OF ih False g(2)])
    from False obtain w ws where w: "vs = w # ws" by (cases vs) auto
    with ih have "opens (print_json tf w)" by (simp add: reads_def)
    then have "opens ?j" using w by (cases ws) (auto simp: opens_def)
    from opens_skip [OF this, of "CHR '']'' # rest"] p g show ?thesis by auto
  qed
  with o show ?thesis by (simp add: reads_def)
qed

lemma print_reads_obj:
  assumes ih: "\<forall>(k, v) \<in> set es. reads tf v" and o: "opens (print_json tf (JObj es))"
  shows "reads tf (JObj es)"
proof -
  let ?p = "\<lambda>(k, v). quote k @ '':'' @ print_json tf v"
  have "pval f (print_json tf (JObj es) @ rest) = Some (JObj es, rest)"
    if len: "length (print_json tf (JObj es)) \<le> f" and "stops rest" for f rest
  proof (cases "es = []")
    case True
    from len obtain g where "f = Suc g" by (cases f) auto
    with True show ?thesis by simp
  next
    case False
    let ?j = "Join (map ?p es) '',''"
    from len obtain g where g: "f = Suc g" "length ?j < g" by (cases f) auto
    have p: "pobj g (?j @ CHR ''}'' # rest) = Some (es, rest)" by (rule pobj_fields [OF ih False g(2)])
    from False obtain w ws where w: "es = w # ws" by (cases es) auto
    then have "opens ?j" by (cases ws; cases w) (auto simp: opens_def quote_def)
    from opens_skip [OF this, of "CHR ''}'' # rest"] p g show ?thesis by auto
  qed
  with o show ?thesis by (simp add: reads_def)
qed

lemma print_reads: "plain_json v \<Longrightarrow> reads tf v"
proof (induction v)
  case (JArr vs)
  then have "\<forall>v \<in> set vs. reads tf v" by (auto simp: list_all_iff)
  then show ?case using print_opens [OF JArr.prems] by (rule print_reads_arr)
next
  case (JObj es)
  then have "\<forall>(k, v) \<in> set es. reads tf v" by (fastforce simp: list_all_iff)
  then show ?case using print_opens [OF JObj.prems] by (rule print_reads_obj)
next
  case (JInt i)
  have "pval f (FormatInt i @ rest) = Some (JInt i, rest)" if "length (FormatInt i) \<le> f" "stops rest" for f rest
    using that pval_int by (cases f) auto
  with JInt print_opens [of "JInt i" tf] show ?case by (simp add: reads_def)
next
  case (JStr s)
  have "pval f (quote s @ rest) = Some (JStr s, rest)" if "length (quote s) \<le> f" for f rest
    using that pval_quote by (cases f) (auto simp: quote_def)
  with print_opens [of "JStr s" tf] show ?case by (simp add: reads_def)
next
  case JNull
  have "pval f (''null'' @ rest) = Some (JNull, rest)" if "4 \<le> f" for f rest
    using that by (cases f) (auto simp: literal_def HasPrefix_def)
  then show ?case by (simp add: reads_def opens_def)
next
  case (JBool b)
  have "pval f (''true'' @ rest) = Some (JBool True, rest)" "pval f (''false'' @ rest) = Some (JBool False, rest)"
    if "4 \<le> f" for f rest
    using that by (cases f; auto simp: literal_def HasPrefix_def)+
  then show ?case by (cases b) (simp_all add: reads_def opens_def)
qed simp_all

lemma parse_print:
  assumes "plain_json v" and "shallow maxNestingDepth v"
  shows "parse_json (print_json tf v) = Some v"
proof -
  let ?s = "print_json tf v"
  from print_reads [OF assms(1), of tf] have all:
    "\<forall>f rest. length ?s \<le> f \<longrightarrow> stops rest \<longrightarrow> pval f (?s @ rest) = Some (v, rest)"
    unfolding reads_def by (rule conjunct2)
  have "pval (Suc (length ?s)) (?s @ []) = Some (v, [])"
    by (rule all [rule_format]) simp_all
  with assms(2) show ?thesis by (simp add: parse_json_def read_value_def skip_def del: pval.simps)
qed

end
