(* ===== verification/Encoding.thy ===== *)
theory Encoding
  imports GoStrings
begin

text \<open>
  The byte encodings of the standard library that tokens are made of: unpadded URL-safe base64
  (\<^verbatim>\<open>base64.RawURLEncoding\<close>) and lower-case hexadecimal (\<^verbatim>\<open>hex.EncodeToString\<close>).
\<close>

subsection \<open>Base64\<close>

definition b64_alphabet :: string where
  "b64_alphabet = ''ABCDEFGHIJKLMNOPQRSTUVWXYZabcdefghijklmnopqrstuvwxyz0123456789-_''"

definition b64c :: "nat \<Rightarrow> char" where
  "b64c n = b64_alphabet ! n"

definition b64v :: "char \<Rightarrow> nat option" where
  "b64v c = (let n = of_char c :: nat in
     if 65 \<le> n \<and> n \<le> 90 then Some (n - 65)
     else if 97 \<le> n \<and> n \<le> 122 then Some (n - 71)
     else if 48 \<le> n \<and> n \<le> 57 then Some (n + 4)
     else if n = 45 then Some 62
     else if n = 95 then Some 63
     else None)"

fun b64_encode :: "nat list \<Rightarrow> string" where
  "b64_encode [] = []"
| "b64_encode [a] = [b64c (a div 4), b64c (a mod 4 * 16)]"
| "b64_encode [a, b] = [b64c (a div 4), b64c (a mod 4 * 16 + b div 16), b64c (b mod 16 * 4)]"
| "b64_encode (a # b # c # r) =
     [b64c (a div 4), b64c (a mod 4 * 16 + b div 16), b64c (b mod 16 * 4 + c div 64), b64c (c mod 64)]
       @ b64_encode r"

text \<open>A group of one character is an error; the spare bits of a short group are ignored.\<close>

fun b64_decode :: "nat list \<Rightarrow> nat list option" where
  "b64_decode [] = Some []"
| "b64_decode [w] = None"
| "b64_decode [w, x] = Some [w * 4 + x div 16]"
| "b64_decode [w, x, y] = Some [w * 4 + x div 16, x mod 16 * 16 + y div 4]"
| "b64_decode (w # x # y # z # r) =
     map_option (\<lambda>bs. (w * 4 + x div 16) # (x mod 16 * 16 + y div 4) # (y mod 4 * 64 + z) # bs)
       (b64_decode r)"

definition bytes_of :: "string \<Rightarrow> nat list" where
  "bytes_of s = map of_char s"

definition of_bytes :: "nat list \<Rightarrow> string" where
  "of_bytes bs = map char_of bs"

definition EncodeToString :: "string \<Rightarrow> string" where
  "EncodeToString s = b64_encode (bytes_of s)"

fun b64_values :: "string \<Rightarrow> nat list option" where
  "b64_values [] = Some []"
| "b64_values (c # s) =
     (case b64v c of None \<Rightarrow> None | Some v \<Rightarrow> map_option (\<lambda>vs. v # vs) (b64_values s))"

text \<open>The decoder skips carriage returns and newlines wherever they stand.\<close>

definition DecodeString :: "string \<Rightarrow> string option" where
  "DecodeString s =
     (case b64_values (List.filter (\<lambda>c. c \<noteq> CHR 0x0A \<and> c \<noteq> CHR 0x0D) s) of
        None \<Rightarrow> None
      | Some vs \<Rightarrow> map_option of_bytes (b64_decode vs))"

lemma b64v_b64c: "n < 64 \<Longrightarrow> b64v (b64c n) = Some n"
proof -
  have "\<forall>n \<in> set [0..<64]. b64v (b64c n) = Some n"
    by (simp add: upt_rec b64v_def b64c_def b64_alphabet_def)
  then show "n < 64 \<Longrightarrow> ?thesis" by simp
qed

text \<open>Only letters, digits, hyphen and underscore are ever written; never a dot.\<close>

definition b64_char :: "char \<Rightarrow> bool" where
  "b64_char c \<longleftrightarrow> b64v c \<noteq> None"

lemma b64_char_b64c: "n < 64 \<Longrightarrow> b64_char (b64c n)"
  by (simp add: b64_char_def b64v_b64c)

lemma b64_char_not: "b64_char c \<Longrightarrow> c \<noteq> CHR ''.'' \<and> c \<noteq> CHR 0x0A \<and> c \<noteq> CHR 0x0D"
  by (auto simp: b64_char_def b64v_def)

lemma sextets:
  fixes a b c :: nat
  shows "a < 256 \<Longrightarrow> a div 4 < 64" and "a mod 4 * 16 < 64" and "b mod 16 * 4 < 64"
    and "c mod 64 < 64"
  by auto

lemma sextets_sum:
  fixes a b c :: nat
  shows "b < 256 \<Longrightarrow> a mod 4 * 16 + b div 16 < 64" and "c < 256 \<Longrightarrow> b mod 16 * 4 + c div 64 < 64"
proof -
  have "a mod 4 < 4" and "b mod 16 < 16" by simp_all
  moreover have "b < 256 \<Longrightarrow> b div 16 < 16" and "c < 256 \<Longrightarrow> c div 64 < 4" by auto
  ultimately show "b < 256 \<Longrightarrow> a mod 4 * 16 + b div 16 < 64"
    and "c < 256 \<Longrightarrow> b mod 16 * 4 + c div 64 < 64" by linarith+
qed

lemma b64_encode_chars: "\<forall>b \<in> set bs. b < 256 \<Longrightarrow> c \<in> set (b64_encode bs) \<Longrightarrow> b64_char c"
  by (induction bs rule: b64_encode.induct) (auto simp: b64_char_b64c sextets sextets_sum)

fun sextets_of :: "nat list \<Rightarrow> nat list" where
  "sextets_of [] = []"
| "sextets_of [a] = [a div 4, a mod 4 * 16]"
| "sextets_of [a, b] = [a div 4, a mod 4 * 16 + b div 16, b mod 16 * 4]"
| "sextets_of (a # b # c # r) =
     [a div 4, a mod 4 * 16 + b div 16, b mod 16 * 4 + c div 64, c mod 64] @ sextets_of r"

lemma b64_values_append:
  "b64_values s = Some vs \<Longrightarrow> b64_values t = Some ws \<Longrightarrow> b64_values (s @ t) = Some (vs @ ws)"
  by (induction s arbitrary: vs) (auto split: option.splits)

lemma b64_values_encode: "\<forall>b \<in> set bs. b < 256 \<Longrightarrow> b64_values (b64_encode bs) = Some (sextets_of bs)"
  by (induction bs rule: b64_encode.induct) (auto simp: b64v_b64c sextets sextets_sum)

lemma low_digit: "y < n \<Longrightarrow> (x * n + y) mod n = y" "y < n \<Longrightarrow> (x * n + y) div n = x" for x y n :: nat
  by auto

lemma regroup:
  fixes a b c :: nat
  shows "b < 256 \<Longrightarrow> a div 4 * 4 + (a mod 4 * 16 + b div 16) div 16 = a"
    and "b < 256 \<Longrightarrow> c < 256 \<Longrightarrow>
      (a mod 4 * 16 + b div 16) mod 16 * 16 + (b mod 16 * 4 + c div 64) div 4 = b"
    and "c < 256 \<Longrightarrow> (b mod 16 * 4 + c div 64) mod 4 * 64 + c mod 64 = c"
    and "a div 4 * 4 + a mod 4 * 16 div 16 = a"
    and "b < 256 \<Longrightarrow> (a mod 4 * 16 + b div 16) mod 16 * 16 + b mod 16 * 4 div 4 = b"
proof -
  have "b < 256 \<Longrightarrow> b div 16 < 16" and "c < 256 \<Longrightarrow> c div 64 < 4" by auto
  then show "b < 256 \<Longrightarrow> a div 4 * 4 + (a mod 4 * 16 + b div 16) div 16 = a"
    and "b < 256 \<Longrightarrow> c < 256 \<Longrightarrow>
      (a mod 4 * 16 + b div 16) mod 16 * 16 + (b mod 16 * 4 + c div 64) div 4 = b"
    and "c < 256 \<Longrightarrow> (b mod 16 * 4 + c div 64) mod 4 * 64 + c mod 64 = c"
    and "a div 4 * 4 + a mod 4 * 16 div 16 = a"
    and "b < 256 \<Longrightarrow> (a mod 4 * 16 + b div 16) mod 16 * 16 + b mod 16 * 4 div 4 = b"
    by (simp_all only: low_digit div_mult_mod_eq nonzero_mult_div_cancel_right rel_simps simp_thms)
qed

lemma b64_decode_sextets: "\<forall>b \<in> set bs. b < 256 \<Longrightarrow> b64_decode (sextets_of bs) = Some bs"
  by (induction bs rule: sextets_of.induct) (auto simp: regroup)

lemma bytes_lt [simp]: "b \<in> set (bytes_of s) \<Longrightarrow> b < 256"
  by (auto simp: bytes_of_def)

lemma of_bytes_bytes_of [simp]: "of_bytes (bytes_of s) = s"
  by (induction s) (auto simp: of_bytes_def bytes_of_def)

lemma EncodeToString_chars: "c \<in> set (EncodeToString s) \<Longrightarrow> b64_char c"
  unfolding EncodeToString_def by (erule b64_encode_chars [rotated]) simp

lemma Decode_Encode [simp]: "DecodeString (EncodeToString s) = Some s"
proof -
  have "List.filter (\<lambda>c. c \<noteq> CHR 0x0A \<and> c \<noteq> CHR 0x0D) (EncodeToString s) = EncodeToString s"
    by (rule filter_True) (blast dest: EncodeToString_chars b64_char_not)
  then show ?thesis
    by (simp add: DecodeString_def EncodeToString_def b64_values_encode b64_decode_sextets)
qed

lemma Encode_inject [simp]: "EncodeToString s = EncodeToString t \<longleftrightarrow> s = t"
  by (metis Decode_Encode option.inject)

lemma Encode_no_dot: "CHR ''.'' \<notin> set (EncodeToString s)"
  using EncodeToString_chars b64_char_not by blast

subsection \<open>Hexadecimal\<close>

definition hexc :: "nat \<Rightarrow> char" where
  "hexc d = char_of (if d < 10 then 48 + d else 87 + d)"

definition hex_encode :: "string \<Rightarrow> string" where
  "hex_encode s = concat (map (\<lambda>b. [hexc (b div 16), hexc (b mod 16)]) (bytes_of s))"

lemma hex_encode_length: "length (hex_encode s) = 2 * length s"
  by (induction s) (simp_all add: hex_encode_def bytes_of_def)

end
