(* ===== verification/Sha256.thy ===== *)
theory Sha256
  imports Encoding
begin

text \<open>
  SHA-256 (\<^verbatim>\<open>crypto/sha256\<close>, FIPS 180-4) on byte strings, executable. It is what PKCE challenges,
  certificate fingerprints, key ids and token signatures are computed from.
\<close>

unbundle bit_operations_syntax

type_synonym w32 = "32 word"

definition rotr :: "nat \<Rightarrow> w32 \<Rightarrow> w32" where
  "rotr n w = drop_bit n w OR push_bit (32 - n) w"

definition Ch :: "w32 \<Rightarrow> w32 \<Rightarrow> w32 \<Rightarrow> w32" where
  "Ch x y z = (x AND y) XOR (NOT x AND z)"

definition Maj :: "w32 \<Rightarrow> w32 \<Rightarrow> w32 \<Rightarrow> w32" where
  "Maj x y z = (x AND y) XOR (x AND z) XOR (y AND z)"

definition Sigma0 :: "w32 \<Rightarrow> w32" where "Sigma0 x = rotr 2 x XOR rotr 13 x XOR rotr 22 x"
definition Sigma1 :: "w32 \<Rightarrow> w32" where "Sigma1 x = rotr 6 x XOR rotr 11 x XOR rotr 25 x"
definition sigma0 :: "w32 \<Rightarrow> w32" where "sigma0 x = rotr 7 x XOR rotr 18 x XOR drop_bit 3 x"
definition sigma1 :: "w32 \<Rightarrow> w32" where "sigma1 x = rotr 17 x XOR rotr 19 x XOR drop_bit 10 x"

definition sha_K :: "w32 list" where
  "sha_K =
    [1116352408, 1899447441, 3049323471, 3921009573, 961987163, 1508970993, 2453635748, 2870763221,
     3624381080, 310598401, 607225278, 1426881987, 1925078388, 2162078206, 2614888103, 3248222580,
     3835390401, 4022224774, 264347078, 604807628, 770255983, 1249150122, 1555081692, 1996064986,
     2554220882, 2821834349, 2952996808, 3210313671, 3336571891, 3584528711, 113926993, 338241895,
     666307205, 773529912, 1294757372, 1396182291, 1695183700, 1986661051, 2177026350, 2456956037,
     2730485921, 2820302411, 3259730800, 3345764771, 3516065817, 3600352804, 4094571909, 275423344,
     430227734, 506948616, 659060556, 883997877, 958139571, 1322822218, 1537002063, 1747873779,
     1955562222, 2024104815, 2227730452, 2361852424, 2428436474, 2756734187, 3204031479, 3329325298]"

definition sha_H0 :: "w32 list" where
  "sha_H0 = [1779033703, 3144134277, 1013904242, 2773480762, 1359893119, 2600822924, 528734635, 1541459225]"

text \<open>The message schedule, newest word first: \<open>n\<close> more words after the ones in \<open>ws\<close>.\<close>

fun schedule :: "nat \<Rightarrow> w32 list \<Rightarrow> w32 list" where
  "schedule 0 ws = ws"
| "schedule (Suc n) ws =
     schedule n ((sigma1 (ws ! 1) + ws ! 6 + sigma0 (ws ! 14) + ws ! 15) # ws)"

fun sha_round :: "w32 list \<Rightarrow> w32 \<times> w32 \<Rightarrow> w32 list" where
  "sha_round [a, b, c, d, e, f, g, h] (k, w) =
     (let t1 = h + Sigma1 e + Ch e f g + k + w; t2 = Sigma0 a + Maj a b c in
      [t1 + t2, a, b, c, d + t1, e, f, g])"
| "sha_round st kw = st"

definition compress :: "w32 list \<Rightarrow> w32 list \<Rightarrow> w32 list" where
  "compress H block =
     (let W = rev (schedule 48 (rev block)) in
      map2 (+) H (foldl sha_round H (zip sha_K W)))"

definition be_word :: "string \<Rightarrow> w32" where
  "be_word s = foldl (\<lambda>n c. push_bit 8 n OR of_char c) 0 s"

fun groups :: "nat \<Rightarrow> nat \<Rightarrow> 'a list \<Rightarrow> 'a list list" where
  "groups 0 n xs = []"
| "groups (Suc m) n xs = take n xs # groups m n (drop n xs)"

text \<open>A one bit, zeros, and the length in bits as eight bytes, most significant first.\<close>

definition sha_pad :: "string \<Rightarrow> string" where
  "sha_pad m =
     (let l = length m; bits = 8 * (of_nat l :: 64 word) in
      m @ [CHR 0x80] @ replicate ((64 - (l + 9) mod 64) mod 64) (CHR 0x00)
        @ map (\<lambda>n. char_of (uint (drop_bit n bits))) [56, 48, 40, 32, 24, 16, 8, 0])"

definition word_bytes :: "w32 \<Rightarrow> string" where
  "word_bytes w = map (\<lambda>n. char_of (uint (drop_bit n w))) [24, 16, 8, 0]"

definition sha256_words :: "string \<Rightarrow> w32 list" where
  "sha256_words m =
     (let p = sha_pad m; blocks = groups (length p div 64) 64 p in
      foldl compress sha_H0 (map (\<lambda>b. map be_word (groups 16 4 b)) blocks))"

definition Sum256 :: "string \<Rightarrow> string" where
  "Sum256 s = concat (map word_bytes (sha256_words s))"

subsection \<open>The digest is 32 bytes\<close>

lemma length_sha_round [simp]: "length (sha_round st kw) = length st"
  by (cases "(st, kw)" rule: sha_round.cases) (auto simp: Let_def)

lemma length_rounds [simp]: "length (foldl sha_round st kws) = length st"
  by (induction kws arbitrary: st) auto

lemma length_compress [simp]: "length (compress H b) = length H"
  by (simp add: compress_def Let_def)

lemma length_sha256_words: "length (sha256_words m) = 8"
proof -
  have "length (foldl compress H bs) = length H" for H bs
    by (induction bs arbitrary: H) auto
  then show ?thesis by (simp add: sha256_words_def Let_def sha_H0_def)
qed

lemma Sum256_length: "length (Sum256 s) = 32"
proof -
  have "sum_list (map (length \<circ> word_bytes) ws) = 4 * length ws" for ws
    by (induction ws) (auto simp: word_bytes_def)
  then show ?thesis by (simp add: Sum256_def length_concat length_sha256_words)
qed

text \<open>The padded message is a whole number of blocks.\<close>

lemma pad_up: "(n + (64 - n mod 64) mod 64) mod 64 = (0::nat)"
proof (cases "n mod 64 = 0")
  case False
  have "n mod 64 < 64" by simp
  with False have "(64 - n mod 64) mod 64 = 64 - n mod 64" and "n mod 64 + (64 - n mod 64) = 64" by simp_all
  then show ?thesis by (metis mod_add_left_eq mod_self)
qed simp

lemma sha_pad_blocks: "length (sha_pad m) mod 64 = 0"
  using pad_up [of "length m + 9"] by (simp add: sha_pad_def Let_def algebra_simps)

end
