(* ===== verification/Models.thy ===== *)
theory Models
  imports Json
begin

text \<open>
  \<^verbatim>\<open>pkg/models/models.go\<close>: the records kept in storage, their JSON field tables, and their methods.
  A field \<^verbatim>\<open>X\<close> of a struct is the selector \<open><prefix>_X\<close>. A pointer that may be nil is an option.
\<close>

subsection \<open>Audience\<close>

definition TokenUseAccess :: string where "TokenUseAccess = ''access''"
definition TokenUseID :: string where "TokenUseID = ''id''"
definition TokenUseRefresh :: string where "TokenUseRefresh = ''refresh''"

type_synonym Audience = "string list"

fun Audience_MarshalJSON :: "Audience \<Rightarrow> jval" where
  "Audience_MarshalJSON [] = JStr []"
| "Audience_MarshalJSON [a] = JStr a"
| "Audience_MarshalJSON as = JArr (map JStr as)"

definition Audience_UnmarshalJSON :: "jval \<Rightarrow> Audience \<Rightarrow> bool \<times> Audience" where
  "Audience_UnmarshalJSON data old =
     (let (ok, single) = set_str data [] in
      if ok then (if single = [] then (True, []) else (True, [single]))
      else let (ok', multi) = set_strs data [] in if ok' then (True, multi) else (False, old))"

definition Audience_Contains :: "Audience \<Rightarrow> string \<Rightarrow> bool" where
  "Audience_Contains as want = (if want = [] then False else list_ex (\<lambda>aud. aud = want) as)"

lemma Audience_Contains_iff: "Audience_Contains as want \<longleftrightarrow> want \<noteq> [] \<and> want \<in> set as"
  by (auto simp: Audience_Contains_def list_ex_mem)

text \<open>The wire form loses exactly one value: the single empty audience reads back as none.\<close>

lemma Audience_roundtrip:
  "as \<noteq> [[]] \<Longrightarrow> Audience_UnmarshalJSON (Audience_MarshalJSON as) old = (True, as)"
  by (induction as rule: Audience_MarshalJSON.induct)
    (auto simp: Audience_UnmarshalJSON_def list_all_iff o_def)

subsection \<open>Records\<close>

record AdminUser =
  user_ID :: string
  user_OrganizationID :: string
  user_Email :: string
  user_Name :: string
  user_RoleIDs :: "string list"
  user_TeamIDs :: "string list"
  user_Active :: bool
  user_Status :: string
  user_InvitedBy :: string
  user_InvitedAt :: "gotime option"
  user_CreatedAt :: gotime
  user_UpdatedAt :: gotime
  user_Version :: string

record Organization =
  org_ID :: string
  org_Name :: string
  org_Domain :: string
  org_InitialUser :: "AdminUser option"
  org_CreatedAt :: gotime
  org_UpdatedAt :: gotime
  org_Version :: string

record Application =
  app_ID :: string
  app_OrganizationID :: string
  app_Name :: string
  app_ClientID :: string
  app_ClientSecret :: string
  app_RedirectURIs :: "string list"
  app_AllowedIDPs :: "string list"
  app_Scopes :: "string list"
  app_Public :: bool
  app_AllowedOrigins :: "string list"
  app_Audiences :: "string list"
  app_CreatedAt :: gotime
  app_UpdatedAt :: gotime
  app_Version :: string

record ClaimMapping =
  cm_Subject :: string
  cm_Email :: string
  cm_EmailVerified :: string
  cm_Name :: string
  cm_Username :: string
  cm_Groups :: string
  cm_Roles :: string

record IdentityProvider =
  idp_ID :: string
  idp_OrganizationID :: string
  idp_Name :: string
  idp_Type :: string
  idp_IssuerURL :: string
  idp_ClientID :: string
  idp_ClientSecret :: string
  idp_AuthorizeURL :: string
  idp_TokenURL :: string
  idp_UserInfoURL :: string
  idp_EmailsURL :: string
  idp_Preset :: string
  idp_ClaimMapping :: ClaimMapping
  idp_ExtraAuthParams :: "(string \<times> string) list"
  idp_Scopes :: "string list"
  idp_Enabled :: bool
  idp_CreatedAt :: gotime
  idp_UpdatedAt :: gotime
  idp_Version :: string

record SigningKey =
  key_ID :: string
  key_OrganizationID :: string
  key_AppID :: string
  key_Algorithm :: string
  key_PrivateKeyPEM :: string
  key_PublicKeyPEM :: string
  key_KID :: string
  key_Active :: bool
  key_CreatedAt :: gotime
  key_Version :: string

record Team =
  team_ID :: string
  team_OrganizationID :: string
  team_Name :: string
  team_Description :: string
  team_RoleIDs :: "string list"
  team_CreatedAt :: gotime
  team_UpdatedAt :: gotime
  team_Version :: string

record Role =
  role_ID :: string
  role_OrganizationID :: string
  role_Name :: string
  role_Description :: string
  role_Permissions :: "string list"
  role_CreatedAt :: gotime
  role_UpdatedAt :: gotime
  role_Version :: string

record SPIFFEWorkload =
  wl_ID :: string
  wl_OrganizationID :: string
  wl_SPIFFEID :: string
  wl_Name :: string
  wl_CertFingerprint :: string
  wl_ClientCertPEM :: string
  wl_AllowedScopes :: "string list"
  wl_AllowedAudiences :: "string list"
  wl_Active :: bool
  wl_CreatedAt :: gotime
  wl_UpdatedAt :: gotime
  wl_Version :: string

record StoredRecord =
  sr_Key :: string
  sr_Version :: string
  sr_Data :: blob

record AuthClaims =
  cl_Subject :: string
  cl_Issuer :: string
  cl_Audience :: Audience
  cl_TokenUse :: string
  cl_JTI :: string
  cl_OrganizationID :: string
  cl_AppID :: string
  cl_WorkloadID :: string
  cl_SPIFFEID :: string
  cl_Scope :: string
  cl_OriginalIDP :: string
  cl_UpstreamSubject :: string
  cl_Email :: string
  cl_Name :: string
  cl_PreferredUser :: string
  cl_Roles :: "string list"
  cl_Groups :: "string list"
  cl_IssuedAt :: int
  cl_NotBefore :: int
  cl_ExpiresAt :: int
  cl_Nonce :: string

subsection \<open>Zero values\<close>

definition zero_user :: AdminUser where
  "zero_user = \<lparr>user_ID = [], user_OrganizationID = [], user_Email = [], user_Name = [],
     user_RoleIDs = [], user_TeamIDs = [], user_Active = False, user_Status = [], user_InvitedBy = [],
     user_InvitedAt = None, user_CreatedAt = zero_time, user_UpdatedAt = zero_time, user_Version = []\<rparr>"

definition zero_org :: Organization where
  "zero_org = \<lparr>org_ID = [], org_Name = [], org_Domain = [], org_InitialUser = None,
     org_CreatedAt = zero_time, org_UpdatedAt = zero_time, org_Version = []\<rparr>"

definition zero_app :: Application where
  "zero_app = \<lparr>app_ID = [], app_OrganizationID = [], app_Name = [], app_ClientID = [],
     app_ClientSecret = [], app_RedirectURIs = [], app_AllowedIDPs = [], app_Scopes = [],
     app_Public = False, app_AllowedOrigins = [], app_Audiences = [], app_CreatedAt = zero_time,
     app_UpdatedAt = zero_time, app_Version = []\<rparr>"

definition zero_mapping :: ClaimMapping where
  "zero_mapping = \<lparr>cm_Subject = [], cm_Email = [], cm_EmailVerified = [], cm_Name = [],
     cm_Username = [], cm_Groups = [], cm_Roles = []\<rparr>"

definition zero_idp :: IdentityProvider where
  "zero_idp = \<lparr>idp_ID = [], idp_OrganizationID = [], idp_Name = [], idp_Type = [], idp_IssuerURL = [],
     idp_ClientID = [], idp_ClientSecret = [], idp_AuthorizeURL = [], idp_TokenURL = [],
     idp_UserInfoURL = [], idp_EmailsURL = [], idp_Preset = [], idp_ClaimMapping = zero_mapping,
     idp_ExtraAuthParams = [], idp_Scopes = [], idp_Enabled = False, idp_CreatedAt = zero_time,
     idp_UpdatedAt = zero_time, idp_Version = []\<rparr>"

definition zero_key :: SigningKey where
  "zero_key = \<lparr>key_ID = [], key_OrganizationID = [], key_AppID = [], key_Algorithm = [],
     key_PrivateKeyPEM = [], key_PublicKeyPEM = [], key_KID = [], key_Active = False,
     key_CreatedAt = zero_time, key_Version = []\<rparr>"

definition zero_team :: Team where
  "zero_team = \<lparr>team_ID = [], team_OrganizationID = [], team_Name = [], team_Description = [],
     team_RoleIDs = [], team_CreatedAt = zero_time, team_UpdatedAt = zero_time, team_Version = []\<rparr>"

definition zero_role :: Role where
  "zero_role = \<lparr>role_ID = [], role_OrganizationID = [], role_Name = [], role_Description = [],
     role_Permissions = [], role_CreatedAt = zero_time, role_UpdatedAt = zero_time, role_Version = []\<rparr>"

definition zero_workload :: SPIFFEWorkload where
  "zero_workload = \<lparr>wl_ID = [], wl_OrganizationID = [], wl_SPIFFEID = [], wl_Name = [],
     wl_CertFingerprint = [], wl_ClientCertPEM = [], wl_AllowedScopes = [], wl_AllowedAudiences = [],
     wl_Active = False, wl_CreatedAt = zero_time, wl_UpdatedAt = zero_time, wl_Version = []\<rparr>"

definition zero_claims :: AuthClaims where
  "zero_claims = \<lparr>cl_Subject = [], cl_Issuer = [], cl_Audience = [], cl_TokenUse = [], cl_JTI = [],
     cl_OrganizationID = [], cl_AppID = [], cl_WorkloadID = [], cl_SPIFFEID = [], cl_Scope = [],
     cl_OriginalIDP = [], cl_UpstreamSubject = [], cl_Email = [], cl_Name = [], cl_PreferredUser = [],
     cl_Roles = [], cl_Groups = [], cl_IssuedAt = 0, cl_NotBefore = 0, cl_ExpiresAt = 0, cl_Nonce = []\<rparr>"

subsection \<open>Field tables (the struct tags)\<close>

definition user_fields :: "AdminUser field list" where
  "user_fields =
    [str_field ''id'' user_ID user_ID_update,
     str_field ''organization_id'' user_OrganizationID user_OrganizationID_update,
     str_field ''email'' user_Email user_Email_update,
     str_field ''name'' user_Name user_Name_update,
     strs_field ''role_ids'' user_RoleIDs user_RoleIDs_update,
     strs_field ''team_ids'' user_TeamIDs user_TeamIDs_update,
     bool_field ''active'' user_Active user_Active_update,
     str_omit ''status'' user_Status user_Status_update,
     str_omit ''invited_by'' user_InvitedBy user_InvitedBy_update,
     time_ptr_omit ''invited_at'' user_InvitedAt user_InvitedAt_update,
     time_field ''created_at'' user_CreatedAt user_CreatedAt_update,
     time_field ''updated_at'' user_UpdatedAt user_UpdatedAt_update,
     str_field ''version'' user_Version user_Version_update]"

definition org_fields :: "Organization field list" where
  "org_fields =
    [str_field ''id'' org_ID org_ID_update,
     str_field ''name'' org_Name org_Name_update,
     str_field ''domain'' org_Domain org_Domain_update,
     ptr_omit ''initial_user'' user_fields zero_user org_InitialUser org_InitialUser_update,
     time_field ''created_at'' org_CreatedAt org_CreatedAt_update,
     time_field ''updated_at'' org_UpdatedAt org_UpdatedAt_update,
     str_field ''version'' org_Version org_Version_update]"

definition app_fields :: "Application field list" where
  "app_fields =
    [str_field ''id'' app_ID app_ID_update,
     str_field ''organization_id'' app_OrganizationID app_OrganizationID_update,
     str_field ''name'' app_Name app_Name_update,
     str_field ''client_id'' app_ClientID app_ClientID_update,
     str_field ''client_secret'' app_ClientSecret app_ClientSecret_update,
     strs_field ''redirect_uris'' app_RedirectURIs app_RedirectURIs_update,
     strs_field ''allowed_idps'' app_AllowedIDPs app_AllowedIDPs_update,
     strs_field ''scopes'' app_Scopes app_Scopes_update,
     bool_field ''public'' app_Public app_Public_update,
     strs_omit ''allowed_origins'' app_AllowedOrigins app_AllowedOrigins_update,
     strs_omit ''audiences'' app_Audiences app_Audiences_update,
     time_field ''created_at'' app_CreatedAt app_CreatedAt_update,
     time_field ''updated_at'' app_UpdatedAt app_UpdatedAt_update,
     str_field ''version'' app_Version app_Version_update]"

definition mapping_fields :: "ClaimMapping field list" where
  "mapping_fields =
    [str_omit ''subject'' cm_Subject cm_Subject_update,
     str_omit ''email'' cm_Email cm_Email_update,
     str_omit ''email_verified'' cm_EmailVerified cm_EmailVerified_update,
     str_omit ''name'' cm_Name cm_Name_update,
     str_omit ''username'' cm_Username cm_Username_update,
     str_omit ''groups'' cm_Groups cm_Groups_update,
     str_omit ''roles'' cm_Roles cm_Roles_update]"

definition idp_fields :: "IdentityProvider field list" where
  "idp_fields =
    [str_field ''id'' idp_ID idp_ID_update,
     str_field ''organization_id'' idp_OrganizationID idp_OrganizationID_update,
     str_field ''name'' idp_Name idp_Name_update,
     str_field ''type'' idp_Type idp_Type_update,
     str_omit ''issuer_url'' idp_IssuerURL idp_IssuerURL_update,
     str_field ''client_id'' idp_ClientID idp_ClientID_update,
     str_field ''client_secret'' idp_ClientSecret idp_ClientSecret_update,
     str_field ''authorize_url'' idp_AuthorizeURL idp_AuthorizeURL_update,
     str_field ''token_url'' idp_TokenURL idp_TokenURL_update,
     str_omit ''user_info_url'' idp_UserInfoURL idp_UserInfoURL_update,
     str_omit ''emails_url'' idp_EmailsURL idp_EmailsURL_update,
     str_omit ''preset'' idp_Preset idp_Preset_update,
     obj_field ''claim_mapping'' mapping_fields idp_ClaimMapping idp_ClaimMapping_update,
     smap_omit ''extra_auth_params'' idp_ExtraAuthParams idp_ExtraAuthParams_update,
     strs_field ''scopes'' idp_Scopes idp_Scopes_update,
     bool_field ''enabled'' idp_Enabled idp_Enabled_update,
     time_field ''created_at'' idp_CreatedAt idp_CreatedAt_update,
     time_field ''updated_at'' idp_UpdatedAt idp_UpdatedAt_update,
     str_field ''version'' idp_Version idp_Version_update]"

definition key_fields :: "SigningKey field list" where
  "key_fields =
    [str_field ''id'' key_ID key_ID_update,
     str_field ''organization_id'' key_OrganizationID key_OrganizationID_update,
     str_omit ''app_id'' key_AppID key_AppID_update,
     str_field ''algorithm'' key_Algorithm key_Algorithm_update,
     str_omit ''private_key_pem'' key_PrivateKeyPEM key_PrivateKeyPEM_update,
     str_field ''public_key_pem'' key_PublicKeyPEM key_PublicKeyPEM_update,
     str_field ''kid'' key_KID key_KID_update,
     bool_field ''active'' key_Active key_Active_update,
     time_field ''created_at'' key_CreatedAt key_CreatedAt_update,
     str_field ''version'' key_Version key_Version_update]"

definition team_fields :: "Team field list" where
  "team_fields =
    [str_field ''id'' team_ID team_ID_update,
     str_field ''organization_id'' team_OrganizationID team_OrganizationID_update,
     str_field ''name'' team_Name team_Name_update,
     str_field ''description'' team_Description team_Description_update,
     strs_field ''role_ids'' team_RoleIDs team_RoleIDs_update,
     time_field ''created_at'' team_CreatedAt team_CreatedAt_update,
     time_field ''updated_at'' team_UpdatedAt team_UpdatedAt_update,
     str_field ''version'' team_Version team_Version_update]"

definition role_fields :: "Role field list" where
  "role_fields =
    [str_field ''id'' role_ID role_ID_update,
     str_field ''organization_id'' role_OrganizationID role_OrganizationID_update,
     str_field ''name'' role_Name role_Name_update,
     str_field ''description'' role_Description role_Description_update,
     strs_field ''permissions'' role_Permissions role_Permissions_update,
     time_field ''created_at'' role_CreatedAt role_CreatedAt_update,
     time_field ''updated_at'' role_UpdatedAt role_UpdatedAt_update,
     str_field ''version'' role_Version role_Version_update]"

definition workload_fields :: "SPIFFEWorkload field list" where
  "workload_fields =
    [str_field ''id'' wl_ID wl_ID_update,
     str_field ''organization_id'' wl_OrganizationID wl_OrganizationID_update,
     str_field ''spiffe_id'' wl_SPIFFEID wl_SPIFFEID_update,
     str_field ''name'' wl_Name wl_Name_update,
     str_omit ''cert_fingerprint'' wl_CertFingerprint wl_CertFingerprint_update,
     str_omit ''client_cert_pem'' wl_ClientCertPEM wl_ClientCertPEM_update,
     strs_field ''allowed_scopes'' wl_AllowedScopes wl_AllowedScopes_update,
     strs_field ''allowed_audiences'' wl_AllowedAudiences wl_AllowedAudiences_update,
     bool_field ''active'' wl_Active wl_Active_update,
     time_field ''created_at'' wl_CreatedAt wl_CreatedAt_update,
     time_field ''updated_at'' wl_UpdatedAt wl_UpdatedAt_update,
     str_field ''version'' wl_Version wl_Version_update]"

definition aud_field :: "AuthClaims field" where
  "aud_field = Field ''aud'' (lens_set cl_Audience cl_Audience_update Audience_UnmarshalJSON)
     (\<lambda>r. Some (Audience_MarshalJSON (cl_Audience r)))"

definition claims_fields :: "AuthClaims field list" where
  "claims_fields =
    [str_field ''sub'' cl_Subject cl_Subject_update,
     str_field ''iss'' cl_Issuer cl_Issuer_update,
     aud_field,
     str_omit ''token_use'' cl_TokenUse cl_TokenUse_update,
     str_omit ''jti'' cl_JTI cl_JTI_update,
     str_field ''organization_id'' cl_OrganizationID cl_OrganizationID_update,
     str_omit ''app_id'' cl_AppID cl_AppID_update,
     str_omit ''workload_id'' cl_WorkloadID cl_WorkloadID_update,
     str_omit ''spiffe_id'' cl_SPIFFEID cl_SPIFFEID_update,
     str_omit ''scope'' cl_Scope cl_Scope_update,
     str_omit ''original_idp'' cl_OriginalIDP cl_OriginalIDP_update,
     str_omit ''upstream_subject'' cl_UpstreamSubject cl_UpstreamSubject_update,
     str_omit ''email'' cl_Email cl_Email_update,
     str_omit ''name'' cl_Name cl_Name_update,
     str_omit ''preferred_username'' cl_PreferredUser cl_PreferredUser_update,
     strs_omit ''roles'' cl_Roles cl_Roles_update,
     strs_omit ''groups'' cl_Groups cl_Groups_update,
     int_field ''iat'' cl_IssuedAt cl_IssuedAt_update,
     int_omit ''nbf'' cl_NotBefore cl_NotBefore_update,
     int_field ''exp'' cl_ExpiresAt cl_ExpiresAt_update,
     str_omit ''nonce'' cl_Nonce cl_Nonce_update]"

subsection \<open>Methods\<close>

definition IsPublicClient :: "Application option \<Rightarrow> bool" where
  "IsPublicClient a =
     (case a of None \<Rightarrow> False | Some a \<Rightarrow> app_Public a \<or> app_ClientSecret a = [])"

definition HasRedirectURI :: "Application option \<Rightarrow> string \<Rightarrow> bool" where
  "HasRedirectURI a uri =
     (case a of
        None \<Rightarrow> False
      | Some a \<Rightarrow> if uri = [] then False else list_ex (\<lambda>registered. registered = uri) (app_RedirectURIs a))"

definition HasAllowedOrigin :: "Application option \<Rightarrow> string \<Rightarrow> bool" where
  "HasAllowedOrigin a origin =
     (case a of
        None \<Rightarrow> False
      | Some a \<Rightarrow> if origin = [] then False else list_ex (\<lambda>allowed. allowed = origin) (app_AllowedOrigins a))"

definition TokenAudiences :: "Application option \<Rightarrow> Audience" where
  "TokenAudiences a =
     (case a of
        None \<Rightarrow> []
      | Some a \<Rightarrow>
          if app_Audiences a \<noteq> [] then app_Audiences a
          else if app_ClientID a \<noteq> [] then [app_ClientID a]
          else [])"

text \<open>The loop of \<^verbatim>\<open>ActiveSigningKey\<close>; \<open>None\<close> in the list is a nil pointer.\<close>

fun ActiveSigningKey_loop :: "SigningKey option list \<Rightarrow> SigningKey option \<Rightarrow> SigningKey option" where
  "ActiveSigningKey_loop [] chosen = chosen"
| "ActiveSigningKey_loop (None # ks) chosen = ActiveSigningKey_loop ks chosen"
| "ActiveSigningKey_loop (Some k # ks) chosen =
     ActiveSigningKey_loop ks
       (if \<not> key_Active k \<or> key_PrivateKeyPEM k = [] then chosen
        else (case chosen of
                None \<Rightarrow> Some k
              | Some c \<Rightarrow> if After (key_CreatedAt k) (key_CreatedAt c) then Some k else chosen))"

definition ActiveSigningKey :: "SigningKey option list \<Rightarrow> SigningKey option" where
  "ActiveSigningKey keys = ActiveSigningKey_loop keys None"

subsection \<open>Facts about the methods\<close>

lemma HasRedirectURI_iff:
  "HasRedirectURI (Some a) uri \<longleftrightarrow> uri \<noteq> [] \<and> uri \<in> set (app_RedirectURIs a)"
  by (auto simp: HasRedirectURI_def list_ex_mem)

lemma HasAllowedOrigin_iff:
  "HasAllowedOrigin (Some a) o' \<longleftrightarrow> o' \<noteq> [] \<and> o' \<in> set (app_AllowedOrigins a)"
  by (auto simp: HasAllowedOrigin_def list_ex_mem)

definition can_sign :: "SigningKey \<Rightarrow> bool" where
  "can_sign k \<longleftrightarrow> key_Active k \<and> key_PrivateKeyPEM k \<noteq> []"

definition newest :: "SigningKey \<Rightarrow> SigningKey set \<Rightarrow> bool" where
  "newest k ks \<longleftrightarrow> k \<in> ks \<and> (\<forall>k' \<in> ks. key_CreatedAt k' \<le> key_CreatedAt k)"

lemma ActiveSigningKey_loop_newest:
  "(case ActiveSigningKey_loop ks chosen of
      None \<Rightarrow> chosen = None \<and> {k. Some k \<in> set ks \<and> can_sign k} = {}
    | Some k \<Rightarrow> newest k (set_option chosen \<union> {k. Some k \<in> set ks \<and> can_sign k}))"
proof (induction ks chosen rule: ActiveSigningKey_loop.induct)
  case (1 chosen)
  then show ?case by (auto simp: newest_def split: option.splits)
next
  case (2 ks chosen)
  have "{k. Some k \<in> set (None # ks) \<and> can_sign k} = {k. Some k \<in> set ks \<and> can_sign k}" by auto
  with 2 show ?case by (simp only: ActiveSigningKey_loop.simps)
next
  case (3 k ks chosen)
  let ?c = "if \<not> key_Active k \<or> key_PrivateKeyPEM k = [] then chosen
    else (case chosen of None \<Rightarrow> Some k
          | Some c \<Rightarrow> if After (key_CreatedAt k) (key_CreatedAt c) then Some k else chosen)"
  have loop: "ActiveSigningKey_loop (Some k # ks) chosen = ActiveSigningKey_loop ks ?c" by simp
  show ?case
  proof (cases "ActiveSigningKey_loop ks ?c")
    case None
    with 3 have "?c = None" and rest: "{k. Some k \<in> set ks \<and> can_sign k} = {}" by simp_all
    then have "chosen = None" and "\<not> can_sign k"
      by (auto simp: can_sign_def split: if_splits option.splits)
    with rest None show ?thesis unfolding loop by auto
  next
    case (Some m)
    with 3 have m: "newest m (set_option ?c \<union> {k. Some k \<in> set ks \<and> can_sign k})" by simp
    have sub: "set_option ?c \<subseteq> set_option chosen \<union> {k'. k' = k \<and> can_sign k}"
      and dom: "\<forall>k' \<in> set_option chosen \<union> {k'. k' = k \<and> can_sign k}.
          \<exists>c \<in> set_option ?c. key_CreatedAt k' \<le> key_CreatedAt c"
      by (auto simp: can_sign_def After_def split: option.splits)
    from m sub dom
    have "newest m (set_option chosen \<union> {k'. Some k' \<in> set (Some k # ks) \<and> can_sign k'})"
      unfolding newest_def by (auto intro: order_trans)
    with Some show ?thesis unfolding loop by simp
  qed
qed

lemma ActiveSigningKey_None:
  "ActiveSigningKey ks = None \<longleftrightarrow> (\<forall>k. Some k \<in> set ks \<longrightarrow> \<not> can_sign k)"
  using ActiveSigningKey_loop_newest [where ks = ks and chosen = None]
  by (auto simp: ActiveSigningKey_def newest_def split: option.splits)

lemma ActiveSigningKey_Some:
  "ActiveSigningKey ks = Some k \<Longrightarrow> newest k {k. Some k \<in> set ks \<and> can_sign k}"
  using ActiveSigningKey_loop_newest [where ks = ks and chosen = None]
  by (auto simp: ActiveSigningKey_def split: option.splits)

lemma ActiveSigningKey_can_sign:
  "ActiveSigningKey ks = Some k \<Longrightarrow> Some k \<in> set ks \<and> can_sign k"
  by (drule ActiveSigningKey_Some) (simp add: newest_def)

subsection \<open>Round trips of the records\<close>

lemma copies_aud [simp]:
  "cl_Audience r \<noteq> [[]] \<Longrightarrow> copies aud_field r s s' \<longleftrightarrow> s' = s\<lparr>cl_Audience := cl_Audience r\<rparr>"
  by (auto simp: copies_def aud_field_def lens_set_def Audience_roundtrip)

lemma fname_aud [simp]: "fname aud_field = ''aud''"
  by (simp add: aud_field_def)

lemma user_roundtrip: "decode_into user_fields (marshal user_fields u) zero_user = (True, u)"
  by (rule decode_marshal) (simp_all add: user_fields_def zero_user_def)

lemma app_roundtrip: "unmarshal app_fields zero_app (Doc (marshal app_fields a)) = Some a"
  by (rule unmarshal_marshal) (simp_all add: app_fields_def zero_app_def)

lemma org_roundtrip: "unmarshal org_fields zero_org (Doc (marshal org_fields a)) = Some a"
  by (rule unmarshal_marshal) (simp_all add: org_fields_def zero_org_def user_roundtrip)

lemma mapping_roundtrip:
  "decode_into mapping_fields (marshal mapping_fields m) zero_mapping = (True, m)"
  by (rule decode_marshal) (simp_all add: mapping_fields_def zero_mapping_def)

lemma idp_roundtrip:
  "distinct (map fst (idp_ExtraAuthParams a)) \<Longrightarrow>
     unmarshal idp_fields zero_idp (Doc (marshal idp_fields a)) = Some a"
  by (rule unmarshal_marshal) (simp_all add: idp_fields_def zero_idp_def mapping_roundtrip)

lemma key_roundtrip: "unmarshal key_fields zero_key (Doc (marshal key_fields a)) = Some a"
  by (rule unmarshal_marshal) (simp_all add: key_fields_def zero_key_def)

lemma team_roundtrip: "unmarshal team_fields zero_team (Doc (marshal team_fields a)) = Some a"
  by (rule unmarshal_marshal) (simp_all add: team_fields_def zero_team_def)

lemma role_roundtrip: "unmarshal role_fields zero_role (Doc (marshal role_fields a)) = Some a"
  by (rule unmarshal_marshal) (simp_all add: role_fields_def zero_role_def)

lemma workload_roundtrip:
  "unmarshal workload_fields zero_workload (Doc (marshal workload_fields a)) = Some a"
  by (rule unmarshal_marshal) (simp_all add: workload_fields_def zero_workload_def)

definition claims_ok :: "AuthClaims \<Rightarrow> bool" where
  "claims_ok c \<longleftrightarrow> cl_Audience c \<noteq> [[]] \<and> int64 (cl_IssuedAt c) \<and> int64 (cl_NotBefore c) \<and> int64 (cl_ExpiresAt c)"

lemma claims_roundtrip:
  "claims_ok c \<Longrightarrow> decode_into claims_fields (marshal claims_fields c) zero_claims = (True, c)"
  by (rule decode_marshal) (simp_all add: claims_fields_def zero_claims_def claims_ok_def)

end
