(* ===== verification/Crypto.thy ===== *)
theory Crypto
  imports JsonText Sha256 Models
begin

text \<open>
  \<^verbatim>\<open>pkg/crypto\<close>: random handles, PKCE challenges, RSA signing keys and JWTs. PEM, ASN.1 and the RSA
  operations are the record \<open>rsa_lib\<close>, a parameter: a decoded private key is opaque, a public key is a
  modulus and an exponent. SHA-256, base64 and JSON text are defined, so a token is the actual string.
  \<open>now_at i\<close> is the reading of the clock when the \<open>i\<close>-th candidate key is tried.
\<close>

datatype cerr =
    ErrInvalidToken | ErrTokenExpired | ErrKeyNotFound | ErrUnsupportedAlgo
  | ErrIssuerMismatch | ErrAudienceMismatch | ErrTokenUseMismatch | ErrTokenNotYetValid
  | NoRandomness | KeyGenFailed | MarshalPublicFailed
  | PrivatePEMInvalid | PrivateKeyInvalid | SignFailed
  | PublicPEMInvalid | PublicKeyInvalid | PublicKeyNotRSA

datatype pubkey = RSAPublic nat nat | OtherPublic

record rsa_lib =
  pem_decode :: "string \<Rightarrow> string option"
  parse_pkcs1 :: "string \<Rightarrow> string option"
  parse_pkix :: "string \<Rightarrow> pubkey option"
  rsa_sign :: "string \<Rightarrow> string \<Rightarrow> string option"
  rsa_verify :: "nat \<Rightarrow> nat \<Rightarrow> string \<Rightarrow> string \<Rightarrow> bool"

text \<open>What \<^verbatim>\<open>rsa.GenerateKey\<close> and the marshalling of its result give: private PEM, public PEM, and the
  DER bytes of the public key.\<close>

datatype genkey = GenFailed | GenNoPublic | GenKey string string string

subsection \<open>random.go\<close>

definition tokenEntropyBytes :: nat where
  "tokenEntropyBytes = 32"

text \<open>\<open>draw\<close> is what \<^verbatim>\<open>rand.Read\<close> put into the 32-byte buffer, \<open>None\<close> its error.\<close>

definition SecureToken :: "string option \<Rightarrow> string \<Rightarrow> cerr + string" where
  "SecureToken draw prefx =
     (case draw of None \<Rightarrow> Inl NoRandomness | Some b \<Rightarrow> Inr (prefx @ EncodeToString b))"

definition SecureCompare :: "string \<Rightarrow> string \<Rightarrow> bool" where
  "SecureCompare a b \<longleftrightarrow> a = b"

definition S256Challenge :: "string \<Rightarrow> string" where
  "S256Challenge verifier = EncodeToString (Sum256 verifier)"

definition Fingerprint :: "string \<Rightarrow> string" where
  "Fingerprint secret = hex_encode (take 8 (Sum256 secret))"

lemma SecureToken_Inr: "SecureToken draw p = Inr t \<longleftrightarrow> (\<exists>b. draw = Some b \<and> t = p @ EncodeToString b)"
  by (auto simp: SecureToken_def split: option.splits)

lemma SecureToken_inject:
  "SecureToken (Some a) p = Inr t \<Longrightarrow> SecureToken (Some b) p = Inr t \<Longrightarrow> a = b"
  by (auto simp: SecureToken_def)

subsection \<open>Keys\<close>

definition GenerateRSAKeyPair :: "genkey \<Rightarrow> gotime \<Rightarrow> string \<Rightarrow> string \<Rightarrow> cerr + SigningKey" where
  "GenerateRSAKeyPair g now orgID appID =
     (case g of
        GenFailed \<Rightarrow> Inl KeyGenFailed
      | GenNoPublic \<Rightarrow> Inl MarshalPublicFailed
      | GenKey privPEM pubPEM pubBytes \<Rightarrow>
          (let kid = hex_encode (take 12 (Sum256 pubBytes)) in
           Inr \<lparr>key_ID = ''key_'' @ kid, key_OrganizationID = orgID, key_AppID = appID,
                key_Algorithm = ''RS256'', key_PrivateKeyPEM = privPEM, key_PublicKeyPEM = pubPEM,
                key_KID = kid, key_Active = True, key_CreatedAt = now, key_Version = ''1''\<rparr>))"

text \<open>Big-endian bytes of a number without leading zeros (\<^verbatim>\<open>big.Int.Bytes\<close>).\<close>

fun nat_bytes :: "nat \<Rightarrow> nat list" where
  "nat_bytes n = (if n = 0 then [] else nat_bytes (n div 256) @ [n mod 256])"

declare nat_bytes.simps [simp del]

definition BigBytes :: "nat \<Rightarrow> string" where
  "BigBytes n = of_bytes (nat_bytes n)"

record JWK =
  jwk_Kty :: string
  jwk_Use :: string
  jwk_Alg :: string
  jwk_Kid :: string
  jwk_N :: string
  jwk_E :: string

definition jwk_fields :: "JWK field list" where
  "jwk_fields =
    [str_field ''kty'' jwk_Kty jwk_Kty_update, str_field ''use'' jwk_Use jwk_Use_update,
     str_field ''alg'' jwk_Alg jwk_Alg_update, str_field ''kid'' jwk_Kid jwk_Kid_update,
     str_field ''n'' jwk_N jwk_N_update, str_field ''e'' jwk_E jwk_E_update]"

text \<open>The loop of \<^verbatim>\<open>BuildJWKS\<close>, and its document (a nil slice is written \<^verbatim>\<open>null\<close>).\<close>

definition jwk_of :: "rsa_lib \<Rightarrow> SigningKey \<Rightarrow> JWK option" where
  "jwk_of lib k =
     (if \<not> key_Active k \<or> key_Algorithm k \<noteq> ''RS256'' then None
      else (case pem_decode lib (key_PublicKeyPEM k) of
          None \<Rightarrow> None
        | Some block \<Rightarrow>
            (case parse_pkix lib block of
               Some (RSAPublic n e) \<Rightarrow>
                 Some \<lparr>jwk_Kty = ''RSA'', jwk_Use = ''sig'', jwk_Alg = ''RS256'', jwk_Kid = key_KID k,
                       jwk_N = EncodeToString (BigBytes n), jwk_E = EncodeToString (BigBytes e)\<rparr>
             | _ \<Rightarrow> None)))"

fun jwks_loop :: "rsa_lib \<Rightarrow> SigningKey list \<Rightarrow> JWK list" where
  "jwks_loop lib [] = []"
| "jwks_loop lib (k # ks) =
     (case jwk_of lib k of None \<Rightarrow> jwks_loop lib ks | Some j \<Rightarrow> j # jwks_loop lib ks)"

definition BuildJWKS :: "rsa_lib \<Rightarrow> SigningKey list \<Rightarrow> jval" where
  "BuildJWKS lib keys =
     (let js = jwks_loop lib keys in
      JObj [(''keys'', if js = [] then JNull else JArr (map (marshal jwk_fields) js))])"

lemma jwks_loop_set: "j \<in> set (jwks_loop lib ks) \<longleftrightarrow> (\<exists>k \<in> set ks. jwk_of lib k = Some j)"
  by (induction ks) (auto split: option.splits)

subsection \<open>Signing\<close>

record JWTHeader =
  hdr_Alg :: string
  hdr_Typ :: string
  hdr_Kid :: string

definition zero_header :: JWTHeader where
  "zero_header = \<lparr>hdr_Alg = [], hdr_Typ = [], hdr_Kid = []\<rparr>"

definition header_fields :: "JWTHeader field list" where
  "header_fields =
    [str_field ''alg'' hdr_Alg hdr_Alg_update, str_field ''typ'' hdr_Typ hdr_Typ_update,
     str_field ''kid'' hdr_Kid hdr_Kid_update]"

text \<open>Headers and claims hold no instants, so how these are spelled does not matter.\<close>

definition json_text :: "jval \<Rightarrow> string" where
  "json_text j = print_json (\<lambda>_. []) j"

definition unmarshal_text :: "'r field list \<Rightarrow> 'r \<Rightarrow> string \<Rightarrow> 'r option" where
  "unmarshal_text fs zero s =
     (case parse_json s of None \<Rightarrow> None | Some j \<Rightarrow> unmarshal fs zero (Doc j))"

definition SignJWT :: "rsa_lib \<Rightarrow> AuthClaims \<Rightarrow> string \<Rightarrow> string \<Rightarrow> cerr + string" where
  "SignJWT lib claims privateKeyPEM kid =
     (let header = \<lparr>hdr_Alg = ''RS256'', hdr_Typ = ''JWT'', hdr_Kid = kid\<rparr>;
          encodedHeader = EncodeToString (json_text (marshal header_fields header));
          encodedClaims = EncodeToString (json_text (marshal claims_fields claims));
          signingInput = encodedHeader @ ''.'' @ encodedClaims in
      case pem_decode lib privateKeyPEM of
        None \<Rightarrow> Inl PrivatePEMInvalid
      | Some block \<Rightarrow>
          (case parse_pkcs1 lib block of
             None \<Rightarrow> Inl PrivateKeyInvalid
           | Some privateKey \<Rightarrow>
               (case rsa_sign lib privateKey (Sum256 signingInput) of
                  None \<Rightarrow> Inl SignFailed
                | Some signature \<Rightarrow> Inr (signingInput @ ''.'' @ EncodeToString signature))))"

subsection \<open>Verification\<close>

record VerifyOptions =
  vo_ExpectedIssuer :: string
  vo_ExpectedAudience :: string
  vo_ExpectedTokenUse :: string
  vo_Leeway :: duration

definition no_options :: VerifyOptions where
  "no_options = \<lparr>vo_ExpectedIssuer = [], vo_ExpectedAudience = [], vo_ExpectedTokenUse = [], vo_Leeway = 0\<rparr>"

definition DefaultLeeway :: duration where
  "DefaultLeeway = 60 * Second"

definition validateClaims :: "gotime \<Rightarrow> AuthClaims \<Rightarrow> VerifyOptions \<Rightarrow> cerr option" where
  "validateClaims now claims opts =
     (let leeway = (if vo_Leeway opts = 0 then DefaultLeeway else vo_Leeway opts) in
      if cl_ExpiresAt claims > 0 \<and> Unix (now + - leeway) > cl_ExpiresAt claims then Some ErrTokenExpired
      else if cl_NotBefore claims > 0 \<and> Unix (now + leeway) < cl_NotBefore claims then Some ErrTokenNotYetValid
      else if vo_ExpectedIssuer opts \<noteq> [] \<and> cl_Issuer claims \<noteq> vo_ExpectedIssuer opts then Some ErrIssuerMismatch
      else if vo_ExpectedAudience opts \<noteq> [] \<and> \<not> Audience_Contains (cl_Audience claims) (vo_ExpectedAudience opts)
        then Some ErrAudienceMismatch
      else if vo_ExpectedTokenUse opts \<noteq> [] \<and> cl_TokenUse claims \<noteq> vo_ExpectedTokenUse opts
        then Some ErrTokenUseMismatch
      else None)"

text \<open>\<open>p0\<close>, \<open>p1\<close>, \<open>p2\<close> are the three parts of the token.\<close>

definition verifyAgainstKey ::
  "rsa_lib \<Rightarrow> gotime \<Rightarrow> string \<Rightarrow> string \<Rightarrow> string \<Rightarrow> SigningKey \<Rightarrow> VerifyOptions \<Rightarrow> cerr + AuthClaims" where
  "verifyAgainstKey lib now p0 p1 p2 key opts =
     (case pem_decode lib (key_PublicKeyPEM key) of
        None \<Rightarrow> Inl PublicPEMInvalid
      | Some block \<Rightarrow>
          (case parse_pkix lib block of
             None \<Rightarrow> Inl PublicKeyInvalid
           | Some OtherPublic \<Rightarrow> Inl PublicKeyNotRSA
           | Some (RSAPublic n e) \<Rightarrow>
               (case DecodeString p2 of
                  None \<Rightarrow> Inl ErrInvalidToken
                | Some signatureBytes \<Rightarrow>
                    if \<not> rsa_verify lib n e (Sum256 (p0 @ ''.'' @ p1)) signatureBytes then Inl ErrInvalidToken
                    else (case DecodeString p1 of
                        None \<Rightarrow> Inl ErrInvalidToken
                      | Some claimsBytes \<Rightarrow>
                          (case unmarshal_text claims_fields zero_claims claimsBytes of
                             None \<Rightarrow> Inl ErrInvalidToken
                           | Some claims \<Rightarrow>
                               (case validateClaims now claims opts of
                                  Some err \<Rightarrow> Inl err
                                | None \<Rightarrow> Inr claims))))))"

text \<open>The key whose id is the token's \<^verbatim>\<open>kid\<close>: the first active one.\<close>

fun matchingKey :: "string \<Rightarrow> SigningKey option list \<Rightarrow> SigningKey option" where
  "matchingKey kid [] = None"
| "matchingKey kid (None # ks) = matchingKey kid ks"
| "matchingKey kid (Some k # ks) =
     (if \<not> key_Active k then matchingKey kid ks
      else if kid \<noteq> [] \<and> (key_KID k = kid \<or> key_ID k = kid) then Some k
      else matchingKey kid ks)"

text \<open>A token without a \<^verbatim>\<open>kid\<close>: every active key is tried in turn.\<close>

fun try_keys ::
  "rsa_lib \<Rightarrow> (nat \<Rightarrow> gotime) \<Rightarrow> nat \<Rightarrow> string \<Rightarrow> string \<Rightarrow> string \<Rightarrow> SigningKey option list \<Rightarrow> VerifyOptions
     \<Rightarrow> cerr + AuthClaims" where
  "try_keys lib now_at i p0 p1 p2 [] opts = Inl ErrKeyNotFound"
| "try_keys lib now_at i p0 p1 p2 (None # ks) opts = try_keys lib now_at (Suc i) p0 p1 p2 ks opts"
| "try_keys lib now_at i p0 p1 p2 (Some k # ks) opts =
     (if \<not> key_Active k then try_keys lib now_at (Suc i) p0 p1 p2 ks opts
      else (case verifyAgainstKey lib (now_at i) p0 p1 p2 k opts of
          Inr claims \<Rightarrow> Inr claims
        | Inl err \<Rightarrow> try_keys lib now_at (Suc i) p0 p1 p2 ks opts))"

definition VerifyJWTWithOptions ::
  "rsa_lib \<Rightarrow> (nat \<Rightarrow> gotime) \<Rightarrow> string \<Rightarrow> SigningKey option list \<Rightarrow> VerifyOptions \<Rightarrow> cerr + AuthClaims" where
  "VerifyJWTWithOptions lib now_at tokenString keys opts =
     (case Split tokenString (CHR ''.'') of
        [p0, p1, p2] \<Rightarrow>
          (case DecodeString p0 of
             None \<Rightarrow> Inl ErrInvalidToken
           | Some headerBytes \<Rightarrow>
               (case unmarshal_text header_fields zero_header headerBytes of
                  None \<Rightarrow> Inl ErrInvalidToken
                | Some header \<Rightarrow>
                    if hdr_Alg header \<noteq> ''RS256'' then Inl ErrUnsupportedAlgo
                    else (case matchingKey (hdr_Kid header) keys of
                        None \<Rightarrow>
                          if hdr_Kid header = [] then try_keys lib now_at 0 p0 p1 p2 keys opts
                          else Inl ErrKeyNotFound
                      | Some k \<Rightarrow> verifyAgainstKey lib (now_at 0) p0 p1 p2 k opts)))
      | _ \<Rightarrow> Inl ErrInvalidToken)"

definition VerifyJWT ::
  "rsa_lib \<Rightarrow> (nat \<Rightarrow> gotime) \<Rightarrow> string \<Rightarrow> SigningKey option list \<Rightarrow> cerr + AuthClaims" where
  "VerifyJWT lib now_at tokenString keys = VerifyJWTWithOptions lib now_at tokenString keys no_options"

subsection \<open>What verification accepts\<close>

lemma validateClaims_None:
  "validateClaims now c opts = None \<longleftrightarrow>
     (let leeway = (if vo_Leeway opts = 0 then DefaultLeeway else vo_Leeway opts) in
        (cl_ExpiresAt c > 0 \<longrightarrow> Unix (now - leeway) \<le> cl_ExpiresAt c) \<and>
        (cl_NotBefore c > 0 \<longrightarrow> cl_NotBefore c \<le> Unix (now + leeway))) \<and>
     (vo_ExpectedIssuer opts \<noteq> [] \<longrightarrow> cl_Issuer c = vo_ExpectedIssuer opts) \<and>
     (vo_ExpectedAudience opts \<noteq> [] \<longrightarrow> vo_ExpectedAudience opts \<in> set (cl_Audience c)) \<and>
     (vo_ExpectedTokenUse opts \<noteq> [] \<longrightarrow> cl_TokenUse c = vo_ExpectedTokenUse opts)"
  by (auto simp: validateClaims_def Let_def Audience_Contains_iff split: if_splits)

text \<open>The signature part verifies under this key's public half.\<close>

definition signed_by :: "rsa_lib \<Rightarrow> SigningKey \<Rightarrow> string \<Rightarrow> string \<Rightarrow> string \<Rightarrow> bool" where
  "signed_by lib k p0 p1 p2 \<longleftrightarrow>
     (\<exists>block n e sig. pem_decode lib (key_PublicKeyPEM k) = Some block \<and>
        parse_pkix lib block = Some (RSAPublic n e) \<and> DecodeString p2 = Some sig \<and>
        rsa_verify lib n e (Sum256 (p0 @ ''.'' @ p1)) sig)"

definition carries :: "string \<Rightarrow> AuthClaims \<Rightarrow> bool" where
  "carries p1 c \<longleftrightarrow>
     (\<exists>bytes. DecodeString p1 = Some bytes \<and> unmarshal_text claims_fields zero_claims bytes = Some c)"

definition has_header :: "string \<Rightarrow> JWTHeader \<Rightarrow> bool" where
  "has_header p0 h \<longleftrightarrow>
     (\<exists>bytes. DecodeString p0 = Some bytes \<and> unmarshal_text header_fields zero_header bytes = Some h)"

lemma verifyAgainstKey_Inr:
  "verifyAgainstKey lib now p0 p1 p2 k opts = Inr c \<longleftrightarrow>
     signed_by lib k p0 p1 p2 \<and> carries p1 c \<and> validateClaims now c opts = None"
  by (auto simp: verifyAgainstKey_def signed_by_def carries_def split: option.splits pubkey.splits if_splits)

lemma matchingKey_Some:
  "matchingKey kid ks = Some k \<Longrightarrow>
     Some k \<in> set ks \<and> key_Active k \<and> kid \<noteq> [] \<and> (key_KID k = kid \<or> key_ID k = kid)"
  by (induction kid ks rule: matchingKey.induct) (auto split: if_splits)

lemma try_keys_Inr:
  "try_keys lib now_at i p0 p1 p2 ks opts = Inr c \<Longrightarrow>
     \<exists>k j. Some k \<in> set ks \<and> key_Active k \<and> verifyAgainstKey lib (now_at j) p0 p1 p2 k opts = Inr c"
  by (induction lib now_at i p0 p1 p2 ks opts rule: try_keys.induct)
    (fastforce split: if_splits sum.splits)+

lemma Split_three: "Split tok CHR ''.'' = [p0, p1, p2] \<Longrightarrow> tok = p0 @ ''.'' @ p1 @ ''.'' @ p2"
  using Join_Split [of tok "CHR ''.''"] by simp

lemma three_parts:
  "(case ps of [p0, p1, p2] \<Rightarrow> f p0 p1 p2 | _ \<Rightarrow> Inl e) = Inr c \<longleftrightarrow>
     (\<exists>p0 p1 p2. ps = [p0, p1, p2] \<and> f p0 p1 p2 = Inr c)"
  by (auto split: list.splits)

lemma VerifyJWT_Inr:
  assumes "VerifyJWTWithOptions lib now_at tok keys opts = Inr c"
  obtains p0 p1 p2 h k j where "tok = p0 @ ''.'' @ p1 @ ''.'' @ p2" "Split tok CHR ''.'' = [p0, p1, p2]"
    and "has_header p0 h" "hdr_Alg h = ''RS256''"
    and "Some k \<in> set keys" "key_Active k"
    and "hdr_Kid h = [] \<or> key_KID k = hdr_Kid h \<or> key_ID k = hdr_Kid h"
    and "signed_by lib k p0 p1 p2" "carries p1 c" "validateClaims (now_at j) c opts = None"
proof -
  from assms obtain p0 p1 p2 b h where
    parts: "Split tok CHR ''.'' = [p0, p1, p2]"
    and hdr: "DecodeString p0 = Some b" "unmarshal_text header_fields zero_header b = Some h"
    and alg: "hdr_Alg h = ''RS256''"
    and sel: "(case matchingKey (hdr_Kid h) keys of
          None \<Rightarrow> if hdr_Kid h = [] then try_keys lib now_at 0 p0 p1 p2 keys opts else Inl ErrKeyNotFound
        | Some k \<Rightarrow> verifyAgainstKey lib (now_at 0) p0 p1 p2 k opts) = Inr c"
    unfolding VerifyJWTWithOptions_def three_parts option_case_Inr if_Inr by blast
  from sel obtain k j where
    "Some k \<in> set keys" "key_Active k" "hdr_Kid h = [] \<or> key_KID k = hdr_Kid h \<or> key_ID k = hdr_Kid h"
    "verifyAgainstKey lib (now_at j) p0 p1 p2 k opts = Inr c"
    by (auto dest: matchingKey_Some try_keys_Inr split: option.splits if_splits)
  with hdr alg have "signed_by lib k p0 p1 p2" "carries p1 c" "validateClaims (now_at j) c opts = None"
    and "has_header p0 h"
    by (auto simp: verifyAgainstKey_Inr has_header_def)
  show ?thesis by (rule that [OF Split_three [OF parts] parts _ alg]) fact+
qed

lemma VerifyJWT_valid:
  "VerifyJWTWithOptions lib now_at tok keys opts = Inr c \<Longrightarrow> \<exists>j. validateClaims (now_at j) c opts = None"
  by (erule VerifyJWT_Inr) blast

subsection \<open>What is signed is verified\<close>

lemma plain_audience: "plain_json (Audience_MarshalJSON as)"
  by (induction as rule: Audience_MarshalJSON.induct) (auto simp: list_all_iff)

lemma shallow_audience: "1 < d \<Longrightarrow> shallow (d - 1) (Audience_MarshalJSON as)"
  by (induction as rule: Audience_MarshalJSON.induct) (auto simp: list_all_iff)

lemma plain_claims: "plain_json (marshal claims_fields c)" "shallow maxNestingDepth (marshal claims_fields c)"
  using shallow_audience [of maxNestingDepth]
  by (simp_all add: marshal_def claims_fields_def aud_field_def field_defs enc_strs_def list_all_iff plain_audience maxNestingDepth_def)

lemma plain_header: "plain_json (marshal header_fields h)" "shallow maxNestingDepth (marshal header_fields h)"
  by (simp_all add: marshal_def header_fields_def field_defs maxNestingDepth_def)

lemma header_roundtrip: "decode_into header_fields (marshal header_fields h) zero_header = (True, h)"
  by (rule decode_marshal) (simp_all add: header_fields_def zero_header_def)

lemma has_header_text: "has_header (EncodeToString (json_text (marshal header_fields h))) h"
  by (simp add: has_header_def json_text_def unmarshal_text_def parse_print [OF plain_header]
      unmarshal_def header_roundtrip)

lemma carries_text:
  "claims_ok c \<Longrightarrow> carries (EncodeToString (json_text (marshal claims_fields c))) c"
  by (simp add: carries_def json_text_def unmarshal_text_def parse_print [OF plain_claims]
      unmarshal_def claims_roundtrip)

lemma carries_unique: "carries p c \<Longrightarrow> carries p c' \<Longrightarrow> c = c'"
  by (auto simp: carries_def)

lemma has_header_unique: "has_header p c \<Longrightarrow> has_header p c' \<Longrightarrow> c = c'"
  by (auto simp: has_header_def)

text \<open>The parts of a signed token.\<close>

lemma SignJWT_Inr:
  assumes "SignJWT lib c pem kid = Inr tok"
  obtains p0 p1 block priv sig where
    "p0 = EncodeToString (json_text (marshal header_fields \<lparr>hdr_Alg = ''RS256'', hdr_Typ = ''JWT'', hdr_Kid = kid\<rparr>))"
    "p1 = EncodeToString (json_text (marshal claims_fields c))"
    "pem_decode lib pem = Some block" "parse_pkcs1 lib block = Some priv"
    "rsa_sign lib priv (Sum256 (p0 @ ''.'' @ p1)) = Some sig"
    "Split tok CHR ''.'' = [p0, p1, EncodeToString sig]"
proof -
  let ?p0 = "EncodeToString (json_text (marshal header_fields \<lparr>hdr_Alg = ''RS256'', hdr_Typ = ''JWT'', hdr_Kid = kid\<rparr>))"
  let ?p1 = "EncodeToString (json_text (marshal claims_fields c))"
  from assms obtain block priv sig where k: "pem_decode lib pem = Some block"
    "parse_pkcs1 lib block = Some priv" "rsa_sign lib priv (Sum256 (?p0 @ ''.'' @ ?p1)) = Some sig"
    and tok: "tok = ?p0 @ CHR ''.'' # ?p1 @ CHR ''.'' # EncodeToString sig"
    unfolding SignJWT_def Let_def by (auto split: option.splits)
  have "Split tok CHR ''.'' = [?p0, ?p1, EncodeToString sig]"
    unfolding tok by (simp add: Split_append Encode_no_dot Split_none)
  with k that show ?thesis by blast
qed

text \<open>
  A pair of PEM texts belongs together: what the private one signs, the public one verifies.
\<close>

definition key_pair :: "rsa_lib \<Rightarrow> string \<Rightarrow> string \<Rightarrow> bool" where
  "key_pair lib privPEM pubPEM \<longleftrightarrow>
     (\<exists>block n e. pem_decode lib pubPEM = Some block \<and> parse_pkix lib block = Some (RSAPublic n e) \<and>
        (\<forall>pb priv d s. pem_decode lib privPEM = Some pb \<longrightarrow> parse_pkcs1 lib pb = Some priv \<longrightarrow>
           rsa_sign lib priv d = Some s \<longrightarrow> rsa_verify lib n e d s))"

lemma signed_token:
  assumes sign: "SignJWT lib c pem kid = Inr tok" and ok: "claims_ok c"
  obtains p0 p1 p2 where "Split tok CHR ''.'' = [p0, p1, p2]"
    "has_header p0 \<lparr>hdr_Alg = ''RS256'', hdr_Typ = ''JWT'', hdr_Kid = kid\<rparr>"
    "carries p1 c" "\<And>k. key_pair lib pem (key_PublicKeyPEM k) \<Longrightarrow> signed_by lib k p0 p1 p2"
proof (rule SignJWT_Inr [OF sign])
  fix p0 p1 block priv sig
  assume p: "p0 = EncodeToString (json_text (marshal header_fields \<lparr>hdr_Alg = ''RS256'', hdr_Typ = ''JWT'', hdr_Kid = kid\<rparr>))"
    "p1 = EncodeToString (json_text (marshal claims_fields c))"
    and k: "pem_decode lib pem = Some block" "parse_pkcs1 lib block = Some priv"
      "rsa_sign lib priv (Sum256 (p0 @ ''.'' @ p1)) = Some sig"
    and s: "Split tok CHR ''.'' = [p0, p1, EncodeToString sig]"
  have "signed_by lib key p0 p1 (EncodeToString sig)" if "key_pair lib pem (key_PublicKeyPEM key)" for key
    using that k unfolding key_pair_def signed_by_def by (metis Decode_Encode)
  moreover have "has_header p0 \<lparr>hdr_Alg = ''RS256'', hdr_Typ = ''JWT'', hdr_Kid = kid\<rparr>"
    unfolding p(1) by (rule has_header_text)
  moreover have "carries p1 c" unfolding p(2) using ok by (rule carries_text)
  ultimately show ?thesis using s that by blast
qed

lemma verify_with_signer:
  assumes "signed_by lib k p0 p1 p2" and "carries p1 c"
  shows "verifyAgainstKey lib now p0 p1 p2 k opts =
    (case validateClaims now c opts of None \<Rightarrow> Inr c | Some e \<Rightarrow> Inl e)"
  using assms by (auto simp: verifyAgainstKey_def signed_by_def carries_def)

lemma VerifyJWT_by_kid:
  assumes "Split tok CHR ''.'' = [p0, p1, p2]" and "has_header p0 h" and "hdr_Alg h = ''RS256''"
    and "matchingKey (hdr_Kid h) keys = Some k"
  shows "VerifyJWTWithOptions lib now_at tok keys opts = verifyAgainstKey lib (now_at 0) p0 p1 p2 k opts"
  using assms by (auto simp: VerifyJWTWithOptions_def has_header_def)

end
