(* ===== verification/Cache.thy ===== *)
theory Cache
  imports Models
begin

text \<open>
  \<^verbatim>\<open>pkg/cache/cache.go\<close> and \<^verbatim>\<open>pkg/cache/shard.go\<close>. The cache is a map from keys to items; each method
  runs under the cache's lock, so it is one atomic function of the map. \<open>now\<close> is the reading of the
  clock the method takes. A value is one of the types the program stores, tagged with its type, as an
  \<^verbatim>\<open>interface{}\<close> is; a type assertion to another type fails.
\<close>

datatype cval = CApp "Application option" | CKeys "SigningKey option list" | CJWKS jval | COther jval

record CacheItem =
  ci_Value :: cval
  ci_ExpiresAt :: gotime

type_synonym MemoryCache = "string \<Rightarrow> CacheItem option"

definition NewMemoryCache :: MemoryCache where
  "NewMemoryCache = (\<lambda>_. None)"

definition expired :: "gotime \<Rightarrow> CacheItem \<Rightarrow> bool" where
  "expired now item \<longleftrightarrow> \<not> IsZero (ci_ExpiresAt item) \<and> After now (ci_ExpiresAt item)"

definition Cache_Get :: "MemoryCache \<Rightarrow> string \<Rightarrow> gotime \<Rightarrow> cval option" where
  "Cache_Get c key now =
     (case c key of
        None \<Rightarrow> None
      | Some item \<Rightarrow> if expired now item then None else Some (ci_Value item))"

definition Cache_Set :: "MemoryCache \<Rightarrow> string \<Rightarrow> cval \<Rightarrow> duration \<Rightarrow> gotime \<Rightarrow> MemoryCache" where
  "Cache_Set c key value ttl now =
     c(key \<mapsto> \<lparr>ci_Value = value, ci_ExpiresAt = (if ttl > 0 then now + ttl else zero_time)\<rparr>)"

definition Cache_Delete :: "MemoryCache \<Rightarrow> string \<Rightarrow> MemoryCache" where
  "Cache_Delete c key = c(key := None)"

definition InvalidateOrganization :: "MemoryCache \<Rightarrow> string \<Rightarrow> MemoryCache" where
  "InvalidateOrganization c orgID =
     (let pre = ''o:'' @ orgID @ '':'' in (\<lambda>k. if HasPrefix k pre then None else c k))"

definition InvalidateApp :: "MemoryCache \<Rightarrow> string \<Rightarrow> string \<Rightarrow> MemoryCache" where
  "InvalidateApp c orgID appID =
     (let appPrefix = ''o:'' @ orgID @ '':app:'' @ appID;
          keyPrefix = ''o:'' @ orgID @ '':keys:'' @ appID;
          jwksPrefix = ''o:'' @ orgID @ '':jwks:'' @ appID in
      (\<lambda>k. if k = appPrefix \<or> k = keyPrefix \<or> k = jwksPrefix then None else c k))"

text \<open>One tick of the janitor.\<close>

definition janitor_tick :: "MemoryCache \<Rightarrow> gotime \<Rightarrow> MemoryCache" where
  "janitor_tick c now =
     (\<lambda>k. case c k of None \<Rightarrow> None | Some item \<Rightarrow> if expired now item then None else Some item)"

subsection \<open>Cache keys and typed access\<close>

definition CacheKeyOrganization :: "string \<Rightarrow> string" where
  "CacheKeyOrganization orgID = ''o:'' @ orgID @ '':meta''"

definition CacheKeyApp :: "string \<Rightarrow> string \<Rightarrow> string" where
  "CacheKeyApp orgID appID = ''o:'' @ orgID @ '':app:'' @ appID"

definition CacheKeyIDP :: "string \<Rightarrow> string \<Rightarrow> string" where
  "CacheKeyIDP orgID idpID = ''o:'' @ orgID @ '':idp:'' @ idpID"

definition CacheKeySigningKeys :: "string \<Rightarrow> string \<Rightarrow> string" where
  "CacheKeySigningKeys orgID appID = ''o:'' @ orgID @ '':keys:'' @ appID"

definition CacheKeyJWKS :: "string \<Rightarrow> string \<Rightarrow> string" where
  "CacheKeyJWKS orgID appID = ''o:'' @ orgID @ '':jwks:'' @ appID"

lemmas cache_key_defs = CacheKeyOrganization_def CacheKeyApp_def CacheKeyIDP_def
  CacheKeySigningKeys_def CacheKeyJWKS_def

text \<open>The typed getters: \<open>None\<close> is \<^verbatim>\<open>found = false\<close>.\<close>

definition GetApp :: "MemoryCache \<Rightarrow> string \<Rightarrow> string \<Rightarrow> gotime \<Rightarrow> Application option option" where
  "GetApp c orgID appID now =
     (case Cache_Get c (CacheKeyApp orgID appID) now of Some (CApp a) \<Rightarrow> Some a | _ \<Rightarrow> None)"

definition SetApp :: "MemoryCache \<Rightarrow> string \<Rightarrow> string \<Rightarrow> Application option \<Rightarrow> duration \<Rightarrow> gotime \<Rightarrow> MemoryCache" where
  "SetApp c orgID appID app ttl now = Cache_Set c (CacheKeyApp orgID appID) (CApp app) ttl now"

definition GetSigningKeys :: "MemoryCache \<Rightarrow> string \<Rightarrow> string \<Rightarrow> gotime \<Rightarrow> SigningKey option list option" where
  "GetSigningKeys c orgID appID now =
     (case Cache_Get c (CacheKeySigningKeys orgID appID) now of Some (CKeys ks) \<Rightarrow> Some ks | _ \<Rightarrow> None)"

definition SetSigningKeys ::
  "MemoryCache \<Rightarrow> string \<Rightarrow> string \<Rightarrow> SigningKey option list \<Rightarrow> duration \<Rightarrow> gotime \<Rightarrow> MemoryCache" where
  "SetSigningKeys c orgID appID ks ttl now = Cache_Set c (CacheKeySigningKeys orgID appID) (CKeys ks) ttl now"

definition GetJWKS :: "MemoryCache \<Rightarrow> string \<Rightarrow> string \<Rightarrow> gotime \<Rightarrow> jval option" where
  "GetJWKS c orgID appID now =
     (case Cache_Get c (CacheKeyJWKS orgID appID) now of Some (CJWKS j) \<Rightarrow> Some j | _ \<Rightarrow> None)"

definition SetJWKS :: "MemoryCache \<Rightarrow> string \<Rightarrow> string \<Rightarrow> jval \<Rightarrow> duration \<Rightarrow> gotime \<Rightarrow> MemoryCache" where
  "SetJWKS c orgID appID jwks ttl now = Cache_Set c (CacheKeyJWKS orgID appID) (CJWKS jwks) ttl now"

subsection \<open>The cache as an expiring map\<close>

text \<open>
  What a client of the cache relies on: a value is found until its time has passed, writing or
  deleting one key affects that key only, and sweeping out expired items cannot be observed.
\<close>

locale expiring_map =
  fixes lookup :: "'c \<Rightarrow> 'k \<Rightarrow> gotime \<Rightarrow> 'v option"
    and store :: "'c \<Rightarrow> 'k \<Rightarrow> 'v \<Rightarrow> duration \<Rightarrow> gotime \<Rightarrow> 'c"
    and remove :: "'c \<Rightarrow> 'k \<Rightarrow> 'c"
    and sweep :: "'c \<Rightarrow> gotime \<Rightarrow> 'c"
  assumes lookup_store: "now' \<le> now + ttl \<Longrightarrow> lookup (store c k v ttl now) k now' = Some v"
    and lookup_expired: "0 < ttl \<Longrightarrow> now + ttl \<noteq> zero_time \<Longrightarrow> now + ttl < now' \<Longrightarrow>
          lookup (store c k v ttl now) k now' = None"
    and lookup_store_other: "k' \<noteq> k \<Longrightarrow> lookup (store c k v ttl now) k' now' = lookup c k' now'"
    and lookup_remove: "lookup (remove c k) k now = None"
    and lookup_remove_other: "k' \<noteq> k \<Longrightarrow> lookup (remove c k) k' now = lookup c k' now"
    and lookup_sweep: "now \<le> now' \<Longrightarrow> lookup (sweep c now) k now' = lookup c k now'"
begin

text \<open>The janitor may run at any moment between a write and a read.\<close>

lemma store_sweep_lookup:
  "t \<le> now' \<Longrightarrow> now' \<le> now + ttl \<Longrightarrow> lookup (sweep (store c k v ttl now) t) k now' = Some v"
  by (simp add: lookup_sweep lookup_store)

lemma sweep_sweep: "t \<le> u \<Longrightarrow> u \<le> now \<Longrightarrow> lookup (sweep (sweep c t) u) k now = lookup c k now"
  by (simp add: lookup_sweep)

end

interpretation mc: expiring_map Cache_Get Cache_Set Cache_Delete janitor_tick
  by unfold_locales
    (auto simp: Cache_Get_def Cache_Set_def Cache_Delete_def janitor_tick_def expired_def IsZero_def
      After_def split: option.splits)

subsection \<open>Tenants in the cache\<close>

lemma HasPrefix_sep:
  "c \<notin> set a \<Longrightarrow> c \<notin> set b \<Longrightarrow> HasPrefix (a @ c # s) (b @ [c]) \<longleftrightarrow> a = b"
  by (auto simp: HasPrefix_iff append_sep_inject)

text \<open>Every key the program builds for a tenant starts with \<^verbatim>\<open>o:<org>:\<close>.\<close>

definition cache_keys_of :: "string \<Rightarrow> string set" where
  "cache_keys_of orgID =
     {CacheKeyOrganization orgID} \<union> range (CacheKeyApp orgID) \<union> range (CacheKeyIDP orgID)
       \<union> range (CacheKeySigningKeys orgID) \<union> range (CacheKeyJWKS orgID)"

lemma cache_keys_prefix: "k \<in> cache_keys_of orgID \<Longrightarrow> \<exists>t. k = ''o:'' @ orgID @ '':'' @ t"
  by (auto simp: cache_keys_of_def cache_key_defs)

lemma Invalidate_own: "k \<in> cache_keys_of orgID \<Longrightarrow> InvalidateOrganization c orgID k = None"
  by (drule cache_keys_prefix) (auto simp: InvalidateOrganization_def Let_def HasPrefix_iff)

lemma Invalidate_other:
  assumes "CHR '':'' \<notin> set orgID" and "CHR '':'' \<notin> set other" and "orgID \<noteq> other"
    and "k \<in> cache_keys_of other"
  shows "InvalidateOrganization c orgID k = c k"
proof -
  from assms(4) obtain t where "k = ''o:'' @ other @ '':'' @ t" by (blast dest: cache_keys_prefix)
  with assms(1-3) show ?thesis
    by (auto simp: InvalidateOrganization_def Let_def HasPrefix_iff append_sep_inject)
qed

subsection \<open>Shards (FNV-1a)\<close>

definition ShardKey :: "string \<Rightarrow> string \<Rightarrow> string" where
  "ShardKey orgID appID = (if appID = [] then orgID else orgID @ '':'' @ appID)"

text \<open>\<^verbatim>\<open>fnv.New32a\<close>: xor in the byte, multiply by the prime, modulo \<open>2 ^ 32\<close>.\<close>

definition fnv32a :: "string \<Rightarrow> 32 word" where
  "fnv32a s = foldl (\<lambda>h c. (xor h (of_nat (of_char c))) * 16777619) 2166136261 s"

definition ShardHash :: "string \<Rightarrow> string \<Rightarrow> 32 word" where
  "ShardHash orgID appID = fnv32a (ShardKey orgID appID)"

text \<open>\<open>None\<close> is the run-time panic of a division by zero: \<^verbatim>\<open>uint32(numNodes)\<close> keeps the low 32 bits.\<close>

definition DetermineNode :: "string \<Rightarrow> string \<Rightarrow> int \<Rightarrow> int option" where
  "DetermineNode orgID appID numNodes =
     (if numNodes \<le> 1 then Some 0
      else (let n = (word_of_int numNodes :: 32 word) in
            if n = 0 then None else Some (uint (ShardHash orgID appID mod n))))"

lemma DetermineNode_in_range:
  assumes "0 < numNodes" and "numNodes < 2 ^ 32"
  shows "\<exists>i. DetermineNode orgID appID numNodes = Some i \<and> 0 \<le> i \<and> i < numNodes"
proof (cases "numNodes \<le> 1")
  case True
  with assms show ?thesis by (simp add: DetermineNode_def)
next
  case False
  let ?n = "word_of_int numNodes :: 32 word"
  have u: "uint ?n = numNodes" using assms by (simp add: unsigned_of_int take_bit_int_eq_self)
  then have n0: "?n \<noteq> 0" using assms(1) by auto
  have "uint (ShardHash orgID appID mod ?n) = uint (ShardHash orgID appID) mod numNodes"
    by (simp add: uint_mod u)
  with False n0 assms(1) show ?thesis by (simp add: DetermineNode_def Let_def)
qed

text \<open>
  Where a shard goes: for every number of nodes the index is one of theirs, node zero when there is at most one;
  the only numbers for which there is no answer, a division by zero that stops the process, are the positive multiples
  of \<open>2 ^ 32\<close>.
\<close>

theorem DetermineNode_bounds:
  "(case DetermineNode orgID appID numNodes of
      None \<Rightarrow> 1 < numNodes \<and> 2 ^ 32 dvd numNodes
    | Some i \<Rightarrow> 0 \<le> i \<and> i < max 1 numNodes \<and> \<not> (1 < numNodes \<and> 2 ^ 32 dvd numNodes))"
proof (cases "numNodes \<le> 1")
  case True
  then show ?thesis by (simp add: DetermineNode_def)
next
  case False
  let ?n = "word_of_int numNodes :: 32 word"
  have u: "uint ?n = numNodes mod 2 ^ 32" by (simp add: unsigned_of_int take_bit_eq_mod)
  have z: "?n = 0 \<longleftrightarrow> 2 ^ 32 dvd numNodes"
    by (simp only: uint_0_iff [symmetric] u dvd_eq_mod_eq_0)
  have "uint (ShardHash orgID appID mod ?n) < numNodes" if "?n \<noteq> 0"
  proof -
    have "0 < numNodes mod 2 ^ 32" using that z by (simp add: dvd_eq_mod_eq_0 order.strict_iff_order)
    then have "uint (ShardHash orgID appID) mod (numNodes mod 2 ^ 32) < numNodes mod 2 ^ 32" by simp
    also have "\<dots> \<le> numNodes" using False by (intro zmod_le_nonneg_dividend) simp
    finally show ?thesis by (simp add: uint_mod u)
  qed
  with False z show ?thesis by (auto simp: DetermineNode_def Let_def)
qed

end
