(* ===== verification/Storage.thy ===== *)
theory Storage
  imports Models "HOL-Library.AList"
begin

text \<open>
  \<^verbatim>\<open>pkg/storage/storage.go\<close>: the \<^verbatim>\<open>Storage\<close> interface, its errors, and the object keys. The interface
  is implemented by the host or by JayDB, so its operations are a record \<open>store_ops\<close> of functions on
  a store state \<open>'s\<close> that the rest of the model takes as a parameter. The locale \<open>cas_store\<close> states
  what the interface's comments promise of them; \<open>reliable_store\<close> adds that calls do not fail for
  reasons outside the store (network, quota).
\<close>

datatype sterr = ErrVersionMismatch | ErrNotFound | StOther string

definition MatchAnyVersion :: string where
  "MatchAnyVersion = ''*''"

record 's store_ops =
  st_Get :: "string \<Rightarrow> ('s, sterr, StoredRecord) eng"
  st_Put :: "string \<Rightarrow> blob \<Rightarrow> string \<Rightarrow> ('s, sterr, string) eng"
  st_Delete :: "string \<Rightarrow> string \<Rightarrow> ('s, sterr, unit) eng"
  st_List :: "string \<Rightarrow> ('s, sterr, StoredRecord list) eng"

subsection \<open>Object keys\<close>

definition OrganizationKey :: "string \<Rightarrow> string" where
  "OrganizationKey orgID = ''organizations/'' @ orgID @ ''/metadata.json''"

definition AppKey :: "string \<Rightarrow> string \<Rightarrow> string" where
  "AppKey orgID appID = ''organizations/'' @ orgID @ ''/apps/'' @ appID @ ''.json''"

definition IDPKey :: "string \<Rightarrow> string \<Rightarrow> string" where
  "IDPKey orgID idpID = ''organizations/'' @ orgID @ ''/idps/'' @ idpID @ ''.json''"

definition KeyPairKey :: "string \<Rightarrow> string \<Rightarrow> string" where
  "KeyPairKey orgID keyID = ''organizations/'' @ orgID @ ''/keys/'' @ keyID @ ''.json''"

definition AdminUserKey :: "string \<Rightarrow> string \<Rightarrow> string" where
  "AdminUserKey orgID userID = ''organizations/'' @ orgID @ ''/admin/users/'' @ userID @ ''.json''"

definition TeamKey :: "string \<Rightarrow> string \<Rightarrow> string" where
  "TeamKey orgID teamID = ''organizations/'' @ orgID @ ''/admin/teams/'' @ teamID @ ''.json''"

definition RoleKey :: "string \<Rightarrow> string \<Rightarrow> string" where
  "RoleKey orgID roleID = ''organizations/'' @ orgID @ ''/admin/roles/'' @ roleID @ ''.json''"

definition SPIFFEWorkloadKey :: "string \<Rightarrow> string \<Rightarrow> string" where
  "SPIFFEWorkloadKey orgID workloadID =
     ''organizations/'' @ orgID @ ''/spiffe/workloads/'' @ workloadID @ ''.json''"

definition AuthStateKey :: "string \<Rightarrow> string" where
  "AuthStateKey stateID = ''sessions/states/'' @ stateID @ ''.json''"

definition AuthCodeKey :: "string \<Rightarrow> string" where
  "AuthCodeKey code = ''sessions/codes/'' @ code @ ''.json''"

definition RefreshTokenKey :: "string \<Rightarrow> string" where
  "RefreshTokenKey handle = ''sessions/refresh/'' @ handle @ ''.json''"

lemmas key_defs = OrganizationKey_def AppKey_def IDPKey_def KeyPairKey_def AdminUserKey_def TeamKey_def
  RoleKey_def SPIFFEWorkloadKey_def AuthStateKey_def AuthCodeKey_def RefreshTokenKey_def

text \<open>Keys of one-time records: injective, and disjoint from each other and from tenant records,
  whatever the handle holds.\<close>

lemma session_key_inject [simp]:
  "AuthStateKey a = AuthStateKey b \<longleftrightarrow> a = b" "AuthCodeKey a = AuthCodeKey b \<longleftrightarrow> a = b"
  "RefreshTokenKey a = RefreshTokenKey b \<longleftrightarrow> a = b"
  by (simp_all add: key_defs)

lemma session_keys_disjoint [simp]:
  "AuthStateKey a \<noteq> AuthCodeKey b" "AuthCodeKey b \<noteq> AuthStateKey a"
  "AuthStateKey a \<noteq> RefreshTokenKey c" "RefreshTokenKey c \<noteq> AuthStateKey a"
  "AuthCodeKey b \<noteq> RefreshTokenKey c" "RefreshTokenKey c \<noteq> AuthCodeKey b"
  by (simp_all add: key_defs)

lemma session_key_not_tenant [simp]:
  "AppKey o' a \<noteq> AuthStateKey s" "AppKey o' a \<noteq> AuthCodeKey s" "AppKey o' a \<noteq> RefreshTokenKey s"
  "KeyPairKey o' a \<noteq> AuthStateKey s" "KeyPairKey o' a \<noteq> AuthCodeKey s"
  "KeyPairKey o' a \<noteq> RefreshTokenKey s"
  "RefreshTokenKey s \<noteq> KeyPairKey o' a" "AuthCodeKey s \<noteq> KeyPairKey o' a"
  "AuthStateKey s \<noteq> KeyPairKey o' a"
  by (simp_all add: key_defs)

text \<open>Keys of tenant records separate tenants as long as the tenant id holds no slash.\<close>

lemma tenant_key_inject:
  assumes "CHR ''/'' \<notin> set o1" and "CHR ''/'' \<notin> set o2"
  shows "AppKey o1 a = AppKey o2 b \<longleftrightarrow> o1 = o2 \<and> a = b"
    and "IDPKey o1 a = IDPKey o2 b \<longleftrightarrow> o1 = o2 \<and> a = b"
    and "KeyPairKey o1 a = KeyPairKey o2 b \<longleftrightarrow> o1 = o2 \<and> a = b"
    and "SPIFFEWorkloadKey o1 a = SPIFFEWorkloadKey o2 b \<longleftrightarrow> o1 = o2 \<and> a = b"
    and "OrganizationKey o1 = OrganizationKey o2 \<longleftrightarrow> o1 = o2"
  using assms by (auto simp: key_defs append_sep_inject)

subsection \<open>The contract of the interface\<close>

text \<open>May a write with this expected version replace what is there?\<close>

definition cas_ok :: "string \<Rightarrow> (string \<times> blob) option \<Rightarrow> bool" where
  "cas_ok expected cur \<longleftrightarrow>
     expected = [] \<or>
     (if expected = MatchAnyVersion then cur = None else \<exists>d. cur = Some (expected, d))"

text \<open>
  The interface promises that a version mismatch leaves the store as it is. Any other error of a write or a delete
  may be the answer to a call that reached the store and lost its answer on the way back, so such a call may have
  been applied, as a whole and under its condition, or not at all.
\<close>

locale cas_store =
  fixes ops :: "'s store_ops"
    and objs :: "'s \<Rightarrow> string \<Rightarrow> (string \<times> blob) option"
  assumes get_frame: "st_Get ops k s = (r, s') \<Longrightarrow> objs s' = objs s"
    and get_found: "st_Get ops k s = (Inr rec, s') \<Longrightarrow>
          sr_Key rec = k \<and> objs s k = Some (sr_Version rec, sr_Data rec)"
    and get_missing: "st_Get ops k s = (Inl ErrNotFound, s') \<Longrightarrow> objs s k = None"
    and put_done: "st_Put ops k d ev s = (Inr v, s') \<Longrightarrow>
          v \<noteq> [] \<and> cas_ok ev (objs s k) \<and> objs s' = (objs s)(k \<mapsto> (v, d))"
    and put_failed: "st_Put ops k d ev s = (Inl e, s') \<Longrightarrow>
          objs s' = objs s \<or>
          e \<noteq> ErrVersionMismatch \<and> cas_ok ev (objs s k) \<and> (\<exists>v. v \<noteq> [] \<and> objs s' = (objs s)(k \<mapsto> (v, d)))"
    and delete_done: "st_Delete ops k ev s = (Inr u, s') \<Longrightarrow> objs s' = (objs s)(k := None)"
    and delete_cas: "st_Delete ops k ev s = (Inr u, s') \<Longrightarrow> ev \<noteq> [] \<Longrightarrow> ev \<noteq> MatchAnyVersion \<Longrightarrow>
          \<exists>d. objs s k = Some (ev, d)"
    and delete_failed: "st_Delete ops k ev s = (Inl e, s') \<Longrightarrow>
          objs s' = objs s \<or>
          e \<noteq> ErrVersionMismatch \<and> objs s' = (objs s)(k := None) \<and>
            (ev \<noteq> [] \<longrightarrow> ev \<noteq> MatchAnyVersion \<longrightarrow> (\<exists>d. objs s k = Some (ev, d)))"
    and list_frame: "st_List ops p s = (l, s') \<Longrightarrow> objs s' = objs s"
    and list_sound: "st_List ops p s = (Inr recs, s') \<Longrightarrow> rec \<in> set recs \<Longrightarrow>
          HasPrefix (sr_Key rec) p \<and> objs s (sr_Key rec) = Some (sr_Version rec, sr_Data rec)"
begin

lemma get_keeps: "keeps objs (st_Get ops k)"
  by (rule keepsI) (rule get_frame)

lemma list_keeps: "keeps objs (st_List ops p)"
  by (rule keepsI) (rule list_frame)

text \<open>A write leaves every object alone, or is the one write asked for; likewise a delete.\<close>

lemma put_cases:
  assumes "st_Put ops k d ev s = (r, s')"
  obtains (same) e where "r = Inl e" "objs s' = objs s"
  | (put) v where "v \<noteq> []" "cas_ok ev (objs s k)" "objs s' = (objs s)(k \<mapsto> (v, d))"
      "r = Inr v \<or> (\<exists>e. r = Inl e \<and> e \<noteq> ErrVersionMismatch)"
proof (cases r)
  case (Inl e)
  with assms have "objs s' = objs s \<or> (e \<noteq> ErrVersionMismatch \<and> cas_ok ev (objs s k) \<and>
      (\<exists>v. v \<noteq> [] \<and> objs s' = (objs s)(k \<mapsto> (v, d))))" using put_failed by blast
  then show thesis
  proof
    assume "objs s' = objs s"
    with Inl show thesis by (rule same)
  next
    assume a: "e \<noteq> ErrVersionMismatch \<and> cas_ok ev (objs s k) \<and> (\<exists>v. v \<noteq> [] \<and> objs s' = (objs s)(k \<mapsto> (v, d)))"
    then obtain v where "v \<noteq> []" "objs s' = (objs s)(k \<mapsto> (v, d))" by blast
    with a Inl show thesis by (intro put [of v]) simp_all
  qed
next
  case (Inr v)
  with assms have "v \<noteq> [] \<and> cas_ok ev (objs s k) \<and> objs s' = (objs s)(k \<mapsto> (v, d))" using put_done by blast
  with Inr show thesis by (intro put [of v]) simp_all
qed

lemma delete_cases:
  assumes "st_Delete ops k ev s = (r, s')"
  obtains (same) e where "r = Inl e" "objs s' = objs s"
  | (deleted) "objs s' = (objs s)(k := None)" "ev \<noteq> [] \<longrightarrow> ev \<noteq> MatchAnyVersion \<longrightarrow> (\<exists>d. objs s k = Some (ev, d))"
      "r = Inr () \<or> (\<exists>e. r = Inl e \<and> e \<noteq> ErrVersionMismatch)"
proof (cases r)
  case (Inl e)
  with assms have "objs s' = objs s \<or> (e \<noteq> ErrVersionMismatch \<and> objs s' = (objs s)(k := None) \<and>
      (ev \<noteq> [] \<longrightarrow> ev \<noteq> MatchAnyVersion \<longrightarrow> (\<exists>d. objs s k = Some (ev, d))))" using delete_failed by blast
  with Inl show thesis by (metis same deleted)
next
  case (Inr u)
  with assms have "objs s' = (objs s)(k := None)" "ev \<noteq> [] \<longrightarrow> ev \<noteq> MatchAnyVersion \<longrightarrow> (\<exists>d. objs s k = Some (ev, d))"
    using delete_done delete_cas by blast+
  with Inr show thesis by (intro deleted) simp_all
qed

text \<open>Whatever happens to the object under one key, other keys are untouched.\<close>

lemma put_other: "st_Put ops k d ev s = (r, s') \<Longrightarrow> k' \<noteq> k \<Longrightarrow> objs s' k' = objs s k'"
  by (erule put_cases) simp_all

lemma delete_other: "st_Delete ops k ev s = (r, s') \<Longrightarrow> k' \<noteq> k \<Longrightarrow> objs s' k' = objs s k'"
  by (erule delete_cases) simp_all

text \<open>A delete that was told of another version changes nothing.\<close>

lemma delete_stale:
  assumes "st_Delete ops k ev s = (r, s')" and "ev \<noteq> []" and "ev \<noteq> MatchAnyVersion"
    and "\<nexists>d. objs s k = Some (ev, d)"
  shows "(\<exists>e. r = Inl e) \<and> objs s' = objs s"
  using assms(1) by (rule delete_cases) (use assms(2-4) in auto)

text \<open>Deleting by version, twice: the second attempt finds nothing.\<close>

lemma delete_then_get:
  assumes "st_Delete ops k ev s = (Inr u, s1)" and "st_Get ops k s1 = (r, s2)"
  shows "\<exists>e. r = Inl e"
proof (cases r)
  case (Inr rec)
  with assms get_found delete_done show ?thesis by (metis fun_upd_same option.distinct(1))
qed simp

end

locale reliable_store = cas_store +
  assumes get_total: "objs s k = Some (v, d) \<Longrightarrow>
            \<exists>s'. st_Get ops k s = (Inr \<lparr>sr_Key = k, sr_Version = v, sr_Data = d\<rparr>, s')"
    and get_absent: "objs s k = None \<Longrightarrow> \<exists>s'. st_Get ops k s = (Inl ErrNotFound, s')"
    and put_total: "cas_ok ev (objs s k) \<Longrightarrow> \<exists>v s'. st_Put ops k d ev s = (Inr v, s')"
    and put_conflict: "\<not> cas_ok ev (objs s k) \<Longrightarrow> \<exists>s'. st_Put ops k d ev s = (Inl ErrVersionMismatch, s')"
    and delete_total: "objs s k = Some (v, d) \<Longrightarrow> \<exists>s'. st_Delete ops k v s = (Inr (), s')"
    and list_total: "\<exists>recs s'. st_List ops p s = (Inr recs, s') \<and>
            (\<forall>k v d. HasPrefix k p \<longrightarrow> objs s k = Some (v, d) \<longrightarrow>
               \<lparr>sr_Key = k, sr_Version = v, sr_Data = d\<rparr> \<in> set recs)"
begin

text \<open>A write is read back, with the version it was given.\<close>

lemma put_then_get:
  assumes "st_Put ops k d ev s = (Inr v, s1)"
  shows "\<exists>s2. st_Get ops k s1 = (Inr \<lparr>sr_Key = k, sr_Version = v, sr_Data = d\<rparr>, s2)"
  using put_done [OF assms] get_total [of s1 k v d] by simp

text \<open>Create-only: of two such writes to one key the second is refused.\<close>

lemma create_only_once:
  assumes "st_Put ops k d MatchAnyVersion s = (Inr v, s1)"
  shows "\<exists>s2. st_Put ops k d' MatchAnyVersion s1 = (Inl ErrVersionMismatch, s2)"
proof -
  from put_done [OF assms] have "objs s1 k = Some (v, d)" by simp
  then have "\<not> cas_ok MatchAnyVersion (objs s1 k)" by (simp add: cas_ok_def MatchAnyVersion_def)
  then show ?thesis by (rule put_conflict)
qed

end

end
