(* ===== verification/NetURL.thy ===== *)
theory NetURL
  imports Encoding Json "HOL-Library.List_Lexorder"
begin

text \<open>
  What the program uses of package \<^verbatim>\<open>net/url\<close>: query escaping and its inverse, and \<^verbatim>\<open>url.Values\<close> with
  one value per key (\<^verbatim>\<open>Set\<close>), written in the order of the keys. Strings are ordered by bytes.
\<close>

definition url_plain :: "char \<Rightarrow> bool" where
  "url_plain c \<longleftrightarrow> (let n = of_char c :: nat in
     48 \<le> n \<and> n \<le> 57 \<or> 65 \<le> n \<and> n \<le> 90 \<or> 97 \<le> n \<and> n \<le> 122 \<or> n = 45 \<or> n = 46 \<or> n = 95 \<or> n = 126)"

definition upper_hex :: "nat \<Rightarrow> char" where
  "upper_hex d = char_of (if d < 10 then 48 + d else 55 + d)"

definition escape_char :: "char \<Rightarrow> string" where
  "escape_char c =
     (if url_plain c then [c]
      else if c = CHR 0x20 then ''+''
      else (let n = of_char c in [CHR 0x25, upper_hex (n div 16), upper_hex (n mod 16)]))"

definition QueryEscape :: "string \<Rightarrow> string" where
  "QueryEscape s = concat (map escape_char s)"

definition unhex :: "char \<Rightarrow> nat option" where
  "unhex c = (let n = of_char c :: nat in
     if 48 \<le> n \<and> n \<le> 57 then Some (n - 48)
     else if 97 \<le> n \<and> n \<le> 102 then Some (n - 87)
     else if 65 \<le> n \<and> n \<le> 70 then Some (n - 55)
     else None)"

fun QueryUnescape :: "string \<Rightarrow> string option" where
  "QueryUnescape [] = Some []"
| "QueryUnescape (c # s) =
     (if c = CHR 0x25 then
        (case s of
           a # b # t \<Rightarrow>
             (case (unhex a, unhex b) of
                (Some x, Some y) \<Rightarrow> map_option (\<lambda>u. char_of (x * 16 + y) # u) (QueryUnescape t)
              | _ \<Rightarrow> None)
         | _ \<Rightarrow> None)
      else if c = CHR ''+'' then map_option (\<lambda>u. CHR 0x20 # u) (QueryUnescape s)
      else map_option (\<lambda>u. c # u) (QueryUnescape s))"

text \<open>\<^verbatim>\<open>url.Values\<close>\<close>

type_synonym url_values = "(string \<times> string) list"

definition Values_Set :: "url_values \<Rightarrow> string \<Rightarrow> string \<Rightarrow> url_values" where
  "Values_Set v key value = put_key key value v"

definition Values_Get :: "url_values \<Rightarrow> string \<Rightarrow> string" where
  "Values_Get v key = (case map_of v key of None \<Rightarrow> [] | Some x \<Rightarrow> x)"

definition Values_Encode :: "url_values \<Rightarrow> string" where
  "Values_Encode v =
     Join (map (\<lambda>(k, x). QueryEscape k @ ''='' @ QueryEscape x) (sort_key fst v)) ''&''"

subsection \<open>Facts\<close>

lemma unhex_upper_hex [simp]: "d < 16 \<Longrightarrow> unhex (upper_hex d) = Some d"
  by (auto simp: unhex_def upper_hex_def)

lemma url_plain_not: "url_plain c \<Longrightarrow> c \<noteq> CHR 0x25 \<and> c \<noteq> CHR ''+'' \<and> c \<noteq> CHR 0x26 \<and> c \<noteq> CHR ''=''"
  by (auto simp: url_plain_def)

lemma char_nibbles: "(of_char c :: nat) div 16 < 16" "(of_char c :: nat) mod 16 < 16"
  by (simp_all add: less_mult_imp_div_less)

lemma unescape_char: "QueryUnescape (escape_char c @ s) = map_option (\<lambda>u. c # u) (QueryUnescape s)"
  using url_plain_not [of c] char_nibbles [of c] by (simp add: escape_char_def Let_def)

lemma QueryUnescape_QueryEscape [simp]: "QueryUnescape (QueryEscape s) = Some s"
  by (induction s) (simp_all add: QueryEscape_def unescape_char)

lemma QueryEscape_inject [simp]: "QueryEscape s = QueryEscape t \<longleftrightarrow> s = t"
  by (metis QueryUnescape_QueryEscape option.inject)

lemma url_plain_upper_hex: "d < 16 \<Longrightarrow> url_plain (upper_hex d)"
  by (auto simp: url_plain_def upper_hex_def)

lemma QueryEscape_chars: "c \<in> set (QueryEscape s) \<Longrightarrow> url_plain c \<or> c = CHR 0x25 \<or> c = CHR ''+''"
  by (auto simp: QueryEscape_def escape_char_def Let_def url_plain_upper_hex char_nibbles split: if_splits)

lemma QueryEscape_no_semicolon: "CHR 0x3B \<notin> set (QueryEscape s)"
  using QueryEscape_chars [of "CHR 0x3B" s] by (auto simp: url_plain_def)

text \<open>An escaped text never holds the separators of a query.\<close>

lemma QueryEscape_no_sep: "CHR 0x26 \<notin> set (QueryEscape s)" "CHR ''='' \<notin> set (QueryEscape s)"
  using QueryEscape_chars [of _ s] url_plain_not by fastforce+

lemma map_of_put_key: "map_of (put_key k x v) = (map_of v)(k \<mapsto> x)"
  by (induction k x v rule: put_key.induct) auto

lemma Values_Get_Set: "Values_Get (Values_Set v k x) k' = (if k' = k then x else Values_Get v k')"
  by (simp add: Values_Get_def Values_Set_def map_of_put_key)

lemma put_key_keys: "fst ` set (put_key k x v) = insert k (fst ` set v)"
  by (induction k x v rule: put_key.induct) auto

lemma put_key_distinct: "distinct (map fst v) \<Longrightarrow> distinct (map fst (put_key k x v))"
proof (induction k x v rule: put_key.induct)
  case (2 k v k' v' m)
  then show ?case using put_key_keys [of k v m] by (auto simp flip: set_map)
qed simp

text \<open>
  \<^verbatim>\<open>url.ParseQuery\<close> where the error is dropped: splits at the separators and unescapes both sides; a part
  that holds a semicolon or a bad escape is left out.
\<close>

definition parse_pair :: "string \<Rightarrow> (string \<times> string) option" where
  "parse_pair p =
     (let k = takeWhile (\<lambda>c. c \<noteq> CHR ''='') p; x = drop (Suc (length k)) p in
      if CHR 0x3B \<in> set p then None
      else case (QueryUnescape k, QueryUnescape x) of (Some a, Some b) \<Rightarrow> Some (a, b) | _ \<Rightarrow> None)"

definition ParseQuery :: "string \<Rightarrow> url_values" where
  "ParseQuery s =
     concat (map (\<lambda>p. if p = [] then [] else (case parse_pair p of None \<Rightarrow> [] | Some e \<Rightarrow> [e]))
       (Split s CHR 0x26))"

lemma takeWhile_sep: "c \<notin> set k \<Longrightarrow> takeWhile (\<lambda>d. d \<noteq> c) (k @ c # x) = k"
  by (induction k) auto

lemma parse_pair_encoded: "parse_pair (QueryEscape k @ ''='' @ QueryEscape x) = Some (k, x)"
  using QueryEscape_no_sep [of k] QueryEscape_no_semicolon [of k] QueryEscape_no_semicolon [of x]
  by (simp add: parse_pair_def takeWhile_sep)

lemma ParseQuery_Encode: "v \<noteq> [] \<Longrightarrow> ParseQuery (Values_Encode v) = sort_key fst v"
proof -
  let ?e = "\<lambda>(k, x). QueryEscape k @ ''='' @ QueryEscape x"
  let ?v = "sort_key fst v"
  assume "v \<noteq> []"
  then have "map ?e ?v \<noteq> []" by (metis length_0_conv length_map length_sort)
  moreover have "\<forall>p \<in> set (map ?e ?v). CHR 0x26 \<notin> set p"
    using QueryEscape_no_sep by auto
  ultimately have split: "Split (Values_Encode v) CHR 0x26 = map ?e ?v"
    unfolding Values_Encode_def by (simp add: Split_Join)
  have "concat (map (\<lambda>p. if p = [] then [] else (case parse_pair p of None \<Rightarrow> [] | Some e \<Rightarrow> [e])) (map ?e w)) = w" for w
    by (induction w) (auto simp: parse_pair_encoded [simplified])
  with split show ?thesis by (simp add: ParseQuery_def)
qed

end
