(* ===== verification/World.thy ===== *)
theory World
  imports Crypto Cache Storage NetURL
begin

text \<open>
  What the engine's methods run in. \<open>env\<close> is everything outside the program: the storage operations,
  the clock, the random source, RSA and key generation, the upstream HTTP servers, the process
  environment and the host's issuer resolver. The clock, the random source, the generator and the
  network are oracles asked by position, so nothing is assumed of successive answers. \<open>world\<close> is what
  changes: the store, the cache, the engine's two in-memory maps and the oracles' positions. Each
  access to a map happens under the engine's lock and is one step.
\<close>

subsection \<open>Records of an authorization exchange (\<^verbatim>\<open>pkg/idp/idp_engine.go\<close>)\<close>

record AuthState =
  as_StateID :: string
  as_OrganizationID :: string
  as_AppID :: string
  as_ClientID :: string
  as_RedirectURI :: string
  as_Scope :: string
  as_OriginalState :: string
  as_UpstreamIDP :: string
  as_CodeChallenge :: string
  as_CodeChallengeMethod :: string
  as_Nonce :: string
  as_CreatedAt :: gotime

record AuthCode =
  ac_Code :: string
  ac_OrganizationID :: string
  ac_AppID :: string
  ac_ClientID :: string
  ac_RedirectURI :: string
  ac_Scope :: string
  ac_Claims :: "AuthClaims option"
  ac_CodeChallenge :: string
  ac_CodeChallengeMethod :: string
  ac_Nonce :: string
  ac_CreatedAt :: gotime
  ac_ExpiresAt :: gotime

record RefreshToken =
  rt_Token :: string
  rt_OrganizationID :: string
  rt_AppID :: string
  rt_ClientID :: string
  rt_Subject :: string
  rt_Scope :: string
  rt_Claims :: "AuthClaims option"
  rt_FamilyID :: string
  rt_CreatedAt :: gotime
  rt_ExpiresAt :: gotime

definition zero_state :: AuthState where
  "zero_state = \<lparr>as_StateID = [], as_OrganizationID = [], as_AppID = [], as_ClientID = [],
     as_RedirectURI = [], as_Scope = [], as_OriginalState = [], as_UpstreamIDP = [],
     as_CodeChallenge = [], as_CodeChallengeMethod = [], as_Nonce = [], as_CreatedAt = zero_time\<rparr>"

definition zero_code :: AuthCode where
  "zero_code = \<lparr>ac_Code = [], ac_OrganizationID = [], ac_AppID = [], ac_ClientID = [],
     ac_RedirectURI = [], ac_Scope = [], ac_Claims = None, ac_CodeChallenge = [],
     ac_CodeChallengeMethod = [], ac_Nonce = [], ac_CreatedAt = zero_time, ac_ExpiresAt = zero_time\<rparr>"

definition zero_refresh :: RefreshToken where
  "zero_refresh = \<lparr>rt_Token = [], rt_OrganizationID = [], rt_AppID = [], rt_ClientID = [],
     rt_Subject = [], rt_Scope = [], rt_Claims = None, rt_FamilyID = [], rt_CreatedAt = zero_time,
     rt_ExpiresAt = zero_time\<rparr>"

definition state_fields :: "AuthState field list" where
  "state_fields =
    [str_field ''StateID'' as_StateID as_StateID_update,
     str_field ''OrganizationID'' as_OrganizationID as_OrganizationID_update,
     str_field ''AppID'' as_AppID as_AppID_update,
     str_field ''ClientID'' as_ClientID as_ClientID_update,
     str_field ''RedirectURI'' as_RedirectURI as_RedirectURI_update,
     str_field ''Scope'' as_Scope as_Scope_update,
     str_field ''OriginalState'' as_OriginalState as_OriginalState_update,
     str_field ''UpstreamIDP'' as_UpstreamIDP as_UpstreamIDP_update,
     str_field ''CodeChallenge'' as_CodeChallenge as_CodeChallenge_update,
     str_field ''CodeChallengeMethod'' as_CodeChallengeMethod as_CodeChallengeMethod_update,
     str_field ''Nonce'' as_Nonce as_Nonce_update,
     time_field ''CreatedAt'' as_CreatedAt as_CreatedAt_update]"

definition code_fields :: "AuthCode field list" where
  "code_fields =
    [str_field ''Code'' ac_Code ac_Code_update,
     str_field ''OrganizationID'' ac_OrganizationID ac_OrganizationID_update,
     str_field ''AppID'' ac_AppID ac_AppID_update,
     str_field ''ClientID'' ac_ClientID ac_ClientID_update,
     str_field ''RedirectURI'' ac_RedirectURI ac_RedirectURI_update,
     str_field ''Scope'' ac_Scope ac_Scope_update,
     ptr_field ''Claims'' claims_fields zero_claims ac_Claims ac_Claims_update,
     str_field ''CodeChallenge'' ac_CodeChallenge ac_CodeChallenge_update,
     str_field ''CodeChallengeMethod'' ac_CodeChallengeMethod ac_CodeChallengeMethod_update,
     str_field ''Nonce'' ac_Nonce ac_Nonce_update,
     time_field ''CreatedAt'' ac_CreatedAt ac_CreatedAt_update,
     time_field ''ExpiresAt'' ac_ExpiresAt ac_ExpiresAt_update]"

definition refresh_fields :: "RefreshToken field list" where
  "refresh_fields =
    [str_field ''token'' rt_Token rt_Token_update,
     str_field ''organization_id'' rt_OrganizationID rt_OrganizationID_update,
     str_field ''app_id'' rt_AppID rt_AppID_update,
     str_field ''client_id'' rt_ClientID rt_ClientID_update,
     str_field ''subject'' rt_Subject rt_Subject_update,
     str_field ''scope'' rt_Scope rt_Scope_update,
     ptr_field ''claims'' claims_fields zero_claims rt_Claims rt_Claims_update,
     str_field ''family_id'' rt_FamilyID rt_FamilyID_update,
     time_field ''created_at'' rt_CreatedAt rt_CreatedAt_update,
     time_field ''expires_at'' rt_ExpiresAt rt_ExpiresAt_update]"

lemma state_roundtrip: "unmarshal state_fields zero_state (Doc (marshal state_fields a)) = Some a"
  by (rule unmarshal_marshal) (simp_all add: state_fields_def zero_state_def)

lemma code_roundtrip:
  "\<forall>c. ac_Claims a = Some c \<longrightarrow> claims_ok c \<Longrightarrow>
     unmarshal code_fields zero_code (Doc (marshal code_fields a)) = Some a"
  by (rule unmarshal_marshal) (simp_all add: code_fields_def zero_code_def claims_roundtrip)

lemma refresh_roundtrip:
  "\<forall>c. rt_Claims a = Some c \<longrightarrow> claims_ok c \<Longrightarrow>
     unmarshal refresh_fields zero_refresh (Doc (marshal refresh_fields a)) = Some a"
  by (rule unmarshal_marshal) (simp_all add: refresh_fields_def zero_refresh_def claims_roundtrip)

subsection \<open>The environment and the world\<close>

record http_request =
  rq_Method :: string
  rq_URL :: string
  rq_Header :: "(string \<times> string) list"
  rq_Body :: string

text \<open>
  \<^verbatim>\<open>http.NewRequest\<close> refuses the URL; no answer; or a status, the bytes of the body that arrived and
  whether they are all of it.
\<close>

datatype http_result = BadRequest | NoAnswer | Answer int string bool

record 's env =
  e_ops :: "'s store_ops"
  e_now :: "nat \<Rightarrow> gotime"
  e_rand :: "nat \<Rightarrow> string option"
  e_genkey :: "nat \<Rightarrow> genkey"
  e_rsa :: rsa_lib
  e_http :: "nat \<Rightarrow> http_request \<Rightarrow> http_result"
  e_getenv :: "string \<Rightarrow> string"
  e_resolver :: "(string \<Rightarrow> string) option"

record 's world =
  w_store :: 's
  w_cache :: MemoryCache
  w_states :: "string \<Rightarrow> AuthState option"
  w_codes :: "string \<Rightarrow> AuthCode option"
  w_tick :: nat
  w_draw :: nat
  w_gen :: nat
  w_req :: nat

definition new_world :: "'s \<Rightarrow> 's world" where
  "new_world s = \<lparr>w_store = s, w_cache = NewMemoryCache, w_states = (\<lambda>_. None), w_codes = (\<lambda>_. None),
     w_tick = 0, w_draw = 0, w_gen = 0, w_req = 0\<rparr>"

subsection \<open>Primitive calls\<close>

definition on_store :: "('s, sterr, 'a) eng \<Rightarrow> ('s world, sterr, 'a) eng" where
  "on_store m w = (case m (w_store w) of (r, s) \<Rightarrow> (r, w\<lparr>w_store := s\<rparr>))"

definition clock :: "'s env \<Rightarrow> ('s world, 'e, gotime) eng" where
  "clock E w = (Inr (e_now E (w_tick w)), w\<lparr>w_tick := Suc (w_tick w)\<rparr>)"

definition draw :: "'s env \<Rightarrow> ('s world, 'e, string option) eng" where
  "draw E w = (Inr (e_rand E (w_draw w)), w\<lparr>w_draw := Suc (w_draw w)\<rparr>)"

definition draw_key :: "'s env \<Rightarrow> ('s world, 'e, genkey) eng" where
  "draw_key E w = (Inr (e_genkey E (w_gen w)), w\<lparr>w_gen := Suc (w_gen w)\<rparr>)"

definition http_do :: "'s env \<Rightarrow> http_request \<Rightarrow> ('s world, 'e, http_result) eng" where
  "http_do E rq w = (Inr (e_http E (w_req w) rq), w\<lparr>w_req := Suc (w_req w)\<rparr>)"

definition cached :: "'s env \<Rightarrow> (MemoryCache \<Rightarrow> gotime \<Rightarrow> 'a) \<Rightarrow> ('s world, 'e, 'a) eng" where
  "cached E f w = (Inr (f (w_cache w) (e_now E (w_tick w))), w\<lparr>w_tick := Suc (w_tick w)\<rparr>)"

definition set_cached :: "'s env \<Rightarrow> (MemoryCache \<Rightarrow> gotime \<Rightarrow> MemoryCache) \<Rightarrow> ('s world, 'e, unit) eng" where
  "set_cached E f w =
     (Inr (), w\<lparr>w_cache := f (w_cache w) (e_now E (w_tick w)), w_tick := Suc (w_tick w)\<rparr>)"

definition set_states :: "((string \<Rightarrow> AuthState option) \<Rightarrow> string \<Rightarrow> AuthState option) \<Rightarrow> ('s world, 'e, unit) eng" where
  "set_states f w = (Inr (), w\<lparr>w_states := f (w_states w)\<rparr>)"

definition set_codes :: "((string \<Rightarrow> AuthCode option) \<Rightarrow> string \<Rightarrow> AuthCode option) \<Rightarrow> ('s world, 'e, unit) eng" where
  "set_codes f w = (Inr (), w\<lparr>w_codes := f (w_codes w)\<rparr>)"

definition secure_token :: "'s env \<Rightarrow> string \<Rightarrow> ('s world, cerr, string) eng" where
  "secure_token E prefx = andThen (draw E) (\<lambda>b. ofSum (SecureToken b prefx))"

definition generate_key :: "'s env \<Rightarrow> string \<Rightarrow> string \<Rightarrow> ('s world, cerr, SigningKey) eng" where
  "generate_key E orgID appID =
     andThen (draw_key E) (\<lambda>g. andThen (clock E) (\<lambda>now. ofSum (GenerateRSAKeyPair g now orgID appID)))"

text \<open>Verification reads the clock once per candidate key.\<close>

definition verify_jwt :: "'s env \<Rightarrow> string \<Rightarrow> SigningKey option list \<Rightarrow> VerifyOptions \<Rightarrow> ('s world, cerr, AuthClaims) eng" where
  "verify_jwt E tok keys opts w =
     (VerifyJWTWithOptions (e_rsa E) (\<lambda>i. e_now E (w_tick w + i)) tok keys opts,
      w\<lparr>w_tick := w_tick w + Suc (length keys)\<rparr>)"

subsection \<open>Which parts of the world a primitive call changes\<close>

lemma on_store_eq:
  "on_store m w = (r, w') \<longleftrightarrow> (\<exists>s. m (w_store w) = (r, s) \<and> w' = w\<lparr>w_store := s\<rparr>)"
  by (auto simp: on_store_def split: prod.splits)

lemma prims_eq:
  "clock E w = (r, w') \<longleftrightarrow> r = Inr (e_now E (w_tick w)) \<and> w' = w\<lparr>w_tick := Suc (w_tick w)\<rparr>"
  "draw E w = (d, w') \<longleftrightarrow> d = Inr (e_rand E (w_draw w)) \<and> w' = w\<lparr>w_draw := Suc (w_draw w)\<rparr>"
  "draw_key E w = (g, w') \<longleftrightarrow> g = Inr (e_genkey E (w_gen w)) \<and> w' = w\<lparr>w_gen := Suc (w_gen w)\<rparr>"
  "http_do E rq w = (h, w') \<longleftrightarrow> h = Inr (e_http E (w_req w) rq) \<and> w' = w\<lparr>w_req := Suc (w_req w)\<rparr>"
  "cached E f w = (a, w') \<longleftrightarrow>
     a = Inr (f (w_cache w) (e_now E (w_tick w))) \<and> w' = w\<lparr>w_tick := Suc (w_tick w)\<rparr>"
  "set_cached E f' w = (u, w') \<longleftrightarrow> u = Inr () \<and>
     w' = w\<lparr>w_cache := f' (w_cache w) (e_now E (w_tick w)), w_tick := Suc (w_tick w)\<rparr>"
  "set_states fs w = (u, w') \<longleftrightarrow> u = Inr () \<and> w' = w\<lparr>w_states := fs (w_states w)\<rparr>"
  "set_codes fc w = (u, w') \<longleftrightarrow> u = Inr () \<and> w' = w\<lparr>w_codes := fc (w_codes w)\<rparr>"
  by (auto simp: clock_def draw_def draw_key_def http_do_def cached_def set_cached_def set_states_def
      set_codes_def)

lemma secure_token_Inr:
  "secure_token E p w = (Inr t, w') \<longleftrightarrow>
     (\<exists>b. e_rand E (w_draw w) = Some b \<and> t = p @ EncodeToString b) \<and> w' = w\<lparr>w_draw := Suc (w_draw w)\<rparr>"
  by (auto simp: secure_token_def andThen_Inr prims_eq SecureToken_Inr eq_commute [of "Inr t"])

lemma verify_jwt_Inr:
  "verify_jwt E tok keys opts w = (Inr c, w') \<Longrightarrow>
     \<exists>now_at. VerifyJWTWithOptions (e_rsa E) now_at tok keys opts = Inr c"
  by (auto simp: verify_jwt_def)

text \<open>Every primitive but \<open>on_store\<close> leaves the store alone; the rules for the other parts are alike.\<close>

lemma keeps_prims [keeps_rules]:
  "keeps w_store (clock E)" "keeps w_store (draw E)" "keeps w_store (draw_key E)"
  "keeps w_store (http_do E rq)" "keeps w_store (cached E f)" "keeps w_store (set_cached E g)"
  "keeps w_store (set_states fs)" "keeps w_store (set_codes fc)" "keeps w_store (secure_token E p)"
  "keeps w_store (generate_key E org app)" "keeps w_store (verify_jwt E tok keys opts)"
  by (auto simp: keeps_def clock_def draw_def draw_key_def http_do_def cached_def set_cached_def
      set_states_def set_codes_def secure_token_def generate_key_def verify_jwt_def andThen_def ofSum_def)

lemma keeps_cache_prims [keeps_rules]:
  "keeps w_cache (clock E)" "keeps w_cache (draw E)" "keeps w_cache (draw_key E)"
  "keeps w_cache (http_do E rq)" "keeps w_cache (cached E f)" "keeps w_cache (on_store m)"
  "keeps w_cache (set_states fs)" "keeps w_cache (set_codes fc)" "keeps w_cache (secure_token E p)"
  "keeps w_cache (generate_key E org app)" "keeps w_cache (verify_jwt E tok keys opts)"
  by (auto simp: keeps_def clock_def draw_def draw_key_def http_do_def cached_def on_store_def
      set_states_def set_codes_def secure_token_def generate_key_def verify_jwt_def andThen_def ofSum_def
      split: prod.splits)

lemma keeps_view:
  "keeps w_store m \<Longrightarrow> keeps (\<lambda>w. f (w_store w)) m"
  by (simp add: keeps_def)

lemma keeps_on_store: "keeps g m \<Longrightarrow> keeps (\<lambda>w. g (w_store w)) (on_store m)"
  by (auto simp: keeps_def on_store_def split: prod.splits) (metis snd_conv)

end
