(* ===== verification/Floats.thy ===== *)
theory Floats
  imports JsonText
begin

text \<open>
  Numbers that are decoded into an empty interface: \<^verbatim>\<open>strconv.ParseFloat\<close> of the literal, to the nearest \<^verbatim>\<open>float64\<close>, and the
  text \<^verbatim>\<open>strconv.FormatFloat\<close> gives one, with the fewest digits that read back as the same number. A \<^verbatim>\<open>float64\<close> is a sign, a
  mantissa below \<open>2 ^ 53\<close> and an exponent of two; infinities and NaN do not come from JSON.
\<close>

subsection \<open>Reading\<close>

record f64 =
  fl_neg :: bool
  fl_mant :: nat
  fl_exp :: int

definition ten_pow :: "int \<Rightarrow> nat \<times> nat" where
  "ten_pow k = (if 0 \<le> k then (10 ^ nat k, 1) else (1, 10 ^ nat (- k)))"

definition two_pow :: "int \<Rightarrow> nat \<times> nat" where
  "two_pow k = (if 0 \<le> k then (2 ^ nat k, 1) else (1, 2 ^ nat (- k)))"

fun bit_length :: "nat \<Rightarrow> nat" where
  "bit_length n = (if n = 0 then 0 else Suc (bit_length (n div 2)))"

declare bit_length.simps [simp del]

text \<open>The exponent of two below the fraction \<open>n / d\<close>.\<close>

definition log2_floor :: "nat \<Rightarrow> nat \<Rightarrow> int" where
  "log2_floor n d =
     (let g = int (bit_length n) - int (bit_length d); (a, b) = two_pow g in if d * a \<le> n * b then g else g - 1)"

text \<open>The nearest mantissa and exponent, to even in the middle; subnormal numbers have the exponent \<open>-1074\<close>.\<close>

definition nearest :: "nat \<Rightarrow> nat \<Rightarrow> nat \<times> int" where
  "nearest n d =
     (if n = 0 then (0, 0)
      else (let e = max (log2_floor n d - 52) (-1074); (a, b) = two_pow e;
                q = (n * b) div (d * a); r = (n * b) mod (d * a);
                m = (if 2 * r > d * a \<or> 2 * r = d * a \<and> odd q then q + 1 else q) in
            if m = 2 ^ 53 then (2 ^ 52, e + 1) else (m, e)))"

text \<open>A literal: its sign, its digits as a number, and the exponent of ten.\<close>

definition signed_val :: "string \<Rightarrow> int" where
  "signed_val s =
     (case s of
        [] \<Rightarrow> 0
      | c # t \<Rightarrow> if c = CHR ''-'' then - int (digits_val t) else if c = CHR ''+'' then int (digits_val t) else int (digits_val s))"

definition decimal :: "string \<Rightarrow> bool \<times> nat \<times> int" where
  "decimal s =
     (let (neg, u) = (case s of c # t \<Rightarrow> if c = CHR ''-'' then (True, t) else (False, s) | [] \<Rightarrow> (False, s));
          ip = takeWhile is_digit u; rest = dropWhile is_digit u;
          (frac, ex) = (case rest of
              c # t \<Rightarrow> if c = CHR ''.'' then (takeWhile is_digit t, dropWhile is_digit t) else ([], rest)
            | [] \<Rightarrow> ([], [])) in
      (neg, digits_val (ip @ frac), signed_val (drop 1 ex) - int (length frac)))"

definition float_of :: "bool \<times> nat \<times> int \<Rightarrow> f64" where
  "float_of x = (case x of (neg, m, k) \<Rightarrow>
     (case ten_pow k of (a, b) \<Rightarrow> case nearest (m * a) b of (q, e) \<Rightarrow> \<lparr>fl_neg = neg, fl_mant = q, fl_exp = e\<rparr>))"

text \<open>Out of range: rounded to \<open>2 ^ 1024\<close> or more.\<close>

definition in_range :: "f64 \<Rightarrow> bool" where
  "in_range f \<longleftrightarrow> fl_exp f \<le> 971"

definition number_parts :: "jval \<Rightarrow> bool \<times> nat \<times> int" where
  "number_parts j = (case j of JInt i \<Rightarrow> (i < 0, nat \<bar>i\<bar>, 0) | JDec s \<Rightarrow> decimal s | _ \<Rightarrow> (False, 0, 0))"

fun floats_ok :: "jval \<Rightarrow> bool" where
  "floats_ok (JInt i) = in_range (float_of (number_parts (JInt i)))"
| "floats_ok (JDec s) = in_range (float_of (number_parts (JDec s)))"
| "floats_ok (JArr vs) = list_all floats_ok vs"
| "floats_ok (JObj es) = list_all (\<lambda>(k, v). floats_ok v) es"
| "floats_ok _ = True"

subsection \<open>Writing\<close>

text \<open>The value as a fraction, and the number of its digits before the decimal point.\<close>

definition fraction :: "f64 \<Rightarrow> nat \<times> nat" where
  "fraction f = (case two_pow (fl_exp f) of (a, b) \<Rightarrow> (fl_mant f * a, b))"

definition point_of :: "nat \<Rightarrow> nat \<Rightarrow> int" where
  "point_of n d = int (length (nat_str (n * 10 ^ 400 div d))) - 400"

text \<open>With \<open>p\<close> digits: the decimals next to the number, below and above, that read back as it; of two the nearer.\<close>

definition with_digits :: "nat \<Rightarrow> f64 \<Rightarrow> (nat \<times> int) option" where
  "with_digits p f =
     (let (n, d) = fraction f; k = point_of n d - int p; (a, b) = ten_pow k;
          q = (n * b) div (d * a); r = (n * b) mod (d * a);
          ok = (\<lambda>c. float_of (fl_neg f, c, k) = f) in
      if r = 0 then Some (q, k)
      else if ok q \<and> (2 * r < d * a \<or> 2 * r = d * a \<and> even q \<or> \<not> ok (q + 1)) then Some (q, k)
      else if ok (q + 1) then Some (q + 1, k) else None)"

primrec first_some :: "(nat \<Rightarrow> 'a option) \<Rightarrow> nat \<Rightarrow> nat \<Rightarrow> 'a option" where
  "first_some g p 0 = None"
| "first_some g p (Suc i) = (case g p of Some x \<Rightarrow> Some x | None \<Rightarrow> first_some g (Suc p) i)"

definition strip_zeros :: "string \<Rightarrow> string" where
  "strip_zeros s = rev (dropWhile (\<lambda>c. c = CHR ''0'') (rev s))"

text \<open>The digits without zeros at the end, and where the decimal point is.\<close>

definition shortest :: "f64 \<Rightarrow> string \<times> int" where
  "shortest f =
     (if fl_mant f = 0 then ([], 0)
      else (case first_some (\<lambda>p. with_digits p f) 1 17 of
          None \<Rightarrow> ([], 0)
        | Some (c, k) \<Rightarrow> (let s = nat_str c in (strip_zeros s, int (length s) + k))))"

definition sign :: "f64 \<Rightarrow> string" where
  "sign f = (if fl_neg f then ''-'' else [])"

text \<open>\<^verbatim>\<open>FormatFloat(v, 'f', -1, 64)\<close>\<close>

definition format_f :: "f64 \<Rightarrow> string" where
  "format_f f =
     (case shortest f of (ds, dp) \<Rightarrow> sign f @
        (if dp \<le> 0 then (if ds = [] then ''0'' else ''0.'' @ replicate (nat (- dp)) (CHR ''0'') @ ds)
         else if int (length ds) \<le> dp then ds @ replicate (nat dp - length ds) (CHR ''0'')
         else take (nat dp) ds @ ''.'' @ drop (nat dp) ds))"

definition exponent :: "int \<Rightarrow> string" where
  "exponent x = (if x < 0 then ''e-'' else ''e+'') @ (if \<bar>x\<bar> < 10 then ''0'' else []) @ nat_str (nat \<bar>x\<bar>)"

text \<open>\<^verbatim>\<open>FormatFloat(v, 'g', -1, 64)\<close>, which \<^verbatim>\<open>%v\<close> uses: an exponent below -4 or from 6 on is written out.\<close>

definition format_g :: "f64 \<Rightarrow> string" where
  "format_g f =
     (case shortest f of (ds, dp) \<Rightarrow>
        if ds \<noteq> [] \<and> (dp - 1 < -4 \<or> 6 \<le> dp - 1)
        then sign f @ take 1 ds @ (if length ds = 1 then [] else ''.'' @ drop 1 ds) @ exponent (dp - 1)
        else format_f f)"

text \<open>Its integer value, when it is one.\<close>

definition integral :: "f64 \<Rightarrow> int option" where
  "integral f = (case fraction f of (n, d) \<Rightarrow>
     if n mod d = 0 then Some (if fl_neg f then - int (n div d) else int (n div d)) else None)"

end
