(* ===== verification/Claims.thy ===== *)
theory Claims
  imports World Floats
begin

text \<open>
  \<^verbatim>\<open>pkg/idp/claims.go\<close>: provider presets, the merge of a stored provider with its preset, reading
  mapped fields out of a profile, and fetching a profile from the upstream provider. A profile is the
  decoded JSON object; of a repeated key the last occurrence counts. Numbers are \<^verbatim>\<open>float64\<close> (\<open>Floats\<close>).
\<close>

record Preset =
  pr_Type :: string
  pr_AuthorizeURL :: string
  pr_TokenURL :: string
  pr_UserInfoURL :: string
  pr_EmailsURL :: string
  pr_Scopes :: "string list"
  pr_Mapping :: ClaimMapping

definition presets :: "(string \<times> Preset) list" where
  "presets =
    [(''google'', \<lparr>pr_Type = ''oidc'',
        pr_AuthorizeURL = ''https://accounts.google.com/o/oauth2/v2/auth'',
        pr_TokenURL = ''https://oauth2.googleapis.com/token'',
        pr_UserInfoURL = ''https://openidconnect.googleapis.com/v1/userinfo'',
        pr_EmailsURL = [],
        pr_Scopes = [''openid'', ''email'', ''profile''],
        pr_Mapping = zero_mapping\<lparr>cm_Subject := ''sub'', cm_Email := ''email'',
          cm_EmailVerified := ''email_verified'', cm_Name := ''name'', cm_Username := ''email''\<rparr>\<rparr>),
     (''github'', \<lparr>pr_Type = ''oauth2'',
        pr_AuthorizeURL = ''https://github.com/login/oauth/authorize'',
        pr_TokenURL = ''https://github.com/login/oauth/access_token'',
        pr_UserInfoURL = ''https://api.github.com/user'',
        pr_EmailsURL = ''https://api.github.com/user/emails'',
        pr_Scopes = [''read:user'', ''user:email''],
        pr_Mapping = zero_mapping\<lparr>cm_Subject := ''id'', cm_Email := ''email'', cm_Name := ''name'',
          cm_Username := ''login''\<rparr>\<rparr>),
     (''microsoft'', \<lparr>pr_Type = ''oidc'',
        pr_AuthorizeURL = ''https://login.microsoftonline.com/common/oauth2/v2.0/authorize'',
        pr_TokenURL = ''https://login.microsoftonline.com/common/oauth2/v2.0/token'',
        pr_UserInfoURL = ''https://graph.microsoft.com/oidc/userinfo'',
        pr_EmailsURL = [],
        pr_Scopes = [''openid'', ''email'', ''profile''],
        pr_Mapping = zero_mapping\<lparr>cm_Subject := ''sub'', cm_Email := ''email'', cm_Name := ''name'',
          cm_Username := ''preferred_username''\<rparr>\<rparr>),
     (''facebook'', \<lparr>pr_Type = ''oauth2'',
        pr_AuthorizeURL = ''https://www.facebook.com/v19.0/dialog/oauth'',
        pr_TokenURL = ''https://graph.facebook.com/v19.0/oauth/access_token'',
        pr_UserInfoURL = ''https://graph.facebook.com/me?fields=id,name,email'',
        pr_EmailsURL = [],
        pr_Scopes = [''public_profile'', ''email''],
        pr_Mapping = zero_mapping\<lparr>cm_Subject := ''id'', cm_Email := ''email'', cm_Name := ''name''\<rparr>\<rparr>),
     (''instagram'', \<lparr>pr_Type = ''oauth2'',
        pr_AuthorizeURL = ''https://api.instagram.com/oauth/authorize'',
        pr_TokenURL = ''https://api.instagram.com/oauth/access_token'',
        pr_UserInfoURL = ''https://graph.instagram.com/me?fields=id,username'',
        pr_EmailsURL = [],
        pr_Scopes = [''user_profile''],
        pr_Mapping = zero_mapping\<lparr>cm_Subject := ''id'', cm_Username := ''username'',
          cm_Name := ''username''\<rparr>\<rparr>)]"

definition PresetFor :: "string \<Rightarrow> Preset option" where
  "PresetFor name = map_of presets (ToLower (TrimSpace name))"

text \<open>\<^verbatim>\<open>if merged.X == "" { merged.X = preset.X }\<close>; for the scopes, a slice.\<close>

definition orElse :: "'a list \<Rightarrow> 'a list \<Rightarrow> 'a list" where
  "orElse x d = (if x = [] then d else x)"

definition merge_mapping :: "ClaimMapping \<Rightarrow> ClaimMapping \<Rightarrow> ClaimMapping" where
  "merge_mapping m d =
     \<lparr>cm_Subject = orElse (cm_Subject m) (cm_Subject d), cm_Email = orElse (cm_Email m) (cm_Email d),
      cm_EmailVerified = orElse (cm_EmailVerified m) (cm_EmailVerified d),
      cm_Name = orElse (cm_Name m) (cm_Name d), cm_Username = orElse (cm_Username m) (cm_Username d),
      cm_Groups = orElse (cm_Groups m) (cm_Groups d), cm_Roles = orElse (cm_Roles m) (cm_Roles d)\<rparr>"

definition preset_name :: "IdentityProvider \<Rightarrow> string" where
  "preset_name p = (if idp_Preset p = [] then idp_ID p else idp_Preset p)"

definition effectiveProvider :: "IdentityProvider \<Rightarrow> IdentityProvider" where
  "effectiveProvider p =
     (case PresetFor (preset_name p) of
        None \<Rightarrow> p
      | Some preset \<Rightarrow>
          p\<lparr>idp_Type := orElse (idp_Type p) (pr_Type preset),
            idp_AuthorizeURL := orElse (idp_AuthorizeURL p) (pr_AuthorizeURL preset),
            idp_TokenURL := orElse (idp_TokenURL p) (pr_TokenURL preset),
            idp_UserInfoURL := orElse (idp_UserInfoURL p) (pr_UserInfoURL preset),
            idp_EmailsURL := orElse (idp_EmailsURL p) (pr_EmailsURL preset),
            idp_Scopes := orElse (idp_Scopes p) (pr_Scopes preset),
            idp_ClaimMapping := merge_mapping (idp_ClaimMapping p) (pr_Mapping preset)\<rparr>)"

lemma orElse_simps [simp]: "orElse [] d = d" "x \<noteq> [] \<Longrightarrow> orElse x d = x" "orElse (orElse x d) d = orElse x d"
  by (simp_all add: orElse_def)

lemma merge_mapping_idem [simp]: "merge_mapping (merge_mapping m d) d = merge_mapping m d"
  by (simp add: merge_mapping_def)

subsection \<open>Reading a profile\<close>

type_synonym profile = "(string \<times> jval) list"

definition obj_get :: "profile \<Rightarrow> string \<Rightarrow> jval option" where
  "obj_get es k = map_of (rev es) k"

fun lookup_segments :: "jval \<Rightarrow> string list \<Rightarrow> jval option" where
  "lookup_segments current [] = Some current"
| "lookup_segments current (segment # segments) =
     (case current of
        JObj obj \<Rightarrow> (case obj_get obj segment of None \<Rightarrow> None | Some v \<Rightarrow> lookup_segments v segments)
      | _ \<Rightarrow> None)"

definition lookupField :: "profile \<Rightarrow> string \<Rightarrow> jval option" where
  "lookupField profile path =
     (if path = [] then None else lookup_segments (JObj profile) (Split path (CHR ''.'')))"

text \<open>
  An integral number is written as the integer it is, if that has 64 bits. (Outside, the conversion to \<^verbatim>\<open>int64\<close> depends on the
  processor; on amd64 it gives the least integer, which is not the number.)
\<close>

definition num_string :: "jval \<Rightarrow> string" where
  "num_string j =
     (let v = float_of (number_parts j) in
      case integral v of
        Some i \<Rightarrow> if int64 i then FormatInt i else format_f v
      | None \<Rightarrow> format_f v)"

text \<open>\<^verbatim>\<open>fmt.Sprintf("%v", v)\<close> of a decoded value: maps are written in the order of their keys.
  Instants do not occur in decoded text.\<close>

fun fmt_v :: "jval \<Rightarrow> string" where
  "fmt_v JNull = ''<nil>''"
| "fmt_v (JBool b) = (if b then ''true'' else ''false'')"
| "fmt_v (JInt i) = format_g (float_of (number_parts (JInt i)))"
| "fmt_v (JDec s) = format_g (float_of (number_parts (JDec s)))"
| "fmt_v (JStr s) = s"
| "fmt_v (JTime t) = []"
| "fmt_v (JArr vs) = ''['' @ Join (map (fmt_v) vs) '' '' @ '']''"
| "fmt_v (JObj es) =
     ''map['' @ Join (map (\<lambda>(k, s). k @ '':'' @ s)
         (sort_key fst (AList.clearjunk (rev (map (\<lambda>(k, v). (k, fmt_v v)) es))))) '' '' @ '']''"

definition stringField :: "profile \<Rightarrow> string \<Rightarrow> string" where
  "stringField profile path =
     (case lookupField profile path of
        None \<Rightarrow> []
      | Some JNull \<Rightarrow> []
      | Some (JStr s) \<Rightarrow> s
      | Some (JBool b) \<Rightarrow> (if b then ''true'' else ''false'')
      | Some (JInt i) \<Rightarrow> num_string (JInt i)
      | Some (JDec s) \<Rightarrow> num_string (JDec s)
      | Some v \<Rightarrow> fmt_v v)"

definition ParseBool :: "string \<Rightarrow> bool option" where
  "ParseBool s =
     (if s \<in> set [''1'', ''t'', ''T'', ''TRUE'', ''true'', ''True''] then Some True
      else if s \<in> set [''0'', ''f'', ''F'', ''FALSE'', ''false'', ''False''] then Some False
      else None)"

text \<open>The value and whether it is present.\<close>

definition boolField :: "profile \<Rightarrow> string \<Rightarrow> bool \<times> bool" where
  "boolField profile path =
     (case lookupField profile path of
        Some (JBool b) \<Rightarrow> (b, True)
      | Some (JStr s) \<Rightarrow> (case ParseBool s of None \<Rightarrow> (False, False) | Some b \<Rightarrow> (b, True))
      | _ \<Rightarrow> (False, False))"

definition nonempty_strs :: "jval list \<Rightarrow> string list" where
  "nonempty_strs vs = concat (map (\<lambda>v. case v of JStr s \<Rightarrow> if s = [] then [] else [s] | _ \<Rightarrow> []) vs)"

definition stringsField :: "profile \<Rightarrow> string \<Rightarrow> string list" where
  "stringsField profile path =
     (case lookupField profile path of
        Some (JArr vs) \<Rightarrow> nonempty_strs vs
      | Some (JStr s) \<Rightarrow> (if s = [] then [] else Split s (CHR 0x20))
      | _ \<Rightarrow> [])"

subsection \<open>Fetching\<close>

datatype fetcherr = FRequest | FNoAnswer | FRead | FStatus int | FNotObject

definition maxProfileBytes :: nat where
  "maxProfileBytes = 2 ^ 20"

text \<open>A body longer than the limit is cut there; a read error past the limit is not seen.\<close>

definition fetchBody :: "'s env \<Rightarrow> string \<Rightarrow> string \<Rightarrow> ('s world, fetcherr, string) eng" where
  "fetchBody E url accessToken =
     andThen (http_do E \<lparr>rq_Method = ''GET'', rq_URL = url,
        rq_Header = [(''Authorization'', ''Bearer '' @ accessToken), (''Accept'', ''application/json''),
                     (''User-Agent'', ''AuthPole-Mediator'')],
        rq_Body = []\<rparr>)
       (\<lambda>resp. case resp of
           BadRequest \<Rightarrow> fail FRequest
         | NoAnswer \<Rightarrow> fail FNoAnswer
         | Answer status body whole \<Rightarrow>
             if \<not> whole \<and> length body < maxProfileBytes then fail FRead
             else if status < 200 \<or> status \<ge> 300 then fail (FStatus status)
             else ret (take maxProfileBytes body))"

text \<open>A number that does not fit a \<^verbatim>\<open>float64\<close> is an error, wherever it stands.\<close>

definition fetchJSONObject :: "'s env \<Rightarrow> string \<Rightarrow> string \<Rightarrow> ('s world, fetcherr, profile) eng" where
  "fetchJSONObject E url accessToken =
     andThen (fetchBody E url accessToken)
       (\<lambda>body. case parse_json body of
           Some (JObj es) \<Rightarrow> if floats_ok (JObj es) then ret es else fail FNotObject
         | Some JNull \<Rightarrow> ret []
         | _ \<Rightarrow> fail FNotObject)"

record EmailEntry =
  em_Email :: string
  em_Primary :: bool
  em_Verified :: bool

definition email_fields :: "EmailEntry field list" where
  "email_fields =
    [str_field ''email'' em_Email em_Email_update, bool_field ''primary'' em_Primary em_Primary_update,
     bool_field ''verified'' em_Verified em_Verified_update]"

definition zero_email :: EmailEntry where
  "zero_email = \<lparr>em_Email = [], em_Primary = False, em_Verified = False\<rparr>"

definition decode_emails :: "string \<Rightarrow> EmailEntry list option" where
  "decode_emails body =
     (case parse_json body of
        Some (JArr vs) \<Rightarrow>
          if list_all (\<lambda>v. fst (decode_into email_fields v zero_email)) vs
          then Some (map (\<lambda>v. snd (decode_into email_fields v zero_email)) vs) else None
      | Some JNull \<Rightarrow> Some []
      | _ \<Rightarrow> None)"

definition primary_email :: "EmailEntry list \<Rightarrow> string" where
  "primary_email list =
     (case List.find (\<lambda>entry. em_Primary entry \<and> em_Verified entry) list of
        Some entry \<Rightarrow> em_Email entry
      | None \<Rightarrow>
          (case List.find em_Verified list of Some entry \<Rightarrow> em_Email entry | None \<Rightarrow> []))"

definition fetchPrimaryEmail :: "'s env \<Rightarrow> string \<Rightarrow> string \<Rightarrow> ('s world, fetcherr, string) eng" where
  "fetchPrimaryEmail E url accessToken =
     attempt (fetchBody E url accessToken)
       (\<lambda>r. case r of
           Inl err \<Rightarrow> ret []
         | Inr body \<Rightarrow> (case decode_emails body of None \<Rightarrow> ret [] | Some list \<Rightarrow> ret (primary_email list)))"

datatype claimerr =
    NoUserInfoURL string | NoSubjectMapping string | ProfileFetch string fetcherr
  | NoSubject string string | EmailUnverified string

text \<open>The last part of \<^verbatim>\<open>fetchUpstreamClaims\<close>: the claims from a profile and the address in hand.\<close>

definition claims_of_profile ::
  "IdentityProvider \<Rightarrow> ClaimMapping \<Rightarrow> profile \<Rightarrow> string \<Rightarrow> string \<Rightarrow> AuthClaims" where
  "claims_of_profile provider cm profile subject email =
     (let username = stringField profile (cm_Username cm);
          name0 = stringField profile (cm_Name cm);
          name = (if name0 = [] then (if username \<noteq> [] then username else email) else name0);
          roles = stringsField profile (cm_Roles cm) in
      zero_claims\<lparr>cl_Subject := idp_ID provider @ ''_'' @ subject, cl_UpstreamSubject := subject,
        cl_OriginalIDP := idp_ID provider, cl_Email := email, cl_Name := name, cl_PreferredUser := username,
        cl_Groups := stringsField profile (cm_Groups cm),
        cl_Roles := (if roles = [] then [''user''] else roles)\<rparr>)"

definition fetchUpstreamClaims ::
  "'s env \<Rightarrow> IdentityProvider \<Rightarrow> string \<Rightarrow> ('s world, claimerr, AuthClaims) eng" where
  "fetchUpstreamClaims E provider accessToken =
     (let cfg = effectiveProvider provider; cm = idp_ClaimMapping cfg in
      if idp_UserInfoURL cfg = [] then fail (NoUserInfoURL (idp_ID provider))
      else if cm_Subject cm = [] then fail (NoSubjectMapping (idp_ID provider))
      else andThen (wrapErr (ProfileFetch (idp_ID provider)) (fetchJSONObject E (idp_UserInfoURL cfg) accessToken))
        (\<lambda>profile.
          let subject = stringField profile (cm_Subject cm);
              email0 = stringField profile (cm_Email cm) in
          if subject = [] then fail (NoSubject (idp_ID provider) (cm_Subject cm))
          else andThen
            (if email0 = [] \<and> idp_EmailsURL cfg \<noteq> []
             then wrapErr (ProfileFetch (idp_ID provider)) (fetchPrimaryEmail E (idp_EmailsURL cfg) accessToken)
             else ret email0)
            (\<lambda>email.
              if email \<noteq> [] \<and> cm_EmailVerified cm \<noteq> [] \<and>
                 (case boolField profile (cm_EmailVerified cm) of (verified, present) \<Rightarrow> present \<and> \<not> verified)
              then fail (EmailUnverified (idp_ID provider))
              else ret (claims_of_profile provider cm profile subject email))))"

subsection \<open>Facts\<close>

lemma fetchBody_Inr:
  "fetchBody E url tok w = (Inr body, w') \<Longrightarrow>
     \<exists>rq status b whole. e_http E (w_req w) rq = Answer status b whole \<and> rq_URL rq = url \<and>
       200 \<le> status \<and> status < 300 \<and> body = take maxProfileBytes b"
  by (fastforce simp: fetchBody_def andThen_Inr prims_eq split: http_result.splits if_splits)

lemma find_Some_mem: "List.find P xs = Some x \<Longrightarrow> x \<in> set xs \<and> P x"
  by (auto simp: find_Some_iff)

lemma primary_email_verified:
  "primary_email list \<noteq> [] \<Longrightarrow> \<exists>e \<in> set list. em_Verified e \<and> em_Email e = primary_email list"
  by (auto simp: primary_email_def dest!: find_Some_mem split: option.splits)

lemma stringField_missing [simp]: "stringField profile [] = []"
  by (simp add: stringField_def lookupField_def)

lemma stringsField_missing [simp]: "stringsField profile [] = []"
  by (simp add: stringsField_def lookupField_def)

lemma keeps_fetchBody [keeps_rules]: "keeps w_store (fetchBody E url tok)"
  unfolding fetchBody_def by (intro keeps_rules) (auto split: http_result.splits intro!: keeps_rules)

lemma keeps_fetchJSON [keeps_rules]: "keeps w_store (fetchJSONObject E url tok)"
  unfolding fetchJSONObject_def
  by (intro keeps_rules) (auto split: option.splits jval.splits intro!: keeps_rules)

lemma keeps_fetchPrimaryEmail [keeps_rules]: "keeps w_store (fetchPrimaryEmail E url tok)"
  unfolding fetchPrimaryEmail_def by (intro keeps_rules)

lemma keeps_fetchUpstreamClaims [keeps_rules]: "keeps w_store (fetchUpstreamClaims E p tok)"
  unfolding fetchUpstreamClaims_def by (intro keeps_rules)

text \<open>What a successful fetch went through: the profile it read and the claims it built.\<close>

lemma fetchUpstreamClaims_Inr:
  assumes "fetchUpstreamClaims E provider tok w = (Inr c, w')"
  obtains profile email w1 where
    "idp_UserInfoURL (effectiveProvider provider) \<noteq> []"
    "fetchJSONObject E (idp_UserInfoURL (effectiveProvider provider)) tok w = (Inr profile, w1)"
    "stringField profile (cm_Subject (idp_ClaimMapping (effectiveProvider provider))) \<noteq> []"
    "\<not> (email \<noteq> [] \<and> cm_EmailVerified (idp_ClaimMapping (effectiveProvider provider)) \<noteq> [] \<and>
        boolField profile (cm_EmailVerified (idp_ClaimMapping (effectiveProvider provider))) = (False, True))"
    "c = claims_of_profile provider (idp_ClaimMapping (effectiveProvider provider)) profile
       (stringField profile (cm_Subject (idp_ClaimMapping (effectiveProvider provider)))) email"
  using assms unfolding fetchUpstreamClaims_def Let_def
  by (auto simp: eng_Inr split: if_splits prod.splits)

end
