(* ===== verification/Engine.thy ===== *)
theory Engine
  imports Claims
begin

text \<open>
  \<^verbatim>\<open>pkg/idp/idp_engine.go\<close>: the authorization server. Each method is a function of the environment \<open>E\<close>
  on the world; each place that returns an error has its own error value.
\<close>

text \<open>
  \<open>Msg\<close> holds a format and its arguments; the others wrap the error of a call (\<^verbatim>\<open>%w\<close>). The name of an
  error stands for its format.
\<close>

datatype eerr =
    Msg string "string list"
  | ByStore string sterr
  | ByCrypto string cerr
  | ByClaims claimerr
  | ByEngine string eerr

abbreviation EClaims where "EClaims \<equiv> ByClaims"
abbreviation EAppLookup where "EAppLookup \<equiv> ByStore ''invalid app or client_id: %w''"
abbreviation EAppParse where "EAppParse \<equiv> Msg ''failed to parse application'' []"
abbreviation ERedirectURI where "ERedirectURI uri app \<equiv> Msg ''redirect_uri %q is not authorized for app %s'' [uri, app]"
abbreviation EChallengeRequired where "EChallengeRequired app \<equiv> Msg ''code_challenge is required for public client %s (PKCE, RFC 7636)'' [app]"
abbreviation EMethodRequired where "EMethodRequired \<equiv> Msg ''code_challenge_method is required and must be S256'' []"
abbreviation EMethodUnsupported where "EMethodUnsupported m \<equiv> Msg ''unsupported code_challenge_method %q: only S256 is accepted'' [m]"
abbreviation EListIDPs where "EListIDPs \<equiv> ByStore ''failed to list identity providers: %w''"
abbreviation ENoIDP where "ENoIDP \<equiv> Msg ''no upstream identity provider is configured for this tenant'' []"
abbreviation EIDPRequired where "EIDPRequired n ids \<equiv> Msg ''the idp parameter is required: this tenant has %d identity providers configured (%s)'' [n, ids]"
abbreviation EIDPNotAllowed where "EIDPNotAllowed idp app \<equiv> Msg ''identity provider %q is not enabled for app %s'' [idp, app]"
abbreviation EStateToken where "EStateToken \<equiv> ByCrypto ''failed to generate authorization state: %w''"
abbreviation EStatePersist where "EStatePersist \<equiv> ByStore ''failed to persist authorization state: %w''"
abbreviation ENoAuthorizeURL where "ENoAuthorizeURL idp \<equiv> Msg ''identity provider %q has no authorize_url configured'' [idp]"
abbreviation EStateSession where "EStateSession \<equiv> Msg ''invalid or expired state session'' []"
abbreviation EUpstreamResolve where "EUpstreamResolve \<equiv> ByEngine ''failed to resolve upstream IDP: %w''"
abbreviation ENoTokenURL where "ENoTokenURL idp \<equiv> Msg ''identity provider %q has no token_url configured'' [idp]"
abbreviation ETokenRequest where "ETokenRequest \<equiv> Msg ''failed to create token request'' []"
abbreviation ETokenHTTP where "ETokenHTTP \<equiv> Msg ''token exchange HTTP request failed'' []"
abbreviation ETokenStatus where "ETokenStatus status body \<equiv> Msg ''upstream token endpoint returned HTTP %d: %s'' [status, body]"
abbreviation ETokenParse where "ETokenParse \<equiv> Msg ''failed to parse upstream token response'' []"
abbreviation ETokenUpstream where "ETokenUpstream e d \<equiv> Msg ''upstream token error: %s - %s'' [e, d]"
abbreviation ENoUpstreamToken where "ENoUpstreamToken \<equiv> Msg ''upstream IDP did not return an access token'' []"
abbreviation EAuthStateSession where "EAuthStateSession \<equiv> Msg ''invalid or expired authorization state session'' []"
abbreviation ECodeToken where "ECodeToken \<equiv> ByCrypto ''failed to generate authorization code: %w''"
abbreviation ECodePersist where "ECodePersist \<equiv> ByStore ''failed to persist authorization code: %w''"
abbreviation EGrantType where "EGrantType g \<equiv> Msg ''unsupported grant_type %q'' [g]"
abbreviation ECodeInvalid where "ECodeInvalid \<equiv> Msg ''invalid or already consumed authorization code'' []"
abbreviation ECodeExpired where "ECodeExpired \<equiv> Msg ''authorization code has expired'' []"
abbreviation EClientMismatch where "EClientMismatch \<equiv> Msg ''client_id does not match the authorization code'' []"
abbreviation ERedirectMismatch where "ERedirectMismatch \<equiv> Msg ''redirect_uri does not match the authorization request'' []"
abbreviation EClientCredentials where "EClientCredentials \<equiv> Msg ''invalid client credentials'' []"
abbreviation ENoChallenge where "ENoChallenge \<equiv> Msg ''authorization code was issued without a PKCE challenge'' []"
abbreviation EVerifierRequired where "EVerifierRequired \<equiv> Msg ''code_verifier is required (PKCE, RFC 7636)'' []"
abbreviation EVerifierLength where "EVerifierLength \<equiv> Msg ''code_verifier must be between 43 and 128 characters'' []"
abbreviation EChallengeMethod where "EChallengeMethod m \<equiv> Msg ''unsupported code_challenge_method %q'' [m]"
abbreviation EVerifierMismatch where "EVerifierMismatch \<equiv> Msg ''code_verifier does not match the code_challenge'' []"
abbreviation ERefreshRequired where "ERefreshRequired \<equiv> Msg ''refresh_token is required'' []"
abbreviation ERefreshInvalid where "ERefreshInvalid \<equiv> Msg ''invalid, expired or already used refresh token'' []"
abbreviation ERefreshRecord where "ERefreshRecord \<equiv> Msg ''invalid refresh token record'' []"
abbreviation ERefreshExpired where "ERefreshExpired \<equiv> Msg ''refresh token has expired'' []"
abbreviation ERefreshClient where "ERefreshClient \<equiv> Msg ''refresh token was not issued to this client'' []"
abbreviation ENoClaims where "ENoClaims \<equiv> Msg ''cannot issue tokens without upstream identity claims'' []"
abbreviation ETokenID where "ETokenID \<equiv> ByCrypto ''failed to generate token id: %w''"
abbreviation ESignAccess where "ESignAccess \<equiv> ByCrypto ''failed to sign access token: %w''"
abbreviation ESignID where "ESignID \<equiv> ByCrypto ''failed to sign ID token: %w''"
abbreviation ERefreshToken where "ERefreshToken \<equiv> ByCrypto ''failed to generate refresh token: %w''"
abbreviation EFamilyToken where "EFamilyToken \<equiv> ByCrypto ''failed to generate refresh token family: %w''"
abbreviation ERefreshPersist where "ERefreshPersist \<equiv> ByStore ''failed to persist refresh token: %w''"
abbreviation EKeyGen where "EKeyGen \<equiv> ByCrypto ''failed to generate signing key: %w''"
abbreviation EKeyPersist where "EKeyPersist \<equiv> ByStore ''failed to persist signing key: %w''"
abbreviation EListKeys where "EListKeys \<equiv> ByStore ''failed to list signing keys: %w''"
abbreviation EGoogleUnavailable where "EGoogleUnavailable \<equiv> Msg ''Google sign-in is not available: AUTHPOLE_GOOGLE_CLIENT_ID is not set on this server. Run: make set-oauth-credentials GOOGLE_CLIENT_ID=... && make deploy-server'' []"
abbreviation EGitHubUnavailable where "EGitHubUnavailable \<equiv> Msg ''GitHub sign-in is not available: AUTHPOLE_GITHUB_CLIENT_ID is not set on this server. Run: make set-oauth-credentials GITHUB_CLIENT_ID=... && make deploy-server'' []"
abbreviation EPlatformIDP where "EPlatformIDP idp \<equiv> Msg ''unsupported platform IDP %q: admin console only supports google and github'' [idp]"
abbreviation EIDPUnknown where "EIDPUnknown idp org \<equiv> Msg ''upstream identity provider %q is not configured for organization %q'' [idp, org]"

definition pkceMethodS256 :: string where
  "pkceMethodS256 = ''S256''"

definition containsString :: "string list \<Rightarrow> string \<Rightarrow> bool" where
  "containsString list v = list_ex (\<lambda>item. item = v) list"

definition authStateTTL :: duration where "authStateTTL = 15 * Minute"
definition authCodeTTL :: duration where "authCodeTTL = 2 * Minute"
definition accessTokenTTL :: duration where "accessTokenTTL = 15 * Minute"
definition idTokenTTL :: duration where "idTokenTTL = 15 * Minute"
definition refreshTokenTTL :: duration where "refreshTokenTTL = 14 * 24 * Hour"

subsection \<open>Issuers\<close>

definition DefaultIssuerBaseURL :: "(string \<Rightarrow> string) \<Rightarrow> string" where
  "DefaultIssuerBaseURL getenv =
     (let v = TrimRight (getenv ''AUTHPOLE_ISSUER_BASE_URL'') (CHR ''/'') in
      if v \<noteq> [] then v else ''https://authpole.io'')"

definition DefaultIssuerFor :: "(string \<Rightarrow> string) \<Rightarrow> string \<Rightarrow> string" where
  "DefaultIssuerFor getenv orgID = DefaultIssuerBaseURL getenv @ ''/organizations/'' @ orgID"

definition IssuerFor :: "'s env \<Rightarrow> string \<Rightarrow> string" where
  "IssuerFor E orgID =
     (case e_resolver E of
        None \<Rightarrow> DefaultIssuerFor (e_getenv E) orgID
      | Some resolver \<Rightarrow>
          (if resolver orgID \<noteq> [] then resolver orgID else DefaultIssuerFor (e_getenv E) orgID))"

subsection \<open>Applications, signing keys and providers\<close>

text \<open>A record that names no organization belongs to the one it was asked for.\<close>

definition with_org :: "string \<Rightarrow> Application \<Rightarrow> Application" where
  "with_org orgID app = (if app_OrganizationID app = [] then app\<lparr>app_OrganizationID := orgID\<rparr> else app)"

definition loadApplication :: "'s env \<Rightarrow> string \<Rightarrow> string \<Rightarrow> ('s world, eerr, Application) eng" where
  "loadApplication E orgID clientID =
     andThen (cached E (\<lambda>c now. GetApp c orgID clientID now)) (\<lambda>hit.
       case hit of
         Some (Some app) \<Rightarrow> ret app
       | _ \<Rightarrow>
           andThen (wrapErr EAppLookup (on_store (st_Get (e_ops E) (AppKey orgID clientID)))) (\<lambda>rec.
             case unmarshal app_fields zero_app (sr_Data rec) of
               None \<Rightarrow> fail EAppParse
             | Some app0 \<Rightarrow>
                 let app = with_org orgID app0 in
                 andThen (set_cached E (\<lambda>c now. SetApp c orgID clientID (Some app) (1 * Minute) now))
                   (\<lambda>_. ret app)))"

definition KeysPrefix :: "string \<Rightarrow> string" where
  "KeysPrefix orgID = ''organizations/'' @ orgID @ ''/keys/''"

text \<open>The loop of \<^verbatim>\<open>loadSigningKeys\<close>.\<close>

fun usable_keys :: "string \<Rightarrow> StoredRecord list \<Rightarrow> SigningKey list" where
  "usable_keys appID [] = []"
| "usable_keys appID (rec # recs) =
     (case unmarshal key_fields zero_key (sr_Data rec) of
        None \<Rightarrow> usable_keys appID recs
      | Some k \<Rightarrow>
          if \<not> key_Active k then usable_keys appID recs
          else if key_AppID k \<noteq> [] \<and> appID \<noteq> [] \<and> key_AppID k \<noteq> appID then usable_keys appID recs
          else k # usable_keys appID recs)"

definition loadSigningKeys :: "'s env \<Rightarrow> string \<Rightarrow> string \<Rightarrow> ('s world, eerr, SigningKey list) eng" where
  "loadSigningKeys E orgID appID =
     andThen (wrapErr EListKeys (on_store (st_List (e_ops E) (KeysPrefix orgID))))
       (\<lambda>recs. ret (usable_keys appID recs))"

definition SigningKeys :: "'s env \<Rightarrow> string \<Rightarrow> string \<Rightarrow> ('s world, eerr, SigningKey option list) eng" where
  "SigningKeys E orgID appID =
     andThen (loadSigningKeys E orgID appID)
       (\<lambda>keys. ret (map (\<lambda>k. Some (k\<lparr>key_PrivateKeyPEM := []\<rparr>)) keys))"

definition key_cached :: "'s env \<Rightarrow> string \<Rightarrow> string \<Rightarrow> ('s world, eerr, SigningKey option) eng" where
  "key_cached E orgID appID =
     andThen (cached E (\<lambda>c now. GetSigningKeys c orgID appID now))
       (\<lambda>hit. ret (case hit of None \<Rightarrow> None | Some keys \<Rightarrow> ActiveSigningKey keys))"

definition cache_keys :: "'s env \<Rightarrow> string \<Rightarrow> string \<Rightarrow> SigningKey list \<Rightarrow> ('s world, eerr, unit) eng" where
  "cache_keys E orgID appID keys =
     set_cached E (\<lambda>c now. SetSigningKeys c orgID appID (map Some keys) (1 * Hour) now)"

definition create_key :: "'s env \<Rightarrow> string \<Rightarrow> string \<Rightarrow> ('s world, eerr, SigningKey) eng" where
  "create_key E orgID appID =
     andThen (wrapErr EKeyGen (generate_key E orgID appID)) (\<lambda>newKey.
       attempt (on_store (st_Put (e_ops E) (KeyPairKey orgID (key_ID newKey))
                 (Doc (marshal key_fields newKey)) MatchAnyVersion)) (\<lambda>r. case r of
           Inl err \<Rightarrow>
             attempt (loadSigningKeys E orgID appID) (\<lambda>reloaded. case reloaded of
                 Inl reloadErr \<Rightarrow> fail (EKeyPersist err)
               | Inr keys \<Rightarrow>
                   (case ActiveSigningKey (map Some keys) of
                      None \<Rightarrow> fail (EKeyPersist err)
                    | Some key \<Rightarrow> andThen (cache_keys E orgID appID keys) (\<lambda>_. ret key)))
         | Inr v \<Rightarrow> andThen (cache_keys E orgID appID [newKey]) (\<lambda>_. ret newKey)))"

definition resolveSigningKey :: "'s env \<Rightarrow> string \<Rightarrow> string \<Rightarrow> ('s world, eerr, SigningKey) eng" where
  "resolveSigningKey E orgID appID =
     andThen (key_cached E orgID appID) (\<lambda>hit. case hit of
         Some key \<Rightarrow> ret key
       | None \<Rightarrow>
           andThen (loadSigningKeys E orgID appID) (\<lambda>keys.
             case ActiveSigningKey (map Some keys) of
               Some key \<Rightarrow> andThen (cache_keys E orgID appID keys) (\<lambda>_. ret key)
             | None \<Rightarrow> create_key E orgID appID))"

fun getFirstEnv :: "(string \<Rightarrow> string) \<Rightarrow> string list \<Rightarrow> string" where
  "getFirstEnv getenv [] = []"
| "getFirstEnv getenv (k # ks) = (if getenv k \<noteq> [] then getenv k else getFirstEnv getenv ks)"

definition google_provider :: "string \<Rightarrow> string \<Rightarrow> IdentityProvider" where
  "google_provider cid secret =
     zero_idp\<lparr>idp_ID := ''google'', idp_Name := ''Google'', idp_Type := ''oidc'', idp_ClientID := cid,
       idp_ClientSecret := secret, idp_AuthorizeURL := ''https://accounts.google.com/o/oauth2/v2/auth'',
       idp_TokenURL := ''https://oauth2.googleapis.com/token'',
       idp_Scopes := [''openid'', ''profile'', ''email''], idp_Enabled := True\<rparr>"

definition github_provider :: "string \<Rightarrow> string \<Rightarrow> IdentityProvider" where
  "github_provider cid secret =
     zero_idp\<lparr>idp_ID := ''github'', idp_Name := ''GitHub'', idp_Type := ''oauth2'', idp_ClientID := cid,
       idp_ClientSecret := secret, idp_AuthorizeURL := ''https://github.com/login/oauth/authorize'',
       idp_TokenURL := ''https://github.com/login/oauth/access_token'',
       idp_Scopes := [''user:email'', ''read:user''], idp_Enabled := True\<rparr>"

definition platformIDP :: "(string \<Rightarrow> string) \<Rightarrow> string \<Rightarrow> eerr + IdentityProvider" where
  "platformIDP getenv idpID =
     (if idpID = ''google'' then
        (let cid = getFirstEnv getenv [''AUTHPOLE_GOOGLE_CLIENT_ID'', ''GOOGLE_CLIENT_ID''];
             secret = getFirstEnv getenv [''AUTHPOLE_GOOGLE_CLIENT_SECRET'', ''GOOGLE_CLIENT_SECRET''] in
         if cid = [] then Inl EGoogleUnavailable else Inr (google_provider cid secret))
      else if idpID = ''github'' then
        (let cid = getFirstEnv getenv [''AUTHPOLE_GITHUB_CLIENT_ID'', ''GITHUB_CLIENT_ID''];
             secret = getFirstEnv getenv [''AUTHPOLE_GITHUB_CLIENT_SECRET'', ''GITHUB_CLIENT_SECRET''] in
         if cid = [] then Inl EGitHubUnavailable else Inr (github_provider cid secret))
      else Inl (EPlatformIDP idpID))"

definition isPlaceholder :: "string \<Rightarrow> bool" where
  "isPlaceholder c \<longleftrightarrow> c = [] \<or> HasPrefix c ''google_oauth_client_id'' \<or>
     HasPrefix c ''github_oauth_client_id'' \<or> c = ''authpole_proxy''"

definition decodeUsable :: "blob \<Rightarrow> IdentityProvider option" where
  "decodeUsable data =
     (case unmarshal idp_fields zero_idp data of
        None \<Rightarrow> None
      | Some provider \<Rightarrow>
          if \<not> idp_Enabled provider \<or> isPlaceholder (idp_ClientID provider) then None else Some provider)"

text \<open>One of the two lookups: the provider if the record is there and usable.\<close>

definition stored_idp :: "'s env \<Rightarrow> string \<Rightarrow> string \<Rightarrow> ('s world, eerr, IdentityProvider option) eng" where
  "stored_idp E orgID idpID =
     attempt (on_store (st_Get (e_ops E) (IDPKey orgID idpID)))
       (\<lambda>r. case r of Inl err \<Rightarrow> ret None | Inr rec \<Rightarrow> ret (decodeUsable (sr_Data rec)))"

definition resolveUpstreamIDP :: "'s env \<Rightarrow> string \<Rightarrow> string \<Rightarrow> string \<Rightarrow> ('s world, eerr, IdentityProvider) eng" where
  "resolveUpstreamIDP E orgID clientID idpID =
     (if clientID = ''admin_console'' then ofSum (platformIDP (e_getenv E) idpID)
      else andThen (stored_idp E orgID idpID) (\<lambda>own. case own of
          Some provider \<Rightarrow> ret provider
        | None \<Rightarrow>
            andThen (if orgID \<noteq> ''default'' then stored_idp E ''default'' idpID else ret None)
              (\<lambda>dflt. case dflt of
                 Some provider \<Rightarrow> ret provider
               | None \<Rightarrow> fail (EIDPUnknown idpID orgID))))"

fun enabled_ids :: "StoredRecord list \<Rightarrow> string list" where
  "enabled_ids [] = []"
| "enabled_ids (rec # recs) =
     (case unmarshal idp_fields zero_idp (sr_Data rec) of
        None \<Rightarrow> enabled_ids recs
      | Some p \<Rightarrow> if idp_Enabled p \<and> idp_ID p \<noteq> [] then idp_ID p # enabled_ids recs else enabled_ids recs)"

definition enabledIDPIDs :: "'s env \<Rightarrow> string \<Rightarrow> ('s world, eerr, string list) eng" where
  "enabledIDPIDs E orgID =
     andThen (wrapErr EListIDPs (on_store (st_List (e_ops E) (''organizations/'' @ orgID @ ''/idps/''))))
       (\<lambda>records. ret (sort (enabled_ids records)))"

subsection \<open>The authorization request\<close>

record AuthorizationRequest =
  ar_ServerBaseURL :: string
  ar_OrganizationID :: string
  ar_ClientID :: string
  ar_RedirectURI :: string
  ar_Scope :: string
  ar_State :: string
  ar_IDPID :: string
  ar_CodeChallenge :: string
  ar_CodeChallengeMethod :: string
  ar_Nonce :: string

text \<open>The checks on the redirect URI and on PKCE, and the choice of the provider.\<close>

definition check_request :: "Application \<Rightarrow> AuthorizationRequest \<Rightarrow> eerr option" where
  "check_request app req =
     (if \<not> HasRedirectURI (Some app) (ar_RedirectURI req) then Some (ERedirectURI (ar_RedirectURI req) (app_ID app))
      else if IsPublicClient (Some app) \<and> ar_CodeChallenge req = [] then Some (EChallengeRequired (app_ID app))
      else if ar_CodeChallenge req \<noteq> [] then
        (if ar_CodeChallengeMethod req = [] then Some EMethodRequired
         else if ar_CodeChallengeMethod req \<noteq> pkceMethodS256 then Some (EMethodUnsupported (ar_CodeChallengeMethod req))
         else None)
      else None)"

definition select_idp :: "'s env \<Rightarrow> Application \<Rightarrow> AuthorizationRequest \<Rightarrow> ('s world, eerr, string) eng" where
  "select_idp E app req =
     (if ar_IDPID req = [] then
        (case app_AllowedIDPs app of
           p # ps \<Rightarrow> ret p
         | [] \<Rightarrow>
             andThen (enabledIDPIDs E (ar_OrganizationID req)) (\<lambda>available.
               case available of
                 [] \<Rightarrow> fail ENoIDP
               | [one] \<Rightarrow> ret one
               | _ \<Rightarrow> fail (EIDPRequired (nat_str (length available)) (Join available '', ''))))
      else if app_AllowedIDPs app \<noteq> [] \<and> \<not> containsString (app_AllowedIDPs app) (ar_IDPID req)
        then fail (EIDPNotAllowed (ar_IDPID req) (app_ID app))
      else ret (ar_IDPID req))"

definition state_of_request :: "AuthorizationRequest \<Rightarrow> Application \<Rightarrow> string \<Rightarrow> string \<Rightarrow> gotime \<Rightarrow> AuthState" where
  "state_of_request req app idp stateID now =
     \<lparr>as_StateID = stateID, as_OrganizationID = ar_OrganizationID req, as_AppID = app_ID app,
      as_ClientID = ar_ClientID req, as_RedirectURI = ar_RedirectURI req, as_Scope = ar_Scope req,
      as_OriginalState = ar_State req, as_UpstreamIDP = idp, as_CodeChallenge = ar_CodeChallenge req,
      as_CodeChallengeMethod = ar_CodeChallengeMethod req, as_Nonce = ar_Nonce req, as_CreatedAt = now\<rparr>"

definition protocol_params :: "string list" where
  "protocol_params = [''client_id'', ''redirect_uri'', ''response_type'', ''state'']"

definition CallbackURL :: "string \<Rightarrow> string" where
  "CallbackURL base = base @ ''/oauth/v2/callback''"

definition upstream_query :: "IdentityProvider \<Rightarrow> string \<Rightarrow> string \<Rightarrow> url_values" where
  "upstream_query cfg base stateID =
     (let scopesStr = (if idp_Scopes cfg \<noteq> [] then Join (idp_Scopes cfg) '' '' else ''openid profile email'');
          v = Values_Set (Values_Set (Values_Set (Values_Set (Values_Set []
                ''client_id'' (idp_ClientID cfg)) ''redirect_uri'' (CallbackURL base))
                ''response_type'' ''code'') ''scope'' scopesStr) ''state'' stateID in
      foldl (\<lambda>v (key, value). if key \<in> set protocol_params then v else Values_Set v key value)
        v (idp_ExtraAuthParams cfg))"

text \<open>From the state handle to the redirect, once the request and the provider are settled.\<close>

definition begin_login ::
  "'s env \<Rightarrow> AuthorizationRequest \<Rightarrow> Application \<Rightarrow> string \<Rightarrow> IdentityProvider \<Rightarrow> ('s world, eerr, string) eng" where
  "begin_login E req app selectedIDPID upstreamIDP =
     andThen (wrapErr EStateToken (secure_token E ''state_'')) (\<lambda>stateID.
     andThen (clock E) (\<lambda>now.
     let authState = state_of_request req app selectedIDPID stateID now in
     andThen (wrapErr EStatePersist (on_store (st_Put (e_ops E) (AuthStateKey stateID)
                (Doc (marshal state_fields authState)) []))) (\<lambda>_.
     andThen (set_states (\<lambda>m. m(stateID \<mapsto> authState))) (\<lambda>_.
     let cfg = effectiveProvider upstreamIDP in
     if idp_AuthorizeURL cfg = [] then fail (ENoAuthorizeURL (idp_ID upstreamIDP))
     else ret (idp_AuthorizeURL cfg @ ''?'' @
            Values_Encode (upstream_query cfg (ar_ServerBaseURL req) stateID))))))"

definition PrepareAuthorization :: "'s env \<Rightarrow> AuthorizationRequest \<Rightarrow> ('s world, eerr, string) eng" where
  "PrepareAuthorization E req =
     andThen (wrapErr EAppLookup (on_store (st_Get (e_ops E) (AppKey (ar_OrganizationID req) (ar_ClientID req)))))
     (\<lambda>rec. case unmarshal app_fields zero_app (sr_Data rec) of
        None \<Rightarrow> fail EAppParse
      | Some app \<Rightarrow>
          (case check_request app req of
             Some err \<Rightarrow> fail err
           | None \<Rightarrow>
             andThen (select_idp E app req) (\<lambda>selectedIDPID.
             andThen (resolveUpstreamIDP E (ar_OrganizationID req) (ar_ClientID req) selectedIDPID) (\<lambda>upstreamIDP.
             begin_login E req app selectedIDPID upstreamIDP))))"

subsection \<open>One-time records\<close>

text \<open>\<open>None\<close> is \<^verbatim>\<open>(nil, false)\<close>.\<close>

definition claimSingleUse :: "'s env \<Rightarrow> string \<Rightarrow> ('s world, eerr, blob option) eng" where
  "claimSingleUse E key =
     attempt (on_store (st_Get (e_ops E) key)) (\<lambda>r. case r of
         Inl err \<Rightarrow> ret None
       | Inr rec \<Rightarrow>
           if blob_empty (sr_Data rec) then ret None
           else if sr_Version rec = [] then ret None
           else attempt (on_store (st_Delete (e_ops E) key (sr_Version rec))) (\<lambda>d. case d of
               Inl err \<Rightarrow> ret None
             | Inr _ \<Rightarrow> ret (Some (sr_Data rec))))"

text \<open>A claimed state counts for fifteen minutes.\<close>

definition live_state :: "'s env \<Rightarrow> blob option \<Rightarrow> ('s world, eerr, AuthState option) eng" where
  "live_state E claimed =
     (case claimed of
        None \<Rightarrow> ret None
      | Some data \<Rightarrow>
          (case unmarshal state_fields zero_state data of
             None \<Rightarrow> ret None
           | Some s \<Rightarrow>
               andThen (clock E) (\<lambda>now.
                 ret (if After now (as_CreatedAt s + authStateTTL) then None else Some s))))"

definition fetchAndConsumeAuthState :: "'s env \<Rightarrow> string \<Rightarrow> ('s world, eerr, AuthState option) eng" where
  "fetchAndConsumeAuthState E stateID =
     andThen (set_states (\<lambda>m. m(stateID := None))) (\<lambda>_.
     andThen (claimSingleUse E (AuthStateKey stateID)) (live_state E))"

definition fetchAndConsumeAuthCode :: "'s env \<Rightarrow> string \<Rightarrow> ('s world, eerr, AuthCode option) eng" where
  "fetchAndConsumeAuthCode E code =
     andThen (set_codes (\<lambda>m. m(code := None))) (\<lambda>_.
     andThen (claimSingleUse E (AuthCodeKey code)) (\<lambda>claimed. ret (case claimed of
         None \<Rightarrow> None
       | Some data \<Rightarrow> unmarshal code_fields zero_code data)))"

subsection \<open>The callback\<close>

definition code_of_state :: "AuthState \<Rightarrow> AuthClaims option \<Rightarrow> string \<Rightarrow> gotime \<Rightarrow> AuthCode" where
  "code_of_state state userClaims codeStr now =
     \<lparr>ac_Code = codeStr, ac_OrganizationID = as_OrganizationID state, ac_AppID = as_AppID state,
      ac_ClientID = as_ClientID state, ac_RedirectURI = as_RedirectURI state, ac_Scope = as_Scope state,
      ac_Claims = userClaims, ac_CodeChallenge = as_CodeChallenge state,
      ac_CodeChallengeMethod = as_CodeChallengeMethod state, ac_Nonce = as_Nonce state,
      ac_CreatedAt = now, ac_ExpiresAt = now + authCodeTTL\<rparr>"

definition client_redirect :: "AuthState \<Rightarrow> string \<Rightarrow> string" where
  "client_redirect state codeStr =
     (let v = Values_Set [] ''code'' codeStr;
          v' = (if as_OriginalState state \<noteq> [] then Values_Set v ''state'' (as_OriginalState state) else v) in
      as_RedirectURI state @ ''?'' @ Values_Encode v')"

definition CompleteUpstreamAuthenticationWithState ::
  "'s env \<Rightarrow> AuthState \<Rightarrow> AuthClaims option \<Rightarrow> ('s world, eerr, string) eng" where
  "CompleteUpstreamAuthenticationWithState E state userClaims =
     andThen (wrapErr ECodeToken (secure_token E ''code_'')) (\<lambda>codeStr.
     andThen (clock E) (\<lambda>now.
     let authCode = code_of_state state userClaims codeStr now in
     andThen (wrapErr ECodePersist (on_store (st_Put (e_ops E) (AuthCodeKey codeStr)
                (Doc (marshal code_fields authCode)) []))) (\<lambda>_.
     andThen (set_codes (\<lambda>m. m(codeStr \<mapsto> authCode))) (\<lambda>_.
     ret (client_redirect state codeStr)))))"

definition CompleteUpstreamAuthentication ::
  "'s env \<Rightarrow> string \<Rightarrow> AuthClaims option \<Rightarrow> ('s world, eerr, string) eng" where
  "CompleteUpstreamAuthentication E stateID userClaims =
     andThen (fetchAndConsumeAuthState E stateID) (\<lambda>st. case st of
         None \<Rightarrow> fail EAuthStateSession
       | Some state \<Rightarrow> CompleteUpstreamAuthenticationWithState E state userClaims)"

record UpstreamToken =
  ut_AccessToken :: string
  ut_TokenType :: string
  ut_IDToken :: string
  ut_Error :: string
  ut_ErrorDesc :: string

definition upstream_fields :: "UpstreamToken field list" where
  "upstream_fields =
    [str_field ''access_token'' ut_AccessToken ut_AccessToken_update,
     str_field ''token_type'' ut_TokenType ut_TokenType_update,
     str_field ''id_token'' ut_IDToken ut_IDToken_update,
     str_field ''error'' ut_Error ut_Error_update,
     str_field ''error_description'' ut_ErrorDesc ut_ErrorDesc_update]"

definition zero_upstream :: UpstreamToken where
  "zero_upstream = \<lparr>ut_AccessToken = [], ut_TokenType = [], ut_IDToken = [], ut_Error = [], ut_ErrorDesc = []\<rparr>"

definition token_request :: "IdentityProvider \<Rightarrow> string \<Rightarrow> string \<Rightarrow> http_request" where
  "token_request cfg base code =
     \<lparr>rq_Method = ''POST'', rq_URL = idp_TokenURL cfg,
      rq_Header = [(''Content-Type'', ''application/x-www-form-urlencoded''), (''Accept'', ''application/json'')],
      rq_Body = Values_Encode (Values_Set (Values_Set (Values_Set (Values_Set (Values_Set []
         ''code'' code) ''client_id'' (idp_ClientID cfg)) ''client_secret'' (idp_ClientSecret cfg))
         ''redirect_uri'' (CallbackURL base)) ''grant_type'' ''authorization_code'')\<rparr>"

text \<open>Step 1 of the callback: the access token of the upstream provider.\<close>

definition upstream_exchange :: "'s env \<Rightarrow> IdentityProvider \<Rightarrow> string \<Rightarrow> string \<Rightarrow> ('s world, eerr, string) eng" where
  "upstream_exchange E cfg base code =
     andThen (http_do E (token_request cfg base code)) (\<lambda>resp. case resp of
         BadRequest \<Rightarrow> fail ETokenRequest
       | NoAnswer \<Rightarrow> fail ETokenHTTP
       | Answer status body whole \<Rightarrow>
           if status < 200 \<or> status \<ge> 300 then fail (ETokenStatus (FormatInt status) body)
           else (case unmarshal_text upstream_fields zero_upstream body of
               None \<Rightarrow> fail ETokenParse
             | Some t \<Rightarrow>
                 if ut_Error t \<noteq> [] then fail (ETokenUpstream (ut_Error t) (ut_ErrorDesc t))
                 else if ut_AccessToken t = [] then fail ENoUpstreamToken
                 else ret (ut_AccessToken t)))"

definition ProcessUpstreamCallback :: "'s env \<Rightarrow> string \<Rightarrow> string \<Rightarrow> string \<Rightarrow> ('s world, eerr, string) eng" where
  "ProcessUpstreamCallback E serverBaseURL stateID code =
     andThen (fetchAndConsumeAuthState E stateID) (\<lambda>st. case st of
         None \<Rightarrow> fail EStateSession
       | Some state \<Rightarrow>
           andThen (wrapErr EUpstreamResolve
             (resolveUpstreamIDP E (as_OrganizationID state) (as_ClientID state) (as_UpstreamIDP state)))
           (\<lambda>upstreamIDP.
             let upstreamCfg = effectiveProvider upstreamIDP in
             if idp_TokenURL upstreamCfg = [] then fail (ENoTokenURL (idp_ID upstreamIDP))
             else andThen (upstream_exchange E upstreamCfg serverBaseURL code) (\<lambda>accessToken.
               andThen (wrapErr EClaims (fetchUpstreamClaims E upstreamIDP accessToken)) (\<lambda>claims.
                 CompleteUpstreamAuthenticationWithState E state (Some claims)))))"

end
