(* ===== verification/Tokens.thy ===== *)
theory Tokens
  imports Engine
begin

text \<open>
  The token endpoint of \<^verbatim>\<open>pkg/idp/idp_engine.go\<close>: redeeming authorization codes and refresh tokens,
  and minting the access, ID and refresh tokens.
\<close>

record TokenRequest =
  tr_GrantType :: string
  tr_OrganizationID :: string
  tr_ClientID :: string
  tr_ClientSecret :: string
  tr_Code :: string
  tr_RedirectURI :: string
  tr_CodeVerifier :: string
  tr_RefreshToken :: string

record TokenResponse =
  tp_AccessToken :: string
  tp_IDToken :: string
  tp_RefreshToken :: string
  tp_TokenType :: string
  tp_ExpiresIn :: int
  tp_Scope :: string

definition GrantAuthorizationCode :: string where
  "GrantAuthorizationCode = ''authorization_code''"

definition GrantRefreshToken :: string where
  "GrantRefreshToken = ''refresh_token''"

definition verifyPKCE :: "AuthCode \<Rightarrow> string \<Rightarrow> eerr option" where
  "verifyPKCE authCode verifier =
     (if ac_CodeChallenge authCode = [] then Some ENoChallenge
      else if verifier = [] then Some EVerifierRequired
      else if length verifier < 43 \<or> length verifier > 128 then Some EVerifierLength
      else if ac_CodeChallengeMethod authCode \<noteq> pkceMethodS256
        then Some (EChallengeMethod (ac_CodeChallengeMethod authCode))
      else if \<not> SecureCompare (ac_CodeChallenge authCode) (S256Challenge verifier) then Some EVerifierMismatch
      else None)"

definition refresh_record ::
  "Application \<Rightarrow> AuthClaims \<Rightarrow> string \<Rightarrow> string \<Rightarrow> string \<Rightarrow> gotime \<Rightarrow> RefreshToken" where
  "refresh_record app base scope familyID handle now =
     \<lparr>rt_Token = handle, rt_OrganizationID = app_OrganizationID app, rt_AppID = app_ID app,
      rt_ClientID = app_ClientID app, rt_Subject = cl_Subject base, rt_Scope = scope,
      rt_Claims = Some base, rt_FamilyID = familyID, rt_CreatedAt = now,
      rt_ExpiresAt = now + refreshTokenTTL\<rparr>"

definition mintRefreshToken ::
  "'s env \<Rightarrow> Application \<Rightarrow> AuthClaims \<Rightarrow> string \<Rightarrow> string \<Rightarrow> ('s world, eerr, string) eng" where
  "mintRefreshToken E app base scope familyID0 =
     andThen (wrapErr ERefreshToken (secure_token E ''rt_'')) (\<lambda>handle.
     andThen (if familyID0 = [] then wrapErr EFamilyToken (secure_token E ''rtf_'') else ret familyID0) (\<lambda>familyID.
     andThen (clock E) (\<lambda>now.
     andThen (wrapErr ERefreshPersist (on_store (st_Put (e_ops E) (RefreshTokenKey handle)
                (Doc (marshal refresh_fields (refresh_record app base scope familyID handle now))) []))) (\<lambda>_.
     ret handle))))"

definition access_claims ::
  "Application \<Rightarrow> AuthClaims \<Rightarrow> string \<Rightarrow> string \<Rightarrow> gotime \<Rightarrow> string \<Rightarrow> AuthClaims" where
  "access_claims app base issuer scope now jti =
     base\<lparr>cl_Issuer := issuer, cl_Audience := TokenAudiences (Some app), cl_TokenUse := TokenUseAccess,
       cl_OrganizationID := app_OrganizationID app, cl_AppID := app_ID app, cl_Scope := scope,
       cl_IssuedAt := Unix now, cl_NotBefore := Unix now, cl_ExpiresAt := Unix (now + accessTokenTTL),
       cl_Nonce := [], cl_JTI := jti\<rparr>"

definition id_claims ::
  "Application \<Rightarrow> AuthClaims \<Rightarrow> string \<Rightarrow> string \<Rightarrow> gotime \<Rightarrow> string \<Rightarrow> AuthClaims" where
  "id_claims app base issuer nonce now jti =
     base\<lparr>cl_Issuer := issuer, cl_Audience := [app_ClientID app], cl_TokenUse := TokenUseID,
       cl_OrganizationID := app_OrganizationID app, cl_AppID := app_ID app, cl_Scope := [],
       cl_IssuedAt := Unix now, cl_NotBefore := Unix now, cl_ExpiresAt := Unix (now + idTokenTTL),
       cl_Nonce := nonce, cl_JTI := jti\<rparr>"

definition issueTokens ::
  "'s env \<Rightarrow> Application \<Rightarrow> AuthClaims option \<Rightarrow> string \<Rightarrow> string \<Rightarrow> string \<Rightarrow> ('s world, eerr, TokenResponse) eng" where
  "issueTokens E app base0 scope nonce familyID =
     (case base0 of
        None \<Rightarrow> fail ENoClaims
      | Some base \<Rightarrow>
          (let orgID = app_OrganizationID app in
           andThen (resolveSigningKey E orgID (app_ID app)) (\<lambda>signingKey.
           let issuer = IssuerFor E orgID in
           andThen (clock E) (\<lambda>now.
           andThen (wrapErr ETokenID (secure_token E ''jti_'')) (\<lambda>jti.
           andThen (wrapErr ESignAccess (ofSum (SignJWT (e_rsa E) (access_claims app base issuer scope now jti)
                      (key_PrivateKeyPEM signingKey) (key_KID signingKey)))) (\<lambda>accessToken.
           andThen (wrapErr ETokenID (secure_token E ''jti_'')) (\<lambda>jti'.
           andThen (wrapErr ESignID (ofSum (SignJWT (e_rsa E) (id_claims app base issuer nonce now jti')
                      (key_PrivateKeyPEM signingKey) (key_KID signingKey)))) (\<lambda>idToken.
           andThen (mintRefreshToken E app base scope familyID) (\<lambda>refreshToken.
           ret \<lparr>tp_AccessToken = accessToken, tp_IDToken = idToken, tp_RefreshToken = refreshToken,
                tp_TokenType = ''Bearer'', tp_ExpiresIn = accessTokenTTL div Second, tp_Scope = scope\<rparr>)))))))))"

text \<open>The client proves itself: a public one by its verifier, a confidential one by its secret.\<close>

definition authenticate_client :: "Application \<Rightarrow> AuthCode \<Rightarrow> TokenRequest \<Rightarrow> eerr option" where
  "authenticate_client app authCode req =
     (if IsPublicClient (Some app) then verifyPKCE authCode (tr_CodeVerifier req)
      else if \<not> SecureCompare (app_ClientSecret app) (tr_ClientSecret req) then Some EClientCredentials
      else if ac_CodeChallenge authCode \<noteq> [] then verifyPKCE authCode (tr_CodeVerifier req)
      else None)"

text \<open>The rest of the exchange, once the code or the handle has been claimed.\<close>

definition redeem_code :: "'s env \<Rightarrow> TokenRequest \<Rightarrow> AuthCode \<Rightarrow> ('s world, eerr, TokenResponse) eng" where
  "redeem_code E req authCode =
     andThen (clock E) (\<lambda>now.
     if After now (ac_ExpiresAt authCode) then fail ECodeExpired
     else if \<not> SecureCompare (ac_ClientID authCode) (tr_ClientID req) then fail EClientMismatch
     else if tr_RedirectURI req \<noteq> [] \<and> tr_RedirectURI req \<noteq> ac_RedirectURI authCode then fail ERedirectMismatch
     else andThen (loadApplication E (ac_OrganizationID authCode) (ac_ClientID authCode)) (\<lambda>app.
       case authenticate_client app authCode req of
         Some err \<Rightarrow> fail err
       | None \<Rightarrow> issueTokens E app (ac_Claims authCode) (ac_Scope authCode) (ac_Nonce authCode) []))"

definition exchangeAuthorizationCode :: "'s env \<Rightarrow> TokenRequest \<Rightarrow> ('s world, eerr, TokenResponse) eng" where
  "exchangeAuthorizationCode E req =
     andThen (fetchAndConsumeAuthCode E (tr_Code req)) (\<lambda>got. case got of
         None \<Rightarrow> fail ECodeInvalid
       | Some authCode \<Rightarrow> redeem_code E req authCode)"

definition redeem_refresh :: "'s env \<Rightarrow> TokenRequest \<Rightarrow> blob \<Rightarrow> ('s world, eerr, TokenResponse) eng" where
  "redeem_refresh E req data =
     (case unmarshal refresh_fields zero_refresh data of
        None \<Rightarrow> fail ERefreshRecord
      | Some stored \<Rightarrow>
          andThen (clock E) (\<lambda>now.
          if After now (rt_ExpiresAt stored) then fail ERefreshExpired
          else if \<not> SecureCompare (rt_ClientID stored) (tr_ClientID req) then fail ERefreshClient
          else andThen (loadApplication E (rt_OrganizationID stored) (rt_ClientID stored)) (\<lambda>app.
            if \<not> IsPublicClient (Some app) \<and> \<not> SecureCompare (app_ClientSecret app) (tr_ClientSecret req)
            then fail EClientCredentials
            else issueTokens E app (rt_Claims stored) (rt_Scope stored) [] (rt_FamilyID stored))))"

definition exchangeRefreshToken :: "'s env \<Rightarrow> TokenRequest \<Rightarrow> ('s world, eerr, TokenResponse) eng" where
  "exchangeRefreshToken E req =
     (if tr_RefreshToken req = [] then fail ERefreshRequired
      else andThen (claimSingleUse E (RefreshTokenKey (tr_RefreshToken req))) (\<lambda>claimed. case claimed of
          None \<Rightarrow> fail ERefreshInvalid
        | Some data \<Rightarrow> redeem_refresh E req data))"

definition ExchangeCodeForToken :: "'s env \<Rightarrow> TokenRequest \<Rightarrow> ('s world, eerr, TokenResponse) eng" where
  "ExchangeCodeForToken E req =
     (if tr_GrantType req = GrantRefreshToken then exchangeRefreshToken E req
      else if tr_GrantType req = GrantAuthorizationCode \<or> tr_GrantType req = [] then exchangeAuthorizationCode E req
      else fail (EGrantType (tr_GrantType req)))"

end
