(* ===== verification/Sessions.thy ===== *)
theory Sessions
  imports Tokens
begin

text \<open>
  How the engine uses the store: the locale \<open>engine_store\<close> takes the storage contract of the
  environment's operations and gives, for every method, which objects it may touch. All lemmas about
  one-time records, keys and tokens that depend on the store are here.
\<close>

text \<open>The objects in a world's store, as the store's \<open>objs\<close> shows them.\<close>

definition view :: "('s \<Rightarrow> string \<Rightarrow> (string \<times> blob) option) \<Rightarrow> 's world \<Rightarrow> string \<Rightarrow> (string \<times> blob) option" where
  "view objs w = objs (w_store w)"

locale engine_store = cas_store "e_ops E" objs
  for E :: "'s env" and objs :: "'s \<Rightarrow> string \<Rightarrow> (string \<times> blob) option"
begin

lemma view_simps [simp]:
  "view objs (w\<lparr>w_cache := c\<rparr>) = view objs w" "view objs (w\<lparr>w_states := ss\<rparr>) = view objs w"
  "view objs (w\<lparr>w_codes := cs\<rparr>) = view objs w" "view objs (w\<lparr>w_tick := n\<rparr>) = view objs w" "view objs (w\<lparr>w_draw := n\<rparr>) = view objs w"
  "view objs (w\<lparr>w_gen := n\<rparr>) = view objs w" "view objs (w\<lparr>w_req := n\<rparr>) = view objs w" "view objs (w\<lparr>w_store := s\<rparr>) = objs s"
  by (simp_all add: view_def)

lemma keeps_whole: "keeps w_store m \<Longrightarrow> keeps (\<lambda>w. view objs w k) m"
  by (simp add: keeps_def view_def)

lemma get_step:
  "on_store (st_Get (e_ops E) k) w = (r, w') \<Longrightarrow>
     view objs w' = view objs w \<and> (\<forall>rec. r = Inr rec \<longrightarrow> sr_Key rec = k \<and> view objs w k = Some (sr_Version rec, sr_Data rec))"
  by (auto simp: on_store_eq view_def dest: get_frame get_found)

lemma put_step:
  "on_store (st_Put (e_ops E) k d ev) w = (Inr v, w') \<Longrightarrow>
     v \<noteq> [] \<and> cas_ok ev (view objs w k) \<and> view objs w' = (view objs w)(k \<mapsto> (v, d))"
  by (auto simp: on_store_eq view_def dest: put_done)

lemma delete_step:
  "on_store (st_Delete (e_ops E) k ev) w = (Inr u, w') \<Longrightarrow> view objs w' = (view objs w)(k := None)"
  by (auto simp: on_store_eq view_def dest: delete_done)

lemma list_step:
  "on_store (st_List (e_ops E) p) w = (Inr recs, w') \<Longrightarrow>
     view objs w' = view objs w \<and> (\<forall>rec \<in> set recs. HasPrefix (sr_Key rec) p \<and>
       view objs w (sr_Key rec) = Some (sr_Version rec, sr_Data rec))"
  by (auto simp: on_store_eq view_def dest: list_frame list_sound)

text \<open>Frames: which keys a call may write.\<close>

lemma keeps_get [keeps_rules]: "keeps (\<lambda>w. view objs w k') (on_store (st_Get (e_ops E) k))"
  by (rule keepsI) (auto dest: get_step)

lemma keeps_list [keeps_rules]: "keeps (\<lambda>w. view objs w k') (on_store (st_List (e_ops E) p))"
  by (rule keepsI) (auto simp: on_store_eq view_def dest: list_frame)

lemma keeps_put: "k' \<noteq> k \<Longrightarrow> keeps (\<lambda>w. view objs w k') (on_store (st_Put (e_ops E) k d ev))"
  by (rule keepsI) (auto simp: on_store_eq view_def dest: put_other)

lemma keeps_delete: "k' \<noteq> k \<Longrightarrow> keeps (\<lambda>w. view objs w k') (on_store (st_Delete (e_ops E) k ev))"
  by (rule keepsI) (auto simp: on_store_eq view_def dest: delete_other)

lemmas keeps_view_prims [keeps_rules] = keeps_prims [THEN keeps_whole] keeps_fetchUpstreamClaims [THEN keeps_whole]

lemma keeps_loadApplication [keeps_rules]: "keeps (\<lambda>w. view objs w k) (loadApplication E org cid)"
  unfolding loadApplication_def
  by (intro keeps_rules keeps_put keeps_delete)

lemma keeps_loadSigningKeys [keeps_rules]: "keeps (\<lambda>w. view objs w k) (loadSigningKeys E org app)"
  unfolding loadSigningKeys_def by (intro keeps_rules keeps_put keeps_delete)

lemma keeps_key_cached [keeps_rules]: "keeps (\<lambda>w. view objs w k) (key_cached E org app)"
  unfolding key_cached_def by (intro keeps_rules keeps_put keeps_delete)

lemma keeps_cache_keys [keeps_rules]: "keeps (\<lambda>w. view objs w k) (cache_keys E org app ks)"
  unfolding cache_keys_def by (intro keeps_rules keeps_put keeps_delete)

lemma keeps_create_key:
  "\<forall>id. k \<noteq> KeyPairKey org id \<Longrightarrow> keeps (\<lambda>w. view objs w k) (create_key E org app)"
  unfolding create_key_def by (intro keeps_rules keeps_put keeps_delete) auto

lemma keeps_resolveSigningKey:
  "\<forall>id. k \<noteq> KeyPairKey org id \<Longrightarrow> keeps (\<lambda>w. view objs w k) (resolveSigningKey E org app)"
  unfolding resolveSigningKey_def by (intro keeps_rules keeps_put keeps_delete keeps_create_key)

lemma keeps_mintRefreshToken:
  "\<forall>h. k \<noteq> RefreshTokenKey h \<Longrightarrow> keeps (\<lambda>w. view objs w k) (mintRefreshToken E app base scope fam)"
  unfolding mintRefreshToken_def by (intro keeps_rules keeps_put keeps_delete) auto

lemma keeps_issueTokens:
  assumes "\<forall>h. k \<noteq> RefreshTokenKey h" and "\<forall>id. k \<noteq> KeyPairKey (app_OrganizationID app) id"
  shows "keeps (\<lambda>w. view objs w k) (issueTokens E app base scope nonce fam)"
  unfolding issueTokens_def Let_def
  by (intro keeps_rules keeps_put keeps_delete keeps_mintRefreshToken keeps_resolveSigningKey assms)

lemma keeps_stored_idp [keeps_rules]: "keeps (\<lambda>w. view objs w k) (stored_idp E org idp)"
  unfolding stored_idp_def by (intro keeps_rules keeps_put keeps_delete)

lemma keeps_resolveUpstreamIDP [keeps_rules]: "keeps (\<lambda>w. view objs w k) (resolveUpstreamIDP E org cid idp)"
  unfolding resolveUpstreamIDP_def by (intro keeps_rules keeps_put keeps_delete)

lemma keeps_enabledIDPIDs [keeps_rules]: "keeps (\<lambda>w. view objs w k) (enabledIDPIDs E org)"
  unfolding enabledIDPIDs_def by (intro keeps_rules keeps_put keeps_delete)

lemma keeps_select_idp [keeps_rules]: "keeps (\<lambda>w. view objs w k) (select_idp E app req)"
  unfolding select_idp_def by (auto split: list.splits intro!: keeps_rules keeps_put keeps_delete)

text \<open>Claiming a one-time record.\<close>

lemma claim_Some:
  assumes "claimSingleUse E key w = (Inr (Some data), w')"
  shows "\<exists>v. v \<noteq> [] \<and> view objs w key = Some (v, data) \<and> view objs w' = (view objs w)(key := None)"
proof -
  from assms obtain rec w1 where g: "on_store (st_Get (e_ops E) key) w = (Inr rec, w1)"
    and v: "sr_Version rec \<noteq> []"
    and d: "on_store (st_Delete (e_ops E) key (sr_Version rec)) w1 = (Inr (), w')" and "data = sr_Data rec"
    by (auto simp: claimSingleUse_def eng_Inr split: if_splits)
  with get_step [OF g] delete_step [OF d] show ?thesis by auto
qed

lemma claim_absent:
  assumes "claimSingleUse E key w = (r, w')" and "view objs w key = None"
  shows "r = Inr None \<and> view objs w' = view objs w"
  using assms by (auto simp: claimSingleUse_def attempt_sum split: if_splits dest!: get_step)

lemma claim_total: "claimSingleUse E key w \<noteq> (Inl e, w')"
  by (auto simp: claimSingleUse_def attempt_sum split: if_splits)

lemma keeps_claim: "k \<noteq> key \<Longrightarrow> keeps (\<lambda>w. view objs w k) (claimSingleUse E key)"
  unfolding claimSingleUse_def by (intro keeps_rules keeps_put keeps_delete)

lemma claim_result:
  assumes "claimSingleUse E key w = (r, w')"
  shows "(\<exists>data. r = Inr (Some data)) \<or> r = Inr None"
  using assms claim_total [of key w] by (cases r; cases "projr r") auto

lemma consume_code_Some:
  assumes "fetchAndConsumeAuthCode E code w = (Inr (Some ac), w')"
  shows "\<exists>v data. view objs w (AuthCodeKey code) = Some (v, data) \<and> unmarshal code_fields zero_code data = Some ac \<and>
    view objs w' = (view objs w)(AuthCodeKey code := None)"
  using assms
  by (auto simp: fetchAndConsumeAuthCode_def eng_Inr prims_eq dest!: claim_Some split: option.splits)

lemma consume_code_absent:
  assumes "fetchAndConsumeAuthCode E code w = (r, w')" and "view objs w (AuthCodeKey code) = None"
  shows "r = Inr None"
  using assms
  by (cases r) (auto simp: fetchAndConsumeAuthCode_def eng_Inr eng_Inl prims_eq dest!: claim_absent)

lemma live_state_Some:
  "live_state E claimed w = (Inr (Some s), w') \<Longrightarrow>
     \<exists>data now. claimed = Some data \<and> unmarshal state_fields zero_state data = Some s \<and>
       now \<in> range (e_now E) \<and> now \<le> as_CreatedAt s + authStateTTL \<and> view objs w' = view objs w"
  by (auto simp: live_state_def andThen_Inr prims_eq After_def not_less split: option.splits if_splits)

lemma consume_state_Some:
  assumes "fetchAndConsumeAuthState E st w = (Inr (Some s), w')"
  shows "\<exists>v data now. view objs w (AuthStateKey st) = Some (v, data) \<and>
    unmarshal state_fields zero_state data = Some s \<and> now \<in> range (e_now E) \<and>
    now \<le> as_CreatedAt s + authStateTTL \<and> view objs w' = (view objs w)(AuthStateKey st := None)"
  using assms
  by (auto simp: fetchAndConsumeAuthState_def andThen_Inr prims_eq dest!: live_state_Some claim_Some)

lemma consume_state_absent:
  assumes "fetchAndConsumeAuthState E st w = (r, w')" and "view objs w (AuthStateKey st) = None"
  shows "r = Inr None"
  using assms
  by (cases r) (auto simp: fetchAndConsumeAuthState_def live_state_def eng_Inr eng_Inl prims_eq dest!: claim_absent)

subsection \<open>Redeeming a code or a refresh token\<close>

text \<open>The key of a code is written by no step of a redemption.\<close>

lemma keeps_code_issue: "keeps (\<lambda>w. view objs w (AuthCodeKey c)) (issueTokens E app base scope nonce fam)"
  by (rule keeps_issueTokens) simp_all

lemma mint_Inr:
  assumes "mintRefreshToken E app base scope fam w = (Inr handle, w')"
  shows "\<exists>v now fam'. view objs w' = (view objs w)(RefreshTokenKey handle \<mapsto>
           (v, Doc (marshal refresh_fields (refresh_record app base scope fam' handle now)))) \<and>
         (fam \<noteq> [] \<longrightarrow> fam' = fam) \<and> now \<in> range (e_now E) \<and> v \<noteq> []"
proof -
  have family: "(fam \<noteq> [] \<longrightarrow> fam' = fam) \<and> view objs w3 = view objs w2"
    if "(if fam = [] then wrapErr EFamilyToken (secure_token E ''rtf_'') else ret fam) w2 = (Inr fam', w3)"
    for fam' w2 w3
    using that by (auto simp: wrapErr_Inr secure_token_Inr split: if_splits)
  from assms have "\<exists>fam' now w4 v. on_store (st_Put (e_ops E) (RefreshTokenKey handle)
        (Doc (marshal refresh_fields (refresh_record app base scope fam' handle now))) []) w4 = (Inr v, w') \<and>
      (fam \<noteq> [] \<longrightarrow> fam' = fam) \<and> now \<in> range (e_now E) \<and> view objs w4 = view objs w"
    unfolding mintRefreshToken_def andThen_Inr wrapErr_Inr [of _ "on_store m" for m] prims_eq
    by (elim exE conjE) (frule family, fastforce simp: wrapErr_Inr secure_token_Inr)
  then show ?thesis by (metis put_step)
qed

lemma mint_handle: "mintRefreshToken E app base scope fam w = (Inr handle, w') \<Longrightarrow> \<exists>t. handle = ''rt_'' @ t"
  unfolding mintRefreshToken_def andThen_Inr wrapErr_Inr [of ERefreshToken] secure_token_Inr by auto

text \<open>What the issuance of tokens goes through.\<close>

lemma issueTokens_Inr:
  assumes "issueTokens E app base0 scope nonce fam w = (Inr resp, w')"
  obtains base key now jti jti' w1 w2 where
    "base0 = Some base"
    "resolveSigningKey E (app_OrganizationID app) (app_ID app) w = (Inr key, w1)"
    "now \<in> range (e_now E)"
    "SignJWT (e_rsa E) (access_claims app base (IssuerFor E (app_OrganizationID app)) scope now jti)
       (key_PrivateKeyPEM key) (key_KID key) = Inr (tp_AccessToken resp)"
    "SignJWT (e_rsa E) (id_claims app base (IssuerFor E (app_OrganizationID app)) nonce now jti')
       (key_PrivateKeyPEM key) (key_KID key) = Inr (tp_IDToken resp)"
    "mintRefreshToken E app base scope fam w2 = (Inr (tp_RefreshToken resp), w')"
    "view objs w2 = view objs w1"
    "tp_Scope resp = scope" "tp_ExpiresIn resp = 900"
proof -
  from assms obtain base where b: "base0 = Some base" by (cases base0) (auto simp: issueTokens_def)
  from assms[unfolded issueTokens_def b Let_def] obtain key w1 w2 where
    "resolveSigningKey E (app_OrganizationID app) (app_ID app) w = (Inr key, w1)"
    and "\<exists>now jti jti'. now \<in> range (e_now E) \<and>
      SignJWT (e_rsa E) (access_claims app base (IssuerFor E (app_OrganizationID app)) scope now jti)
       (key_PrivateKeyPEM key) (key_KID key) = Inr (tp_AccessToken resp) \<and>
      SignJWT (e_rsa E) (id_claims app base (IssuerFor E (app_OrganizationID app)) nonce now jti')
       (key_PrivateKeyPEM key) (key_KID key) = Inr (tp_IDToken resp)"
    and "mintRefreshToken E app base scope fam w2 = (Inr (tp_RefreshToken resp), w')"
    and "view objs w2 = view objs w1" and "tp_Scope resp = scope \<and> tp_ExpiresIn resp = 900"
    by (fastforce simp: eng_Inr prims_eq secure_token_Inr accessTokenTTL_def Minute_def Second_def)
  with b that show ?thesis by blast
qed

end

end
