(* ===== verification/JayDB.thy ===== *)
theory JayDB
  imports Storage
begin

text \<open>
  \<^verbatim>\<open>JayDBStorage\<close> of \<^verbatim>\<open>pkg/storage/jaydb_storage.go\<close>: the \<^verbatim>\<open>Storage\<close> interface on top of the JayDB
  engine. JayDB itself is a package outside the repository: its operations are the parameter
  \<open>jaydb_ops\<close>, and the locale \<open>jaydb\<close> states what they are documented to do. The wrapper then
  satisfies the storage contract (\<open>sublocale\<close>). \<open>mem_ops\<close> is a reference instance with the semantics
  of JayDB's memory driver, used to show that the contract can be met and to run the model.
\<close>

subsection \<open>The engine's interface\<close>

datatype dberr = DbNotFound | DbVersionMismatch | DbAlreadyExists | DbOther string

definition MatchAnyETag :: string where
  "MatchAnyETag = ''*''"

record 's jaydb_ops =
  db_Get :: "string \<Rightarrow> ('s, dberr, string \<times> blob) eng"
  db_Put :: "string \<Rightarrow> blob \<Rightarrow> string option \<Rightarrow> ('s, dberr, string) eng"
  db_Delete :: "string \<Rightarrow> string option \<Rightarrow> ('s, dberr, unit) eng"
  db_List :: "string \<Rightarrow> nat \<Rightarrow> ('s, dberr, string list) eng"

subsection \<open>The wrapper\<close>

definition jay_Get :: "'s jaydb_ops \<Rightarrow> string \<Rightarrow> ('s, sterr, StoredRecord) eng" where
  "jay_Get db key =
     attempt (db_Get db key) (\<lambda>r. case r of
         Inl err \<Rightarrow> if err = DbNotFound then fail ErrNotFound
           else fail (case err of DbOther m \<Rightarrow> StOther m | _ \<Rightarrow> StOther ''jaydb'')
       | Inr (etag, data) \<Rightarrow> ret \<lparr>sr_Key = key, sr_Version = etag, sr_Data = data\<rparr>)"

definition jay_Put :: "'s jaydb_ops \<Rightarrow> string \<Rightarrow> blob \<Rightarrow> string \<Rightarrow> ('s, sterr, string) eng" where
  "jay_Put db key data expectedVersion =
     (let opts = (if expectedVersion \<noteq> [] then Some expectedVersion else None) in
      attempt (db_Put db key data opts) (\<lambda>r. case r of
         Inl err \<Rightarrow>
           (if err = DbVersionMismatch \<or> err = DbAlreadyExists \<or> err = DbNotFound then fail ErrVersionMismatch
            else fail (case err of DbOther m \<Rightarrow> StOther m | _ \<Rightarrow> StOther ''jaydb''))
       | Inr etag \<Rightarrow> ret etag))"

definition jay_Delete :: "'s jaydb_ops \<Rightarrow> string \<Rightarrow> string \<Rightarrow> ('s, sterr, unit) eng" where
  "jay_Delete db key expectedVersion =
     (let opts = (if expectedVersion \<noteq> [] then Some expectedVersion else None) in
      attempt (db_Delete db key opts) (\<lambda>r. case r of
         Inl err \<Rightarrow>
           (if err = DbNotFound then fail ErrNotFound
            else if err = DbVersionMismatch then fail ErrVersionMismatch
            else fail (case err of DbOther m \<Rightarrow> StOther m | _ \<Rightarrow> StOther ''jaydb''))
       | Inr u \<Rightarrow> ret ()))"

text \<open>The loop of \<^verbatim>\<open>List\<close>: each key is read again; a key that cannot be read is skipped.\<close>

fun jay_List_loop :: "'s jaydb_ops \<Rightarrow> string list \<Rightarrow> ('s, sterr, StoredRecord list) eng" where
  "jay_List_loop db [] = ret []"
| "jay_List_loop db (k # ks) =
     attempt (jay_Get db k) (\<lambda>r. case r of
         Inl err \<Rightarrow> jay_List_loop db ks
       | Inr rec \<Rightarrow> andThen (jay_List_loop db ks) (\<lambda>recs. ret (rec # recs)))"

definition jay_List :: "'s jaydb_ops \<Rightarrow> string \<Rightarrow> ('s, sterr, StoredRecord list) eng" where
  "jay_List db prefx =
     attempt (db_List db prefx 0) (\<lambda>r. case r of
         Inl err \<Rightarrow> fail (case err of DbOther m \<Rightarrow> StOther m | _ \<Rightarrow> StOther ''jaydb'')
       | Inr items \<Rightarrow> jay_List_loop db items)"

definition JayDBStorage :: "'s jaydb_ops \<Rightarrow> 's store_ops" where
  "JayDBStorage db = \<lparr>st_Get = jay_Get db, st_Put = jay_Put db, st_Delete = jay_Delete db, st_List = jay_List db\<rparr>"

lemma JayDBStorage_simps [simp]:
  "st_Get (JayDBStorage db) = jay_Get db" "st_Put (JayDBStorage db) = jay_Put db"
  "st_Delete (JayDBStorage db) = jay_Delete db" "st_List (JayDBStorage db) = jay_List db"
  by (simp_all add: JayDBStorage_def)

text \<open>How the wrapper's results come about.\<close>

lemma jay_Get_Inr:
  "jay_Get db k s = (Inr rec, s') \<longleftrightarrow>
     (\<exists>v d. db_Get db k s = (Inr (v, d), s') \<and> rec = \<lparr>sr_Key = k, sr_Version = v, sr_Data = d\<rparr>)"
  by (auto simp: jay_Get_def eng_Inr split: prod.splits if_splits)

lemma jay_Get_NotFound: "jay_Get db k s = (Inl ErrNotFound, s') \<longleftrightarrow> db_Get db k s = (Inl DbNotFound, s')"
  by (auto simp: jay_Get_def eng_Inr split: prod.splits if_splits dberr.splits)
    (metis dberr.exhaust)

lemma jay_Get_state: "snd (jay_Get db k s) = snd (db_Get db k s)"
  by (auto simp: jay_Get_def attempt_def fail_def ret_def split: prod.splits sum.splits)

lemma jay_Put_Inr:
  "jay_Put db k d ev s = (Inr v, s') \<longleftrightarrow>
     db_Put db k d (if ev \<noteq> [] then Some ev else None) s = (Inr v, s')"
  by (auto simp: jay_Put_def Let_def eng_Inr split: if_splits)

lemma jay_Put_Inl:
  "jay_Put db k d ev s = (Inl e, s') \<Longrightarrow>
     \<exists>e'. db_Put db k d (if ev \<noteq> [] then Some ev else None) s = (Inl e', s') \<and> ((\<exists>m. e' = DbOther m) \<longrightarrow> e \<noteq> ErrVersionMismatch)"
  by (auto simp: jay_Put_def Let_def eng_Inr split: if_splits dberr.splits)

lemma jay_Delete_Inr:
  "jay_Delete db k ev s = (Inr u, s') \<longleftrightarrow>
     db_Delete db k (if ev \<noteq> [] then Some ev else None) s = (Inr (), s')"
  by (auto simp: jay_Delete_def Let_def eng_Inr split: if_splits)

lemma jay_Delete_Inl:
  "jay_Delete db k ev s = (Inl e, s') \<Longrightarrow>
     \<exists>e'. db_Delete db k (if ev \<noteq> [] then Some ev else None) s = (Inl e', s') \<and> ((\<exists>m. e' = DbOther m) \<longrightarrow> e \<noteq> ErrVersionMismatch)"
  by (auto simp: jay_Delete_def Let_def eng_Inr split: if_splits dberr.splits)

subsection \<open>What JayDB documents\<close>

locale jaydb =
  fixes db :: "'s jaydb_ops"
    and objs :: "'s \<Rightarrow> string \<Rightarrow> (string \<times> blob) option"
  assumes db_get_frame: "db_Get db k s = (r, s') \<Longrightarrow> objs s' = objs s"
    and db_get_found: "db_Get db k s = (Inr vd, s') \<Longrightarrow> objs s k = Some vd"
    and db_get_missing: "db_Get db k s = (Inl DbNotFound, s') \<Longrightarrow> objs s k = None"
    and db_put_done: "db_Put db k d ev s = (Inr v, s') \<Longrightarrow>
          v \<noteq> [] \<and> objs s' = (objs s)(k \<mapsto> (v, d)) \<and>
          (\<forall>e. ev = Some e \<longrightarrow> (if e = MatchAnyETag then objs s k = None else \<exists>d'. objs s k = Some (e, d')))"
    and db_put_failed: "db_Put db k d ev s = (Inl e, s') \<Longrightarrow>
          objs s' = objs s \<or>
          (\<exists>m. e = DbOther m) \<and> (\<exists>v. v \<noteq> [] \<and> objs s' = (objs s)(k \<mapsto> (v, d))) \<and>
          (\<forall>e. ev = Some e \<longrightarrow> (if e = MatchAnyETag then objs s k = None else \<exists>d'. objs s k = Some (e, d')))"
    and db_delete_done: "db_Delete db k ev s = (Inr u, s') \<Longrightarrow>
          objs s' = (objs s)(k := None) \<and>
          (\<forall>e. ev = Some e \<longrightarrow> e \<noteq> MatchAnyETag \<longrightarrow> (\<exists>d'. objs s k = Some (e, d')))"
    and db_delete_failed: "db_Delete db k ev s = (Inl e, s') \<Longrightarrow>
          objs s' = objs s \<or>
          (\<exists>m. e = DbOther m) \<and> objs s' = (objs s)(k := None) \<and>
          (\<forall>e. ev = Some e \<longrightarrow> e \<noteq> MatchAnyETag \<longrightarrow> (\<exists>d'. objs s k = Some (e, d')))"
    and db_list_frame: "db_List db p n s = (l, s') \<Longrightarrow> objs s' = objs s"
    and db_list_sound: "db_List db p 0 s = (Inr ks, s') \<Longrightarrow> k \<in> set ks \<Longrightarrow> HasPrefix k p"
begin

lemma jay_Get_frame: "jay_Get db k s = (r, s') \<Longrightarrow> objs s' = objs s"
  using jay_Get_state [of db k s] db_get_frame by (metis prod.collapse snd_conv)

lemma jay_List_loop_frame: "jay_List_loop db ks s = (r, s') \<Longrightarrow> objs s' = objs s"
proof (induction ks arbitrary: s r)
  case Nil
  then show ?case by simp
next
  case (Cons k ks)
  from Cons.prems obtain g s1 where g: "jay_Get db k s = (g, s1)"
    and rest: "(case g of Inl err \<Rightarrow> jay_List_loop db ks
       | Inr rec \<Rightarrow> andThen (jay_List_loop db ks) (\<lambda>recs. ret (rec # recs))) s1 = (r, s')"
    by (auto simp: attempt_iff)
  from rest obtain r' where "jay_List_loop db ks s1 = (r', s')"
    by (cases r) (auto simp: eng_Inr eng_Inl split: sum.splits)
  with Cons.IH g jay_Get_frame show ?case by metis
qed

lemma jay_List_loop_sound:
  "jay_List_loop db ks s = (Inr recs, s') \<Longrightarrow> rec \<in> set recs \<Longrightarrow>
     sr_Key rec \<in> set ks \<and> objs s (sr_Key rec) = Some (sr_Version rec, sr_Data rec)"
proof (induction ks arbitrary: s recs)
  case Nil
  then show ?case by simp
next
  case (Cons k ks)
  from Cons.prems(1) obtain g s1 where g: "jay_Get db k s = (g, s1)"
    and rest: "(case g of Inl err \<Rightarrow> jay_List_loop db ks
       | Inr rec \<Rightarrow> andThen (jay_List_loop db ks) (\<lambda>recs. ret (rec # recs))) s1 = (Inr recs, s')"
    by (auto simp: attempt_iff)
  have s1: "objs s1 = objs s" using g by (rule jay_Get_frame)
  show ?case
  proof (cases g)
    case (Inl e)
    with rest Cons.IH [of s1 recs] Cons.prems(2) s1 show ?thesis by simp
  next
    case (Inr r0)
    with g have r0: "sr_Key r0 = k" "objs s k = Some (sr_Version r0, sr_Data r0)"
      using db_get_found by (auto simp: jay_Get_Inr)
    from Inr rest obtain recs' where l: "jay_List_loop db ks s1 = (Inr recs', s')" "recs = r0 # recs'"
      by (auto simp: eng_Inr)
    with Cons.IH [of s1 recs'] Cons.prems(2) s1 r0 show ?thesis by auto
  qed
qed

end

sublocale jaydb \<subseteq> jay: cas_store "JayDBStorage db" objs
proof unfold_locales
  fix k s r s'
  assume "st_Get (JayDBStorage db) k s = (r, s')"
  then show "objs s' = objs s" by (simp add: jay_Get_frame)
next
  fix k s rec s'
  assume "st_Get (JayDBStorage db) k s = (Inr rec, s')"
  then show "sr_Key rec = k \<and> objs s k = Some (sr_Version rec, sr_Data rec)"
    by (auto simp: jay_Get_Inr dest: db_get_found)
next
  fix k s s'
  assume "st_Get (JayDBStorage db) k s = (Inl ErrNotFound, s')"
  then show "objs s k = None" by (auto simp: jay_Get_NotFound dest: db_get_missing)
next
  fix k d ev s v s'
  assume "st_Put (JayDBStorage db) k d ev s = (Inr v, s')"
  then show "v \<noteq> [] \<and> cas_ok ev (objs s k) \<and> objs s' = (objs s)(k \<mapsto> (v, d))"
    by (auto simp: jay_Put_Inr cas_ok_def MatchAnyVersion_def MatchAnyETag_def
        dest!: db_put_done split: if_splits)
next
  fix k d ev s e s'
  assume "st_Put (JayDBStorage db) k d ev s = (Inl e, s')"
  then show "objs s' = objs s \<or> e \<noteq> ErrVersionMismatch \<and> cas_ok ev (objs s k) \<and>
      (\<exists>v. v \<noteq> [] \<and> objs s' = (objs s)(k \<mapsto> (v, d)))"
    by (auto simp: cas_ok_def MatchAnyVersion_def MatchAnyETag_def
        dest!: jay_Put_Inl dest: db_put_failed split: if_splits)
next
  fix k ev s u s'
  assume "st_Delete (JayDBStorage db) k ev s = (Inr u, s')"
  then show "objs s' = (objs s)(k := None)" by (auto simp: jay_Delete_Inr dest!: db_delete_done)
next
  fix k ev s u s'
  assume "st_Delete (JayDBStorage db) k ev s = (Inr u, s')" "ev \<noteq> []" "ev \<noteq> MatchAnyVersion"
  then show "\<exists>d. objs s k = Some (ev, d)"
    by (auto simp: jay_Delete_Inr MatchAnyVersion_def MatchAnyETag_def dest!: db_delete_done)
next
  fix k ev s e s'
  assume "st_Delete (JayDBStorage db) k ev s = (Inl e, s')"
  then show "objs s' = objs s \<or> e \<noteq> ErrVersionMismatch \<and> objs s' = (objs s)(k := None) \<and>
      (ev \<noteq> [] \<longrightarrow> ev \<noteq> MatchAnyVersion \<longrightarrow> (\<exists>d. objs s k = Some (ev, d)))"
    by (auto simp: MatchAnyVersion_def MatchAnyETag_def dest!: jay_Delete_Inl dest: db_delete_failed split: if_splits)
next
  fix p s l s'
  assume "st_List (JayDBStorage db) p s = (l, s')"
  then show "objs s' = objs s"
    by (auto simp: jay_List_def attempt_sum dest!: db_list_frame jay_List_loop_frame)
next
  fix p s recs s' rec
  assume "st_List (JayDBStorage db) p s = (Inr recs, s')" and rec: "rec \<in> set recs"
  then obtain ks s1 where l: "db_List db p 0 s = (Inr ks, s1)" and lp: "jay_List_loop db ks s1 = (Inr recs, s')"
    by (auto simp: jay_List_def attempt_sum)
  from jay_List_loop_sound [OF lp rec] db_list_frame [OF l] db_list_sound [OF l]
  show "HasPrefix (sr_Key rec) p \<and> objs s (sr_Key rec) = Some (sr_Version rec, sr_Data rec)" by auto
qed

subsection \<open>A reference instance\<close>

text \<open>Objects as an association list, versions from a counter: \<^verbatim>\<open>"0"\<close>, \<^verbatim>\<open>"1"\<close>, in quotes.\<close>

record memdb =
  md_objs :: "(string \<times> string \<times> blob) list"
  md_next :: nat

definition mem_empty :: memdb where
  "mem_empty = \<lparr>md_objs = [], md_next = 0\<rparr>"

definition mem_view :: "memdb \<Rightarrow> string \<Rightarrow> (string \<times> blob) option" where
  "mem_view s k = map_of (md_objs s) k"

definition mem_etag :: "nat \<Rightarrow> string" where
  "mem_etag n = [CHR 0x22] @ nat_str n @ [CHR 0x22]"

definition mem_Get :: "string \<Rightarrow> (memdb, dberr, string \<times> blob) eng" where
  "mem_Get k s = (case map_of (md_objs s) k of None \<Rightarrow> (Inl DbNotFound, s) | Some vd \<Rightarrow> (Inr vd, s))"

definition mem_Put :: "string \<Rightarrow> blob \<Rightarrow> string option \<Rightarrow> (memdb, dberr, string) eng" where
  "mem_Put k d ev s =
     (let cur = map_of (md_objs s) k;
          v = mem_etag (md_next s);
          s' = s\<lparr>md_objs := AList.update k (v, d) (md_objs s), md_next := Suc (md_next s)\<rparr> in
      case ev of
        None \<Rightarrow> (Inr v, s')
      | Some e \<Rightarrow>
          if e = MatchAnyETag then (if cur = None then (Inr v, s') else (Inl DbAlreadyExists, s))
          else (case cur of
                  None \<Rightarrow> (Inl DbNotFound, s)
                | Some (w, _) \<Rightarrow> if w = e then (Inr v, s') else (Inl DbVersionMismatch, s)))"

definition mem_Delete :: "string \<Rightarrow> string option \<Rightarrow> (memdb, dberr, unit) eng" where
  "mem_Delete k ev s =
     (let s' = s\<lparr>md_objs := AList.delete k (md_objs s)\<rparr> in
      case map_of (md_objs s) k of
        None \<Rightarrow> (Inl DbNotFound, s)
      | Some (w, _) \<Rightarrow>
          (case ev of
             None \<Rightarrow> (Inr (), s')
           | Some e \<Rightarrow> if e = MatchAnyETag \<or> w = e then (Inr (), s') else (Inl DbVersionMismatch, s)))"

definition mem_List :: "string \<Rightarrow> nat \<Rightarrow> (memdb, dberr, string list) eng" where
  "mem_List p n s =
     (let ks = List.filter (\<lambda>k. HasPrefix k p) (remdups (map fst (md_objs s))) in
      (Inr (if n = 0 then ks else take n ks), s))"

definition mem_ops :: "memdb jaydb_ops" where
  "mem_ops = \<lparr>db_Get = mem_Get, db_Put = mem_Put, db_Delete = mem_Delete, db_List = mem_List\<rparr>"

lemma mem_ops_simps [simp]:
  "db_Get mem_ops = mem_Get" "db_Put mem_ops = mem_Put" "db_Delete mem_ops = mem_Delete"
  "db_List mem_ops = mem_List"
  by (simp_all add: mem_ops_def)

lemma mem_etag_nonempty [simp]: "mem_etag n \<noteq> []" "[] \<noteq> mem_etag n"
  by (simp_all add: mem_etag_def)

interpretation mem: jaydb mem_ops mem_view
proof unfold_locales
  fix k d ev s v s'
  assume "db_Put mem_ops k d ev s = (Inr v, s')"
  then show "v \<noteq> [] \<and> mem_view s' = (mem_view s)(k \<mapsto> (v, d)) \<and>
      (\<forall>e. ev = Some e \<longrightarrow>
        (if e = MatchAnyETag then mem_view s k = None else \<exists>d'. mem_view s k = Some (e, d')))"
    by (auto simp: mem_Put_def Let_def mem_view_def update_conv' fun_eq_iff
        split: option.splits if_splits prod.splits)
next
  fix k ev s u s'
  assume "db_Delete mem_ops k ev s = (Inr u, s')"
  then show "mem_view s' = (mem_view s)(k := None) \<and>
      (\<forall>e. ev = Some e \<longrightarrow> e \<noteq> MatchAnyETag \<longrightarrow> (\<exists>d'. mem_view s k = Some (e, d')))"
    by (auto simp: mem_Delete_def Let_def mem_view_def delete_conv' fun_eq_iff
        split: option.splits if_splits prod.splits)
qed (auto simp: mem_Get_def mem_Put_def mem_Delete_def mem_List_def mem_view_def Let_def
      split: option.splits if_splits prod.splits)

text \<open>The wrapper over the reference instance is moreover reliable.\<close>

lemma jay_List_loop_mem:
  "\<exists>recs. jay_List_loop mem_ops ks s = (Inr recs, s) \<and>
     (\<forall>k \<in> set ks. \<forall>v d. mem_view s k = Some (v, d) \<longrightarrow>
        \<lparr>sr_Key = k, sr_Version = v, sr_Data = d\<rparr> \<in> set recs)"
proof (induction ks)
  case Nil
  then show ?case by simp
next
  case (Cons k ks)
  then obtain recs where recs: "jay_List_loop mem_ops ks s = (Inr recs, s)"
    "\<forall>k \<in> set ks. \<forall>v d. mem_view s k = Some (v, d) \<longrightarrow>
        \<lparr>sr_Key = k, sr_Version = v, sr_Data = d\<rparr> \<in> set recs" by blast
  then show ?case
    by (cases "map_of (md_objs s) k")
      (auto simp: attempt_def andThen_def jay_Get_def mem_Get_def mem_view_def fail_def ret_def)
qed

interpretation memr: reliable_store "JayDBStorage mem_ops" mem_view
proof unfold_locales
  fix s k v d
  assume "mem_view s k = Some (v, d)"
  then show "\<exists>s'. st_Get (JayDBStorage mem_ops) k s =
      (Inr \<lparr>sr_Key = k, sr_Version = v, sr_Data = d\<rparr>, s')"
    by (auto simp: jay_Get_Inr mem_Get_def mem_view_def)
next
  fix s k
  assume "mem_view s k = None"
  then show "\<exists>s'. st_Get (JayDBStorage mem_ops) k s = (Inl ErrNotFound, s')"
    by (auto simp: jay_Get_NotFound mem_Get_def mem_view_def)
next
  fix ev s k d
  assume "cas_ok ev (mem_view s k)"
  then show "\<exists>v s'. st_Put (JayDBStorage mem_ops) k d ev s = (Inr v, s')"
    by (auto simp: jay_Put_Inr cas_ok_def mem_Put_def mem_view_def Let_def MatchAnyVersion_def
        MatchAnyETag_def split: if_splits)
next
  fix ev s k d
  assume "\<not> cas_ok ev (mem_view s k)"
  then show "\<exists>s'. st_Put (JayDBStorage mem_ops) k d ev s = (Inl ErrVersionMismatch, s')"
    by (auto simp: jay_Put_def attempt_def cas_ok_def mem_Put_def mem_view_def Let_def MatchAnyVersion_def
        MatchAnyETag_def fail_def split: if_splits option.splits)
next
  fix s k v d
  assume "mem_view s k = Some (v, d)"
  then show "\<exists>s'. st_Delete (JayDBStorage mem_ops) k v s = (Inr (), s')"
    by (auto simp: jay_Delete_Inr mem_Delete_def mem_view_def Let_def)
next
  fix p and s :: memdb
  let ?ks = "List.filter (\<lambda>k. HasPrefix k p) (remdups (map fst (md_objs s)))"
  obtain recs where recs: "jay_List_loop mem_ops ?ks s = (Inr recs, s)"
    "\<forall>k \<in> set ?ks. \<forall>v d. mem_view s k = Some (v, d) \<longrightarrow>
        \<lparr>sr_Key = k, sr_Version = v, sr_Data = d\<rparr> \<in> set recs"
    using jay_List_loop_mem [of ?ks s] by blast
  have dom: "mem_view s k = Some vd \<Longrightarrow> k \<in> fst ` set (md_objs s)" for k vd
    by (auto simp: mem_view_def dest!: map_of_SomeD) (metis fst_conv image_eqI)
  from recs dom show "\<exists>recs s'. st_List (JayDBStorage mem_ops) p s = (Inr recs, s') \<and>
      (\<forall>k v d. HasPrefix k p \<longrightarrow> mem_view s k = Some (v, d) \<longrightarrow>
         \<lparr>sr_Key = k, sr_Version = v, sr_Data = d\<rparr> \<in> set recs)"
    by (intro exI [of _ recs] exI [of _ s]) (auto simp: jay_List_def attempt_def mem_List_def)
qed

end
