(* ===== verification/Flows.thy ===== *)
theory Flows
  imports Sessions JayDB
begin

text \<open>
  What a successful call of the authorization server went through: requests, callbacks, redemption of
  codes and refresh tokens. The lemmas of the locale \<open>engine_store\<close> are followed by the properties
  themselves, stated for any store that meets the contract, and by their witnesses on JayDB's memory
  driver.
\<close>

text \<open>
  An application a node knows: the live entry of its cache, at some reading of the clock, or the record stored under its client id,
  of the asked organization if it names none.
\<close>

definition known_app ::
  "('s \<Rightarrow> string \<Rightarrow> (string \<times> blob) option) \<Rightarrow> 's env \<Rightarrow> 's world \<Rightarrow> string \<Rightarrow> string \<Rightarrow> Application \<Rightarrow> bool" where
  "known_app objs E w org cid app \<longleftrightarrow>
     (\<exists>t. GetApp (w_cache w) org cid (e_now E t) = Some (Some app)) \<or>
     (\<exists>v data app0. objs (w_store w) (AppKey org cid) = Some (v, data) \<and> unmarshal app_fields zero_app data = Some app0 \<and>
        app = with_org org app0)"

text \<open>Calls that draw nothing from the random source.\<close>

lemma keeps_draws:
  "keeps w_draw (on_store m)" "keeps w_draw (clock E)" "keeps w_draw (cached E f)" "keeps w_draw (set_cached E g)"
  "keeps w_draw (generate_key E org app)"
  by (auto simp: keeps_def on_store_def clock_def cached_def set_cached_def generate_key_def draw_key_def andThen_def ofSum_def
      split: prod.splits)

context engine_store
begin

lemma consume_code_result:
  assumes "fetchAndConsumeAuthCode E code w = (r, w')"
  shows "r = Inr None \<or> (\<exists>ac. r = Inr (Some ac) \<and> view objs w' (AuthCodeKey code) = None)"
proof (cases r)
  case (Inl e)
  with assms claim_total show ?thesis by (auto simp: fetchAndConsumeAuthCode_def eng_Inl prims_eq)
next
  case (Inr o')
  with assms consume_code_Some show ?thesis by (cases o') fastforce+
qed

lemma redeem_code_Inr:
  assumes "redeem_code E req ac w = (Inr resp, w')"
  obtains now app w1 w2 where
    "now \<in> range (e_now E)" "now \<le> ac_ExpiresAt ac" "ac_ClientID ac = tr_ClientID req"
    "tr_RedirectURI req = [] \<or> tr_RedirectURI req = ac_RedirectURI ac"
    "loadApplication E (ac_OrganizationID ac) (ac_ClientID ac) w1 = (Inr app, w2)"
    "authenticate_client app ac req = None"
    "issueTokens E app (ac_Claims ac) (ac_Scope ac) (ac_Nonce ac) [] w2 = (Inr resp, w')"
    "view objs w1 = view objs w"
  using assms unfolding redeem_code_def andThen_Inr guard_Inr prims_eq SecureCompare_def After_def not_less
  by (metis Inr_inject rangeI view_simps(4))

lemma keeps_redeem_code: "keeps (\<lambda>w. view objs w (AuthCodeKey c)) (redeem_code E req ac)"
  unfolding redeem_code_def by (intro keeps_rules keeps_code_issue)

lemma exchange_code_Inr:
  assumes "exchangeAuthorizationCode E req w = (Inr resp, w')"
  obtains v data ac w1 where
    "view objs w (AuthCodeKey (tr_Code req)) = Some (v, data)"
    "unmarshal code_fields zero_code data = Some ac"
    "redeem_code E req ac w1 = (Inr resp, w')"
    "view objs w1 = (view objs w)(AuthCodeKey (tr_Code req) := None)"
  using assms unfolding exchangeAuthorizationCode_def andThen_Inr guard_Inr
  by (metis consume_code_Some)

lemma code_spent:
  assumes "exchangeAuthorizationCode E req w = (r, w')" and "r \<noteq> Inl ECodeInvalid"
  shows "view objs w' (AuthCodeKey (tr_Code req)) = None"
proof -
  obtain g w1 where f: "fetchAndConsumeAuthCode E (tr_Code req) w = (g, w1)" by fastforce
  with assms consume_code_result [OF f] obtain ac where g: "g = Inr (Some ac)"
    and gone: "view objs w1 (AuthCodeKey (tr_Code req)) = None"
    by (auto simp: exchangeAuthorizationCode_def andThen_def fail_def)
  have "redeem_code E req ac w1 = (r, w')"
    using assms(1) f g unfolding exchangeAuthorizationCode_def by (simp add: andThen_def)
  with gone keepsD [OF keeps_redeem_code] show ?thesis by metis
qed

lemma code_absent:
  assumes "exchangeAuthorizationCode E req w = (r, w')" and "view objs w (AuthCodeKey (tr_Code req)) = None"
  shows "r = Inl ECodeInvalid"
proof -
  obtain g w1 where f: "fetchAndConsumeAuthCode E (tr_Code req) w = (g, w1)" by fastforce
  with consume_code_absent [OF f assms(2)] assms(1) show ?thesis
    by (auto simp: exchangeAuthorizationCode_def andThen_def fail_def)
qed

lemma redeem_refresh_Inr:
  assumes "redeem_refresh E req data w = (Inr resp, w')"
  obtains rt app now w1 w2 where
    "unmarshal refresh_fields zero_refresh data = Some rt"
    "now \<in> range (e_now E)" "now \<le> rt_ExpiresAt rt" "rt_ClientID rt = tr_ClientID req"
    "loadApplication E (rt_OrganizationID rt) (rt_ClientID rt) w1 = (Inr app, w2)"
    "IsPublicClient (Some app) \<or> app_ClientSecret app = tr_ClientSecret req"
    "issueTokens E app (rt_Claims rt) (rt_Scope rt) [] (rt_FamilyID rt) w2 = (Inr resp, w')"
    "view objs w1 = view objs w"
  using assms unfolding redeem_refresh_def andThen_Inr guard_Inr prims_eq SecureCompare_def After_def not_less
  by (metis Inr_inject rangeI view_simps(4))

lemma loadApplication_keeps_view:
  "loadApplication E org cid w = (r, w') \<Longrightarrow> view objs w' = view objs w"
  using keepsD [OF keeps_loadApplication] by (auto simp: fun_eq_iff)

lemma exchange_refresh_Inr:
  assumes "exchangeRefreshToken E req w = (Inr resp, w')"
  obtains v data w1 where
    "view objs w (RefreshTokenKey (tr_RefreshToken req)) = Some (v, data)"
    "redeem_refresh E req data w1 = (Inr resp, w')"
    "view objs w1 = (view objs w)(RefreshTokenKey (tr_RefreshToken req) := None)"
  using assms unfolding exchangeRefreshToken_def andThen_Inr guard_Inr
  by (metis claim_Some)

lemma refresh_absent:
  assumes "exchangeRefreshToken E req w = (r, w')"
    and "view objs w (RefreshTokenKey (tr_RefreshToken req)) = None"
  shows "r = Inl ERefreshInvalid \<or> r = Inl ERefreshRequired"
proof -
  obtain g w1 where f: "claimSingleUse E (RefreshTokenKey (tr_RefreshToken req)) w = (g, w1)" by fastforce
  with claim_absent [OF f assms(2)] assms(1) show ?thesis
    by (auto simp: exchangeRefreshToken_def andThen_def fail_def split: if_splits)
qed

lemma refresh_spent:
  assumes "exchangeRefreshToken E req w = (Inr resp, w')" and "tp_RefreshToken resp \<noteq> tr_RefreshToken req"
  shows "view objs w' (RefreshTokenKey (tr_RefreshToken req)) = None"
proof (rule exchange_refresh_Inr [OF assms(1)], rule redeem_refresh_Inr, assumption)
  let ?k = "RefreshTokenKey (tr_RefreshToken req)"
  fix v data w1 rt app now w2 w3
  assume w1: "view objs w1 = (view objs w)(?k := None)" and w2: "view objs w2 = view objs w1"
    and l: "loadApplication E (rt_OrganizationID rt) (rt_ClientID rt) w2 = (Inr app, w3)"
    and i: "issueTokens E app (rt_Claims rt) (rt_Scope rt) [] (rt_FamilyID rt) w3 = (Inr resp, w')"
  have "view objs w3 ?k = None" using loadApplication_keeps_view [OF l] w1 w2 by simp
  with i show ?thesis
  proof (elim issueTokens_Inr)
    fix base key w4 w5
    assume "view objs w3 ?k = None"
      and k: "resolveSigningKey E (app_OrganizationID app) (app_ID app) w3 = (Inr key, w4)"
      and m: "mintRefreshToken E app base (rt_Scope rt) (rt_FamilyID rt) w5 = (Inr (tp_RefreshToken resp), w')"
      and "view objs w5 = view objs w4"
    with keepsD [OF keeps_resolveSigningKey k, of ?k] mint_Inr [OF m] assms(2) show ?thesis by auto
  qed
qed

lemma loadApplication_known:
  assumes "loadApplication E org cid w1 = (Inr app, w2)" and "w_cache w1 = w_cache w"
    and "view objs w1 (AppKey org cid) = view objs w (AppKey org cid)"
  shows "known_app objs E w org cid app"
proof (cases "\<exists>a. GetApp (w_cache w1) org cid (e_now E (w_tick w1)) = Some (Some a)")
  case True
  with assms(1,2) show ?thesis by (auto simp: known_app_def loadApplication_def andThen_Inr prims_eq)
next
  case False
  let ?w = "w1\<lparr>w_tick := Suc (w_tick w1)\<rparr>"
  from False assms(1) obtain rec w3 app0 where g: "on_store (st_Get (e_ops E) (AppKey org cid)) ?w = (Inr rec, w3)"
    and "unmarshal app_fields zero_app (sr_Data rec) = Some app0" "app = with_org org app0"
    by (auto simp: loadApplication_def andThen_Inr wrapErr_Inr prims_eq Let_def split: option.splits)
  moreover have "objs (w_store w) (AppKey org cid) = Some (sr_Version rec, sr_Data rec)"
    using get_step [OF g] assms(3) by (simp add: view_def)
  ultimately show ?thesis unfolding known_app_def by blast
qed

text \<open>The application a redemption is checked against.\<close>

lemma exchange_code_app:
  assumes "exchangeAuthorizationCode E req w = (Inr resp, w')"
  obtains v data ac app where "view objs w (AuthCodeKey (tr_Code req)) = Some (v, data)" "unmarshal code_fields zero_code data = Some ac"
    "ac_ClientID ac = tr_ClientID req" "\<exists>now \<in> range (e_now E). now \<le> ac_ExpiresAt ac"
    "tr_RedirectURI req = [] \<or> tr_RedirectURI req = ac_RedirectURI ac"
    "known_app objs E w (ac_OrganizationID ac) (ac_ClientID ac) app" "authenticate_client app ac req = None"
proof -
  from assms obtain ac w1 where f: "fetchAndConsumeAuthCode E (tr_Code req) w = (Inr (Some ac), w1)"
    and r: "redeem_code E req ac w1 = (Inr resp, w')"
    by (auto simp: exchangeAuthorizationCode_def andThen_Inr split: option.splits)
  from consume_code_Some [OF f] obtain v data where rec: "view objs w (AuthCodeKey (tr_Code req)) = Some (v, data)"
    "unmarshal code_fields zero_code data = Some ac" and w1: "view objs w1 = (view objs w)(AuthCodeKey (tr_Code req) := None)"
    by metis
  have "keeps w_cache (fetchAndConsumeAuthCode E (tr_Code req))"
    unfolding fetchAndConsumeAuthCode_def claimSingleUse_def by (intro keeps_rules)
  from keepsD [OF this f] have c: "w_cache w1 = w_cache w" .
  let ?w = "w1\<lparr>w_tick := Suc (w_tick w1)\<rparr>"
  from r obtain app w2 where l: "loadApplication E (ac_OrganizationID ac) (ac_ClientID ac) ?w = (Inr app, w2)"
    and a: "authenticate_client app ac req = None" "e_now E (w_tick w1) \<le> ac_ExpiresAt ac" "ac_ClientID ac = tr_ClientID req"
      "tr_RedirectURI req = [] \<or> tr_RedirectURI req = ac_RedirectURI ac"
    unfolding redeem_code_def andThen_Inr guard_Inr prims_eq SecureCompare_def After_def not_less
    by (auto split: option.splits)
  have "known_app objs E w (ac_OrganizationID ac) (ac_ClientID ac) app"
    by (rule loadApplication_known [OF l]) (simp_all add: c w1)
  with rec a show ?thesis by (intro that [of v data ac app]) auto
qed

lemma exchange_refresh_app:
  assumes "exchangeRefreshToken E req w = (Inr resp, w')"
  obtains v data rt app w2 where "view objs w (RefreshTokenKey (tr_RefreshToken req)) = Some (v, data)"
    "unmarshal refresh_fields zero_refresh data = Some rt" "rt_ClientID rt = tr_ClientID req"
    "\<exists>now \<in> range (e_now E). now \<le> rt_ExpiresAt rt" "known_app objs E w (rt_OrganizationID rt) (rt_ClientID rt) app"
    "IsPublicClient (Some app) \<or> app_ClientSecret app = tr_ClientSecret req"
    "issueTokens E app (rt_Claims rt) (rt_Scope rt) [] (rt_FamilyID rt) w2 = (Inr resp, w')"
    "view objs w2 = (view objs w)(RefreshTokenKey (tr_RefreshToken req) := None)" "w_draw w2 = w_draw w"
proof -
  from assms obtain data w1 where f: "claimSingleUse E (RefreshTokenKey (tr_RefreshToken req)) w = (Inr (Some data), w1)"
    and r: "redeem_refresh E req data w1 = (Inr resp, w')"
    by (auto simp: exchangeRefreshToken_def andThen_Inr split: option.splits if_splits)
  from claim_Some [OF f] obtain v where rec: "view objs w (RefreshTokenKey (tr_RefreshToken req)) = Some (v, data)"
    and w1: "view objs w1 = (view objs w)(RefreshTokenKey (tr_RefreshToken req) := None)" by metis
  have "keeps w_cache (claimSingleUse E k)" "keeps w_draw (claimSingleUse E k)" for k
    unfolding claimSingleUse_def by (intro keeps_rules keeps_draws)+
  from this [THEN keepsD, OF f] have c: "w_cache w1 = w_cache w" "w_draw w1 = w_draw w" .
  from r obtain rt where rt: "unmarshal refresh_fields zero_refresh data = Some rt"
    by (auto simp: redeem_refresh_def split: option.splits)
  let ?w = "w1\<lparr>w_tick := Suc (w_tick w1)\<rparr>"
  from r rt obtain app w2 where live: "e_now E (w_tick w1) \<le> rt_ExpiresAt rt" "rt_ClientID rt = tr_ClientID req"
    and l: "loadApplication E (rt_OrganizationID rt) (rt_ClientID rt) ?w = (Inr app, w2)"
    and a: "IsPublicClient (Some app) \<or> app_ClientSecret app = tr_ClientSecret req"
    and i: "issueTokens E app (rt_Claims rt) (rt_Scope rt) [] (rt_FamilyID rt) w2 = (Inr resp, w')"
    unfolding redeem_refresh_def andThen_Inr guard_Inr prims_eq SecureCompare_def After_def not_less
    by (auto split: option.splits if_splits)
  have "known_app objs E w (rt_OrganizationID rt) (rt_ClientID rt) app"
    by (rule loadApplication_known [OF l]) (simp_all add: c w1)
  moreover have "view objs w2 = (view objs w)(RefreshTokenKey (tr_RefreshToken req) := None)"
    using loadApplication_keeps_view [OF l] w1 by simp
  moreover have "keeps w_draw (loadApplication E (rt_OrganizationID rt) (rt_ClientID rt))"
    unfolding loadApplication_def by (intro keeps_rules keeps_draws)
  from keepsD [OF this l] have "w_draw w2 = w_draw w" using c by simp
  ultimately show ?thesis using rec rt live a i by (intro that [of v data rt app w2]) auto
qed

text \<open>The handle that is issued is a draw of the random source that has not been made before.\<close>

lemma issued_handle:
  assumes "issueTokens E app base0 scope nonce fam w = (Inr resp, w')"
  shows "\<exists>p x. w_draw w \<le> p \<and> e_rand E p = Some x \<and> tp_RefreshToken resp = ''rt_'' @ EncodeToString x"
proof -
  from assms obtain base where b: "base0 = Some base" by (cases base0) (auto simp: issueTokens_def)
  from assms [unfolded issueTokens_def b option.case Let_def andThen_Inr wrapErr_Inr] obtain key w1 now w2 jti w3 w4 jti' w5 w6 where
    k: "resolveSigningKey E (app_OrganizationID app) (app_ID app) w = (Inr key, w1)" and c: "clock E w1 = ((Inr now :: eerr + gotime), w2)"
    and j: "secure_token E ''jti_'' w2 = (Inr jti, w3)" "w_draw w4 = w_draw w3" "secure_token E ''jti_'' w4 = (Inr jti', w5)"
    and w6: "w_draw w6 = w_draw w5" and m: "mintRefreshToken E app base scope fam w6 = (Inr (tp_RefreshToken resp), w')"
    by (auto simp: ofSum_def)
  have "keeps w_draw (resolveSigningKey E o' a)" for o' a
    unfolding resolveSigningKey_def key_cached_def loadSigningKeys_def create_key_def cache_keys_def
    by (intro keeps_rules keeps_draws)
  from keepsD [OF this k] c j w6 have "w_draw w \<le> w_draw w6" by (auto simp: secure_token_Inr prims_eq)
  with m show ?thesis unfolding mintRefreshToken_def andThen_Inr wrapErr_Inr [of ERefreshToken] secure_token_Inr by auto
qed

subsection \<open>Authorization requests and callbacks\<close>

lemma keeps_begin_login: "\<forall>s. k \<noteq> AuthStateKey s \<Longrightarrow> keeps (\<lambda>w. view objs w k) (begin_login E req app sel p)"
  unfolding begin_login_def by (intro keeps_rules keeps_put) auto

lemma begin_login_Inr:
  assumes "begin_login E req app sel p w = (Inr url, w')"
  shows "\<exists>v stateID now. view objs w' = (view objs w)(AuthStateKey stateID \<mapsto>
      (v, Doc (marshal state_fields (state_of_request req app sel stateID now)))) \<and>
    now \<in> range (e_now E) \<and> (\<exists>i b. e_rand E i = Some b \<and> stateID = ''state_'' @ EncodeToString b) \<and>
    idp_AuthorizeURL (effectiveProvider p) \<noteq> [] \<and>
    url = idp_AuthorizeURL (effectiveProvider p) @ ''?'' @
      Values_Encode (upstream_query (effectiveProvider p) (ar_ServerBaseURL req) stateID)"
proof -
  from assms obtain stateID b v w1 where
    put: "on_store (st_Put (e_ops E) (AuthStateKey stateID) (Doc (marshal state_fields
        (state_of_request req app sel stateID (e_now E (w_tick w))))) [])
        (w\<lparr>w_draw := Suc (w_draw w), w_tick := Suc (w_tick w)\<rparr>) = (Inr v, w1)" "view objs w' = view objs w1"
    and r: "e_rand E (w_draw w) = Some b" "stateID = ''state_'' @ EncodeToString b"
    and u: "idp_AuthorizeURL (effectiveProvider p) \<noteq> []"
      "url = idp_AuthorizeURL (effectiveProvider p) @ ''?'' @
        Values_Encode (upstream_query (effectiveProvider p) (ar_ServerBaseURL req) stateID)"
    unfolding begin_login_def Let_def andThen_Inr wrapErr_Inr secure_token_Inr guard_Inr prims_eq
    by fastforce
  with put_step [OF put(1)] show ?thesis by (auto intro!: exI)
qed

lemma select_idp_Inr:
  assumes "select_idp E app req w = (Inr idp, w')"
  shows "(ar_IDPID req \<noteq> [] \<longrightarrow> idp = ar_IDPID req) \<and> (app_AllowedIDPs app \<noteq> [] \<longrightarrow> idp \<in> set (app_AllowedIDPs app))"
  using assms
  by (auto simp: select_idp_def andThen_Inr containsString_def list_ex_mem split: if_splits list.splits)

lemma stored_idp_Some:
  "stored_idp E org idp w = (Inr (Some p), w') \<Longrightarrow>
     \<exists>v data. view objs w (IDPKey org idp) = Some (v, data) \<and> decodeUsable data = Some p \<and> view objs w' = view objs w"
  by (auto simp: stored_idp_def attempt_sum dest!: get_step)

lemma stored_idp_view: "stored_idp E org idp w = (r, w') \<Longrightarrow> view objs w' = view objs w"
  using keepsD [OF keeps_stored_idp] by (auto simp: fun_eq_iff)

lemma resolveUpstreamIDP_Inr:
  assumes "resolveUpstreamIDP E org cid idp w = (Inr p, w')"
  shows "if cid = ''admin_console'' then platformIDP (e_getenv E) idp = Inr p
    else \<exists>o' v data. o' \<in> {org, ''default''} \<and> view objs w (IDPKey o' idp) = Some (v, data) \<and> decodeUsable data = Some p"
proof (cases "cid = ''admin_console''")
  case True
  with assms show ?thesis by (auto simp: resolveUpstreamIDP_def)
next
  case False
  with assms obtain own w1 where own: "stored_idp E org idp w = (Inr own, w1)"
    and rest: "(case own of Some provider \<Rightarrow> ret provider
        | None \<Rightarrow> andThen (if org \<noteq> ''default'' then stored_idp E ''default'' idp else ret None)
              (\<lambda>dflt. case dflt of Some provider \<Rightarrow> ret provider | None \<Rightarrow> fail (EIDPUnknown idp org))) w1 = (Inr p, w')"
    unfolding resolveUpstreamIDP_def if_not_P [OF False] andThen_Inr by blast
  show ?thesis
  proof (cases own)
    case None
    with rest obtain w2 where "stored_idp E ''default'' idp w1 = (Inr (Some p), w2)"
      by (auto simp: andThen_Inr split: option.splits if_splits)
    with stored_idp_view [OF own] False show ?thesis by (auto dest!: stored_idp_Some)
  next
    case (Some q)
    with own rest False show ?thesis by (auto dest!: stored_idp_Some)
  qed
qed

lemma PrepareAuthorization_Inr:
  assumes "PrepareAuthorization E req w = (Inr url, w')"
  obtains v data app idp p w1 w2 w3 where
    "view objs w (AppKey (ar_OrganizationID req) (ar_ClientID req)) = Some (v, data)"
    "unmarshal app_fields zero_app data = Some app" "check_request app req = None"
    "select_idp E app req w1 = (Inr idp, w2)" "view objs w1 = view objs w" "view objs w2 = view objs w"
    "resolveUpstreamIDP E (ar_OrganizationID req) (ar_ClientID req) idp w2 = (Inr p, w3)"
    "view objs w3 = view objs w" "begin_login E req app idp p w3 = (Inr url, w')"
proof -
  from assms obtain rec app idp p w1 w2 w3 where
    g: "on_store (st_Get (e_ops E) (AppKey (ar_OrganizationID req) (ar_ClientID req))) w = (Inr rec, w1)"
    and a: "unmarshal app_fields zero_app (sr_Data rec) = Some app" "check_request app req = None"
    and s: "select_idp E app req w1 = (Inr idp, w2)"
    and u: "resolveUpstreamIDP E (ar_OrganizationID req) (ar_ClientID req) idp w2 = (Inr p, w3)"
    and b: "begin_login E req app idp p w3 = (Inr url, w')"
    unfolding PrepareAuthorization_def andThen_Inr wrapErr_Inr guard_Inr by blast
  have "view objs w2 = view objs w1" "view objs w3 = view objs w2"
    using keepsD [OF keeps_select_idp s] keepsD [OF keeps_resolveUpstreamIDP u] by (auto simp: fun_eq_iff)
  with get_step [OF g] a s u b that show ?thesis by metis
qed

lemma complete_Inr:
  assumes "CompleteUpstreamAuthenticationWithState E st claims w = (Inr url, w')"
  shows "\<exists>v code now. view objs w' = (view objs w)(AuthCodeKey code \<mapsto>
      (v, Doc (marshal code_fields (code_of_state st claims code now)))) \<and>
    now \<in> range (e_now E) \<and> (\<exists>i b. e_rand E i = Some b \<and> code = ''code_'' @ EncodeToString b) \<and>
    url = client_redirect st code"
proof -
  from assms obtain code cs b v w1 where
    put: "on_store (st_Put (e_ops E) (AuthCodeKey code) (Doc (marshal code_fields
        (code_of_state st claims code (e_now E (w_tick w))))) [])
        (w\<lparr>w_draw := Suc (w_draw w), w_tick := Suc (w_tick w)\<rparr>) = (Inr v, w1)" "view objs w' = view objs w1"
    and r: "e_rand E (w_draw w) = Some b" "code = ''code_'' @ EncodeToString b"
    and u: "url = client_redirect st code"
    unfolding CompleteUpstreamAuthenticationWithState_def Let_def andThen_Inr wrapErr_Inr secure_token_Inr prims_eq
    by fastforce
  with put_step [OF put(1)] show ?thesis by (auto intro!: exI)
qed

lemma callback_Inr:
  assumes "ProcessUpstreamCallback E base st code w = (Inr url, w')"
  obtains v data s p tok claims w1 w2 w3 w4 w5 where
    "view objs w (AuthStateKey st) = Some (v, data)" "unmarshal state_fields zero_state data = Some s"
    "view objs w1 = (view objs w)(AuthStateKey st := None)"
    "resolveUpstreamIDP E (as_OrganizationID s) (as_ClientID s) (as_UpstreamIDP s) w1 = (Inr p, w2)"
    "upstream_exchange E (effectiveProvider p) base code w2 = (Inr tok, w3)"
    "fetchUpstreamClaims E p tok w3 = (Inr claims, w4)"
    "CompleteUpstreamAuthenticationWithState E s (Some claims) w4 = (Inr url, w')"
proof -
  from assms obtain s w1 p w2 tok w3 claims w4 where
    f: "fetchAndConsumeAuthState E st w = (Inr (Some s), w1)"
    and rest: "resolveUpstreamIDP E (as_OrganizationID s) (as_ClientID s) (as_UpstreamIDP s) w1 = (Inr p, w2)"
      "upstream_exchange E (effectiveProvider p) base code w2 = (Inr tok, w3)"
      "fetchUpstreamClaims E p tok w3 = (Inr claims, w4)"
      "CompleteUpstreamAuthenticationWithState E s (Some claims) w4 = (Inr url, w')"
    unfolding ProcessUpstreamCallback_def Let_def andThen_Inr wrapErr_Inr guard_Inr by blast
  from consume_state_Some [OF f] rest that show ?thesis by metis
qed

end

end
