(* ===== verification/KeyStore.thy ===== *)
theory KeyStore
  imports Flows
begin

text \<open>
  Signing keys in the store: what \<^verbatim>\<open>loadSigningKeys\<close> lets through, where the key that signs comes
  from, and what two nodes that both find no key do.
\<close>

lemma usable_keys_mem:
  "k \<in> set (usable_keys appID recs) \<Longrightarrow>
     \<exists>rec \<in> set recs. unmarshal key_fields zero_key (sr_Data rec) = Some k \<and> key_Active k \<and>
       (key_AppID k = [] \<or> appID = [] \<or> key_AppID k = appID)"
  by (induction appID recs rule: usable_keys.induct) (auto split: option.splits if_splits)

lemma usable_keys_complete:
  "rec \<in> set recs \<Longrightarrow> unmarshal key_fields zero_key (sr_Data rec) = Some k \<Longrightarrow> key_Active k \<Longrightarrow>
     key_AppID k = [] \<or> appID = [] \<or> key_AppID k = appID \<Longrightarrow> k \<in> set (usable_keys appID recs)"
  by (induction appID recs rule: usable_keys.induct) (auto split: option.splits)

text \<open>A key that some object under the tenant's prefix holds and that may serve the application.\<close>

definition stored_key ::
  "('s \<Rightarrow> string \<Rightarrow> (string \<times> blob) option) \<Rightarrow> 's world \<Rightarrow> string \<Rightarrow> string \<Rightarrow> SigningKey \<Rightarrow> bool" where
  "stored_key objs w org app k \<longleftrightarrow>
     (\<exists>path v data. HasPrefix path (KeysPrefix org) \<and> view objs w path = Some (v, data) \<and>
        unmarshal key_fields zero_key data = Some k \<and> key_Active k \<and>
        (key_AppID k = [] \<or> app = [] \<or> key_AppID k = app))"

text \<open>
  A tenant's key for an application, as of a world: the newest of its cached keys, at some reading of the clock, or a stored one
  that can sign, or one generated in the course of the call, which is then stored under its own id.
\<close>

definition tenant_key ::
  "('s \<Rightarrow> string \<Rightarrow> (string \<times> blob) option) \<Rightarrow> 's env \<Rightarrow> 's world \<Rightarrow> 's world \<Rightarrow> string \<Rightarrow> string \<Rightarrow> SigningKey \<Rightarrow> bool" where
  "tenant_key objs E w w' org app key \<longleftrightarrow>
     (\<exists>t ks. GetSigningKeys (w_cache w) org app (e_now E t) = Some ks \<and> ActiveSigningKey ks = Some key) \<or>
     (stored_key objs w org app key \<and> can_sign key) \<or>
     (\<exists>g now v. g \<in> range (e_genkey E) \<and> GenerateRSAKeyPair g now org app = Inr key \<and>
        view objs w' (KeyPairKey org (key_ID key)) = Some (v, Doc (marshal key_fields key)))"

context engine_store
begin

lemma loadSigningKeys_Inr:
  assumes "loadSigningKeys E org app w = (Inr ks, w')"
  shows "view objs w' = view objs w \<and> (\<forall>k \<in> set ks. stored_key objs w org app k)"
proof -
  from assms obtain recs where l: "on_store (st_List (e_ops E) (KeysPrefix org)) w = (Inr recs, w')"
    and ks: "ks = usable_keys app recs"
    unfolding loadSigningKeys_def andThen_Inr wrapErr_Inr by auto
  from list_step [OF l] ks show ?thesis unfolding stored_key_def by (metis usable_keys_mem)
qed

lemma loadSigningKeys_view: "loadSigningKeys E org app w = (r, w') \<Longrightarrow> view objs w' = view objs w"
  using keepsD [OF keeps_loadSigningKeys] by (auto simp: fun_eq_iff)

lemma active_loaded:
  assumes "loadSigningKeys E org app w = (Inr ks, w')" and "ActiveSigningKey (map Some ks) = Some k"
  shows "stored_key objs w org app k \<and> can_sign k"
proof -
  have "k \<in> set ks" "can_sign k" using ActiveSigningKey_can_sign [OF assms(2)] by auto
  with loadSigningKeys_Inr [OF assms(1)] show ?thesis by blast
qed

lemma cache_keys_view: "cache_keys E org app ks w = (r, w') \<Longrightarrow> view objs w' = view objs w"
  using keepsD [OF keeps_cache_keys] by (auto simp: fun_eq_iff)

lemma key_cached_Inr:
  "key_cached E org app w = (r, w') \<Longrightarrow>
     view objs w' = view objs w \<and>
     (\<exists>hit. r = Inr hit \<and> (\<forall>k. hit = Some k \<longrightarrow>
        (\<exists>ks. GetSigningKeys (w_cache w) org app (e_now E (w_tick w)) = Some ks \<and> ActiveSigningKey ks = Some k)))"
  unfolding key_cached_def by (auto simp: andThen_def cached_def ret_def split: option.splits)

text \<open>A write that has failed has changed nothing, or its answer was lost.\<close>

lemma put_lost:
  assumes "on_store (st_Put (e_ops E) k d ev) w = (Inl e, w')"
  obtains (same) "view objs w' = view objs w"
  | (put) v where "cas_ok ev (view objs w k)" "view objs w' = (view objs w)(k \<mapsto> (v, d))"
proof -
  from assms obtain s where p: "st_Put (e_ops E) k d ev (w_store w) = (Inl e, s)" and w': "w' = w\<lparr>w_store := s\<rparr>"
    by (auto simp: on_store_eq)
  from p show thesis
  proof (cases rule: put_cases)
    case (same e')
    then show thesis by (intro that(1)) (simp add: w' view_def fun_eq_iff)
  next
    case (put v)
    then show thesis by (intro that(2) [of v]) (simp_all add: w' view_def fun_eq_iff)
  qed
qed

lemma create_key_Inr:
  assumes "create_key E org app w = (Inr key, w')"
  shows "(stored_key objs w org app key \<and> can_sign key) \<or>
    (\<exists>g now v. g \<in> range (e_genkey E) \<and> GenerateRSAKeyPair g now org app = Inr key \<and>
       view objs w (KeyPairKey org (key_ID key)) = None \<and>
       view objs w' = (view objs w)(KeyPairKey org (key_ID key) \<mapsto> (v, Doc (marshal key_fields key))))"
proof -
  from assms obtain newKey w1 where gen: "generate_key E org app w = (Inr newKey, w1)"
    and rest: "attempt (on_store (st_Put (e_ops E) (KeyPairKey org (key_ID newKey))
                 (Doc (marshal key_fields newKey)) MatchAnyVersion)) (\<lambda>r. case r of
           Inl err \<Rightarrow>
             attempt (loadSigningKeys E org app) (\<lambda>reloaded. case reloaded of
                 Inl reloadErr \<Rightarrow> fail (EKeyPersist err)
               | Inr keys \<Rightarrow>
                   (case ActiveSigningKey (map Some keys) of
                      None \<Rightarrow> fail (EKeyPersist err)
                    | Some key \<Rightarrow> andThen (cache_keys E org app keys) (\<lambda>_. ret key)))
         | Inr v \<Rightarrow> andThen (cache_keys E org app [newKey]) (\<lambda>_. ret newKey)) w1 = (Inr key, w')"
    unfolding create_key_def andThen_Inr wrapErr_Inr by blast
  from gen obtain g now where g: "g \<in> range (e_genkey E)" "GenerateRSAKeyPair g now org app = Inr newKey"
    by (auto simp: generate_key_def andThen_Inr prims_eq)
  have "keeps (\<lambda>w. view objs w k) (generate_key E org app)" for k by (intro keeps_rules)
  from keepsD [OF this gen] have v1: "view objs w1 = view objs w" by (auto simp: fun_eq_iff)
  from rest consider (lost) e w2 ks w3 where
      "on_store (st_Put (e_ops E) (KeyPairKey org (key_ID newKey)) (Doc (marshal key_fields newKey)) MatchAnyVersion) w1
        = (Inl e, w2)" "loadSigningKeys E org app w2 = (Inr ks, w3)" "ActiveSigningKey (map Some ks) = Some key"
      "andThen (cache_keys E org app ks) (\<lambda>_. ret key) w3 = (Inr key, w')"
    | (won) v w2 where
      "on_store (st_Put (e_ops E) (KeyPairKey org (key_ID newKey)) (Doc (marshal key_fields newKey)) MatchAnyVersion) w1
        = (Inr v, w2)" "andThen (cache_keys E org app [newKey]) (\<lambda>_. ret newKey) w2 = (Inr key, w')"
    by (auto simp: attempt_sum andThen_Inr guard_Inr)
  then show ?thesis
  proof cases
    case lost
    let ?path = "KeyPairKey org (key_ID newKey)"
    have w3: "view objs w3 = view objs w2" using lost(2) by (rule loadSigningKeys_view)
    have w': "view objs w' = view objs w3" using lost(4) by (auto simp: andThen_Inr dest: cache_keys_view)
    have k: "stored_key objs w2 org app key \<and> can_sign key" using lost(2,3) by (rule active_loaded)
    from lost(1) show ?thesis
    proof (rule put_lost)
      assume "view objs w2 = view objs w1"
      with k v1 show ?thesis by (auto simp: stored_key_def)
    next
      fix v
      assume put: "cas_ok MatchAnyVersion (view objs w1 ?path)"
        "view objs w2 = (view objs w1)(?path \<mapsto> (v, Doc (marshal key_fields newKey)))"
      from k obtain path v' data where p: "HasPrefix path (KeysPrefix org)" "view objs w2 path = Some (v', data)"
        and rest: "unmarshal key_fields zero_key data = Some key" "key_Active key"
          "key_AppID key = [] \<or> app = [] \<or> key_AppID key = app" and sign: "can_sign key"
        unfolding stored_key_def by blast
      show ?thesis
      proof (cases "path = ?path")
        case True
        with p put rest(1) have "key = newKey" by (auto simp: key_roundtrip)
        with put w' w3 v1 g show ?thesis by (auto simp: cas_ok_def MatchAnyVersion_def)
      next
        case False
        with p put v1 have "view objs w path = Some (v', data)" by simp
        with p rest sign show ?thesis unfolding stored_key_def by blast
      qed
    qed
  next
    case won
    have "view objs w' = view objs w2" "key = newKey" using won(2) by (auto simp: andThen_Inr dest: cache_keys_view)
    with put_step [OF won(1)] g v1 show ?thesis by (auto simp: cas_ok_def MatchAnyVersion_def)
  qed
qed

text \<open>Where the signing key comes from: the cache, the store, or a key just created and stored.\<close>

lemma resolveSigningKey_Inr:
  assumes "resolveSigningKey E org app w = (Inr key, w')"
  shows "(\<exists>ks. GetSigningKeys (w_cache w) org app (e_now E (w_tick w)) = Some ks \<and> ActiveSigningKey ks = Some key) \<or>
    (stored_key objs w org app key \<and> can_sign key) \<or>
    (\<exists>g now v. g \<in> range (e_genkey E) \<and> GenerateRSAKeyPair g now org app = Inr key \<and>
       view objs w' (KeyPairKey org (key_ID key)) = Some (v, Doc (marshal key_fields key)))"
proof -
  from assms obtain hit w1 where c: "key_cached E org app w = (Inr hit, w1)"
    and rest: "(case hit of Some key \<Rightarrow> ret key
       | None \<Rightarrow> andThen (loadSigningKeys E org app) (\<lambda>keys. case ActiveSigningKey (map Some keys) of
               Some key \<Rightarrow> andThen (cache_keys E org app keys) (\<lambda>_. ret key)
             | None \<Rightarrow> create_key E org app)) w1 = (Inr key, w')"
    unfolding resolveSigningKey_def andThen_Inr by blast
  show ?thesis
  proof (cases hit)
    case (Some k)
    with key_cached_Inr [OF c] rest show ?thesis by auto
  next
    case None
    with rest obtain ks w2 where l: "loadSigningKeys E org app w1 = (Inr ks, w2)"
      and r2: "(case ActiveSigningKey (map Some ks) of
               Some key \<Rightarrow> andThen (cache_keys E org app ks) (\<lambda>_. ret key)
             | None \<Rightarrow> create_key E org app) w2 = (Inr key, w')"
      by (auto simp: andThen_Inr)
    have eq: "view objs w2 = view objs w" using key_cached_Inr [OF c] loadSigningKeys_view [OF l] by simp
    show ?thesis
    proof (cases "ActiveSigningKey (map Some ks)")
      case None
      with r2 create_key_Inr [of org app w2 key w'] eq show ?thesis by (auto simp: stored_key_def)
    next
      case (Some k)
      with r2 have "k = key" by (auto simp: andThen_Inr)
      with active_loaded [OF l] Some key_cached_Inr [OF c] show ?thesis by (auto simp: stored_key_def)
    qed
  qed
qed

text \<open>Calls before and after that leave the cache and the objects alone make no difference.\<close>

lemma resolveSigningKey_tenant_key:
  assumes "resolveSigningKey E org app w1 = (Inr key, w2)" and "w_cache w1 = w_cache w" and "view objs w1 = view objs w"
    and "view objs w' = view objs w2"
  shows "tenant_key objs E w w' org app key"
  using resolveSigningKey_Inr [OF assms(1)] assms(2-4) unfolding tenant_key_def stored_key_def by auto

end

end
