(* ===== verification/Demo.thy ===== *)
theory Demo
  imports KeyStore
begin

text \<open>
  A concrete environment and store for the witnesses: JayDB's memory driver, a clock that stands
  still, a random source that counts, and a signature scheme in which a signature is the digest. It
  holds one tenant with a confidential and a public client, a signing key, a provider, and one-time
  records of each kind.
\<close>

definition demo_rsa :: rsa_lib where
  "demo_rsa = \<lparr>pem_decode = (\<lambda>s. if s = [] then None else Some s), parse_pkcs1 = Some,
     parse_pkix = (\<lambda>_. Some (RSAPublic 5 3)), rsa_sign = (\<lambda>k d. Some d), rsa_verify = (\<lambda>n e d s. d = s)\<rparr>"

definition demo_now :: gotime where
  "demo_now = 1700000000000000000"

definition demo_env :: "memdb env" where
  "demo_env = \<lparr>e_ops = JayDBStorage mem_ops, e_now = (\<lambda>_. demo_now), e_rand = (\<lambda>n. Some (nat_str n)),
     e_genkey = (\<lambda>n. GenKey ''priv'' ''pub'' (nat_str n)), e_rsa = demo_rsa, e_http = (\<lambda>_ _. NoAnswer),
     e_getenv = (\<lambda>_. []), e_resolver = None\<rparr>"

definition demo_app :: Application where
  "demo_app = zero_app\<lparr>app_ID := ''web'', app_OrganizationID := ''acme'', app_ClientID := ''web'',
     app_ClientSecret := ''s3cret'', app_RedirectURIs := [''https://app/cb''], app_AllowedIDPs := [''google'']\<rparr>"

definition demo_key :: SigningKey where
  "demo_key = \<lparr>key_ID = ''key_1'', key_OrganizationID = ''acme'', key_AppID = [], key_Algorithm = ''RS256'',
     key_PrivateKeyPEM = ''priv'', key_PublicKeyPEM = ''pub'', key_KID = ''1'', key_Active = True,
     key_CreatedAt = 0, key_Version = ''1''\<rparr>"

definition demo_idp :: IdentityProvider where
  "demo_idp = zero_idp\<lparr>idp_ID := ''google'', idp_OrganizationID := ''acme'', idp_ClientID := ''cid'',
     idp_AuthorizeURL := ''https://idp/auth'', idp_Enabled := True\<rparr>"

definition demo_claims :: AuthClaims where
  "demo_claims = zero_claims\<lparr>cl_Subject := ''google_7'', cl_Roles := [''user'']\<rparr>"

definition demo_state :: AuthState where
  "demo_state = zero_state\<lparr>as_StateID := ''st1'', as_OrganizationID := ''acme'', as_AppID := ''web'',
     as_ClientID := ''web'', as_RedirectURI := ''https://app/cb'', as_UpstreamIDP := ''google'',
     as_CreatedAt := demo_now\<rparr>"

definition demo_code :: AuthCode where
  "demo_code = zero_code\<lparr>ac_Code := ''c1'', ac_OrganizationID := ''acme'', ac_AppID := ''web'',
     ac_ClientID := ''web'', ac_RedirectURI := ''https://app/cb'', ac_Claims := Some demo_claims,
     ac_CreatedAt := demo_now, ac_ExpiresAt := demo_now\<rparr>"

definition demo_refresh :: RefreshToken where
  "demo_refresh = zero_refresh\<lparr>rt_Token := ''r1'', rt_OrganizationID := ''acme'', rt_AppID := ''web'',
     rt_ClientID := ''web'', rt_Subject := ''google_7'', rt_Claims := Some demo_claims,
     rt_FamilyID := ''fam'', rt_ExpiresAt := demo_now\<rparr>"

definition demo_objs :: "(string \<times> string \<times> blob) list" where
  "demo_objs =
    [(AppKey ''acme'' ''web'', ''1'', Doc (marshal app_fields demo_app)),
     (KeyPairKey ''acme'' ''key_1'', ''1'', Doc (marshal key_fields demo_key)),
     (IDPKey ''acme'' ''google'', ''1'', Doc (marshal idp_fields demo_idp)),
     (AuthStateKey ''st1'', ''1'', Doc (marshal state_fields demo_state)),
     (AuthCodeKey ''c1'', ''1'', Doc (marshal code_fields demo_code)),
     (RefreshTokenKey ''r1'', ''1'', Doc (marshal refresh_fields demo_refresh))]"

definition demo_world :: "memdb world" where
  "demo_world = new_world \<lparr>md_objs = demo_objs, md_next = 2\<rparr>"

definition demo_request :: TokenRequest where
  "demo_request = \<lparr>tr_GrantType = [], tr_OrganizationID = [], tr_ClientID = ''web'', tr_ClientSecret = ''s3cret'',
     tr_Code = ''c1'', tr_RedirectURI = [], tr_CodeVerifier = [], tr_RefreshToken = ''r1''\<rparr>"

definition demo_authorize :: AuthorizationRequest where
  "demo_authorize = \<lparr>ar_ServerBaseURL = ''https://as'', ar_OrganizationID = ''acme'', ar_ClientID = ''web'',
     ar_RedirectURI = ''https://app/cb'', ar_Scope = ''openid'', ar_State = ''xyz'', ar_IDPID = [],
     ar_CodeChallenge = [], ar_CodeChallengeMethod = [], ar_Nonce = []\<rparr>"

lemma demo_env_simps [simp]:
  "e_ops demo_env = JayDBStorage mem_ops" "e_now demo_env = (\<lambda>_. demo_now)"
  "e_rand demo_env = (\<lambda>n. Some (nat_str n))" "e_rsa demo_env = demo_rsa" "e_resolver demo_env = None"
  "e_getenv demo_env = (\<lambda>_. [])" "e_http demo_env = (\<lambda>_ _. NoAnswer)"
  by (simp_all add: demo_env_def)

lemma demo_world_simps [simp]:
  "w_store demo_world = \<lparr>md_objs = demo_objs, md_next = 2\<rparr>" "w_cache demo_world = NewMemoryCache"
  "w_tick demo_world = 0" "w_draw demo_world = 0"
  by (simp_all add: demo_world_def new_world_def)

lemma demo_cas: "cas_store (e_ops demo_env) mem_view"
  using mem.jay.cas_store_axioms by simp

lemma demo_reliable: "reliable_store (e_ops demo_env) mem_view"
  using memr.reliable_store_axioms by simp

interpretation demo: engine_store demo_env mem_view
  by (rule engine_store.intro) (rule demo_cas)

lemma demo_sign: "pem \<noteq> [] \<Longrightarrow> \<exists>t. SignJWT demo_rsa c pem kid = Inr t"
  by (simp add: SignJWT_def demo_rsa_def Let_def)

lemma demo_key_pair: "key_pair demo_rsa priv ''pub''"
  by (simp add: key_pair_def demo_rsa_def)

text \<open>The records are read back as they are.\<close>

lemma demo_records:
  "unmarshal app_fields zero_app (Doc (marshal app_fields demo_app)) = Some demo_app"
  "unmarshal key_fields zero_key (Doc (marshal key_fields demo_key)) = Some demo_key"
  "unmarshal idp_fields zero_idp (Doc (marshal idp_fields demo_idp)) = Some demo_idp"
  "unmarshal state_fields zero_state (Doc (marshal state_fields demo_state)) = Some demo_state"
  "unmarshal code_fields zero_code (Doc (marshal code_fields demo_code)) = Some demo_code"
  "unmarshal refresh_fields zero_refresh (Doc (marshal refresh_fields demo_refresh)) = Some demo_refresh"
  by (rule app_roundtrip key_roundtrip state_roundtrip idp_roundtrip code_roundtrip refresh_roundtrip;
      simp add: demo_idp_def zero_idp_def demo_code_def demo_refresh_def zero_code_def zero_refresh_def
        demo_claims_def zero_claims_def claims_ok_def int64_def)+

end
