(* ===== verification/Progress.thy ===== *)
theory Progress
  imports Demo
begin

text \<open>
  Calls that succeed: over a store whose operations do not fail (\<open>reliable_store\<close>), with a random source
  and signing keys that work, a redemption that passes the checks returns tokens.
\<close>

text \<open>A key the engine may sign with: cached or stored for the application, active and with its private half.\<close>

definition usable_key ::
  "('s \<Rightarrow> string \<Rightarrow> (string \<times> blob) option) \<Rightarrow> 's env \<Rightarrow> 's world \<Rightarrow> string \<Rightarrow> string \<Rightarrow> SigningKey \<Rightarrow> bool" where
  "usable_key objs E w org app key \<longleftrightarrow> can_sign key \<and>
     (stored_key objs w org app key \<or> (\<exists>t ks. GetSigningKeys (w_cache w) org app (e_now E t) = Some ks \<and> Some key \<in> set ks))"

locale reliable_engine = engine_store E objs + reliable_store "e_ops E" objs
  for E :: "'s env" and objs :: "'s \<Rightarrow> string \<Rightarrow> (string \<times> blob) option"
begin

lemma get_ok:
  assumes "view objs w k = Some (v, d)"
  shows "\<exists>s. on_store (st_Get (e_ops E) k) w = (Inr \<lparr>sr_Key = k, sr_Version = v, sr_Data = d\<rparr>, w\<lparr>w_store := s\<rparr>) \<and>
    objs s = view objs w"
proof -
  from assms obtain s where s: "st_Get (e_ops E) k (w_store w) = (Inr \<lparr>sr_Key = k, sr_Version = v, sr_Data = d\<rparr>, s)"
    unfolding view_def by (blast dest: get_total)
  with get_frame [OF s] show ?thesis by (auto simp: on_store_def view_def)
qed

lemma delete_ok:
  assumes "view objs w k = Some (v, d)"
  shows "\<exists>s. on_store (st_Delete (e_ops E) k v) w = (Inr (), w\<lparr>w_store := s\<rparr>) \<and> objs s = (view objs w)(k := None)"
proof -
  from assms obtain s where s: "st_Delete (e_ops E) k v (w_store w) = (Inr (), s)"
    unfolding view_def by (blast dest: delete_total)
  with delete_done [OF s] show ?thesis by (auto simp: on_store_def view_def)
qed

lemma put_ok: "\<exists>v s. on_store (st_Put (e_ops E) k d []) w = (Inr v, w\<lparr>w_store := s\<rparr>)"
  using put_total [of "[]" "w_store w" k d] by (auto simp: on_store_def cas_ok_def)

lemma list_ok:
  "\<exists>recs s. on_store (st_List (e_ops E) p) w = (Inr recs, w\<lparr>w_store := s\<rparr>) \<and>
     (\<forall>k v d. HasPrefix k p \<longrightarrow> view objs w k = Some (v, d) \<longrightarrow> \<lparr>sr_Key = k, sr_Version = v, sr_Data = d\<rparr> \<in> set recs)"
  using list_total [of p "w_store w"] by (auto simp: on_store_def view_def)

lemma claim_ok:
  assumes "view objs w key = Some (v, Doc j)" and "v \<noteq> []"
  shows "\<exists>s. claimSingleUse E key w = (Inr (Some (Doc j)), w\<lparr>w_store := s\<rparr>) \<and> objs s = (view objs w)(key := None)"
proof -
  from get_ok [OF assms(1)] obtain s where
    g: "on_store (st_Get (e_ops E) key) w = (Inr \<lparr>sr_Key = key, sr_Version = v, sr_Data = Doc j\<rparr>, w\<lparr>w_store := s\<rparr>)"
    and s: "objs s = view objs w" by blast
  from delete_ok [of "w\<lparr>w_store := s\<rparr>" key v "Doc j"] assms(1) s obtain t where
    d: "on_store (st_Delete (e_ops E) key v) (w\<lparr>w_store := s\<rparr>) = (Inr (), w\<lparr>w_store := t\<rparr>)"
    and "objs t = (view objs w)(key := None)" by auto
  moreover have "claimSingleUse E key w = (Inr (Some (Doc j)), w\<lparr>w_store := t\<rparr>)"
    using assms(2) by (simp add: claimSingleUse_def attempt_def g d blob_empty_def ret_def)
  ultimately show ?thesis by blast
qed

lemma loadApplication_ok:
  assumes "view objs w (AppKey org cid) = Some (v, data)" and "unmarshal app_fields zero_app data = Some app"
    and "\<forall>t a. GetApp (w_cache w) org cid (e_now E t) = Some (Some a) \<longrightarrow> a = with_org org app"
  shows "\<exists>w'. loadApplication E org cid w = (Inr (with_org org app), w') \<and> view objs w' = view objs w \<and>
    (\<forall>o' a t ks. GetSigningKeys (w_cache w') o' a t = Some ks \<longrightarrow> GetSigningKeys (w_cache w) o' a t = Some ks)"
proof (cases "\<exists>a. GetApp (w_cache w) org cid (e_now E (w_tick w)) = Some (Some a)")
  case True
  let ?w1 = "w\<lparr>w_tick := Suc (w_tick w)\<rparr>"
  from True assms(3) have "GetApp (w_cache w) org cid (e_now E (w_tick w)) = Some (Some (with_org org app))" by blast
  then have "loadApplication E org cid w = (Inr (with_org org app), ?w1)"
    by (simp add: loadApplication_def andThen_def cached_def ret_def)
  then show ?thesis by (intro exI [of _ ?w1]) simp
next
  case False
  let ?w1 = "w\<lparr>w_tick := Suc (w_tick w)\<rparr>"
  from False obtain hit where c: "cached E (\<lambda>c. GetApp c org cid) w = ((Inr hit :: eerr + _), ?w1)" and h: "hit = None \<or> hit = Some None"
    by (cases "GetApp (w_cache w) org cid (e_now E (w_tick w))") (auto simp: cached_def)
  from get_ok [of ?w1 "AppKey org cid"] assms(1) obtain s where
    g: "on_store (st_Get (e_ops E) (AppKey org cid)) ?w1 = (Inr \<lparr>sr_Key = AppKey org cid, sr_Version = v, sr_Data = data\<rparr>, ?w1\<lparr>w_store := s\<rparr>)"
    and s: "objs s = view objs w" by auto
  let ?w2 = "?w1\<lparr>w_store := s, w_cache := SetApp (w_cache w) org cid (Some (with_org org app)) (1 * Minute) (e_now E (Suc (w_tick w))),
    w_tick := Suc (Suc (w_tick w))\<rparr>"
  have "loadApplication E org cid w = (Inr (with_org org app), ?w2)"
    using assms(2) h by (auto simp: loadApplication_def andThen_def c wrapErr_def g Let_def set_cached_def ret_def)
  moreover have "GetSigningKeys (w_cache w) o' a t = Some ks" if "GetSigningKeys (w_cache ?w2) o' a t = Some ks" for o' a t ks
    using that by (auto simp: SetApp_def Cache_Set_def GetSigningKeys_def Cache_Get_def split: option.splits if_splits cval.splits)
  ultimately show ?thesis using s by (intro exI [of _ ?w2]) simp
qed

lemma loadSigningKeys_ok:
  "\<exists>ks s. loadSigningKeys E org app w = (Inr ks, w\<lparr>w_store := s\<rparr>) \<and> (\<forall>k. stored_key objs w org app k \<longrightarrow> k \<in> set ks)"
proof -
  from list_ok [of "KeysPrefix org" w] obtain recs s where
    l: "on_store (st_List (e_ops E) (KeysPrefix org)) w = (Inr recs, w\<lparr>w_store := s\<rparr>)"
    and all: "\<forall>k v d. HasPrefix k (KeysPrefix org) \<longrightarrow> view objs w k = Some (v, d) \<longrightarrow>
      \<lparr>sr_Key = k, sr_Version = v, sr_Data = d\<rparr> \<in> set recs" by blast
  from all have "\<forall>k. stored_key objs w org app k \<longrightarrow> k \<in> set (usable_keys app recs)"
    unfolding stored_key_def by (metis StoredRecord.select_convs(3) usable_keys_complete)
  with l show ?thesis
    by (auto simp: loadSigningKeys_def andThen_def wrapErr_def ret_def
        intro!: exI [of _ "usable_keys app recs"] exI [of _ s])
qed

lemma resolveSigningKey_ok:
  assumes "stored_key objs w org app k" and "can_sign k" and "GetSigningKeys (w_cache w) org app = (\<lambda>_. None)"
  shows "\<exists>key w'. resolveSigningKey E org app w = (Inr key, w') \<and> stored_key objs w org app key \<and> can_sign key"
proof -
  let ?w1 = "w\<lparr>w_tick := Suc (w_tick w)\<rparr>"
  have c: "key_cached E org app w = (Inr None, ?w1)"
    using assms(3) by (simp add: key_cached_def cached_def andThen_def ret_def)
  from loadSigningKeys_ok [of org app ?w1] obtain ks s where
    l: "loadSigningKeys E org app ?w1 = (Inr ks, ?w1\<lparr>w_store := s\<rparr>)"
    and "\<forall>k. stored_key objs ?w1 org app k \<longrightarrow> k \<in> set ks" by blast
  moreover have "stored_key objs ?w1 org app = stored_key objs w org app" by (simp add: stored_key_def fun_eq_iff)
  ultimately have k: "k \<in> set ks" using assms(1) by simp
  from k obtain key where key: "ActiveSigningKey (map Some ks) = Some key"
    using assms(2) by (cases "ActiveSigningKey (map Some ks)") (auto simp: ActiveSigningKey_None)
  from active_loaded [OF l key] have "stored_key objs w org app key \<and> can_sign key" by (simp add: stored_key_def)
  moreover have "\<exists>w'. resolveSigningKey E org app w = (Inr key, w')"
    by (simp add: resolveSigningKey_def andThen_def c l key cache_keys_def set_cached_def ret_def)
  ultimately show ?thesis by blast
qed

text \<open>With a key in the store that can sign there is a key to sign with, from the cache or from the store.\<close>

lemma resolveSigningKey_usable:
  assumes "stored_key objs w org app k" and "can_sign k"
  shows "\<exists>key w'. resolveSigningKey E org app w = (Inr key, w') \<and> usable_key objs E w org app key"
proof -
  let ?w1 = "w\<lparr>w_tick := Suc (w_tick w)\<rparr>"
  obtain hit where c: "key_cached E org app w = ((Inr hit :: eerr + _), ?w1)"
    and hit: "\<forall>k. hit = Some k \<longrightarrow> (\<exists>ks. GetSigningKeys (w_cache w) org app (e_now E (w_tick w)) = Some ks \<and> ActiveSigningKey ks = Some k)"
    by (cases "GetSigningKeys (w_cache w) org app (e_now E (w_tick w))") (auto simp: key_cached_def cached_def andThen_def ret_def)
  show ?thesis
  proof (cases hit)
    case (Some key)
    with hit ActiveSigningKey_can_sign have "usable_key objs E w org app key" unfolding usable_key_def by blast
    moreover have "resolveSigningKey E org app w = (Inr key, ?w1)"
      using Some by (simp add: resolveSigningKey_def andThen_def c ret_def)
    ultimately show ?thesis by blast
  next
    case None
    from loadSigningKeys_ok [of org app ?w1] obtain ks s where
      l: "loadSigningKeys E org app ?w1 = (Inr ks, ?w1\<lparr>w_store := s\<rparr>)"
      and "\<forall>k. stored_key objs ?w1 org app k \<longrightarrow> k \<in> set ks" by blast
    moreover have "stored_key objs ?w1 org app = stored_key objs w org app" by (simp add: stored_key_def fun_eq_iff)
    ultimately have k: "k \<in> set ks" using assms(1) by simp
    from k obtain key where key: "ActiveSigningKey (map Some ks) = Some key"
      using assms(2) by (cases "ActiveSigningKey (map Some ks)") (auto simp: ActiveSigningKey_None)
    from active_loaded [OF l key] have "usable_key objs E w org app key" by (simp add: stored_key_def usable_key_def)
    moreover have "\<exists>w'. resolveSigningKey E org app w = (Inr key, w')"
      using None by (simp add: resolveSigningKey_def andThen_def c l key cache_keys_def set_cached_def ret_def)
    ultimately show ?thesis by blast
  qed
qed

lemma secure_token_ok:
  "\<forall>n. e_rand E n \<noteq> None \<Longrightarrow> \<exists>t. secure_token E p w = (Inr t, w\<lparr>w_draw := Suc (w_draw w)\<rparr>)"
  by (auto simp: secure_token_Inr)

lemma mint_ok:
  assumes "\<forall>n. e_rand E n \<noteq> None"
  shows "\<exists>h w'. mintRefreshToken E app base scope fam w = (Inr h, w')"
proof -
  from secure_token_ok [OF assms] obtain h where h: "secure_token E ''rt_'' w = (Inr h, w\<lparr>w_draw := Suc (w_draw w)\<rparr>)" by blast
  have "\<exists>fam' w2. (if fam = [] then wrapErr EFamilyToken (secure_token E ''rtf_'') else ret fam) w1 = (Inr fam', w2)" for w1
    using secure_token_ok [OF assms, of "''rtf_''" w1] by (auto simp: wrapErr_Inr)
  then obtain fam' w2 where f: "(if fam = [] then wrapErr EFamilyToken (secure_token E ''rtf_'') else ret fam)
      (w\<lparr>w_draw := Suc (w_draw w)\<rparr>) = (Inr fam', w2)" by blast
  have c: "clock E w2 = (Inr (e_now E (w_tick w2)), w2\<lparr>w_tick := Suc (w_tick w2)\<rparr>)" by (simp add: clock_def)
  from put_ok obtain v s where p: "on_store (st_Put (e_ops E) (RefreshTokenKey h)
      (Doc (marshal refresh_fields (refresh_record app base scope fam' h (e_now E (w_tick w2))))) [])
      (w2\<lparr>w_tick := Suc (w_tick w2)\<rparr>) = (Inr v, w2\<lparr>w_tick := Suc (w_tick w2)\<rparr>\<lparr>w_store := s\<rparr>)" by blast
  show ?thesis
    by (simp add: mintRefreshToken_def andThen_def wrapErr_def [of ERefreshToken] wrapErr_def [of ERefreshPersist]
        h f c p ret_def del: if_split)
qed

lemma issueTokens_ok:
  assumes rnd: "\<forall>n. e_rand E n \<noteq> None"
    and key: "resolveSigningKey E (app_OrganizationID app) (app_ID app) w = (Inr key, w1)"
    and sign: "\<forall>c. \<exists>t. SignJWT (e_rsa E) c (key_PrivateKeyPEM key) (key_KID key) = Inr t"
  shows "\<exists>resp w'. issueTokens E app (Some base) scope nonce fam w = (Inr resp, w')"
proof -
  let ?w2 = "w1\<lparr>w_tick := Suc (w_tick w1)\<rparr>"
  let ?w3 = "w1\<lparr>w_tick := Suc (w_tick w1), w_draw := Suc (w_draw w1)\<rparr>"
  let ?w4 = "w1\<lparr>w_tick := Suc (w_tick w1), w_draw := Suc (Suc (w_draw w1))\<rparr>"
  let ?now = "e_now E (w_tick w1)"
  have c: "clock E w1 = (Inr ?now, ?w2)" by (simp add: clock_def)
  from secure_token_ok [OF rnd, of "''jti_''" ?w2] obtain j where j: "secure_token E ''jti_'' ?w2 = (Inr j, ?w3)"
    by auto
  from sign obtain at where a: "SignJWT (e_rsa E) (access_claims app base (IssuerFor E (app_OrganizationID app)) scope ?now j)
      (key_PrivateKeyPEM key) (key_KID key) = Inr at" by blast
  from secure_token_ok [OF rnd, of "''jti_''" ?w3] obtain j' where j': "secure_token E ''jti_'' ?w3 = (Inr j', ?w4)"
    by auto
  from sign obtain it where i: "SignJWT (e_rsa E) (id_claims app base (IssuerFor E (app_OrganizationID app)) nonce ?now j')
      (key_PrivateKeyPEM key) (key_KID key) = Inr it" by blast
  from mint_ok [OF rnd] obtain h w5 where m: "mintRefreshToken E app base scope fam ?w4 = (Inr h, w5)" by blast
  have o: "ofSum (Inr x) u = (Inr x, u)" for x u by (simp add: ofSum_def)
  show ?thesis
    unfolding issueTokens_def Let_def option.case
    by (simp add: andThen_def wrapErr_def key c j a o j' i m ret_def)
qed

lemma redemption_ok:
  assumes code: "view objs w (AuthCodeKey (tr_Code req)) = Some (v, Doc j)" "v \<noteq> []"
      "unmarshal code_fields zero_code (Doc j) = Some ac"
    and base: "ac_Claims ac = Some base"
    and live: "\<forall>n. e_now E n \<le> ac_ExpiresAt ac" and cid: "ac_ClientID ac = tr_ClientID req"
    and uri: "tr_RedirectURI req = [] \<or> tr_RedirectURI req = ac_RedirectURI ac"
    and app: "view objs w (AppKey (ac_OrganizationID ac) (ac_ClientID ac)) = Some (v', data)"
      "unmarshal app_fields zero_app data = Some app0" "app = with_org (ac_OrganizationID ac) app0"
    and cached: "\<forall>t a. GetApp (w_cache w) (ac_OrganizationID ac) (ac_ClientID ac) (e_now E t) = Some (Some a) \<longrightarrow> a = app"
    and auth: "authenticate_client app ac req = None"
    and key: "stored_key objs w (app_OrganizationID app) (app_ID app) k" "can_sign k"
    and rnd: "\<forall>n. e_rand E n \<noteq> None"
    and sign: "\<forall>key c. usable_key objs E w (app_OrganizationID app) (app_ID app) key \<longrightarrow>
      (\<exists>t. SignJWT (e_rsa E) c (key_PrivateKeyPEM key) (key_KID key) = Inr t)"
  shows "\<exists>resp w'. exchangeAuthorizationCode E req w = (Inr resp, w')"
proof -
  let ?w0 = "w\<lparr>w_codes := (w_codes w)(tr_Code req := None)\<rparr>"
  from claim_ok [of ?w0 "AuthCodeKey (tr_Code req)" v] code obtain s where
    cl: "claimSingleUse E (AuthCodeKey (tr_Code req)) ?w0 = (Inr (Some (Doc j)), ?w0\<lparr>w_store := s\<rparr>)"
    and s: "objs s = (view objs w)(AuthCodeKey (tr_Code req) := None)" by auto
  let ?w1 = "?w0\<lparr>w_store := s\<rparr>"
  have f: "fetchAndConsumeAuthCode E (tr_Code req) w = (Inr (Some ac), ?w1)"
    using code(3) cl by (simp add: fetchAndConsumeAuthCode_def andThen_def set_codes_def ret_def)
  let ?w2 = "?w1\<lparr>w_tick := Suc (w_tick ?w1)\<rparr>"
  have "view objs ?w2 (AppKey (ac_OrganizationID ac) (ac_ClientID ac)) = Some (v', data)" using app(1) s by simp
  from loadApplication_ok [OF this app(2)] cached app(3) obtain w3 where
    l: "loadApplication E (ac_OrganizationID ac) (ac_ClientID ac) ?w2 = (Inr app, w3)" and w3: "view objs w3 = objs s"
    "\<forall>o' a t ks. GetSigningKeys (w_cache w3) o' a t = Some ks \<longrightarrow> GetSigningKeys (w_cache w) o' a t = Some ks"
    by auto
  have stored: "stored_key objs w3 o' a k \<longleftrightarrow> stored_key objs w o' a k" for o' a k
  proof -
    have "view objs w3 path = view objs w path" if "HasPrefix path (KeysPrefix o')" for path
      using that w3(1) s by (auto simp: HasPrefix_iff KeysPrefix_def AuthCodeKey_def)
    then show ?thesis unfolding stored_key_def by (metis (no_types, lifting))
  qed
  from resolveSigningKey_usable [of w3 "app_OrganizationID app" "app_ID app" k] key stored obtain key' w4 where
    r: "resolveSigningKey E (app_OrganizationID app) (app_ID app) w3 = (Inr key', w4)"
    and "usable_key objs E w3 (app_OrganizationID app) (app_ID app) key'" by blast
  then have "usable_key objs E w (app_OrganizationID app) (app_ID app) key'" using w3(2) stored unfolding usable_key_def by blast
  with sign issueTokens_ok [OF rnd r] obtain resp w5 where
    i: "issueTokens E app (Some base) (ac_Scope ac) (ac_Nonce ac) [] w3 = (Inr resp, w5)" by blast
  have "redeem_code E req ac ?w1 = (Inr resp, w5)"
    using live cid uri auth base l
    by (simp add: redeem_code_def andThen_def clock_def After_def not_less SecureCompare_def i)
  with f show ?thesis by (simp add: exchangeAuthorizationCode_def andThen_def)
qed

text \<open>The same for a node with an empty cache and records as the service writes them.\<close>

lemma exchange_ok:
  assumes code: "view objs w (AuthCodeKey (tr_Code req)) = Some (v, Doc (marshal code_fields ac))" "v \<noteq> []"
    and base: "ac_Claims ac = Some base" "claims_ok base"
    and live: "\<forall>n. e_now E n \<le> ac_ExpiresAt ac" and cid: "ac_ClientID ac = tr_ClientID req"
    and uri: "tr_RedirectURI req = [] \<or> tr_RedirectURI req = ac_RedirectURI ac"
    and app: "view objs w (AppKey (ac_OrganizationID ac) (ac_ClientID ac)) = Some (v', Doc (marshal app_fields app))"
      "app_OrganizationID app = ac_OrganizationID ac" "w_cache w = NewMemoryCache"
    and auth: "authenticate_client app ac req = None"
    and key: "stored_key objs w (ac_OrganizationID ac) (app_ID app) k" "can_sign k"
    and rnd: "\<forall>n. e_rand E n \<noteq> None"
    and sign: "\<forall>key c. can_sign key \<longrightarrow> (\<exists>t. SignJWT (e_rsa E) c (key_PrivateKeyPEM key) (key_KID key) = Inr t)"
  shows "\<exists>resp w'. exchangeAuthorizationCode E req w = (Inr resp, w')"
proof (rule redemption_ok [where base = base and app0 = app and app = app and data = "Doc (marshal app_fields app)" and ac = ac
      and v = v and v' = v' and k = k and j = "marshal code_fields ac"])
  show "unmarshal code_fields zero_code (Doc (marshal code_fields ac)) = Some ac" using base by (simp add: code_roundtrip)
  show "unmarshal app_fields zero_app (Doc (marshal app_fields app)) = Some app" by (rule app_roundtrip)
  show "app = with_org (ac_OrganizationID ac) app" using app(2) by (cases app) (simp add: with_org_def)
  show "stored_key objs w (app_OrganizationID app) (app_ID app) k" using key(1) app(2) by simp
  show "\<forall>t a. GetApp (w_cache w) (ac_OrganizationID ac) (ac_ClientID ac) (e_now E t) = Some (Some a) \<longrightarrow> a = app"
    by (simp add: app(3) GetApp_def Cache_Get_def NewMemoryCache_def)
  show "\<forall>key c. usable_key objs E w (app_OrganizationID app) (app_ID app) key \<longrightarrow>
      (\<exists>t. SignJWT (e_rsa E) c (key_PrivateKeyPEM key) (key_KID key) = Inr t)"
    using sign by (simp add: usable_key_def)
qed (fact code base(1) live cid uri app(1) auth key(2) rnd)+

lemma refresh_ok:
  assumes rt: "view objs w (RefreshTokenKey (tr_RefreshToken req)) = Some (v, Doc (marshal refresh_fields rt))" "v \<noteq> []"
      "tr_RefreshToken req \<noteq> []"
    and base: "rt_Claims rt = Some base" "claims_ok base"
    and live: "\<forall>n. e_now E n \<le> rt_ExpiresAt rt" and cid: "rt_ClientID rt = tr_ClientID req"
    and app: "view objs w (AppKey (rt_OrganizationID rt) (rt_ClientID rt)) = Some (v', Doc (marshal app_fields app))"
      "app_OrganizationID app = rt_OrganizationID rt" "w_cache w = NewMemoryCache"
    and auth: "IsPublicClient (Some app) \<or> app_ClientSecret app = tr_ClientSecret req"
    and key: "stored_key objs w (rt_OrganizationID rt) (app_ID app) k" "can_sign k"
    and rnd: "\<forall>n. e_rand E n \<noteq> None"
    and sign: "\<forall>key c. can_sign key \<longrightarrow> (\<exists>t. SignJWT (e_rsa E) c (key_PrivateKeyPEM key) (key_KID key) = Inr t)"
  shows "\<exists>resp w'. exchangeRefreshToken E req w = (Inr resp, w')"
proof -
  from claim_ok [OF rt(1,2)] obtain s where
    cl: "claimSingleUse E (RefreshTokenKey (tr_RefreshToken req)) w = (Inr (Some (Doc (marshal refresh_fields rt))), w\<lparr>w_store := s\<rparr>)"
    and s: "objs s = (view objs w)(RefreshTokenKey (tr_RefreshToken req) := None)" by blast
  let ?w2 = "w\<lparr>w_store := s, w_tick := Suc (w_tick w)\<rparr>"
  have "with_org (rt_OrganizationID rt) app = app" using app(2) by (cases app) (simp add: with_org_def)
  then obtain w3 where l: "loadApplication E (rt_OrganizationID rt) (rt_ClientID rt) ?w2 = (Inr app, w3)"
    and w3: "view objs w3 = objs s" "\<forall>a. GetSigningKeys (w_cache w3) (rt_OrganizationID rt) a = (\<lambda>_. None)"
    using loadApplication_ok [of ?w2 "rt_OrganizationID rt" "rt_ClientID rt" v' _ app, OF _ app_roundtrip] app s
    by (auto simp: GetApp_def GetSigningKeys_def Cache_Get_def NewMemoryCache_def fun_eq_iff)
  have "stored_key objs w3 (rt_OrganizationID rt) (app_ID app) k"
  proof -
    from key(1) obtain path v data where p: "HasPrefix path (KeysPrefix (rt_OrganizationID rt))"
      "view objs w path = Some (v, data)" and rest: "unmarshal key_fields zero_key data = Some k \<and> key_Active k \<and>
        (key_AppID k = [] \<or> app_ID app = [] \<or> key_AppID k = app_ID app)" unfolding stored_key_def by blast
    from p(1) have "path \<noteq> RefreshTokenKey (tr_RefreshToken req)"
      by (auto simp: HasPrefix_iff KeysPrefix_def RefreshTokenKey_def)
    with p rest w3(1) s show ?thesis unfolding stored_key_def by fastforce
  qed
  from resolveSigningKey_ok [OF this key(2)] w3(2) app(2) obtain key' w4 where
    r: "resolveSigningKey E (app_OrganizationID app) (app_ID app) w3 = (Inr key', w4)" and "can_sign key'" by auto
  with issueTokens_ok [OF rnd r] sign obtain resp w5 where
    i: "issueTokens E app (Some base) (rt_Scope rt) [] (rt_FamilyID rt) w3 = (Inr resp, w5)" by blast
  have "redeem_refresh E req (Doc (marshal refresh_fields rt)) (w\<lparr>w_store := s\<rparr>) = (Inr resp, w5)"
    using live cid auth base refresh_roundtrip [of rt] l
    by (auto simp: redeem_refresh_def andThen_def clock_def After_def not_less SecureCompare_def i)
  with cl rt(3) show ?thesis by (simp add: exchangeRefreshToken_def andThen_def)
qed

end

interpretation demo_live: reliable_engine demo_env mem_view
  by (rule reliable_engine.intro) (rule demo.engine_store_axioms, rule demo_reliable)

end
