(* ===== verification/Login.thy ===== *)
theory Login
  imports Progress
begin

text \<open>
  The properties of the authorization server's flows, for any store that meets the storage contract,
  with their witnesses in the concrete environment of \<open>Demo\<close>.
\<close>

subsection \<open>The demonstration world\<close>

lemma demo_view:
  "view mem_view demo_world (AppKey ''acme'' ''web'') = Some (''1'', Doc (marshal app_fields demo_app))"
  "view mem_view demo_world (KeyPairKey ''acme'' ''key_1'') = Some (''1'', Doc (marshal key_fields demo_key))"
  "view mem_view demo_world (IDPKey ''acme'' ''google'') = Some (''1'', Doc (marshal idp_fields demo_idp))"
  "view mem_view demo_world (AuthStateKey ''st1'') = Some (''1'', Doc (marshal state_fields demo_state))"
  "view mem_view demo_world (AuthCodeKey ''c1'') = Some (''1'', Doc (marshal code_fields demo_code))"
  "view mem_view demo_world (RefreshTokenKey ''r1'') = Some (''1'', Doc (marshal refresh_fields demo_refresh))"
  by (simp_all add: view_def mem_view_def demo_objs_def key_defs)

lemma demo_stored_key: "stored_key mem_view demo_world ''acme'' app demo_key"
proof -
  have "HasPrefix (KeyPairKey ''acme'' ''key_1'') (KeysPrefix ''acme'')"
    by (simp add: HasPrefix_iff KeysPrefix_def KeyPairKey_def)
  moreover have "key_Active demo_key" "key_AppID demo_key = []" by (simp_all add: demo_key_def)
  ultimately show ?thesis using demo_view(2) demo_records(2) unfolding stored_key_def by metis
qed

lemma demo_can_sign: "can_sign demo_key"
  by (simp add: can_sign_def demo_key_def)

lemma demo_signs: "can_sign key \<Longrightarrow> \<exists>t. SignJWT demo_rsa c (key_PrivateKeyPEM key) (key_KID key) = Inr t"
  by (rule demo_sign) (simp add: can_sign_def)

lemma demo_claims_ok: "claims_ok demo_claims"
  by (simp add: claims_ok_def demo_claims_def zero_claims_def int64_def)

lemma demo_auth: "authenticate_client demo_app demo_code demo_request = None"
  by (simp add: authenticate_client_def IsPublicClient_def demo_app_def demo_request_def demo_code_def
      zero_app_def zero_code_def SecureCompare_def)

lemma demo_fields:
  "tr_Code demo_request = ''c1''" "tr_ClientID demo_request = ''web''" "tr_RedirectURI demo_request = []"
  "tr_RefreshToken demo_request = ''r1''"
  "ac_ClientID demo_code = ''web''" "ac_OrganizationID demo_code = ''acme''" "ac_Claims demo_code = Some demo_claims"
  "ac_ExpiresAt demo_code = demo_now" "app_OrganizationID demo_app = ''acme''" "app_ID demo_app = ''web''"
  by (simp_all add: demo_request_def demo_code_def demo_app_def)

lemma demo_exchange: "\<exists>resp w'. exchangeAuthorizationCode demo_env demo_request demo_world = (Inr resp, w')"
  by (rule demo_live.exchange_ok [where ac = demo_code and base = demo_claims and app = demo_app and k = demo_key and v = "''1''"])
    (simp_all add: demo_fields demo_view demo_claims_ok demo_auth demo_stored_key demo_can_sign demo_signs)

lemma demo_refresh_fields:
  "rt_ClientID demo_refresh = ''web''" "rt_OrganizationID demo_refresh = ''acme''"
  "rt_Claims demo_refresh = Some demo_claims" "rt_ExpiresAt demo_refresh = demo_now"
  "app_ClientSecret demo_app = tr_ClientSecret demo_request"
  by (simp_all add: demo_refresh_def demo_app_def demo_request_def)

text \<open>A new handle differs from the one in the demonstration store.\<close>

lemma demo_rotation:
  "\<exists>resp w'. exchangeRefreshToken demo_env demo_request demo_world = (Inr resp, w') \<and> tp_RefreshToken resp \<noteq> ''r1''"
proof -
  have "\<exists>resp w'. exchangeRefreshToken demo_env demo_request demo_world = (Inr resp, w')"
    by (rule demo_live.refresh_ok [where rt = demo_refresh and base = demo_claims and app = demo_app and k = demo_key and v = "''1''"])
      (simp_all add: demo_fields demo_refresh_fields demo_view demo_claims_ok demo_stored_key demo_can_sign demo_signs)
  then obtain resp w' where x: "exchangeRefreshToken demo_env demo_request demo_world = (Inr resp, w')" by blast
  have "\<exists>t. tp_RefreshToken resp = ''rt_'' @ t"
    by (rule demo.exchange_refresh_Inr [OF x], rule demo.redeem_refresh_Inr, assumption,
        rule demo.issueTokens_Inr, assumption, rule demo.mint_handle)
  with x show ?thesis by auto
qed

subsection \<open>Authorization codes\<close>

text \<open>
  An authorization code is spent by its first use, whatever comes of that use: after any exchange
  that did not find the code gone already, every later exchange of the same code (by any client, in any
  world where the code's record was not written again) is refused as invalid or already consumed.
\<close>

theorem code_single_use:
  assumes "cas_store (e_ops E) objs"
    and "exchangeAuthorizationCode E req w = (r, w1)" and "r \<noteq> Inl ECodeInvalid"
    and "tr_Code req' = tr_Code req"
    and "view objs w2 (AuthCodeKey (tr_Code req)) = view objs w1 (AuthCodeKey (tr_Code req))"
  shows "fst (exchangeAuthorizationCode E req' w2) = Inl ECodeInvalid"
proof -
  have e: "engine_store E objs" using assms(1) by (rule engine_store.intro)
  have "view objs w2 (AuthCodeKey (tr_Code req')) = None"
    using engine_store.code_spent [OF e assms(2,3)] assms(4,5) by simp
  with engine_store.code_absent [OF e] show ?thesis by (metis prod.collapse)
qed

lemma code_single_use_witness:
  "\<exists>resp w1. exchangeAuthorizationCode demo_env demo_request demo_world = (Inr resp, w1) \<and>
     fst (exchangeAuthorizationCode demo_env demo_request w1) = Inl ECodeInvalid"
proof -
  obtain resp w1 where x: "exchangeAuthorizationCode demo_env demo_request demo_world = (Inr resp, w1)"
    using demo_exchange by blast
  have "fst (exchangeAuthorizationCode demo_env demo_request w1) = Inl ECodeInvalid"
    by (rule code_single_use [OF demo_cas x]) simp_all
  with x show ?thesis by blast
qed

text \<open>
  PKCE: a verifier is accepted exactly when the code was issued for a challenge with the method S256,
  the verifier has 43 to 128 characters, and its hash is the challenge.
\<close>

theorem verifyPKCE_iff:
  "verifyPKCE ac verifier = None \<longleftrightarrow>
     ac_CodeChallenge ac \<noteq> [] \<and> 43 \<le> length verifier \<and> length verifier \<le> 128 \<and>
     ac_CodeChallengeMethod ac = ''S256'' \<and> ac_CodeChallenge ac = S256Challenge verifier"
  by (auto simp: verifyPKCE_def pkceMethodS256_def SecureCompare_def)

text \<open>
  How a client proves itself at redemption: a public client must pass PKCE; a confidential one must
  present its secret, and must pass PKCE as well when it began with a challenge.
\<close>

theorem authenticate_client_iff:
  "authenticate_client app ac req = None \<longleftrightarrow>
     (if app_Public app \<or> app_ClientSecret app = []
      then verifyPKCE ac (tr_CodeVerifier req) = None
      else tr_ClientSecret req = app_ClientSecret app \<and>
        (ac_CodeChallenge ac = [] \<or> verifyPKCE ac (tr_CodeVerifier req) = None))"
  by (auto simp: authenticate_client_def IsPublicClient_def SecureCompare_def)

text \<open>
  The proof a client owes at redemption. With PKCE it is a verifier of 43 to 128 characters whose hash is the challenge
  of the authorization request. A public client owes that; a confidential one owes its secret, and the verifier as well
  when it began with a challenge.
\<close>

definition pkce_proof :: "AuthCode \<Rightarrow> string \<Rightarrow> bool" where
  "pkce_proof ac verifier \<longleftrightarrow> ac_CodeChallenge ac \<noteq> [] \<and> ac_CodeChallengeMethod ac = ''S256'' \<and>
     43 \<le> length verifier \<and> length verifier \<le> 128 \<and> ac_CodeChallenge ac = S256Challenge verifier"

definition client_proof :: "Application \<Rightarrow> AuthCode \<Rightarrow> TokenRequest \<Rightarrow> bool" where
  "client_proof app ac req \<longleftrightarrow>
     (if app_Public app \<or> app_ClientSecret app = [] then pkce_proof ac (tr_CodeVerifier req)
      else tr_ClientSecret req = app_ClientSecret app \<and>
        (ac_CodeChallenge ac \<noteq> [] \<longrightarrow> pkce_proof ac (tr_CodeVerifier req)))"

lemma authenticate_client_proof: "authenticate_client app ac req = None \<longleftrightarrow> client_proof app ac req"
  unfolding authenticate_client_iff verifyPKCE_iff client_proof_def pkce_proof_def by auto

text \<open>
  C3. A redemption that returns tokens was entitled to them: the code's record was in the store, it named
  this client and had not expired, a redirect URI sent along is the one of the authorization request, and
  the client gave the proof it owes according to its registration, the record of the store or the node's live cached
  copy: a public client the PKCE verifier, a confidential one its secret, and the verifier as well if it began with a
  challenge. The record of the code is gone afterwards.
\<close>

theorem code_exchange_sound:
  assumes "cas_store (e_ops E) objs" and "exchangeAuthorizationCode E req w = (Inr resp, w')"
  shows "\<exists>v data ac app. objs (w_store w) (AuthCodeKey (tr_Code req)) = Some (v, data) \<and>
    unmarshal code_fields zero_code data = Some ac \<and> ac_ClientID ac = tr_ClientID req \<and>
    (\<exists>now \<in> range (e_now E). now \<le> ac_ExpiresAt ac) \<and>
    (tr_RedirectURI req = [] \<or> tr_RedirectURI req = ac_RedirectURI ac) \<and>
    known_app objs E w (ac_OrganizationID ac) (ac_ClientID ac) app \<and> client_proof app ac req \<and>
    objs (w_store w') (AuthCodeKey (tr_Code req)) = None"
proof -
  have e: "engine_store E objs" using assms(1) by (rule engine_store.intro)
  have "view objs w' (AuthCodeKey (tr_Code req)) = None"
    by (rule engine_store.code_spent [OF e assms(2)]) simp
  then show ?thesis
    by (rule_tac engine_store.exchange_code_app [OF e assms(2)]) (auto simp: view_def authenticate_client_proof)
qed

lemma code_exchange_sound_witness:
  "\<exists>resp w' (ac :: AuthCode). exchangeAuthorizationCode demo_env demo_request demo_world = (Inr resp, w') \<and>
     ac_ClientID ac = ''web'' \<and> mem_view (w_store w') (AuthCodeKey ''c1'') = None"
proof -
  obtain resp w' where x: "exchangeAuthorizationCode demo_env demo_request demo_world = (Inr resp, w')"
    using demo_exchange by blast
  from code_exchange_sound [OF demo_cas x] obtain ac :: AuthCode where
    "ac_ClientID ac = tr_ClientID demo_request" "mem_view (w_store w') (AuthCodeKey (tr_Code demo_request)) = None"
    by blast
  with x show ?thesis unfolding demo_fields by blast
qed

text \<open>
  C10. A valid code is honoured, whatever else is in the node's cache: over a store whose operations do not fail, with a
  random source that works, a code that has not expired, presented by its own client with the proof that its kind of
  client owes and with no redirect URI but the right one, is exchanged for tokens. The conditions, all of them: the
  record of the code has a version and claims, and no reading of the clock is past its expiry; the client's application
  is stored, and a live entry the cache holds for it is that application; a key that can sign is stored for the
  application and its tenant, and the signature of every such key, stored or cached, succeeds.
\<close>

theorem code_exchange_complete:
  assumes "reliable_store (e_ops E) objs"
    and "view objs w (AuthCodeKey (tr_Code req)) = Some (v, Doc j)" and "v \<noteq> []"
    and "unmarshal code_fields zero_code (Doc j) = Some ac" and "ac_Claims ac = Some base"
    and "\<forall>n. e_now E n \<le> ac_ExpiresAt ac" and "ac_ClientID ac = tr_ClientID req"
    and "tr_RedirectURI req = [] \<or> tr_RedirectURI req = ac_RedirectURI ac"
    and "view objs w (AppKey (ac_OrganizationID ac) (ac_ClientID ac)) = Some (v', data)"
    and "unmarshal app_fields zero_app data = Some app0" and "app = with_org (ac_OrganizationID ac) app0"
    and "\<forall>t a. GetApp (w_cache w) (ac_OrganizationID ac) (ac_ClientID ac) (e_now E t) = Some (Some a) \<longrightarrow> a = app"
    and "client_proof app ac req"
    and "stored_key objs w (app_OrganizationID app) (app_ID app) k" and "can_sign k"
    and "\<forall>n. e_rand E n \<noteq> None"
    and "\<forall>key c. usable_key objs E w (app_OrganizationID app) (app_ID app) key \<longrightarrow>
      (\<exists>t. SignJWT (e_rsa E) c (key_PrivateKeyPEM key) (key_KID key) = Inr t)"
  shows "\<exists>resp w'. exchangeAuthorizationCode E req w = (Inr resp, w')"
proof -
  have "cas_store (e_ops E) objs" using assms(1) by (rule reliable_store.axioms)
  then have "reliable_engine E objs" by (intro reliable_engine.intro engine_store.intro assms(1))
  from reliable_engine.redemption_ok [OF this assms(2-12) _ assms(14-17)] assms(13) show ?thesis
    by (simp add: authenticate_client_proof)
qed

text \<open>The node has the application in its cache, as a node that has served the client before.\<close>

definition warm_world :: "memdb world" where
  "warm_world = demo_world\<lparr>w_cache := SetApp NewMemoryCache ''acme'' ''web'' (Some demo_app) (1 * Minute) demo_now\<rparr>"

lemma warm_app: "GetApp (w_cache warm_world) ''acme'' ''web'' demo_now = Some (Some demo_app)"
  by (simp add: warm_world_def SetApp_def Cache_Set_def GetApp_def Cache_Get_def expired_def After_def Minute_def Second_def)

lemma warm_keys: "usable_key mem_view demo_env warm_world org app key \<Longrightarrow> can_sign key"
  by (simp add: usable_key_def)

lemma code_exchange_complete_witness:
  "GetApp (w_cache warm_world) ''acme'' ''web'' demo_now = Some (Some demo_app) \<and>
   (\<exists>resp w'. exchangeAuthorizationCode demo_env demo_request warm_world = (Inr resp, w'))"
proof -
  have v: "view mem_view warm_world = view mem_view demo_world" by (simp add: view_def warm_world_def fun_eq_iff)
  have k: "stored_key mem_view warm_world o' a = stored_key mem_view demo_world o' a" for o' a
    by (simp add: stored_key_def v fun_eq_iff)
  have "\<exists>resp w'. exchangeAuthorizationCode demo_env demo_request warm_world = (Inr resp, w')"
  proof (rule code_exchange_complete [OF demo_reliable, where ac = demo_code and base = demo_claims and app = demo_app and k = demo_key
        and v = "''1''" and v' = "''1''" and app0 = demo_app and data = "Doc (marshal app_fields demo_app)"
        and j = "marshal code_fields demo_code"])
    show "unmarshal code_fields zero_code (Doc (marshal code_fields demo_code)) = Some demo_code"
      using demo_claims_ok by (simp add: code_roundtrip demo_fields)
    show "demo_app = with_org (ac_OrganizationID demo_code) demo_app" by (simp add: with_org_def demo_fields)
    show "client_proof demo_app demo_code demo_request" using demo_auth by (simp only: authenticate_client_proof)
    show "\<forall>key c. usable_key mem_view demo_env warm_world (app_OrganizationID demo_app) (app_ID demo_app) key \<longrightarrow>
        (\<exists>t. SignJWT (e_rsa demo_env) c (key_PrivateKeyPEM key) (key_KID key) = Inr t)"
      using demo_signs warm_keys by auto
  qed (simp_all add: demo_fields demo_view v k warm_app demo_stored_key demo_can_sign app_roundtrip)
  with warm_app show ?thesis by blast
qed

subsection \<open>Tokens\<close>

text \<open>
  A clock whose readings, in seconds, fit the 64-bit integers of the claims.
\<close>

definition sane_clock :: "'s env \<Rightarrow> bool" where
  "sane_clock E \<longleftrightarrow> (\<forall>n. 0 \<le> e_now E n \<and> e_now E n < 2 ^ 63)"

lemma sane_times:
  assumes "sane_clock E" and "now \<in> range (e_now E)"
  shows "int64 (Unix now)" and "int64 (Unix (now + 900000000000))"
proof -
  from assms have "0 \<le> now" "now < 2 ^ 63" by (auto simp: sane_clock_def)
  then have "0 \<le> now div Second" "now div Second \<le> now" "(now + 900000000000) div Second \<le> now + 900000000000"
    "0 \<le> (now + 900000000000) div Second" "(now + 900000000000) div Second \<le> now div Second + 901"
    by (simp_all add: Second_def)
  with \<open>now < 2 ^ 63\<close> show "int64 (Unix now)" "int64 (Unix (now + 900000000000))"
    by (simp_all add: int64_def Unix_def Second_def)
qed

lemma token_claims_ok:
  assumes "sane_clock E" and "now \<in> range (e_now E)"
  shows "TokenAudiences (Some app) \<noteq> [[]] \<Longrightarrow> claims_ok (access_claims app base issuer scope now jti)"
    and "app_ClientID app \<noteq> [] \<Longrightarrow> claims_ok (id_claims app base issuer nonce now jti)"
  using sane_times [OF assms]
  by (simp_all add: claims_ok_def access_claims_def id_claims_def accessTokenTTL_def idTokenTTL_def
      Minute_def Second_def)

text \<open>Whatever verification of a signed token accepts are the claims that were signed.\<close>

lemma verified_claims:
  assumes "SignJWT lib c pem kid = Inr tok" and "claims_ok c"
    and "VerifyJWTWithOptions lib' now_at tok keys opts = Inr c'"
  shows "c' = c \<and> (\<exists>j. validateClaims (now_at j) c opts = None)"
proof -
  from assms(1,2) obtain p0 p1 p2 where s: "Split tok CHR ''.'' = [p0, p1, p2]" "carries p1 c"
    by (rule signed_token)
  from assms(3) obtain q0 q1 q2 j where "Split tok CHR ''.'' = [q0, q1, q2]" "carries q1 c'"
    "validateClaims (now_at j) c' opts = None"
    by (rule VerifyJWT_Inr)
  with s show ?thesis by (auto dest: carries_unique)
qed

lemma access_claims_simps [simp]:
  "cl_TokenUse (access_claims app base issuer scope now jti) = TokenUseAccess"
  "cl_Issuer (access_claims app base issuer scope now jti) = issuer"
  "cl_Audience (access_claims app base issuer scope now jti) = TokenAudiences (Some app)"
  "cl_TokenUse (id_claims app base issuer nonce now jti) = TokenUseID"
  "cl_Issuer (id_claims app base issuer nonce now jti) = issuer"
  "cl_Audience (id_claims app base issuer nonce now jti) = [app_ClientID app]"
  by (simp_all add: access_claims_def id_claims_def)

text \<open>
  C13. The two tokens of one issuance are not interchangeable: a verifier that asks for an access token
  never accepts the ID token, and one that asks for an ID token never accepts the access token, whatever
  keys and other expectations it has.
\<close>

theorem tokens_separated:
  assumes "issueTokens E app base scope nonce fam w = (Inr resp, w')" and "cas_store (e_ops E) objs"
    and "sane_clock E" and "app_ClientID app \<noteq> []" and "TokenAudiences (Some app) \<noteq> [[]]"
  shows "(vo_ExpectedTokenUse opts = TokenUseAccess \<longrightarrow>
            VerifyJWTWithOptions lib now_at (tp_IDToken resp) keys opts \<noteq> Inr c) \<and>
         (vo_ExpectedTokenUse opts = TokenUseID \<longrightarrow>
            VerifyJWTWithOptions lib now_at (tp_AccessToken resp) keys opts \<noteq> Inr c)"
proof (rule engine_store.issueTokens_Inr [OF engine_store.intro [OF assms(2)] assms(1)])
  fix b key now jti jti'
  assume now: "now \<in> range (e_now E)"
    and a: "SignJWT (e_rsa E) (access_claims app b (IssuerFor E (app_OrganizationID app)) scope now jti)
       (key_PrivateKeyPEM key) (key_KID key) = Inr (tp_AccessToken resp)"
    and i: "SignJWT (e_rsa E) (id_claims app b (IssuerFor E (app_OrganizationID app)) nonce now jti')
       (key_PrivateKeyPEM key) (key_KID key) = Inr (tp_IDToken resp)"
  have "\<not> validateClaims t (id_claims app b (IssuerFor E (app_OrganizationID app)) nonce now jti') opts = None"
    if "vo_ExpectedTokenUse opts = TokenUseAccess" for t
    using that by (simp add: validateClaims_None TokenUseAccess_def TokenUseID_def)
  moreover have "\<not> validateClaims t (access_claims app b (IssuerFor E (app_OrganizationID app)) scope now jti) opts = None"
    if "vo_ExpectedTokenUse opts = TokenUseID" for t
    using that by (simp add: validateClaims_None TokenUseAccess_def TokenUseID_def)
  ultimately show ?thesis
    using verified_claims [OF a token_claims_ok(1) [OF assms(3) now assms(5)]]
      verified_claims [OF i token_claims_ok(2) [OF assms(3) now assms(4)]] by blast
qed

lemma demo_issue: "\<exists>resp w'. issueTokens demo_env demo_app (Some demo_claims) s n f demo_world = (Inr resp, w')"
proof -
  have "GetSigningKeys (w_cache demo_world) ''acme'' ''web'' = (\<lambda>_. None)"
    by (simp add: GetSigningKeys_def Cache_Get_def NewMemoryCache_def fun_eq_iff)
  from demo_live.resolveSigningKey_ok [OF demo_stored_key demo_can_sign this] obtain key w1 where
    "resolveSigningKey demo_env (app_OrganizationID demo_app) (app_ID demo_app) demo_world = (Inr key, w1)"
    and "can_sign key" by (auto simp: demo_fields)
  then show ?thesis by (intro demo_live.issueTokens_ok) (auto intro: demo_signs)
qed

lemma demo_clock: "sane_clock demo_env"
  by (simp add: sane_clock_def demo_now_def)

lemma demo_ids: "app_ClientID demo_app = ''web''" "TokenAudiences (Some demo_app) = [''web'']"
  by (simp_all add: demo_app_def TokenAudiences_def zero_app_def)

lemma tokens_separated_witness:
  "\<exists>resp w'. issueTokens demo_env demo_app (Some demo_claims) [] [] [] demo_world = (Inr resp, w') \<and>
     (\<forall>c. VerifyJWTWithOptions demo_rsa (\<lambda>_. demo_now) (tp_IDToken resp) [Some demo_key]
       (no_options\<lparr>vo_ExpectedTokenUse := TokenUseAccess\<rparr>) \<noteq> Inr c)"
proof -
  obtain resp w' where x: "issueTokens demo_env demo_app (Some demo_claims) [] [] [] demo_world = (Inr resp, w')"
    using demo_issue by blast
  from tokens_separated [OF x demo_cas demo_clock] x show ?thesis by (fastforce simp: demo_ids)
qed

text \<open>
  C12. Refresh tokens rotate: a refresh that returns tokens had the handle's record in the store, issued to
  this client and not expired, and the client, as registered in the store or in the node's live cached copy, is public or
  sent its secret; the handle returned is a new one, stored with the family, the scope and the identity of the
  old one, and the old record is gone. The handle presented is assumed not to be one the random source has yet to give.
\<close>

theorem refresh_rotates:
  assumes "cas_store (e_ops E) objs" and "exchangeRefreshToken E req w = (Inr resp, w')"
    and "\<forall>p x. w_draw w \<le> p \<longrightarrow> e_rand E p = Some x \<longrightarrow> tr_RefreshToken req \<noteq> ''rt_'' @ EncodeToString x"
  shows "tp_RefreshToken resp \<noteq> tr_RefreshToken req \<and>
   (\<exists>v data rt v' new app. objs (w_store w) (RefreshTokenKey (tr_RefreshToken req)) = Some (v, data) \<and>
    unmarshal refresh_fields zero_refresh data = Some rt \<and> rt_ClientID rt = tr_ClientID req \<and>
    (\<exists>now \<in> range (e_now E). now \<le> rt_ExpiresAt rt) \<and>
    known_app objs E w (rt_OrganizationID rt) (rt_ClientID rt) app \<and>
    (app_Public app \<or> app_ClientSecret app = [] \<or> app_ClientSecret app = tr_ClientSecret req) \<and>
    objs (w_store w') (RefreshTokenKey (tr_RefreshToken req)) = None \<and>
    objs (w_store w') (RefreshTokenKey (tp_RefreshToken resp)) = Some (v', Doc (marshal refresh_fields new)) \<and>
    rt_Token new = tp_RefreshToken resp \<and> rt_Claims new = rt_Claims rt \<and> rt_Scope new = rt_Scope rt \<and>
    (rt_FamilyID rt \<noteq> [] \<longrightarrow> rt_FamilyID new = rt_FamilyID rt))"
proof -
  have e: "engine_store E objs" using assms(1) by (rule engine_store.intro)
  from engine_store.exchange_refresh_app [OF e assms(2)] obtain v data rt app w2 where
    old: "view objs w (RefreshTokenKey (tr_RefreshToken req)) = Some (v, data)" "unmarshal refresh_fields zero_refresh data = Some rt"
      "rt_ClientID rt = tr_ClientID req" "\<exists>now \<in> range (e_now E). now \<le> rt_ExpiresAt rt"
    and app: "known_app objs E w (rt_OrganizationID rt) (rt_ClientID rt) app"
      "IsPublicClient (Some app) \<or> app_ClientSecret app = tr_ClientSecret req"
    and i: "issueTokens E app (rt_Claims rt) (rt_Scope rt) [] (rt_FamilyID rt) w2 = (Inr resp, w')"
    and w2: "view objs w2 = (view objs w)(RefreshTokenKey (tr_RefreshToken req) := None)" "w_draw w2 = w_draw w" .
  from engine_store.issued_handle [OF e i] assms(3) w2(2) have new: "tp_RefreshToken resp \<noteq> tr_RefreshToken req" by metis
  from engine_store.issueTokens_Inr [OF e i] obtain base key w4 w5 where b: "rt_Claims rt = Some base"
    and k: "resolveSigningKey E (app_OrganizationID app) (app_ID app) w2 = (Inr key, w4)"
    and m: "mintRefreshToken E app base (rt_Scope rt) (rt_FamilyID rt) w5 = (Inr (tp_RefreshToken resp), w')"
    and w5: "view objs w5 = view objs w4" by metis
  have gone: "view objs w4 (RefreshTokenKey (tr_RefreshToken req)) = None"
    using keepsD [OF engine_store.keeps_resolveSigningKey [OF e] k, of "RefreshTokenKey (tr_RefreshToken req)"] w2(1) by simp
  from engine_store.mint_Inr [OF e m] obtain v' now' fam' where
    "view objs w' = (view objs w5)(RefreshTokenKey (tp_RefreshToken resp) \<mapsto>
       (v', Doc (marshal refresh_fields (refresh_record app base (rt_Scope rt) fam' (tp_RefreshToken resp) now'))))"
    and fam: "rt_FamilyID rt \<noteq> [] \<longrightarrow> fam' = rt_FamilyID rt" by blast
  with new gone w5 have stored: "objs (w_store w') (RefreshTokenKey (tr_RefreshToken req)) = None"
    "objs (w_store w') (RefreshTokenKey (tp_RefreshToken resp)) =
       Some (v', Doc (marshal refresh_fields (refresh_record app base (rt_Scope rt) fam' (tp_RefreshToken resp) now')))"
    by (simp_all add: view_def)
  have fields: "rt_Token (refresh_record app base s f h t) = h" "rt_Claims (refresh_record app base s f h t) = Some base"
    "rt_Scope (refresh_record app base s f h t) = s" "rt_FamilyID (refresh_record app base s f h t) = f" for s f h t
    by (simp_all add: refresh_record_def)
  show ?thesis
    using new old app stored fields b fam unfolding view_def IsPublicClient_def
    by (intro conjI exI [of _ v] exI [of _ data] exI [of _ rt] exI [of _ v'] exI [of _ app]
        exI [of _ "refresh_record app base (rt_Scope rt) fam' (tp_RefreshToken resp) now'"]) auto
qed

lemma refresh_rotates_witness:
  "\<exists>resp w'. exchangeRefreshToken demo_env demo_request demo_world = (Inr resp, w') \<and>
     mem_view (w_store w') (RefreshTokenKey ''r1'') = None \<and>
     mem_view (w_store w') (RefreshTokenKey (tp_RefreshToken resp)) \<noteq> None"
proof -
  obtain resp w' where x: "exchangeRefreshToken demo_env demo_request demo_world = (Inr resp, w')"
    using demo_rotation by blast
  have "\<forall>p x. w_draw demo_world \<le> p \<longrightarrow> e_rand demo_env p = Some x \<longrightarrow> tr_RefreshToken demo_request \<noteq> ''rt_'' @ EncodeToString x"
    by (simp add: demo_fields)
  from refresh_rotates [OF demo_cas x this] x show ?thesis unfolding demo_fields by auto
qed

text \<open>
  A refresh handle works once: after a refresh that returned tokens, the same handle is refused in any
  world where its record was not written again.
\<close>

theorem refresh_single_use:
  assumes "cas_store (e_ops E) objs" and "exchangeRefreshToken E req w = (Inr resp, w1)"
    and "tp_RefreshToken resp \<noteq> tr_RefreshToken req"
    and "tr_RefreshToken req' = tr_RefreshToken req"
    and "view objs w2 (RefreshTokenKey (tr_RefreshToken req)) = view objs w1 (RefreshTokenKey (tr_RefreshToken req))"
  shows "fst (exchangeRefreshToken E req' w2) \<in> {Inl ERefreshInvalid, Inl ERefreshRequired}"
proof -
  have e: "engine_store E objs" using assms(1) by (rule engine_store.intro)
  have "view objs w2 (RefreshTokenKey (tr_RefreshToken req')) = None"
    using engine_store.refresh_spent [OF e assms(2,3)] assms(4,5) by simp
  with engine_store.refresh_absent [OF e] show ?thesis by (metis insert_iff prod.collapse)
qed

lemma refresh_single_use_witness:
  "\<exists>resp w1. exchangeRefreshToken demo_env demo_request demo_world = (Inr resp, w1) \<and>
     fst (exchangeRefreshToken demo_env demo_request w1) \<in> {Inl ERefreshInvalid, Inl ERefreshRequired}"
proof -
  obtain resp w1 where x: "exchangeRefreshToken demo_env demo_request demo_world = (Inr resp, w1)"
    and n: "tp_RefreshToken resp \<noteq> tr_RefreshToken demo_request" using demo_rotation unfolding demo_fields by blast
  have "fst (exchangeRefreshToken demo_env demo_request w1) \<in> {Inl ERefreshInvalid, Inl ERefreshRequired}"
    by (rule refresh_single_use [OF demo_cas x n]) simp_all
  with x show ?thesis by blast
qed

end
