(* ===== verification/Journey.thy ===== *)
theory Journey
  imports Login
begin

text \<open>
  Properties of authorization requests and callbacks, and of the whole way from the request to the
  tokens: what the client committed to at the start is what it is held to at the end.
\<close>

lemma check_request_None:
  "check_request app req = None \<longleftrightarrow>
     ar_RedirectURI req \<noteq> [] \<and> ar_RedirectURI req \<in> set (app_RedirectURIs app) \<and>
     (IsPublicClient (Some app) \<longrightarrow> ar_CodeChallenge req \<noteq> []) \<and>
     (ar_CodeChallenge req \<noteq> [] \<longrightarrow> ar_CodeChallengeMethod req = ''S256'')"
  by (auto simp: check_request_def HasRedirectURI_iff pkceMethodS256_def)

text \<open>
  C9. An authorization request is answered with a redirect only if the client is registered, its redirect
  URI is registered exactly, a public client sent a challenge, a challenge uses S256, and the provider is
  one the application may use. The only change to the store is the state record, which holds the client's
  redirect URI, challenge, nonce and state under a fresh handle.
\<close>

theorem authorize_sound:
  assumes "cas_store (e_ops E) objs" and "PrepareAuthorization E req w = (Inr url, w')"
  shows "\<exists>v data app idp stateID now v' b. objs (w_store w) (AppKey (ar_OrganizationID req) (ar_ClientID req)) = Some (v, data) \<and>
    unmarshal app_fields zero_app data = Some app \<and>
    ar_RedirectURI req \<noteq> [] \<and> ar_RedirectURI req \<in> set (app_RedirectURIs app) \<and>
    (app_Public app \<or> app_ClientSecret app = [] \<longrightarrow> ar_CodeChallenge req \<noteq> []) \<and>
    (ar_CodeChallenge req \<noteq> [] \<longrightarrow> ar_CodeChallengeMethod req = ''S256'') \<and>
    (ar_IDPID req \<noteq> [] \<longrightarrow> idp = ar_IDPID req) \<and> (app_AllowedIDPs app \<noteq> [] \<longrightarrow> idp \<in> set (app_AllowedIDPs app)) \<and>
    Some b \<in> range (e_rand E) \<and> stateID = ''state_'' @ EncodeToString b \<and>
    objs (w_store w') = (objs (w_store w))(AuthStateKey stateID \<mapsto>
      (v', Doc (marshal state_fields (state_of_request req app idp stateID now))))"
proof -
  have e: "engine_store E objs" using assms(1) by (rule engine_store.intro)
  show ?thesis
  proof (rule engine_store.PrepareAuthorization_Inr [OF e assms(2)])
    fix v data app idp p w1 w2 w3
    assume a: "view objs w (AppKey (ar_OrganizationID req) (ar_ClientID req)) = Some (v, data)"
      "unmarshal app_fields zero_app data = Some app"
      and c: "check_request app req = None" and s: "select_idp E app req w1 = (Inr idp, w2)"
      and w3: "view objs w3 = view objs w" and b: "begin_login E req app idp p w3 = (Inr url, w')"
    from engine_store.begin_login_Inr [OF e b] obtain v' stateID now i r where
      "view objs w' = (view objs w3)(AuthStateKey stateID \<mapsto>
        (v', Doc (marshal state_fields (state_of_request req app idp stateID now))))"
      "e_rand E i = Some r" "stateID = ''state_'' @ EncodeToString r" by blast
    moreover from c have "app_Public app \<or> app_ClientSecret app = [] \<longrightarrow> ar_CodeChallenge req \<noteq> []"
      by (auto simp: check_request_None IsPublicClient_def)
    ultimately show ?thesis
      using a c engine_store.select_idp_Inr [OF e s] w3 unfolding check_request_None view_def
      by (metis rangeI)
  qed
qed

lemma demo_login: "\<exists>url w'. PrepareAuthorization demo_env demo_authorize demo_world = (Inr url, w')"
proof -
  have "view mem_view demo_world (AppKey (ar_OrganizationID demo_authorize) (ar_ClientID demo_authorize)) =
      Some (''1'', Doc (marshal app_fields demo_app))"
    by (simp add: demo_view demo_authorize_def)
  from demo_live.get_ok [OF this] obtain s where
    g: "on_store (st_Get (JayDBStorage mem_ops) (AppKey (ar_OrganizationID demo_authorize) (ar_ClientID demo_authorize))) demo_world =
      (Inr \<lparr>sr_Key = AppKey (ar_OrganizationID demo_authorize) (ar_ClientID demo_authorize), sr_Version = ''1'',
            sr_Data = Doc (marshal app_fields demo_app)\<rparr>, demo_world\<lparr>w_store := s\<rparr>)"
    and s: "mem_view s = view mem_view demo_world" by auto
  have c: "check_request demo_app demo_authorize = None" and sel: "select_idp demo_env demo_app demo_authorize w = (Inr ''google'', w)" for w
    by (simp_all add: check_request_None IsPublicClient_def demo_app_def demo_authorize_def zero_app_def select_idp_def ret_def)
  have "view mem_view (demo_world\<lparr>w_store := s\<rparr>) (IDPKey ''acme'' ''google'') = Some (''1'', Doc (marshal idp_fields demo_idp))"
    using s demo_view(3) by (simp add: view_def del: demo_world_simps)
  from demo_live.get_ok [OF this] obtain t where
    t: "on_store (st_Get (JayDBStorage mem_ops) (IDPKey ''acme'' ''google'')) (demo_world\<lparr>w_store := s\<rparr>) =
      (Inr \<lparr>sr_Key = IDPKey ''acme'' ''google'', sr_Version = ''1'', sr_Data = Doc (marshal idp_fields demo_idp)\<rparr>,
       demo_world\<lparr>w_store := t\<rparr>)" by auto
  have "decodeUsable (Doc (marshal idp_fields demo_idp)) = Some demo_idp"
    by (simp add: decodeUsable_def demo_records isPlaceholder_def) (simp add: demo_idp_def HasPrefix_def)
  then have r: "resolveUpstreamIDP demo_env ''acme'' ''web'' ''google'' (demo_world\<lparr>w_store := s\<rparr>) = (Inr demo_idp, demo_world\<lparr>w_store := t\<rparr>)"
    by (simp add: resolveUpstreamIDP_def andThen_def stored_idp_def attempt_def t ret_def del: JayDBStorage_simps)
  have "\<exists>url w'. begin_login demo_env demo_authorize demo_app ''google'' demo_idp w = (Inr url, w')" for w
  proof -
    obtain st where st: "secure_token demo_env ''state_'' w = (Inr st, w\<lparr>w_draw := Suc (w_draw w)\<rparr>)"
      using demo_live.secure_token_ok by force
    obtain v u where "on_store (st_Put (JayDBStorage mem_ops) (AuthStateKey st) (Doc (marshal state_fields
        (state_of_request demo_authorize demo_app ''google'' st demo_now))) []) (w\<lparr>w_draw := Suc (w_draw w), w_tick := Suc (w_tick w)\<rparr>) = (Inr v, u)"
      using demo_live.put_ok by fastforce
    moreover have "idp_AuthorizeURL (effectiveProvider demo_idp) \<noteq> []"
      by (simp add: effectiveProvider_def demo_idp_def split: option.split)
    ultimately show ?thesis
      by (simp add: begin_login_def andThen_def wrapErr_def st clock_def Let_def set_states_def ret_def)
  qed
  with g c sel r show ?thesis
    by (simp add: PrepareAuthorization_def andThen_def wrapErr_def demo_records del: JayDBStorage_simps)
      (simp add: demo_authorize_def)
qed

lemma authorize_sound_witness:
  "\<exists>url w' idp. PrepareAuthorization demo_env demo_authorize demo_world = (Inr url, w') \<and>
     idp \<in> set (app_AllowedIDPs demo_app)"
proof -
  obtain url w' where x: "PrepareAuthorization demo_env demo_authorize demo_world = (Inr url, w')"
    using demo_login by blast
  from authorize_sound [OF demo_cas x] obtain v data app idp where
    "mem_view (w_store demo_world) (AppKey (ar_OrganizationID demo_authorize) (ar_ClientID demo_authorize)) = Some (v, data)"
    and "unmarshal app_fields zero_app data = Some app" "app_AllowedIDPs app \<noteq> [] \<longrightarrow> idp \<in> set (app_AllowedIDPs app)"
    by blast
  moreover have "mem_view (w_store demo_world) (AppKey ''acme'' ''web'') = Some (''1'', Doc (marshal app_fields demo_app))"
    using demo_view(1) by (simp add: view_def)
  ultimately have "app = demo_app" using demo_records(1) by (simp add: demo_authorize_def)
  moreover have "app_AllowedIDPs demo_app \<noteq> []" by (simp add: demo_app_def)
  ultimately have "idp \<in> set (app_AllowedIDPs demo_app)"
    using \<open>app_AllowedIDPs app \<noteq> [] \<longrightarrow> _\<close> by blast
  with x show ?thesis by blast
qed

text \<open>
  C35. A request that fails the checks on the redirect URI or on PKCE leaves no trace: it is refused and no
  object in the store changes.
\<close>

theorem authorize_refused:
  assumes "cas_store (e_ops E) objs"
    and "objs (w_store w) (AppKey (ar_OrganizationID req) (ar_ClientID req)) = Some (v, data)"
    and "unmarshal app_fields zero_app data = Some app" and "check_request app req \<noteq> None"
  shows "\<exists>e w'. PrepareAuthorization E req w = (Inl e, w') \<and> objs (w_store w') = objs (w_store w)"
proof -
  have e: "engine_store E objs" using assms(1) by (rule engine_store.intro)
  obtain r w1 where g: "on_store (st_Get (e_ops E) (AppKey (ar_OrganizationID req) (ar_ClientID req))) w = (r, w1)"
    by fastforce
  from engine_store.get_step [OF e g] assms(2) have v1: "view objs w1 = view objs w"
    and rec: "\<forall>rec. r = Inr rec \<longrightarrow> sr_Data rec = data" by (auto simp: view_def)
  show ?thesis
    using g v1 rec assms(3,4)
    by (cases r) (auto simp: PrepareAuthorization_def andThen_def wrapErr_def view_def fail_def)
qed

lemma authorize_refused_witness:
  "\<exists>e w'. PrepareAuthorization demo_env (demo_authorize\<lparr>ar_RedirectURI := ''https://evil''\<rparr>) demo_world = (Inl e, w') \<and>
     mem_view (w_store w') = mem_view (w_store demo_world)"
  by (rule authorize_refused [OF demo_cas, where v = "''1''" and data = "Doc (marshal app_fields demo_app)" and app = demo_app])
    (use demo_view(1) in \<open>simp_all add: app_roundtrip view_def demo_authorize_def check_request_None [THEN iffD1]
      check_request_def HasRedirectURI_def demo_app_def\<close>)

text \<open>
  Completing a login consumes the state and stores one code record, which carries the client, the
  redirect URI, the challenge with its method and the nonce of the state unchanged; the user is sent to
  the redirect URI of the state. The state is at most fifteen minutes old. A second completion with the
  same state is refused.
\<close>

theorem login_carries:
  assumes "cas_store (e_ops E) objs" and "CompleteUpstreamAuthentication E st claims w = (Inr url, w')"
  shows "\<exists>v data s code now v'. objs (w_store w) (AuthStateKey st) = Some (v, data) \<and>
    unmarshal state_fields zero_state data = Some s \<and>
    (\<exists>t \<in> range (e_now E). t \<le> as_CreatedAt s + 15 * Minute) \<and>
    objs (w_store w') = (objs (w_store w))(AuthStateKey st := None,
      AuthCodeKey code \<mapsto> (v', Doc (marshal code_fields (code_of_state s claims code now)))) \<and>
    url = client_redirect s code \<and>
    fst (CompleteUpstreamAuthentication E st claims w') = Inl EAuthStateSession"
proof -
  have e: "engine_store E objs" using assms(1) by (rule engine_store.intro)
  from assms(2) obtain s w1 where f: "fetchAndConsumeAuthState E st w = (Inr (Some s), w1)"
    and c: "CompleteUpstreamAuthenticationWithState E s claims w1 = (Inr url, w')"
    unfolding CompleteUpstreamAuthentication_def andThen_Inr guard_Inr by blast
  from engine_store.consume_state_Some [OF e f] obtain v data t where
    s: "view objs w (AuthStateKey st) = Some (v, data)" "unmarshal state_fields zero_state data = Some s"
      "t \<in> range (e_now E)" "t \<le> as_CreatedAt s + 15 * Minute" "view objs w1 = (view objs w)(AuthStateKey st := None)"
    unfolding authStateTTL_def by blast
  from engine_store.complete_Inr [OF e c] obtain v' code now where
    n: "view objs w' = (view objs w1)(AuthCodeKey code \<mapsto>
        (v', Doc (marshal code_fields (code_of_state s claims code now))))" "url = client_redirect s code" by blast
  obtain r w2 where again: "fetchAndConsumeAuthState E st w' = (r, w2)" by fastforce
  have "view objs w' (AuthStateKey st) = None" using n(1) s(5) by simp
  with engine_store.consume_state_absent [OF e again] have "r = Inr None" by simp
  with again have "fst (CompleteUpstreamAuthentication E st claims w') = Inl EAuthStateSession"
    by (simp add: CompleteUpstreamAuthentication_def andThen_def fail_def)
  with s n show ?thesis unfolding view_def by (metis (no_types, lifting))
qed

lemma demo_complete: "\<exists>url w'. CompleteUpstreamAuthentication demo_env ''st1'' (Some demo_claims) demo_world = (Inr url, w')"
proof -
  let ?w0 = "demo_world\<lparr>w_states := (w_states demo_world)(''st1'' := None)\<rparr>"
  have "view mem_view ?w0 (AuthStateKey ''st1'') = Some (''1'', Doc (marshal state_fields demo_state))"
    using demo_view(4) by (simp add: view_def del: demo_world_simps)
  from demo_live.claim_ok [OF this] obtain s where
    c: "claimSingleUse demo_env (AuthStateKey ''st1'') ?w0 = (Inr (Some (Doc (marshal state_fields demo_state))), ?w0\<lparr>w_store := s\<rparr>)"
    by auto
  have "as_CreatedAt demo_state = demo_now" by (simp add: demo_state_def)
  then have f: "fetchAndConsumeAuthState demo_env ''st1'' demo_world = (Inr (Some demo_state), ?w0\<lparr>w_store := s, w_tick := Suc (w_tick demo_world)\<rparr>)"
    using c by (simp add: fetchAndConsumeAuthState_def andThen_def set_states_def live_state_def demo_records
        clock_def ret_def After_def authStateTTL_def Minute_def Second_def)
  have "\<exists>url w'. CompleteUpstreamAuthenticationWithState demo_env demo_state (Some demo_claims) w = (Inr url, w')" for w
  proof -
    obtain code where st: "secure_token demo_env ''code_'' w = (Inr code, w\<lparr>w_draw := Suc (w_draw w)\<rparr>)"
      using demo_live.secure_token_ok by force
    obtain v u where "on_store (st_Put (JayDBStorage mem_ops) (AuthCodeKey code) (Doc (marshal code_fields
        (code_of_state demo_state (Some demo_claims) code demo_now))) []) (w\<lparr>w_draw := Suc (w_draw w), w_tick := Suc (w_tick w)\<rparr>) = (Inr v, u)"
      using demo_live.put_ok by fastforce
    with st show ?thesis
      by (simp add: CompleteUpstreamAuthenticationWithState_def andThen_def wrapErr_def clock_def Let_def set_codes_def ret_def)
  qed
  with f show ?thesis by (simp add: CompleteUpstreamAuthentication_def andThen_def)
qed

lemma login_carries_witness:
  "\<exists>url w' code. CompleteUpstreamAuthentication demo_env ''st1'' (Some demo_claims) demo_world = (Inr url, w') \<and>
     url = client_redirect demo_state code \<and>
     fst (CompleteUpstreamAuthentication demo_env ''st1'' (Some demo_claims) w') = Inl EAuthStateSession"
proof -
  obtain url w' where x: "CompleteUpstreamAuthentication demo_env ''st1'' (Some demo_claims) demo_world = (Inr url, w')"
    using demo_complete by blast
  from login_carries [OF demo_cas x] obtain v data s code where
    "mem_view (w_store demo_world) (AuthStateKey ''st1'') = Some (v, data)" "unmarshal state_fields zero_state data = Some s"
    "url = client_redirect s code"
    "fst (CompleteUpstreamAuthentication demo_env ''st1'' (Some demo_claims) w') = Inl EAuthStateSession" by blast
  moreover have "mem_view (w_store demo_world) (AuthStateKey ''st1'') = Some (''1'', Doc (marshal state_fields demo_state))"
    using demo_view(4) by (simp add: view_def)
  ultimately have "url = client_redirect demo_state code" using demo_records(4) by simp
  with x show ?thesis using \<open>fst _ = Inl EAuthStateSession\<close> by blast
qed

text \<open>
  C8. PKCE holds from end to end: once a login begun by a request is completed, the code it yields can be
  exchanged, in any later world where its record is unchanged, only by the client of the request, and
  when the request carried a challenge only with a verifier whose hash is that challenge; a redirect URI
  sent along must be that of the request.
\<close>

theorem pkce_end_to_end:
  assumes "cas_store (e_ops E) objs"
    and "objs (w_store w) (AuthStateKey st) = Some (v, Doc (marshal state_fields (state_of_request req app idp st now)))"
    and "CompleteUpstreamAuthentication E st claims w = (Inr url, w')"
    and "\<forall>c. claims = Some c \<longrightarrow> claims_ok c"
  shows "\<exists>code. url = client_redirect (state_of_request req app idp st now) code \<and>
    (\<forall>w2 treq resp w3. objs (w_store w2) (AuthCodeKey code) = objs (w_store w') (AuthCodeKey code) \<longrightarrow>
       tr_Code treq = code \<longrightarrow> exchangeAuthorizationCode E treq w2 = (Inr resp, w3) \<longrightarrow>
       tr_ClientID treq = ar_ClientID req \<and>
       (ar_CodeChallenge req \<noteq> [] \<longrightarrow> S256Challenge (tr_CodeVerifier treq) = ar_CodeChallenge req) \<and>
       (tr_RedirectURI treq = [] \<or> tr_RedirectURI treq = ar_RedirectURI req))"
proof -
  let ?s = "state_of_request req app idp st now"
  have e: "engine_store E objs" using assms(1) by (rule engine_store.intro)
  from assms(3) obtain s w1 where f: "fetchAndConsumeAuthState E st w = (Inr (Some s), w1)"
    and c: "CompleteUpstreamAuthenticationWithState E s claims w1 = (Inr url, w')"
    unfolding CompleteUpstreamAuthentication_def andThen_Inr guard_Inr by blast
  have s: "s = ?s"
    using engine_store.consume_state_Some [OF e f] assms(2) by (auto simp: view_def state_roundtrip)
  from engine_store.complete_Inr [OF e c] obtain v' code t where
    n: "view objs w' = (view objs w1)(AuthCodeKey code \<mapsto> (v', Doc (marshal code_fields (code_of_state s claims code t))))"
    and u: "url = client_redirect s code" by blast
  have rt: "unmarshal code_fields zero_code (Doc (marshal code_fields (code_of_state s claims code t))) = Some (code_of_state s claims code t)"
    by (rule code_roundtrip) (use assms(4) in \<open>simp add: code_of_state_def\<close>)
  have held: "tr_ClientID treq = ar_ClientID req \<and>
       (ar_CodeChallenge req \<noteq> [] \<longrightarrow> S256Challenge (tr_CodeVerifier treq) = ar_CodeChallenge req) \<and>
       (tr_RedirectURI treq = [] \<or> tr_RedirectURI treq = ar_RedirectURI req)"
    if w2: "objs (w_store w2) (AuthCodeKey code) = objs (w_store w') (AuthCodeKey code)" "tr_Code treq = code"
      and x: "exchangeAuthorizationCode E treq w2 = (Inr resp, w3)" for w2 treq resp w3
  proof (rule engine_store.exchange_code_Inr [OF e x])
    fix v2 data ac w4
    assume r: "view objs w2 (AuthCodeKey (tr_Code treq)) = Some (v2, data)" "unmarshal code_fields zero_code data = Some ac"
      and red: "redeem_code E treq ac w4 = (Inr resp, w3)"
    from r w2 n rt have ac: "ac = code_of_state s claims code t" by (simp add: view_def)
    show ?thesis
    proof (rule engine_store.redeem_code_Inr [OF e red])
      fix a
      assume "ac_ClientID ac = tr_ClientID treq" "authenticate_client a ac treq = None"
        and "tr_RedirectURI treq = [] \<or> tr_RedirectURI treq = ac_RedirectURI ac"
      then show ?thesis
        by (auto simp: ac s code_of_state_def state_of_request_def authenticate_client_def verifyPKCE_def
            SecureCompare_def split: if_splits)
    qed
  qed
  show ?thesis by (rule exI [of _ code]) (use u s held in blast)
qed

lemma demo_state_request:
  "demo_state = state_of_request (demo_authorize\<lparr>ar_Scope := [], ar_State := []\<rparr>) demo_app ''google'' ''st1'' demo_now"
  by (simp add: demo_state_def zero_state_def state_of_request_def demo_authorize_def demo_app_def)

lemma pkce_end_to_end_witness:
  "\<exists>url w' code. CompleteUpstreamAuthentication demo_env ''st1'' (Some demo_claims) demo_world = (Inr url, w') \<and>
     (\<forall>treq resp w3. tr_Code treq = code \<longrightarrow> exchangeAuthorizationCode demo_env treq w' = (Inr resp, w3) \<longrightarrow>
        tr_ClientID treq = ''web'')"
proof -
  obtain url w' where x: "CompleteUpstreamAuthentication demo_env ''st1'' (Some demo_claims) demo_world = (Inr url, w')"
    using demo_complete by blast
  have "mem_view (w_store demo_world) (AuthStateKey ''st1'') = Some (''1'', Doc (marshal state_fields
      (state_of_request (demo_authorize\<lparr>ar_Scope := [], ar_State := []\<rparr>) demo_app ''google'' ''st1'' demo_now)))"
    using demo_view(4) unfolding demo_state_request [symmetric] by (simp only: view_def)
  from pkce_end_to_end [OF demo_cas this x] demo_claims_ok obtain code where
    "\<forall>treq resp w3. tr_Code treq = code \<longrightarrow> exchangeAuthorizationCode demo_env treq w' = (Inr resp, w3) \<longrightarrow>
       tr_ClientID treq = ar_ClientID (demo_authorize\<lparr>ar_Scope := [], ar_State := []\<rparr>)" by blast
  moreover have "ar_ClientID (demo_authorize\<lparr>ar_Scope := [], ar_State := []\<rparr>) = ''web''"
    by (simp add: demo_authorize_def)
  ultimately show ?thesis using x by auto
qed

end
