(* ===== verification/Calls.thy ===== *)
theory Calls
  imports World
begin

text \<open>
  Rules for calls that keep a property of the state. A call with effects is composed of \<open>andThen\<close>, \<open>attempt\<close>,
  branches and primitive calls; the collection \<open>safe_rules\<close> has one rule for each, so that a property kept by
  the primitive calls is shown to be kept by a whole operation by following its text.
\<close>

subsection \<open>Calls that keep a property of the state\<close>

text \<open>\<open>sat P m Q\<close>: from a state with \<open>P\<close> the call ends in one with \<open>P\<close>, and a result satisfies \<open>Q\<close>.\<close>

definition sat :: "('w \<Rightarrow> bool) \<Rightarrow> ('w, 'e, 'a) eng \<Rightarrow> ('a \<Rightarrow> bool) \<Rightarrow> bool" where
  "sat P m Q \<longleftrightarrow> (\<forall>w r w'. P w \<longrightarrow> m w = (r, w') \<longrightarrow> P w' \<and> (\<forall>a. r = Inr a \<longrightarrow> Q a))"

abbreviation safe :: "('w \<Rightarrow> bool) \<Rightarrow> ('w, 'e, 'a) eng \<Rightarrow> bool" where
  "safe P m \<equiv> sat P m (\<lambda>_. True)"

named_theorems safe_rules

lemma satI: "(\<And>w r w'. P w \<Longrightarrow> m w = (r, w') \<Longrightarrow> P w' \<and> (\<forall>a. r = Inr a \<longrightarrow> Q a)) \<Longrightarrow> sat P m Q"
  by (auto simp: sat_def)

lemma safeI: "(\<And>w r w'. P w \<Longrightarrow> m w = (r, w') \<Longrightarrow> P w') \<Longrightarrow> safe P m"
  by (auto simp: sat_def)

lemma satD: "sat P m Q \<Longrightarrow> m w = (r, w') \<Longrightarrow> P w \<Longrightarrow> P w'"
  by (auto simp: sat_def)

lemma sat_stable: "sat P m Q \<Longrightarrow> safe P m"
  by (auto simp: sat_def)

lemma sat_weaken: "sat P m Q \<Longrightarrow> (\<And>a. Q a \<Longrightarrow> Q' a) \<Longrightarrow> sat P m Q'"
  unfolding sat_def by blast

lemma sat_step: "sat P m Q \<Longrightarrow> P w \<Longrightarrow> m w = (r, w') \<Longrightarrow> P w' \<and> (\<forall>a. r = Inr a \<longrightarrow> Q a)"
  unfolding sat_def by blast

text \<open>Calls that lead from one property of the state to another, whether they fail or not.\<close>

definition leads :: "('w \<Rightarrow> bool) \<Rightarrow> ('w, 'e, 'a) eng \<Rightarrow> ('w \<Rightarrow> bool) \<Rightarrow> ('a \<Rightarrow> bool) \<Rightarrow> bool" where
  "leads P m P' Q \<longleftrightarrow> (\<forall>w r w'. P w \<longrightarrow> m w = (r, w') \<longrightarrow> P' w' \<and> (\<forall>a. r = Inr a \<longrightarrow> Q a))"

lemma leads_step: "leads P m P' Q \<Longrightarrow> P w \<Longrightarrow> m w = (r, w') \<Longrightarrow> P' w' \<and> (\<forall>a. r = Inr a \<longrightarrow> Q a)"
  unfolding leads_def by blast

lemma leadsI: "(\<And>w r w'. P w \<Longrightarrow> m w = (r, w') \<Longrightarrow> P' w' \<and> (\<forall>a. r = Inr a \<longrightarrow> Q a)) \<Longrightarrow> leads P m P' Q"
  by (auto simp: leads_def)

lemma sat_leads: "sat P m Q \<longleftrightarrow> leads P m P Q"
  by (simp add: sat_def leads_def)

lemma leads_andThen:
  assumes "leads P m P1 Q" and "\<And>a. Q a \<Longrightarrow> leads P1 (f a) P2 R" and "\<And>w. P1 w \<Longrightarrow> P2 w"
  shows "leads P (andThen m f) P2 R"
proof (rule leadsI)
  fix w r w'
  assume w: "P w" and x: "andThen m f w = (r, w')"
  obtain s w1 where s: "m w = (s, w1)" by fastforce
  note step = leads_step [OF assms(1) w s]
  show "P2 w' \<and> (\<forall>a. r = Inr a \<longrightarrow> R a)"
  proof (cases s)
    case (Inl e)
    with x s have "r = Inl e" "w' = w1" by (simp_all add: andThen_def)
    with step assms(3) show ?thesis by simp
  next
    case (Inr b)
    with x s have f: "f b w1 = (r, w')" by (simp add: andThen_def)
    from step Inr show ?thesis by (intro leads_step [OF assms(2) _ f]) simp_all
  qed
qed

lemma leads_wrapErr: "leads P m P' Q \<Longrightarrow> leads P (wrapErr g m) P' Q"
  unfolding leads_def wrapErr_def by (auto split: prod.splits sum.splits)

lemma sat_andThen: "sat P m Q \<Longrightarrow> (\<And>a. Q a \<Longrightarrow> sat P (f a) R) \<Longrightarrow> sat P (andThen m f) R"
  unfolding sat_leads by (rule leads_andThen)

lemma sat_then: "safe P m \<Longrightarrow> (\<And>a. sat P (f a) Q) \<Longrightarrow> sat P (andThen m f) Q"
  by (rule sat_andThen)

lemma sat_attempt:
  assumes "sat P m Q" and "\<And>e. sat P (f (Inl e)) R" and "\<And>a. Q a \<Longrightarrow> sat P (f (Inr a)) R"
  shows "sat P (attempt m f) R"
proof (rule satI)
  fix w r w'
  assume w: "P w" and x: "attempt m f w = (r, w')"
  then obtain s w1 where s: "m w = (s, w1)" "f s w1 = (r, w')" by (auto simp: attempt_iff)
  note step = sat_step [OF assms(1) w s(1)]
  have "sat P (f s) R" using step assms(2,3) by (cases s) auto
  from sat_step [OF this _ s(2)] step show "P w' \<and> (\<forall>a. r = Inr a \<longrightarrow> R a)" by blast
qed

lemma sat_wrapErr: "sat P m Q \<Longrightarrow> sat P (wrapErr g m) Q"
  unfolding sat_leads by (rule leads_wrapErr)

lemma sat_ret: "Q a \<Longrightarrow> sat P (ret a) Q"
  by (auto simp: sat_def)

lemma sat_fail: "sat P (fail e) Q"
  by (auto simp: sat_def)

lemma safe_calls [safe_rules]:
  "safe P (ret a)" "safe P (fail e)" "safe P (ofSum s)"
  by (simp_all add: sat_def)

lemma safe_sequence [safe_rules]:
  "safe P m \<Longrightarrow> (\<And>a. safe P (f a)) \<Longrightarrow> safe P (andThen m f)"
  "safe P m' \<Longrightarrow> (\<And>r. safe P (g r)) \<Longrightarrow> safe P (attempt m' g)"
  "safe P m'' \<Longrightarrow> safe P (wrapErr h m'')"
  by (rule sat_andThen sat_attempt sat_wrapErr; assumption)+

lemma safe_branches [safe_rules]:
  "safe P m \<Longrightarrow> safe P n \<Longrightarrow> safe P (if b then m else n)"
  "(\<And>x. safe P (f x)) \<Longrightarrow> safe P (let x = a in f x)"
  "(x = None \<Longrightarrow> safe P m1) \<Longrightarrow> (\<And>a. x = Some a \<Longrightarrow> safe P (g a)) \<Longrightarrow>
     safe P (case x of None \<Rightarrow> m1 | Some a \<Rightarrow> g a)"
  "(\<And>e. safe P (p e)) \<Longrightarrow> (\<And>a. safe P (q a)) \<Longrightarrow> safe P (case s of Inl e \<Rightarrow> p e | Inr a \<Rightarrow> q a)"
  "safe P m2 \<Longrightarrow> (\<And>a as. safe P (k a as)) \<Longrightarrow> safe P (case l of [] \<Rightarrow> m2 | a # as \<Rightarrow> k a as)"
  "(\<And>a b. safe P (u a b)) \<Longrightarrow> safe P (case c of (a, b) \<Rightarrow> u a b)"
  "safe P n1 \<Longrightarrow> safe P n2 \<Longrightarrow> (\<And>i b t. safe P (n3 i b t)) \<Longrightarrow>
     safe P (case h of BadRequest \<Rightarrow> n1 | NoAnswer \<Rightarrow> n2 | Answer i b t \<Rightarrow> n3 i b t)"
  "safe P j1 \<Longrightarrow> (\<And>b. safe P (j2 b)) \<Longrightarrow> (\<And>i. safe P (j3 i)) \<Longrightarrow> (\<And>f. safe P (j4 f)) \<Longrightarrow>
     (\<And>t. safe P (j5 t)) \<Longrightarrow> (\<And>x. safe P (j6 x)) \<Longrightarrow> (\<And>vs. safe P (j7 vs)) \<Longrightarrow> (\<And>es. safe P (j8 es)) \<Longrightarrow>
     safe P (case_jval j1 j2 j3 j4 j5 j6 j7 j8 j)"
  by (auto split: option.splits sum.splits list.splits prod.splits http_result.splits jval.splits)

end
