(* ===== verification/Keys.thy ===== *)
theory Keys
  imports Login
begin

text \<open>
  Properties of signing keys: which key signs, what verifiers are given, and how two nodes create keys.
\<close>

text \<open>
  C33. The choice of the key that signs: of any list of keys, nil pointers in it included, \<^verbatim>\<open>ActiveSigningKey\<close> takes one that
  is active and has its private half, and its creation time is the latest of all such keys on the list; it takes none only if
  no key on the list is active with a private half. So after a rotation the newest usable key signs, wherever on the list it
  stands, and the public copies that verifiers are given are never chosen.
\<close>

theorem ActiveSigningKey_newest:
  "case ActiveSigningKey ks of
     None \<Rightarrow> {k. Some k \<in> set ks \<and> key_Active k \<and> key_PrivateKeyPEM k \<noteq> []} = {}
   | Some k \<Rightarrow> Some k \<in> set ks \<and> key_Active k \<and> key_PrivateKeyPEM k \<noteq> [] \<and>
       Max (key_CreatedAt ` {k. Some k \<in> set ks \<and> key_Active k \<and> key_PrivateKeyPEM k \<noteq> []}) = key_CreatedAt k"
proof (cases "ActiveSigningKey ks")
  case None
  then have "\<forall>k. Some k \<in> set ks \<longrightarrow> \<not> can_sign k" by (simp only: ActiveSigningKey_None)
  with None show ?thesis by (auto simp: can_sign_def)
next
  case (Some k)
  let ?S = "{k. Some k \<in> set ks \<and> key_Active k \<and> key_PrivateKeyPEM k \<noteq> []}"
  from ActiveSigningKey_Some [OF Some] have k: "k \<in> ?S" and m: "\<forall>k' \<in> ?S. key_CreatedAt k' \<le> key_CreatedAt k"
    by (auto simp: newest_def can_sign_def)
  have "?S \<subseteq> the ` set ks" by force
  then have "finite ?S" by (rule finite_subset) simp
  then have "Max (key_CreatedAt ` ?S) = key_CreatedAt k"
    by (intro Max_eqI) (use k m in auto)
  with Some k show ?thesis by simp
qed

text \<open>
  C36. What a verifier is given holds no private key: every key \<^verbatim>\<open>SigningKeys\<close> returns is the public copy of
  an active key stored for the tenant that may serve the application.
\<close>

theorem SigningKeys_public:
  assumes "cas_store (e_ops E) objs" and "SigningKeys E org app w = (Inr ks, w')" and "k \<in> set ks"
  shows "\<exists>k0. k = Some (k0\<lparr>key_PrivateKeyPEM := []\<rparr>) \<and> stored_key objs w org app k0"
proof -
  from assms(2) obtain keys where l: "loadSigningKeys E org app w = (Inr keys, w')"
    and ks: "ks = map (\<lambda>k. Some (k\<lparr>key_PrivateKeyPEM := []\<rparr>)) keys"
    unfolding SigningKeys_def andThen_Inr by auto
  from engine_store.loadSigningKeys_Inr [OF engine_store.intro [OF assms(1)] l] ks assms(3) show ?thesis by auto
qed

lemma demo_loads: "\<exists>ks w'. SigningKeys demo_env ''acme'' [] demo_world = (Inr ks, w') \<and> Some (demo_key\<lparr>key_PrivateKeyPEM := []\<rparr>) \<in> set ks"
proof -
  obtain ks s where "loadSigningKeys demo_env ''acme'' [] demo_world = (Inr ks, demo_world\<lparr>w_store := s\<rparr>)"
    "\<forall>k. stored_key mem_view demo_world ''acme'' [] k \<longrightarrow> k \<in> set ks"
    using demo_live.loadSigningKeys_ok by blast
  then show ?thesis using demo_stored_key by (force simp: SigningKeys_def andThen_def ret_def)
qed

lemma SigningKeys_public_witness:
  "\<exists>ks w' k k0. SigningKeys demo_env ''acme'' [] demo_world = (Inr ks, w') \<and> k \<in> set ks \<and>
     k = Some (k0\<lparr>key_PrivateKeyPEM := []\<rparr>) \<and> stored_key mem_view demo_world ''acme'' [] k0"
proof -
  obtain ks w' where x: "SigningKeys demo_env ''acme'' [] demo_world = (Inr ks, w')"
    and k: "Some (demo_key\<lparr>key_PrivateKeyPEM := []\<rparr>) \<in> set ks" using demo_loads by blast
  from SigningKeys_public [OF demo_cas x k] x k show ?thesis by blast
qed

text \<open>
  Where a tenant's signing key comes from: the cache, an active stored key with its private half, or a
  key created now, which is then in the store under its own id for the tenant.
\<close>

theorem signing_key_source:
  assumes "cas_store (e_ops E) objs" and "resolveSigningKey E org app w = (Inr key, w')"
    and "GetSigningKeys (w_cache w) org app (e_now E (w_tick w)) = None"
  shows "(stored_key objs w org app key \<and> key_PrivateKeyPEM key \<noteq> []) \<or>
    (\<exists>g now v. GenerateRSAKeyPair g now org app = Inr key \<and>
       objs (w_store w') (KeyPairKey org (key_ID key)) = Some (v, Doc (marshal key_fields key)))"
  using engine_store.resolveSigningKey_Inr [OF engine_store.intro [OF assms(1)] assms(2)] assms(3)
  by (auto simp: can_sign_def view_def)

lemma signing_key_source_witness:
  "\<exists>key w'. resolveSigningKey demo_env ''acme'' ''web'' demo_world = (Inr key, w') \<and>
    ((stored_key mem_view demo_world ''acme'' ''web'' key \<and> key_PrivateKeyPEM key \<noteq> []) \<or>
     (\<exists>g now v. GenerateRSAKeyPair g now ''acme'' ''web'' = Inr key \<and>
       mem_view (w_store w') (KeyPairKey ''acme'' (key_ID key)) = Some (v, Doc (marshal key_fields key))))"
proof -
  have n: "GetSigningKeys (w_cache demo_world) ''acme'' ''web'' = (\<lambda>_. None)"
    by (simp add: GetSigningKeys_def Cache_Get_def NewMemoryCache_def fun_eq_iff)
  from demo_live.resolveSigningKey_ok [OF demo_stored_key demo_can_sign n] obtain key w' where
    x: "resolveSigningKey demo_env ''acme'' ''web'' demo_world = (Inr key, w')" by blast
  from signing_key_source [OF demo_cas x] n x show ?thesis by auto
qed

text \<open>
  C37. The create-only write does not arbitrate between nodes: a key's id is a hash of the key itself, so a
  node that found no key and generated one stores and uses its own even when another node's key has been
  stored meanwhile; both are then active keys of the tenant.
\<close>

theorem key_creation_not_arbitrated:
  assumes "reliable_store (e_ops E) objs"
    and "GenerateRSAKeyPair (e_genkey E (w_gen w)) (e_now E (w_tick w)) org app = Inr newKey"
    and "objs (w_store w) (KeyPairKey org (key_ID newKey)) = None"
  shows "\<exists>w'. create_key E org app w = (Inr newKey, w') \<and> stored_key objs w' org app newKey \<and>
    (\<forall>k. stored_key objs w org app k \<longrightarrow> stored_key objs w' org app k)"
proof -
  have c: "cas_store (e_ops E) objs" using assms(1) by (rule reliable_store.axioms)
  let ?w1 = "w\<lparr>w_gen := Suc (w_gen w), w_tick := Suc (w_tick w)\<rparr>"
  let ?path = "KeyPairKey org (key_ID newKey)"
  have g: "generate_key E org app w = (Inr newKey, ?w1)"
    using assms(2) by (simp add: generate_key_def andThen_def draw_key_def clock_def ofSum_def)
  from reliable_store.put_total [OF assms(1), of MatchAnyVersion "w_store w" ?path "Doc (marshal key_fields newKey)"] assms(3)
  obtain v s where p: "st_Put (e_ops E) ?path (Doc (marshal key_fields newKey)) MatchAnyVersion (w_store w) = (Inr v, s)"
    by (auto simp: cas_ok_def)
  then have s: "objs s = (objs (w_store w))(?path \<mapsto> (v, Doc (marshal key_fields newKey)))"
    using cas_store.put_done [OF c] by blast
  have "\<exists>w'. create_key E org app w = (Inr newKey, w') \<and> w_store w' = s"
    by (simp add: create_key_def andThen_def wrapErr_def g attempt_def on_store_def p cache_keys_def set_cached_def ret_def)
  then obtain w' where w': "create_key E org app w = (Inr newKey, w')" "w_store w' = s" by blast
  have "key_Active newKey" "key_AppID newKey = app"
    using assms(2) by (auto simp: GenerateRSAKeyPair_def Let_def split: genkey.splits)
  moreover have "HasPrefix ?path (KeysPrefix org)" by (simp add: HasPrefix_iff KeysPrefix_def KeyPairKey_def)
  ultimately have "stored_key objs w' org app newKey"
    using s w'(2) key_roundtrip [of newKey] unfolding stored_key_def view_def by (metis fun_upd_same)
  moreover have "stored_key objs w' org app k" if k: "stored_key objs w org app k" for k
  proof -
    from k obtain path v' data where "HasPrefix path (KeysPrefix org)" "objs (w_store w) path = Some (v', data)"
      and rest: "unmarshal key_fields zero_key data = Some k \<and> key_Active k \<and> (key_AppID k = [] \<or> app = [] \<or> key_AppID k = app)"
      unfolding stored_key_def view_def by blast
    moreover from this assms(3) have "path \<noteq> ?path" by auto
    ultimately show ?thesis unfolding stored_key_def view_def w'(2) s by (intro exI [of _ path] exI [of _ v'] exI [of _ data]) simp
  qed
  ultimately show ?thesis using w'(1) by blast
qed

lemma key_creation_not_arbitrated_witness:
  "\<exists>newKey w'. create_key demo_env ''acme'' ''web'' demo_world = (Inr newKey, w') \<and>
     stored_key mem_view w' ''acme'' ''web'' newKey \<and> stored_key mem_view w' ''acme'' ''web'' demo_key"
proof -
  let ?kid = "hex_encode (take 12 (Sum256 (nat_str 0)))"
  let ?key = "\<lparr>key_ID = ''key_'' @ ?kid, key_OrganizationID = ''acme'', key_AppID = ''web'',
     key_Algorithm = ''RS256'', key_PrivateKeyPEM = ''priv'', key_PublicKeyPEM = ''pub'', key_KID = ?kid,
     key_Active = True, key_CreatedAt = demo_now, key_Version = ''1''\<rparr>"
  have g: "GenerateRSAKeyPair (e_genkey demo_env (w_gen demo_world)) (e_now demo_env (w_tick demo_world)) ''acme'' ''web'' = Inr ?key"
    by (simp add: GenerateRSAKeyPair_def demo_env_def Let_def) (simp add: demo_world_def new_world_def)
  have "length ?kid = 24" by (simp add: hex_encode_length Sum256_length)
  then have "''key_'' @ ?kid \<noteq> ''key_1''" by auto
  then have "mem_view (w_store demo_world) (KeyPairKey ''acme'' (key_ID ?key)) = None"
    by (simp add: mem_view_def demo_objs_def key_defs)
  from key_creation_not_arbitrated [OF demo_reliable g this] obtain w' where
    "create_key demo_env ''acme'' ''web'' demo_world = (Inr ?key, w')"
    "stored_key mem_view w' ''acme'' ''web'' ?key"
    "stored_key mem_view demo_world ''acme'' ''web'' demo_key \<longrightarrow> stored_key mem_view w' ''acme'' ''web'' demo_key"
    by blast
  with demo_stored_key show ?thesis by blast
qed

end
