(* ===== verification/Auth.thy ===== *)
theory Auth
  imports Keys
begin

text \<open>
  \<^verbatim>\<open>pkg/auth/jwt.go\<close>: the token validator, which checks tokens against a tenant's keys from the cache or
  from a \<^verbatim>\<open>KeySource\<close>, and the HTTP middleware on top of it. A key source is the interface of the code:
  a function of the organization and the application. The locale \<open>key_source\<close> states what the
  validator relies on, and the engine's \<^verbatim>\<open>SigningKeys\<close> is shown to provide it.
\<close>

subsection \<open>The validator\<close>

datatype autherr = ErrNoKeysAvailable | BySource eerr | ByVerify cerr

type_synonym 's KeySource = "string \<Rightarrow> string \<Rightarrow> ('s world, eerr, SigningKey option list) eng"

record 's TokenValidator =
  tv_source :: "'s KeySource option"
  tv_keyTTL :: duration

definition NewTokenValidator :: "'s TokenValidator" where
  "NewTokenValidator = \<lparr>tv_source = None, tv_keyTTL = Hour\<rparr>"

definition NewTokenValidatorWithSource :: "'s KeySource \<Rightarrow> 's TokenValidator" where
  "NewTokenValidatorWithSource source = \<lparr>tv_source = Some source, tv_keyTTL = Hour\<rparr>"

record Options =
  op_Issuer :: string
  op_Audience :: string
  op_TokenUse :: string

definition from_source ::
  "'s env \<Rightarrow> 's TokenValidator \<Rightarrow> string \<Rightarrow> string \<Rightarrow> ('s world, autherr, SigningKey option list) eng" where
  "from_source E V orgID appID =
     (case tv_source V of
        None \<Rightarrow> fail ErrNoKeysAvailable
      | Some source \<Rightarrow>
          andThen (wrapErr BySource (source orgID appID)) (\<lambda>keys.
          if keys = [] then fail ErrNoKeysAvailable
          else let ttl = (if tv_keyTTL V \<le> 0 then Hour else tv_keyTTL V) in
            andThen (set_cached E (\<lambda>c now. SetSigningKeys c orgID appID keys ttl now)) (\<lambda>_. ret keys)))"

definition keysFor ::
  "'s env \<Rightarrow> 's TokenValidator \<Rightarrow> string \<Rightarrow> string \<Rightarrow> ('s world, autherr, SigningKey option list) eng" where
  "keysFor E V orgID appID =
     andThen (cached E (\<lambda>c now. GetSigningKeys c orgID appID now)) (\<lambda>hit. case hit of
         Some (k # ks) \<Rightarrow> ret (k # ks)
       | _ \<Rightarrow> from_source E V orgID appID)"

definition verify_options :: "Options \<Rightarrow> VerifyOptions" where
  "verify_options opts = \<lparr>vo_ExpectedIssuer = op_Issuer opts, vo_ExpectedAudience = op_Audience opts,
     vo_ExpectedTokenUse = op_TokenUse opts, vo_Leeway = 0\<rparr>"

definition Validate ::
  "'s env \<Rightarrow> 's TokenValidator \<Rightarrow> string \<Rightarrow> string \<Rightarrow> string \<Rightarrow> Options \<Rightarrow> ('s world, autherr, AuthClaims) eng" where
  "Validate E V orgID appID tokenString opts =
     andThen (keysFor E V orgID appID) (\<lambda>keys.
     if keys = [] then fail ErrNoKeysAvailable
     else wrapErr ByVerify (verify_jwt E tokenString keys (verify_options opts)))"

definition ValidateToken ::
  "'s env \<Rightarrow> 's TokenValidator \<Rightarrow> string \<Rightarrow> string \<Rightarrow> string \<Rightarrow> ('s world, autherr, AuthClaims) eng" where
  "ValidateToken E V orgID appID tokenString =
     Validate E V orgID appID tokenString \<lparr>op_Issuer = [], op_Audience = [], op_TokenUse = []\<rparr>"

definition ValidateAccessToken ::
  "'s env \<Rightarrow> 's TokenValidator \<Rightarrow> string \<Rightarrow> string \<Rightarrow> string \<Rightarrow> string \<Rightarrow> string \<Rightarrow> ('s world, autherr, AuthClaims) eng" where
  "ValidateAccessToken E V orgID appID tokenString issuer audience =
     Validate E V orgID appID tokenString
       \<lparr>op_Issuer = issuer, op_Audience = audience, op_TokenUse = TokenUseAccess\<rparr>"

subsection \<open>The middleware\<close>

text \<open>
  What the middleware does with a request: an answer of its own, a status and a body, or the next
  handler with the claims in the request's context.
\<close>

datatype mw_outcome = Refuse nat string | Next AuthClaims

definition missing_header_body :: string where
  "missing_header_body = ''{\"error\":\"unauthorized\",\"message\":\"missing or invalid authorization header\"}''"

definition rejected_body :: string where
  "rejected_body = ''{\"error\":\"invalid_token\",\"message\":\"token rejected\"}''"

definition Middleware ::
  "'s env \<Rightarrow> 's TokenValidator \<Rightarrow> string \<Rightarrow> string \<Rightarrow> string \<Rightarrow> string \<Rightarrow> string \<Rightarrow> ('s world, autherr, mw_outcome) eng" where
  "Middleware E V orgID appID issuer audience authHeader =
     (if authHeader = [] \<or> \<not> HasPrefix authHeader ''Bearer '' then ret (Refuse 401 missing_header_body)
      else attempt (ValidateAccessToken E V orgID appID (TrimPrefix authHeader ''Bearer '') issuer audience)
        (\<lambda>r. case r of
           Inl err \<Rightarrow> ret (Refuse (if err = ErrNoKeysAvailable then 503 else 401) rejected_body)
         | Inr claims \<Rightarrow> ret (Next claims)))"

subsection \<open>What the validator relies on\<close>

text \<open>
  A key source hands out keys that are there, without private halves, and changes neither the cache
  nor the records of the store.
\<close>

locale key_source =
  fixes source :: "'s KeySource" and ok :: "'s world \<Rightarrow> string \<Rightarrow> string \<Rightarrow> SigningKey \<Rightarrow> bool"
  assumes source_public: "source org app w = (Inr ks, w') \<Longrightarrow> k \<in> set ks \<Longrightarrow>
      \<exists>k0. k = Some (k0\<lparr>key_PrivateKeyPEM := []\<rparr>) \<and> ok w org app k0"
    and source_cache: "keeps w_cache (source org app)"
    and ok_tick: "ok (w\<lparr>w_tick := t\<rparr>) = ok w"
begin

lemma from_source_Inr:
  assumes "from_source E (NewTokenValidatorWithSource source) org app w = (Inr ks, w')"
  shows "ks \<noteq> [] \<and> (\<forall>k \<in> set ks. \<exists>k0. k = Some (k0\<lparr>key_PrivateKeyPEM := []\<rparr>) \<and> ok w org app k0)"
  using assms source_public
  by (auto simp: from_source_def NewTokenValidatorWithSource_def eng_Inr if_Inr Let_def split: if_splits)

lemma keysFor_Inr:
  assumes "keysFor E (NewTokenValidatorWithSource source) org app w = (Inr ks, w')"
  shows "ks \<noteq> [] \<and> (GetSigningKeys (w_cache w) org app (e_now E (w_tick w)) = Some ks \<or>
    (\<forall>k \<in> set ks. \<exists>k0. k = Some (k0\<lparr>key_PrivateKeyPEM := []\<rparr>) \<and> ok w org app k0))"
proof -
  let ?hit = "GetSigningKeys (w_cache w) org app (e_now E (w_tick w))"
  let ?w1 = "w\<lparr>w_tick := Suc (w_tick w)\<rparr>"
  from assms have "(case ?hit of Some (k # ks) \<Rightarrow> ret (k # ks)
      | _ \<Rightarrow> from_source E (NewTokenValidatorWithSource source) org app) ?w1 = (Inr ks, w')"
    unfolding keysFor_def eng_Inr prims_eq by auto
  then consider "?hit = Some ks" "ks \<noteq> []" | "from_source E (NewTokenValidatorWithSource source) org app ?w1 = (Inr ks, w')"
    by (cases ?hit) (auto split: list.splits)
  then show ?thesis by cases (auto dest: from_source_Inr simp: ok_tick)
qed

end

text \<open>The engine is a key source: its keys are stored ones.\<close>

lemma SigningKeys_keeps_cache: "keeps w_cache (SigningKeys E org app)"
  by (simp add: SigningKeys_def loadSigningKeys_def keeps_rules)

sublocale engine_store \<subseteq> keys: key_source "SigningKeys E" "stored_key objs"
proof
  fix org app w ks w' k
  assume "SigningKeys E org app w = (Inr ks, w')" and "k \<in> set ks"
  then show "\<exists>k0. k = Some (k0\<lparr>key_PrivateKeyPEM := []\<rparr>) \<and> stored_key objs w org app k0"
    using loadSigningKeys_Inr by (fastforce simp: SigningKeys_def andThen_Inr)
qed (simp_all add: SigningKeys_keeps_cache stored_key_def fun_eq_iff)

context engine_store
begin

lemma source: "key_source (SigningKeys E) (stored_key objs)"
  by (rule keys.key_source_axioms)

end

interpretation demo_keys: key_source "SigningKeys demo_env" "stored_key mem_view"
  by (rule demo.keys.key_source_axioms)

subsection \<open>What a validation that succeeds says\<close>

lemma Validate_Inr:
  assumes "Validate E V org app tok opts w = (Inr c, w')"
  obtains ks w1 now_at where "keysFor E V org app w = (Inr ks, w1)" "\<forall>i. now_at i \<in> range (e_now E)"
    "VerifyJWTWithOptions (e_rsa E) now_at tok ks (verify_options opts) = Inr c"
proof -
  from assms obtain ks w1 where "keysFor E V org app w = (Inr ks, w1)"
    and "verify_jwt E tok ks (verify_options opts) w1 = (Inr c, w')"
    by (auto simp: Validate_def andThen_Inr wrapErr_Inr split: if_splits)
  moreover from this(2) have "VerifyJWTWithOptions (e_rsa E) (\<lambda>i. e_now E (w_tick w1 + i)) tok ks (verify_options opts) = Inr c"
    by (simp add: verify_jwt_def)
  ultimately show ?thesis by (intro that) auto
qed

lemma Middleware_Next:
  assumes "Middleware E V org app issuer aud hdr w = (Inr (Next c), w')"
  obtains tok where "hdr = ''Bearer '' @ tok" "ValidateAccessToken E V org app tok issuer aud w = (Inr c, w')"
proof -
  from assms have h: "HasPrefix hdr ''Bearer ''"
    and v: "ValidateAccessToken E V org app (TrimPrefix hdr ''Bearer '') issuer aud w = (Inr c, w')"
    by (auto simp: Middleware_def attempt_sum split: if_splits)
  from h obtain tok where "hdr = ''Bearer '' @ tok" by (auto simp: HasPrefix_iff)
  with v that show ?thesis by (simp add: TrimPrefix_def HasPrefix_iff)
qed

end
