(* ===== verification/Http.thy ===== *)
theory Http
  imports Auth
begin

text \<open>
  What the handlers use of packages \<^verbatim>\<open>net/http\<close> and \<^verbatim>\<open>net\<close>: header maps with canonical keys, requests
  and their queries and forms, Basic credentials, and what a handler writes as its answer.
\<close>

subsection \<open>Headers\<close>

definition token_char :: "char \<Rightarrow> bool" where
  "token_char c \<longleftrightarrow> (let n = of_char c :: nat in 48 \<le> n \<and> n \<le> 57 \<or> 65 \<le> n \<and> n \<le> 90 \<or> 97 \<le> n \<and> n \<le> 122 \<or>
     c \<in> set [CHR ''!'', CHR ''#'', CHR ''$'', CHR ''%'', CHR 0x26, CHR 0x27, CHR ''*'', CHR ''+'', CHR ''-'',
       CHR ''.'', CHR 0x5E, CHR ''_'', CHR 0x60, CHR ''|'', CHR 0x7E])"

definition upper :: "char \<Rightarrow> char" where
  "upper c = (let n = (of_char c :: nat) in if 97 \<le> n \<and> n \<le> 122 then char_of (n - 32) else c)"

text \<open>\<^verbatim>\<open>textproto.CanonicalMIMEHeaderKey\<close>: capitals at the start and after each hyphen.\<close>

fun canonical_loop :: "bool \<Rightarrow> string \<Rightarrow> string" where
  "canonical_loop up [] = []"
| "canonical_loop up (c # s) = (if up then upper c else lower c) # canonical_loop (c = CHR ''-'') s"

definition CanonicalKey :: "string \<Rightarrow> string" where
  "CanonicalKey k = (if list_all token_char k then canonical_loop True k else k)"

type_synonym Header = "string \<Rightarrow> string list"

definition Header_Get :: "Header \<Rightarrow> string \<Rightarrow> string" where
  "Header_Get h k = (case h (CanonicalKey k) of [] \<Rightarrow> [] | v # _ \<Rightarrow> v)"

definition Header_Set :: "Header \<Rightarrow> string \<Rightarrow> string \<Rightarrow> Header" where
  "Header_Set h k v = h(CanonicalKey k := [v])"

definition Header_Add :: "Header \<Rightarrow> string \<Rightarrow> string \<Rightarrow> Header" where
  "Header_Add h k v = h(CanonicalKey k := h (CanonicalKey k) @ [v])"

definition Header_Del :: "Header \<Rightarrow> string \<Rightarrow> Header" where
  "Header_Del h k = h(CanonicalKey k := [])"

lemma Header_simps [simp]:
  "Header_Get (Header_Set h k v) k' = (if CanonicalKey k' = CanonicalKey k then v else Header_Get h k')"
  "Header_Get (Header_Del h k) k' = (if CanonicalKey k' = CanonicalKey k then [] else Header_Get h k')"
  by (simp_all add: Header_Get_def Header_Set_def Header_Del_def)

subsection \<open>Requests\<close>

text \<open>
  A client certificate: its DER bytes, its validity and its URI names as they print. \<open>r_TLS\<close> is \<open>None\<close>
  on a plain connection, else the peer's certificates. \<open>r_JSON\<close> is the JSON value the body begins
  with, if it does; \<open>r_Body\<close> is the text of the body, read as a form. Bodies of type
  \<^verbatim>\<open>multipart/form-data\<close> are not modelled.
\<close>

record Cert =
  ct_Raw :: string
  ct_NotBefore :: gotime
  ct_NotAfter :: gotime
  ct_URIs :: "string list"

record Request =
  r_Method :: string
  r_Path :: string
  r_RawQuery :: string
  r_URLHost :: string
  r_Host :: string
  r_Header :: Header
  r_Body :: string
  r_JSON :: "jval option"
  r_RemoteAddr :: string
  r_TLS :: "Cert list option"

definition Query :: "Request \<Rightarrow> url_values" where
  "Query r = ParseQuery (r_RawQuery r)"

definition query_get :: "Request \<Rightarrow> string \<Rightarrow> string" where
  "query_get r k = Values_Get (Query r) k"

definition header_get :: "Request \<Rightarrow> string \<Rightarrow> string" where
  "header_get r k = Header_Get (r_Header r) k"

text \<open>The form: the values of the body, where it is one, before those of the query.\<close>

definition media_type :: "string \<Rightarrow> string" where
  "media_type ct = ToLower (TrimSpace (takeWhile (\<lambda>c. c \<noteq> CHR 0x3B) ct))"

definition is_form :: "Request \<Rightarrow> bool" where
  "is_form r \<longleftrightarrow> r_Method r \<in> {''POST'', ''PUT'', ''PATCH''} \<and>
     media_type (header_get r ''Content-Type'') = ''application/x-www-form-urlencoded''"

definition form_values :: "Request \<Rightarrow> url_values" where
  "form_values r = (if is_form r then ParseQuery (r_Body r) else []) @ Query r"

definition FormValue :: "Request \<Rightarrow> string \<Rightarrow> string" where
  "FormValue r k = Values_Get (form_values r) k"

text \<open>
  Standard base64 with padding, as in Basic credentials: the padding must be there and in its place.
\<close>

definition std_char :: "char \<Rightarrow> char option" where
  "std_char c =
     (if c = CHR ''+'' then Some (CHR ''-'') else if c = CHR ''/'' then Some (CHR ''_'')
      else if c = CHR ''-'' \<or> c = CHR ''_'' then None else Some c)"

definition unpad :: "string \<Rightarrow> string" where
  "unpad s = (if HasSuffix s ''=='' then take (length s - 2) s
     else if HasSuffix s ''='' then take (length s - 1) s else s)"

definition DecodeStd :: "string \<Rightarrow> string option" where
  "DecodeStd s0 =
     (let s = List.filter (\<lambda>c. c \<noteq> CHR 0x0A \<and> c \<noteq> CHR 0x0D) s0; t = unpad s in
      if length s mod 4 \<noteq> 0 \<or> list_ex (\<lambda>c. std_char c = None) t then None
      else DecodeString (map (\<lambda>c. the (std_char c)) t))"

definition cut :: "char \<Rightarrow> string \<Rightarrow> (string \<times> string) option" where
  "cut c s = (if c \<in> set s then Some (takeWhile (\<lambda>d. d \<noteq> c) s, tl (dropWhile (\<lambda>d. d \<noteq> c) s)) else None)"

definition BasicAuth :: "Request \<Rightarrow> (string \<times> string) option" where
  "BasicAuth r =
     (let auth = header_get r ''Authorization'' in
      if auth = [] \<or> length auth < 6 \<or> \<not> EqualFold (take 6 auth) ''Basic '' then None
      else (case DecodeStd (drop 6 auth) of None \<Rightarrow> None | Some c \<Rightarrow> cut (CHR '':'') c))"

text \<open>\<^verbatim>\<open>net.SplitHostPort\<close>\<close>

definition last_colon :: "string \<Rightarrow> string \<times> string" where
  "last_colon s = (rev (tl (dropWhile (\<lambda>c. c \<noteq> CHR '':'') (rev s))), rev (takeWhile (\<lambda>c. c \<noteq> CHR '':'') (rev s)))"

definition SplitHostPort :: "string \<Rightarrow> (string \<times> string) option" where
  "SplitHostPort s =
     (if CHR '':'' \<notin> set s then None
      else (case last_colon s of (before, port) \<Rightarrow>
        (case s of
           [] \<Rightarrow> None
         | c # s' \<Rightarrow>
             if c = CHR ''['' then
               (let inside = takeWhile (\<lambda>d. d \<noteq> CHR '']'') s' in
                if before \<noteq> CHR ''['' # inside @ '']'' then None
                else if CHR ''['' \<in> set s' \<or> CHR '']'' \<in> set port then None
                else Some (inside, port))
             else if CHR '':'' \<in> set before then None
             else if CHR ''['' \<in> set s \<or> CHR '']'' \<in> set s then None
             else Some (before, port))))"

subsection \<open>Answers\<close>

text \<open>
  What a handler hands to \<^verbatim>\<open>net/http\<close>: the text of \<^verbatim>\<open>http.Error\<close> or \<^verbatim>\<open>Write\<close>, a value to encode as JSON, the
  target of \<^verbatim>\<open>http.Redirect\<close>, a fixed HTML page, or nothing. \<open>Message\<close> is a format that takes the text of an
  error, \<open>ErrorJSON\<close> the JSON object of an error code and the text of an error; a \<open>goerr\<close> is the error itself:
  one of a package, or a format with its arguments (\<open>FormatErr\<close>) or with the error it wraps (\<open>WrapErr\<close>).
\<close>

datatype goerr =
    ErrUnauthorizedAdmin | UnauthorizedBy cerr
  | StoreErr sterr | CryptoErr cerr | EngineErr eerr | DecodeErr | TextErr string
  | FormatErr string "string list" | WrapErr string goerr

datatype body =
    NoBody | Text string | JSON jval | RedirectTo string
  | Message string goerr | ErrorJSON string goerr

record Response =
  rs_Status :: nat
  rs_Header :: Header
  rs_Body :: body

definition no_header :: Header where
  "no_header = (\<lambda>_. [])"

definition Error :: "Header \<Rightarrow> string \<Rightarrow> nat \<Rightarrow> Response" where
  "Error h msg code =
     \<lparr>rs_Status = code,
      rs_Header = Header_Set (Header_Set h ''Content-Type'' ''text/plain; charset=utf-8'') ''X-Content-Type-Options'' ''nosniff'',
      rs_Body = Text msg\<rparr>"

definition Errorf :: "Header \<Rightarrow> string \<Rightarrow> goerr \<Rightarrow> nat \<Rightarrow> Response" where
  "Errorf h fmt err code = (Error h [] code)\<lparr>rs_Body := Message fmt err\<rparr>"

definition NotFound :: "Header \<Rightarrow> Response" where
  "NotFound h = Error h ''404 page not found'' 404"

definition Redirect :: "Header \<Rightarrow> string \<Rightarrow> nat \<Rightarrow> Response" where
  "Redirect h target code = \<lparr>rs_Status = code, rs_Header = h, rs_Body = RedirectTo target\<rparr>"

definition WriteJSON :: "Header \<Rightarrow> jval \<Rightarrow> Response" where
  "WriteJSON h j = \<lparr>rs_Status = 200, rs_Header = h, rs_Body = JSON j\<rparr>"

definition WriteText :: "Header \<Rightarrow> string \<Rightarrow> Response" where
  "WriteText h t = \<lparr>rs_Status = 200, rs_Header = h, rs_Body = Text t\<rparr>"

definition WriteHeader :: "Header \<Rightarrow> nat \<Rightarrow> Response" where
  "WriteHeader h code = \<lparr>rs_Status = code, rs_Header = h, rs_Body = NoBody\<rparr>"

lemma response_simps [simp]:
  "rs_Status (Error h m c) = c" "rs_Body (Error h m c) = Text m"
  "rs_Status (Errorf h m e c) = c" "rs_Body (Errorf h m e c) = Message m e"
  "rs_Status (Redirect h t c) = c" "rs_Body (Redirect h t c) = RedirectTo t"
  "rs_Status (WriteJSON h j) = 200" "rs_Body (WriteJSON h j) = JSON j"
  "rs_Status (WriteText h t) = 200" "rs_Body (WriteText h t) = Text t"
  "rs_Status (WriteHeader h c) = c" "rs_Body (WriteHeader h c) = NoBody"
  by (simp_all add: Error_def Errorf_def Redirect_def WriteJSON_def WriteText_def WriteHeader_def)

end
