(* ===== verification/Provider.thy ===== *)
theory Provider
  imports Http
begin

text \<open>
  \<^verbatim>\<open>authpole.go\<close>: the provider an application embeds. It pins the tenant a resolver finds onto each
  request before the handlers see it, resolves tenants and issuers from host names, and verifies
  access tokens for one tenant and one audience.
\<close>

subsection \<open>Resolvers\<close>

type_synonym TenantResolver = "Request \<Rightarrow> string"

definition TenantFromQuery :: TenantResolver where
  "TenantFromQuery r =
     (let v = query_get r ''organization'' in if v \<noteq> [] then v else query_get r ''tenant'')"

definition request_host :: "Request \<Rightarrow> string" where
  "request_host r =
     (let host = (if r_Host r = [] then r_URLHost r else r_Host r);
          host' = (case SplitHostPort host of Some (h, _) \<Rightarrow> h | None \<Rightarrow> host) in
      ToLower (TrimSpace host'))"

definition TenantFromHost :: "string \<Rightarrow> string list \<Rightarrow> TenantResolver" where
  "TenantFromHost baseDomain reserved r =
     (let base = ToLower (TrimPrefix (TrimSpace baseDomain) ''.'');
          blocked = (\<lambda>label. list_ex (\<lambda>l. ToLower (TrimSpace l) = label) reserved);
          host = request_host r in
      if base = [] \<or> \<not> HasSuffix host (''.'' @ base) then []
      else let label = TrimSuffix host (''.'' @ base) in
        if label = [] \<or> Contains label ''.'' \<or> blocked label then [] else label)"

text \<open>
  \<^verbatim>\<open>fmt.Sprintf(pattern, arg)\<close> for one string argument: \<open>%s\<close> takes it, once; any other verb is marked
  as an error in the text, and an argument that is not taken is appended as one. Flags and widths are
  not modelled.
\<close>

fun sprintf_s :: "string \<Rightarrow> string \<Rightarrow> bool \<Rightarrow> string" where
  "sprintf_s [] arg used = (if used then [] else ''%!(EXTRA string='' @ arg @ '')'')"
| "sprintf_s [c] arg used = (if c = CHR 0x25 then ''%!(NOVERB)'' else [c]) @ sprintf_s [] arg used"
| "sprintf_s (c # d # s) arg used =
     (if c \<noteq> CHR 0x25 then c # sprintf_s (d # s) arg used
      else if d = CHR 0x25 then CHR 0x25 # sprintf_s s arg used
      else if used then ''%!'' @ [d] @ ''(MISSING)'' @ sprintf_s s arg used
      else if d = CHR ''s'' then arg @ sprintf_s s arg True
      else ''%!'' @ [d] @ ''(string='' @ arg @ '')'' @ sprintf_s s arg True)"

definition IssuerFromHostPattern :: "string \<Rightarrow> string \<Rightarrow> string" where
  "IssuerFromHostPattern pattern orgID = (if orgID = [] then [] else sprintf_s pattern orgID False)"

subsection \<open>The provider\<close>

record 's Config =
  cf_Storage :: "'s store_ops option"
  cf_Cache :: "MemoryCache option"
  cf_IssuerResolver :: "(string \<Rightarrow> string) option"
  cf_TenantResolver :: "TenantResolver option"
  cf_RequireTenant :: bool

text \<open>
  A provider is its engine's environment, its resolver and its validator; the store and the cache it
  runs on are the world. \<open>E0\<close> is the environment of the process: clock, randomness, network.
\<close>

record 's Provider =
  pv_env :: "'s env"
  pv_resolver :: TenantResolver
  pv_RequireTenant :: bool
  pv_validator :: "'s TokenValidator"

definition New :: "'s env \<Rightarrow> 's \<Rightarrow> 's Config \<Rightarrow> ('s Provider \<times> 's world) option" where
  "New E0 s cfg =
     (case cf_Storage cfg of
        None \<Rightarrow> None
      | Some ops \<Rightarrow>
          (let E = E0\<lparr>e_ops := ops, e_resolver := cf_IssuerResolver cfg\<rparr>;
               memCache = (case cf_Cache cfg of None \<Rightarrow> NewMemoryCache | Some c \<Rightarrow> c) in
           Some (\<lparr>pv_env = E,
               pv_resolver = (case cf_TenantResolver cfg of None \<Rightarrow> TenantFromQuery | Some f \<Rightarrow> f),
               pv_RequireTenant = cf_RequireTenant cfg,
               pv_validator = NewTokenValidatorWithSource (SigningKeys E)\<rparr>,
             (new_world s)\<lparr>w_cache := memCache\<rparr>)))"

type_synonym 's handler = "Header \<Rightarrow> Request \<Rightarrow> 's world \<Rightarrow> Response \<times> 's world"

definition Values_Del :: "url_values \<Rightarrow> string \<Rightarrow> url_values" where
  "Values_Del v k = List.filter (\<lambda>(k', _). k' \<noteq> k) v"

definition pin_tenant :: "string \<Rightarrow> Request \<Rightarrow> Request" where
  "pin_tenant tenant r =
     (let query = Values_Del (Values_Del (Query r) ''organization'') ''tenant'';
          query' = (if tenant \<noteq> [] then Values_Set query ''organization'' tenant else query);
          h = Header_Del (Header_Del (r_Header r) ''X-Organization-ID'') ''X-Tenant-ID'';
          h' = (if tenant \<noteq> [] then Header_Set h ''X-Organization-ID'' tenant else h) in
      r\<lparr>r_RawQuery := Values_Encode query', r_Header := h'\<rparr>)"

definition unknown_tenant_body :: string where
  "unknown_tenant_body = ''{\"error\":\"unknown_tenant\",\"message\":\"this hostname does not identify a tenant\"}''"

definition withResolvedTenant :: "'s Provider \<Rightarrow> 's handler \<Rightarrow> 's handler" where
  "withResolvedTenant P nxt h r w =
     (let tenant = pv_resolver P r in
      if tenant = [] \<and> pv_RequireTenant P then
        (\<lparr>rs_Status = 404, rs_Header = Header_Set h ''Content-Type'' ''application/json'',
          rs_Body = Text unknown_tenant_body\<rparr>, w)
      else nxt h (pin_tenant tenant r) w)"

datatype provider_err = Required string | ByValidator autherr

definition VerifyAccessToken ::
  "'s Provider \<Rightarrow> string \<Rightarrow> string \<Rightarrow> string \<Rightarrow> ('s world, provider_err, AuthClaims) eng" where
  "VerifyAccessToken P orgID audience token =
     (if orgID = [] then fail (Required ''authpole: organization is required to verify a token'')
      else if audience = [] then fail (Required ''authpole: audience is required to verify a token'')
      else wrapErr ByValidator (Validate (pv_env P) (pv_validator P) orgID [] token
             \<lparr>op_Issuer = IssuerFor (pv_env P) orgID, op_Audience = audience, op_TokenUse = TokenUseAccess\<rparr>))"

subsection \<open>Tenants\<close>

lemma map_of_key: "map_of v k = map_option snd (List.find (\<lambda>p. fst p = k) v)"
  by (induction v) auto

lemma find_filter: "List.find P v = (case List.filter P v of [] \<Rightarrow> None | x # _ \<Rightarrow> Some x)"
  by (induction v) auto

text \<open>Writing the values in the order of the keys does not change which one is found.\<close>

lemma map_of_sort: "map_of (sort_key fst v) k = map_of v k"
  unfolding map_of_key find_filter sort_key_stable ..

lemma Values_Get_sort [simp]: "Values_Get (sort_key fst v) k = Values_Get v k"
  by (simp add: Values_Get_def map_of_sort)

lemma Values_Get_Del: "Values_Get (Values_Del v k) k' = (if k' = k then [] else Values_Get v k')"
proof -
  have "map_of (Values_Del v k) k' = (if k' = k then None else map_of v k')"
    by (induction v) (auto simp: Values_Del_def)
  then show ?thesis by (simp add: Values_Get_def)
qed

lemma Values_Get_reparsed: "Values_Get (ParseQuery (Values_Encode v)) k = Values_Get v k"
proof (cases "v = []")
  case True
  then show ?thesis by (simp add: Values_Encode_def ParseQuery_def Values_Get_def)
next
  case False
  then show ?thesis by (simp add: ParseQuery_Encode)
qed

lemma query_pinned:
  "query_get (pin_tenant t r) k =
     (if k = ''organization'' then t else if k = ''tenant'' then [] else query_get r k)"
  by (simp add: query_get_def Query_def pin_tenant_def Let_def Values_Get_reparsed Values_Get_Set Values_Get_Del)

lemma header_pinned:
  "header_get (pin_tenant t r) ''X-Organization-ID'' = t"
  "header_get (pin_tenant t r) ''X-Tenant-ID'' = []"
  by (simp_all add: header_get_def pin_tenant_def Let_def CanonicalKey_def token_char_def upper_def lower_def)

text \<open>A label a host name yields, and the host it came from.\<close>

lemma TenantFromHost_Some:
  assumes "TenantFromHost baseDomain reserved r = l" and "l \<noteq> []"
  shows "request_host r = l @ ''.'' @ ToLower (TrimPrefix (TrimSpace baseDomain) ''.'') \<and>
    ToLower (TrimPrefix (TrimSpace baseDomain) ''.'') \<noteq> [] \<and> CHR ''.'' \<notin> set l \<and>
    (\<forall>x \<in> set reserved. ToLower (TrimSpace x) \<noteq> l)"
proof -
  let ?b = "ToLower (TrimPrefix (TrimSpace baseDomain) ''.'')"
  let ?h = "request_host r"
  from assms have suf: "HasSuffix ?h (''.'' @ ?b)" and b: "?b \<noteq> []" and l: "l = TrimSuffix ?h (''.'' @ ?b)"
    and dot: "\<not> Contains l ''.''" and res: "\<not> list_ex (\<lambda>x. ToLower (TrimSpace x) = l) reserved"
    by (auto simp: TenantFromHost_def Let_def split: if_splits)
  from suf l have "?h = l @ ''.'' @ ?b"
    by (metis HasSuffix_def TrimSuffix_def append_take_drop_id)
  moreover have "CHR ''.'' \<notin> set l"
  proof
    assume "CHR ''.'' \<in> set l"
    moreover have "Contains s ''.'' \<longleftrightarrow> CHR ''.'' \<in> set s" for s
      by (induction s) (auto simp: HasPrefix_def)
    ultimately show False using dot by blast
  qed
  ultimately show ?thesis using b res by (auto simp: list_ex_iff)
qed

end
