(* ===== verification/Access.thy ===== *)
theory Access
  imports Provider
begin

text \<open>
  Properties of access-token verification and of tenant resolution: what a token that is accepted
  proves, that issued tokens are accepted where they should be and nowhere else, and that a caller
  cannot choose the tenant it is served.
\<close>

subsection \<open>Signing and verifying\<close>

lemma matchingKey_unique:
  assumes "Some k \<in> set ks" and "key_Active k" and "kid \<noteq> []" and "key_KID k = kid"
    and "\<And>k'. Some k' \<in> set ks \<Longrightarrow> key_Active k' \<Longrightarrow> key_KID k' = kid \<or> key_ID k' = kid \<Longrightarrow> k' = k"
  shows "matchingKey kid ks = Some k"
proof (cases "matchingKey kid ks")
  case None
  have "matchingKey kid ks = None \<Longrightarrow> Some k \<in> set ks \<Longrightarrow> \<not> (key_Active k \<and> kid \<noteq> [] \<and> key_KID k = kid)"
    by (induction kid ks rule: matchingKey.induct) (auto split: if_splits)
  with None assms(1-4) show ?thesis by blast
next
  case (Some k')
  then show ?thesis using matchingKey_Some [OF Some] assms(5) by blast
qed

lemma verify_signed:
  assumes "SignJWT lib c pem kid = Inr tok" and "claims_ok c"
    and "matchingKey kid keys = Some k" and "key_pair lib pem (key_PublicKeyPEM k)"
  shows "VerifyJWTWithOptions lib now_at tok keys opts =
    (case validateClaims (now_at 0) c opts of None \<Rightarrow> Inr c | Some e \<Rightarrow> Inl e)"
proof (rule signed_token [OF assms(1,2)])
  fix p0 p1 p2
  assume s: "Split tok CHR ''.'' = [p0, p1, p2]"
    and h: "has_header p0 \<lparr>hdr_Alg = ''RS256'', hdr_Typ = ''JWT'', hdr_Kid = kid\<rparr>" and c: "carries p1 c"
    and sig: "\<And>k. key_pair lib pem (key_PublicKeyPEM k) \<Longrightarrow> signed_by lib k p0 p1 p2"
  have "VerifyJWTWithOptions lib now_at tok keys opts = verifyAgainstKey lib (now_at 0) p0 p1 p2 k opts"
    by (rule VerifyJWT_by_kid [OF s h]) (simp_all add: assms(3))
  also have "\<dots> = (case validateClaims (now_at 0) c opts of None \<Rightarrow> Inr c | Some e \<Rightarrow> Inl e)"
    by (rule verify_with_signer [OF sig [OF assms(4)] c])
  finally show ?thesis .
qed

text \<open>
  C18. Signing and verification are inverse: a token signed with a key is read back by a verifier that
  has the key's public copy under a key id no other active key uses, with exactly the claims that were
  signed, unless those claims fail the verifier's checks.
\<close>

theorem jwt_roundtrip:
  assumes "SignJWT lib c (key_PrivateKeyPEM k) (key_KID k) = Inr tok" and "claims_ok c"
    and "key_pair lib (key_PrivateKeyPEM k) (key_PublicKeyPEM k)" and "key_Active k" and "key_KID k \<noteq> []"
    and "Some (k\<lparr>key_PrivateKeyPEM := []\<rparr>) \<in> set keys"
    and "\<And>k'. Some k' \<in> set keys \<Longrightarrow> key_Active k' \<Longrightarrow> key_KID k' = key_KID k \<or> key_ID k' = key_KID k \<Longrightarrow>
           k' = k\<lparr>key_PrivateKeyPEM := []\<rparr>"
  shows "VerifyJWTWithOptions lib now_at tok keys opts =
    (case validateClaims (now_at 0) c opts of None \<Rightarrow> Inr c | Some e \<Rightarrow> Inl e)"
proof -
  have "matchingKey (key_KID k) keys = Some (k\<lparr>key_PrivateKeyPEM := []\<rparr>)"
    by (rule matchingKey_unique [OF assms(6) _ assms(5) _ assms(7)]) (simp_all add: assms(4))
  from verify_signed [OF assms(1,2) this] assms(3) show ?thesis by simp
qed

lemma demo_key_simps [simp]:
  "key_PrivateKeyPEM demo_key = ''priv''" "key_PublicKeyPEM demo_key = ''pub''" "key_KID demo_key = ''1''"
  "key_ID demo_key = ''key_1''" "key_Active demo_key"
  by (simp_all add: demo_key_def)

lemma demo_signed: "\<exists>tok. SignJWT demo_rsa c (key_PrivateKeyPEM demo_key) (key_KID demo_key) = Inr tok"
  by (rule demo_sign) simp

lemma jwt_roundtrip_witness:
  "\<exists>tok. SignJWT demo_rsa demo_claims ''priv'' ''1'' = Inr tok \<and>
     VerifyJWTWithOptions demo_rsa (\<lambda>_. demo_now) tok [Some (demo_key\<lparr>key_PrivateKeyPEM := []\<rparr>)] no_options = Inr demo_claims"
proof -
  obtain tok where t: "SignJWT demo_rsa demo_claims (key_PrivateKeyPEM demo_key) (key_KID demo_key) = Inr tok"
    using demo_signed by blast
  have "VerifyJWTWithOptions demo_rsa (\<lambda>_. demo_now) tok [Some (demo_key\<lparr>key_PrivateKeyPEM := []\<rparr>)] no_options =
      (case validateClaims demo_now demo_claims no_options of None \<Rightarrow> Inr demo_claims | Some e \<Rightarrow> Inl e)"
    by (rule jwt_roundtrip [OF t demo_claims_ok]) (simp_all add: demo_key_pair)
  also have "validateClaims demo_now demo_claims no_options = None"
    by (simp add: validateClaims_None no_options_def demo_claims_def zero_claims_def)
  finally show ?thesis using t by auto
qed

text \<open>
  C17. A token just issued is good for its lifetime: for fifteen minutes from its issue, a verifier that
  has the public half of the signing key under its id, and expects the tenant's issuer, one of the
  application's audiences and an access token, accepts the access token and returns its claims.
\<close>

theorem issued_token_accepted:
  assumes "issueTokens E app (Some base) scope nonce fam w = (Inr resp, w')" and "cas_store (e_ops E) objs"
    and "sane_clock E" and "TokenAudiences (Some app) \<noteq> [[]]"
    and "vo_ExpectedIssuer opts = IssuerFor E (app_OrganizationID app)"
    and "vo_ExpectedAudience opts \<in> set (TokenAudiences (Some app))"
    and "vo_ExpectedTokenUse opts = TokenUseAccess" and "vo_Leeway opts = 0"
  shows "\<exists>key issued jti w1. resolveSigningKey E (app_OrganizationID app) (app_ID app) w = (Inr key, w1) \<and>
    issued \<in> range (e_now E) \<and>
    (\<forall>keys k now_at. matchingKey (key_KID key) keys = Some k \<longrightarrow>
       key_pair (e_rsa E) (key_PrivateKeyPEM key) (key_PublicKeyPEM k) \<longrightarrow>
       issued \<le> now_at 0 \<longrightarrow> now_at 0 \<le> issued + accessTokenTTL \<longrightarrow>
       VerifyJWTWithOptions (e_rsa E) now_at (tp_AccessToken resp) keys opts =
         Inr (access_claims app base (IssuerFor E (app_OrganizationID app)) scope issued jti))"
proof (rule engine_store.issueTokens_Inr [OF engine_store.intro [OF assms(2)] assms(1)])
  let ?iss = "IssuerFor E (app_OrganizationID app)"
  fix b key now jti w1
  assume b: "Some base = Some b" and key: "resolveSigningKey E (app_OrganizationID app) (app_ID app) w = (Inr key, w1)"
    and now: "now \<in> range (e_now E)"
    and a: "SignJWT (e_rsa E) (access_claims app b ?iss scope now jti) (key_PrivateKeyPEM key) (key_KID key) = Inr (tp_AccessToken resp)"
  let ?c = "access_claims app base ?iss scope now jti"
  have ok: "claims_ok ?c" by (rule token_claims_ok(1) [OF assms(3) now assms(4)])
  have "validateClaims t ?c opts = None" if "now \<le> t" "t \<le> now + accessTokenTTL" for t
  proof -
    have x: "cl_ExpiresAt ?c = Unix (now + accessTokenTTL)" "cl_NotBefore ?c = Unix now"
      by (simp_all add: access_claims_def)
    have "Unix (t - DefaultLeeway) \<le> Unix (now + accessTokenTTL)" "Unix now \<le> Unix (t + DefaultLeeway)"
      using that by (simp_all add: Unix_def DefaultLeeway_def Second_def zdiv_mono1)
    then show ?thesis using assms(5-8) by (simp add: validateClaims_None x)
  qed
  moreover from a b have "SignJWT (e_rsa E) ?c (key_PrivateKeyPEM key) (key_KID key) = Inr (tp_AccessToken resp)" by simp
  ultimately have "VerifyJWTWithOptions (e_rsa E) now_at (tp_AccessToken resp) keys opts = Inr ?c"
    if "matchingKey (key_KID key) keys = Some k" "key_pair (e_rsa E) (key_PrivateKeyPEM key) (key_PublicKeyPEM k)"
      "now \<le> now_at 0" "now_at 0 \<le> now + accessTokenTTL" for keys k now_at
    using that by (simp add: verify_signed [OF _ ok])
  with key now show ?thesis by blast
qed

lemma demo_only_key: "stored_key mem_view demo_world ''acme'' a k \<Longrightarrow> k = demo_key"
proof -
  assume "stored_key mem_view demo_world ''acme'' a k"
  then obtain path v data where p: "HasPrefix path ''organizations/acme/keys/''" "mem_view (w_store demo_world) path = Some (v, data)"
    and u: "unmarshal key_fields zero_key data = Some k"
    unfolding stored_key_def view_def KeysPrefix_def by auto
  from p have "(path, v, data) \<in> set demo_objs" by (auto simp: mem_view_def dest: map_of_SomeD)
  with p(1) have "data = Doc (marshal key_fields demo_key)"
    by (auto simp: demo_objs_def key_defs HasPrefix_iff)
  with u demo_records(2) show ?thesis by simp
qed

lemma no_keys_cached: "GetSigningKeys NewMemoryCache org app now = None"
  by (simp add: GetSigningKeys_def Cache_Get_def NewMemoryCache_def)

lemma demo_no_keys_cached: "GetSigningKeys (w_cache demo_world) org app = (\<lambda>_. None)"
  by (simp add: GetSigningKeys_def Cache_Get_def NewMemoryCache_def fun_eq_iff)

lemma demo_resolved: "resolveSigningKey demo_env ''acme'' ''web'' demo_world = (Inr key, w') \<Longrightarrow> key = demo_key"
  using demo_live.resolveSigningKey_ok [OF demo_stored_key demo_can_sign demo_no_keys_cached, of "''web''"] demo_only_key
  by auto

lemma issued_token_accepted_witness:
  "\<exists>resp w' c. issueTokens demo_env demo_app (Some demo_claims) [] [] [] demo_world = (Inr resp, w') \<and>
     VerifyJWTWithOptions demo_rsa (\<lambda>_. demo_now) (tp_AccessToken resp) [Some (demo_key\<lparr>key_PrivateKeyPEM := []\<rparr>)]
       \<lparr>vo_ExpectedIssuer = ''https://authpole.io/organizations/acme'', vo_ExpectedAudience = ''web'',
        vo_ExpectedTokenUse = TokenUseAccess, vo_Leeway = 0\<rparr> = Inr c"
proof -
  let ?opts = "\<lparr>vo_ExpectedIssuer = ''https://authpole.io/organizations/acme'', vo_ExpectedAudience = ''web'',
        vo_ExpectedTokenUse = TokenUseAccess, vo_Leeway = 0\<rparr>"
  obtain resp w' where x: "issueTokens demo_env demo_app (Some demo_claims) [] [] [] demo_world = (Inr resp, w')"
    using demo_issue by blast
  have iss: "vo_ExpectedIssuer ?opts = IssuerFor demo_env (app_OrganizationID demo_app)"
    by (simp add: IssuerFor_def DefaultIssuerFor_def DefaultIssuerBaseURL_def TrimRight_def demo_app_def)
  from issued_token_accepted [OF x demo_cas demo_clock _ iss] obtain key issued jti w1 where
    k: "resolveSigningKey demo_env (app_OrganizationID demo_app) (app_ID demo_app) demo_world = (Inr key, w1)"
    and t: "issued \<in> range (e_now demo_env)"
    and v: "\<forall>keys k now_at. matchingKey (key_KID key) keys = Some k \<longrightarrow>
       key_pair demo_rsa (key_PrivateKeyPEM key) (key_PublicKeyPEM k) \<longrightarrow>
       issued \<le> now_at 0 \<longrightarrow> now_at 0 \<le> issued + accessTokenTTL \<longrightarrow>
       VerifyJWTWithOptions demo_rsa now_at (tp_AccessToken resp) keys ?opts =
         Inr (access_claims demo_app demo_claims (IssuerFor demo_env (app_OrganizationID demo_app)) [] issued jti)"
    by (auto simp: demo_ids)
  have "app_OrganizationID demo_app = ''acme''" "app_ID demo_app = ''web''" by (simp_all add: demo_app_def)
  with k have key: "key = demo_key" by (auto dest: demo_resolved)
  have "matchingKey (key_KID key) [Some (demo_key\<lparr>key_PrivateKeyPEM := []\<rparr>)] = Some (demo_key\<lparr>key_PrivateKeyPEM := []\<rparr>)"
    by (simp add: key)
  moreover have "key_pair demo_rsa (key_PrivateKeyPEM key) (key_PublicKeyPEM (demo_key\<lparr>key_PrivateKeyPEM := []\<rparr>))"
    by (simp add: demo_key_pair)
  moreover have "issued = demo_now" "0 \<le> accessTokenTTL" using t by (auto simp: accessTokenTTL_def Minute_def Second_def)
  ultimately have "VerifyJWTWithOptions demo_rsa (\<lambda>_. demo_now) (tp_AccessToken resp) [Some (demo_key\<lparr>key_PrivateKeyPEM := []\<rparr>)] ?opts =
      Inr (access_claims demo_app demo_claims (IssuerFor demo_env (app_OrganizationID demo_app)) [] issued jti)"
    using v by simp
  with x show ?thesis by blast
qed

subsection \<open>What acceptance means\<close>

text \<open>
  C15. A request passes the middleware only with a bearer token that is signed by an active key of the
  tenant (one in the cache, or the public copy of a stored one), and that is an access token of the
  issuer for the audience, not expired by more than the leeway of a minute.
\<close>

theorem middleware_sound:
  assumes "cas_store (e_ops E) objs"
    and "Middleware E (NewTokenValidatorWithSource (SigningKeys E)) org app issuer audience hdr w = (Inr (Next c), w')"
    and "issuer \<noteq> []" and "audience \<noteq> []"
  shows "\<exists>p0 p1 p2 k now. hdr = ''Bearer '' @ p0 @ ''.'' @ p1 @ ''.'' @ p2 \<and> signed_by (e_rsa E) k p0 p1 p2 \<and> key_Active k \<and>
    ((\<exists>ks. GetSigningKeys (w_cache w) org app (e_now E (w_tick w)) = Some ks \<and> Some k \<in> set ks) \<or>
     (\<exists>k0. stored_key objs w org app k0 \<and> k = k0\<lparr>key_PrivateKeyPEM := []\<rparr>)) \<and>
    carries p1 c \<and> cl_Issuer c = issuer \<and> audience \<in> set (cl_Audience c) \<and> cl_TokenUse c = TokenUseAccess \<and>
    now \<in> range (e_now E) \<and> (0 < cl_ExpiresAt c \<longrightarrow> Unix (now - Minute) \<le> cl_ExpiresAt c)"
proof -
  have e: "engine_store E objs" using assms(1) by (rule engine_store.intro)
  let ?V = "NewTokenValidatorWithSource (SigningKeys E)"
  let ?opts = "\<lparr>op_Issuer = issuer, op_Audience = audience, op_TokenUse = TokenUseAccess\<rparr>"
  from assms(2) obtain tok where hdr: "hdr = ''Bearer '' @ tok"
    and v: "Validate E ?V org app tok ?opts w = (Inr c, w')"
    by (rule Middleware_Next) (simp add: ValidateAccessToken_def)
  from v obtain ks w1 now_at where ks: "keysFor E ?V org app w = (Inr ks, w1)" and now: "\<forall>i. now_at i \<in> range (e_now E)"
    and j: "VerifyJWTWithOptions (e_rsa E) now_at tok ks (verify_options ?opts) = Inr c"
    by (rule Validate_Inr)
  from j obtain p0 p1 p2 k j where tok: "tok = p0 @ ''.'' @ p1 @ ''.'' @ p2" and k: "Some k \<in> set ks" "key_Active k"
    and sig: "signed_by (e_rsa E) k p0 p1 p2" "carries p1 c" "validateClaims (now_at j) c (verify_options ?opts) = None"
    by (rule VerifyJWT_Inr)
  have "(\<exists>ks. GetSigningKeys (w_cache w) org app (e_now E (w_tick w)) = Some ks \<and> Some k \<in> set ks) \<or>
     (\<exists>k0. stored_key objs w org app k0 \<and> k = k0\<lparr>key_PrivateKeyPEM := []\<rparr>)"
    using key_source.keysFor_Inr [OF engine_store.source [OF e] ks] k(1) by fastforce
  moreover have "cl_Issuer c = issuer \<and> audience \<in> set (cl_Audience c) \<and> cl_TokenUse c = TokenUseAccess \<and>
      (0 < cl_ExpiresAt c \<longrightarrow> Unix (now_at j - Minute) \<le> cl_ExpiresAt c)"
    using sig(3) assms(3,4)
    by (simp add: validateClaims_None verify_options_def TokenUseAccess_def DefaultLeeway_def Minute_def Let_def)
  ultimately show ?thesis using hdr tok k(2) sig now by (intro exI [of _ p0] exI [of _ p1] exI [of _ p2] exI [of _ k] exI [of _ "now_at j"]) auto
qed

lemma all_same: "xs \<noteq> [] \<Longrightarrow> \<forall>x \<in> set xs. x = a \<Longrightarrow> set xs = {a}"
  by (cases xs) auto

lemma demo_cold: "keysFor demo_env (NewTokenValidatorWithSource (SigningKeys demo_env)) ''acme'' [] demo_world = (Inr ks, w')
    \<Longrightarrow> set ks = {Some (demo_key\<lparr>key_PrivateKeyPEM := []\<rparr>)}"
proof -
  assume x: "keysFor demo_env (NewTokenValidatorWithSource (SigningKeys demo_env)) ''acme'' [] demo_world = (Inr ks, w')"
  from demo.keys.keysFor_Inr [OF x] have ne: "ks \<noteq> []"
    and c: "\<forall>k \<in> set ks. \<exists>k0. k = Some (k0\<lparr>key_PrivateKeyPEM := []\<rparr>) \<and> stored_key mem_view demo_world ''acme'' [] k0"
    by (simp_all add: no_keys_cached)
  have all: "\<forall>k \<in> set ks. k = Some (demo_key\<lparr>key_PrivateKeyPEM := []\<rparr>)"
  proof
    fix k
    assume "k \<in> set ks"
    with c obtain k0 where "k = Some (k0\<lparr>key_PrivateKeyPEM := []\<rparr>)" and s: "stored_key mem_view demo_world ''acme'' [] k0"
      by blast
    with demo_only_key [OF s] show "k = Some (demo_key\<lparr>key_PrivateKeyPEM := []\<rparr>)" by simp
  qed
  from ne all show "set ks = {Some (demo_key\<lparr>key_PrivateKeyPEM := []\<rparr>)}" by (rule all_same)
qed

lemma demo_keysFor: "\<exists>ks w'. keysFor demo_env (NewTokenValidatorWithSource (SigningKeys demo_env)) ''acme'' [] demo_world = (Inr ks, w')"
proof -
  have w: "demo_world\<lparr>w_tick := Suc 0\<rparr> = demo_world\<lparr>w_tick := Suc (w_tick demo_world)\<rparr>" by simp
  obtain ks s where l: "loadSigningKeys demo_env ''acme'' [] (demo_world\<lparr>w_tick := Suc 0\<rparr>) = (Inr ks, demo_world\<lparr>w_tick := Suc 0, w_store := s\<rparr>)"
    and k: "\<forall>k. stored_key mem_view (demo_world\<lparr>w_tick := Suc 0\<rparr>) ''acme'' [] k \<longrightarrow> k \<in> set ks"
    using demo_live.loadSigningKeys_ok by blast
  have "stored_key mem_view (demo_world\<lparr>w_tick := Suc 0\<rparr>) ''acme'' [] demo_key"
    using demo_stored_key [of "[]"] by (simp add: stored_key_def)
  with k have "ks \<noteq> []" by auto
  then show ?thesis
    by (simp add: keysFor_def andThen_def cached_def no_keys_cached from_source_def NewTokenValidatorWithSource_def
        wrapErr_def SigningKeys_def l ret_def set_cached_def Let_def Hour_def Minute_def Second_def)
qed

text \<open>In the demonstration world a signed token is validated.\<close>

lemma demo_validated:
  assumes "SignJWT demo_rsa c ''priv'' ''1'' = Inr tok" and "claims_ok c"
    and "validateClaims demo_now c (verify_options opts) = None"
  shows "\<exists>w'. Validate demo_env (NewTokenValidatorWithSource (SigningKeys demo_env)) ''acme'' [] tok opts demo_world = (Inr c, w')"
proof -
  let ?k = "demo_key\<lparr>key_PrivateKeyPEM := []\<rparr>"
  obtain ks w1 where ks: "keysFor demo_env (NewTokenValidatorWithSource (SigningKeys demo_env)) ''acme'' [] demo_world = (Inr ks, w1)"
    using demo_keysFor by blast
  have s: "set ks = {Some ?k}" by (rule demo_cold [OF ks])
  have m: "matchingKey ''1'' ks = Some ?k"
    by (rule matchingKey_unique) (simp_all add: s)
  have kp: "key_pair demo_rsa ''priv'' (key_PublicKeyPEM ?k)" by (simp add: demo_key_pair)
  have v: "VerifyJWTWithOptions demo_rsa (\<lambda>i. demo_now) tok ks (verify_options opts) = Inr c"
    unfolding verify_signed [OF assms(1,2) m kp] assms(3) by simp
  have "ks \<noteq> []" using s by (cases ks) simp_all
  then show ?thesis by (simp add: Validate_def andThen_def ks wrapErr_def verify_jwt_def v)
qed

definition demo_bearer :: AuthClaims where
  "demo_bearer = demo_claims\<lparr>cl_Issuer := ''iss'', cl_Audience := [''api''], cl_TokenUse := TokenUseAccess\<rparr>"

lemma demo_bearer_ok: "claims_ok demo_bearer"
  by (simp add: demo_bearer_def claims_ok_def int64_def demo_claims_def zero_claims_def)

lemma demo_bearer_valid:
  "validateClaims now demo_bearer (verify_options \<lparr>op_Issuer = ''iss'', op_Audience = ''api'', op_TokenUse = TokenUseAccess\<rparr>) = None"
  by (simp add: demo_bearer_def validateClaims_None verify_options_def demo_claims_def zero_claims_def)

lemma demo_pass:
  "\<exists>tok w'. Middleware demo_env (NewTokenValidatorWithSource (SigningKeys demo_env)) ''acme'' [] ''iss'' ''api''
       (''Bearer '' @ tok) demo_world = (Inr (Next demo_bearer), w')"
proof -
  let ?V = "NewTokenValidatorWithSource (SigningKeys demo_env)"
  have "\<exists>tok. SignJWT demo_rsa demo_bearer ''priv'' ''1'' = Inr tok"
    using demo_signed [of demo_bearer] by (simp only: demo_key_simps)
  then obtain tok where tok: "SignJWT demo_rsa demo_bearer ''priv'' ''1'' = Inr tok" ..
  from demo_validated [OF tok demo_bearer_ok demo_bearer_valid] obtain w' where
    v: "ValidateAccessToken demo_env ?V ''acme'' [] tok ''iss'' ''api'' demo_world = (Inr demo_bearer, w')"
    unfolding ValidateAccessToken_def ..
  have p: "HasPrefix (''Bearer '' @ tok) ''Bearer ''" unfolding HasPrefix_iff by (rule exI) (rule refl)
  then have n: "\<not> (''Bearer '' @ tok = [] \<or> \<not> HasPrefix (''Bearer '' @ tok) ''Bearer '')" by simp
  have "Middleware demo_env ?V ''acme'' [] ''iss'' ''api'' (''Bearer '' @ tok) demo_world = (Inr (Next demo_bearer), w')"
    unfolding Middleware_def if_not_P [OF n] TrimPrefix_append attempt_def v prod.case sum.case by (simp only: ret_eq)
  then show ?thesis by (intro exI)
qed

lemma middleware_sound_witness:
  "\<exists>tok c w' p0 p1 p2 k. Middleware demo_env (NewTokenValidatorWithSource (SigningKeys demo_env)) ''acme'' [] ''iss'' ''api''
       (''Bearer '' @ tok) demo_world = (Inr (Next c), w') \<and> tok = p0 @ ''.'' @ p1 @ ''.'' @ p2 \<and> signed_by demo_rsa k p0 p1 p2 \<and>
     cl_Issuer c = ''iss'' \<and> ''api'' \<in> set (cl_Audience c)"
proof -
  from demo_pass obtain tok w' where
    m: "Middleware demo_env (NewTokenValidatorWithSource (SigningKeys demo_env)) ''acme'' [] ''iss'' ''api'' (''Bearer '' @ tok) demo_world = (Inr (Next demo_bearer), w')"
    by blast
  from middleware_sound [OF demo_cas m] obtain p0 p1 p2 k where "tok = p0 @ ''.'' @ p1 @ ''.'' @ p2"
    "signed_by demo_rsa k p0 p1 p2" "cl_Issuer demo_bearer = ''iss''" "''api'' \<in> set (cl_Audience demo_bearer)" by auto
  with m show ?thesis by blast
qed

lemma DefaultIssuer_inject [simp]: "DefaultIssuerFor g a = DefaultIssuerFor g b \<longleftrightarrow> a = b"
  by (simp add: DefaultIssuerFor_def)

lemma IssuerFor_nonempty: "IssuerFor E org \<noteq> []"
  by (simp add: IssuerFor_def DefaultIssuerFor_def split: option.split)

text \<open>
  C16. A tenant's tokens are confined to it: of the tokens one issuance returns, \<^verbatim>\<open>VerifyAccessToken\<close> accepts
  only the access token, only for an audience of the application, and only for an organization with the
  same issuer, which under the default issuers is the application's own. This holds for any keys the
  verifier may hold.
\<close>

theorem token_confined:
  assumes "issueTokens E app base scope nonce fam w = (Inr resp, w')" and "cas_store (e_ops E) objs"
    and "sane_clock E" and "app_ClientID app \<noteq> []" and "TokenAudiences (Some app) \<noteq> [[]]"
    and "pv_env P = E" and "tok = tp_AccessToken resp \<or> tok = tp_IDToken resp"
    and "VerifyAccessToken P org aud tok w1 = (Inr c, w2)"
  shows "tok \<noteq> tp_IDToken resp \<and> aud \<in> set (TokenAudiences (Some app)) \<and> IssuerFor E org = IssuerFor E (app_OrganizationID app) \<and>
    cl_OrganizationID c = app_OrganizationID app \<and> cl_AppID c = app_ID app \<and>
    (e_resolver E = None \<longrightarrow> org = app_OrganizationID app)"
proof (rule engine_store.issueTokens_Inr [OF engine_store.intro [OF assms(2)] assms(1)])
  let ?iss = "IssuerFor E (app_OrganizationID app)"
  let ?opts = "\<lparr>op_Issuer = IssuerFor E org, op_Audience = aud, op_TokenUse = TokenUseAccess\<rparr>"
  fix b key now jti jti'
  assume now: "now \<in> range (e_now E)"
    and a: "SignJWT (e_rsa E) (access_claims app b ?iss scope now jti) (key_PrivateKeyPEM key) (key_KID key) = Inr (tp_AccessToken resp)"
    and i: "SignJWT (e_rsa E) (id_claims app b ?iss nonce now jti') (key_PrivateKeyPEM key) (key_KID key) = Inr (tp_IDToken resp)"
  from assms(8) have aud: "aud \<noteq> []" and "Validate (pv_env P) (pv_validator P) org [] tok ?opts w1 = (Inr c, w2)"
    by (auto simp: VerifyAccessToken_def wrapErr_Inr assms(6) split: if_splits)
  from this(2) obtain ks now_at where v: "VerifyJWTWithOptions (e_rsa E) now_at tok ks (verify_options ?opts) = Inr c"
    unfolding assms(6) by (rule Validate_Inr)
  have not_id: "tok \<noteq> tp_IDToken resp"
  proof
    assume "tok = tp_IDToken resp"
    from verified_claims [OF i token_claims_ok(2) [OF assms(3) now assms(4)] v [unfolded this]] show False
      by (auto simp: validateClaims_None verify_options_def TokenUseAccess_def TokenUseID_def)
  qed
  with assms(7) have "tok = tp_AccessToken resp" by blast
  from verified_claims [OF a token_claims_ok(1) [OF assms(3) now assms(5)] v [unfolded this]]
  have c: "c = access_claims app b ?iss scope now jti" and "\<exists>t. validateClaims t c (verify_options ?opts) = None" by blast+
  then have "?iss = IssuerFor E org" "aud \<in> set (TokenAudiences (Some app))"
    using aud IssuerFor_nonempty [of E org] by (auto simp: validateClaims_None verify_options_def)
  moreover have "cl_OrganizationID c = app_OrganizationID app" "cl_AppID c = app_ID app"
    by (simp_all add: c access_claims_def)
  ultimately show ?thesis using not_id by (auto simp: IssuerFor_def)
qed

definition demo_provider :: "memdb Provider" where
  "demo_provider = \<lparr>pv_env = demo_env, pv_resolver = TenantFromHost ''as.example'' [''www''], pv_RequireTenant = True,
     pv_validator = NewTokenValidatorWithSource (SigningKeys demo_env)\<rparr>"

lemma demo_issuer: "IssuerFor demo_env ''acme'' = ''https://authpole.io/organizations/acme''"
  by (simp add: IssuerFor_def DefaultIssuerFor_def DefaultIssuerBaseURL_def TrimRight_def)

lemma demo_app_ids: "app_OrganizationID demo_app = ''acme''" "app_ID demo_app = ''web''"
  by (simp_all add: demo_app_def)

text \<open>The access token of the demonstration issuance passes \<^verbatim>\<open>VerifyAccessToken\<close>.\<close>

lemma demo_verified:
  "\<exists>resp w' c w2. issueTokens demo_env demo_app (Some demo_claims) [] [] [] demo_world = (Inr resp, w') \<and>
     VerifyAccessToken demo_provider ''acme'' ''web'' (tp_AccessToken resp) demo_world = (Inr c, w2)"
proof -
  obtain resp w' where x: "issueTokens demo_env demo_app (Some demo_claims) [] [] [] demo_world = (Inr resp, w')"
    using demo_issue by blast
  show ?thesis
  proof (rule demo.issueTokens_Inr [OF x])
    let ?o = "\<lparr>op_Issuer = IssuerFor demo_env ''acme'', op_Audience = ''web'', op_TokenUse = TokenUseAccess\<rparr>"
    fix b key now jti w1
    assume k: "resolveSigningKey demo_env (app_OrganizationID demo_app) (app_ID demo_app) demo_world = (Inr key, w1)"
      and now: "now \<in> range (e_now demo_env)"
      and a: "SignJWT (e_rsa demo_env) (access_claims demo_app b (IssuerFor demo_env (app_OrganizationID demo_app)) [] now jti)
        (key_PrivateKeyPEM key) (key_KID key) = Inr (tp_AccessToken resp)"
    let ?c = "access_claims demo_app b (IssuerFor demo_env (app_OrganizationID demo_app)) [] now jti"
    from k have "key = demo_key" unfolding demo_app_ids by (rule demo_resolved)
    with a have a': "SignJWT demo_rsa ?c ''priv'' ''1'' = Inr (tp_AccessToken resp)" by simp
    have ok: "claims_ok ?c" by (rule token_claims_ok(1) [OF demo_clock now]) (simp add: demo_ids)
    from now have now': "now = demo_now" by simp
    have "validateClaims demo_now ?c (verify_options ?o) = None"
      by (simp add: validateClaims_None verify_options_def demo_app_ids demo_ids now' access_claims_def demo_now_def
          accessTokenTTL_def DefaultLeeway_def Minute_def Second_def Unix_def Let_def)
    from demo_validated [OF a' ok this] obtain w2 where
      v: "Validate demo_env (NewTokenValidatorWithSource (SigningKeys demo_env)) ''acme'' [] (tp_AccessToken resp) ?o demo_world = (Inr ?c, w2)" ..
    have "VerifyAccessToken demo_provider ''acme'' ''web'' (tp_AccessToken resp) demo_world = (Inr ?c, w2)"
      by (simp add: VerifyAccessToken_def wrapErr_def demo_provider_def v)
    with x show ?thesis by blast
  qed
qed

lemma token_confined_witness:
  "\<exists>resp w' c w2. issueTokens demo_env demo_app (Some demo_claims) [] [] [] demo_world = (Inr resp, w') \<and>
     VerifyAccessToken demo_provider ''acme'' ''web'' (tp_AccessToken resp) demo_world = (Inr c, w2) \<and>
     tp_AccessToken resp \<noteq> tp_IDToken resp \<and> cl_OrganizationID c = ''acme''"
proof -
  obtain resp w' c w2 where x: "issueTokens demo_env demo_app (Some demo_claims) [] [] [] demo_world = (Inr resp, w')"
    and v: "VerifyAccessToken demo_provider ''acme'' ''web'' (tp_AccessToken resp) demo_world = (Inr c, w2)"
    using demo_verified by blast
  from token_confined [OF x demo_cas demo_clock _ _ _ _ v] x v show ?thesis
    by (auto simp: demo_ids demo_app_ids demo_provider_def)
qed

text \<open>
  How the middleware refuses: a request without a bearer header is answered 401 before any key is
  looked up; every other refusal carries the same body, whatever the reason, with 503 when the tenant's
  keys could not be obtained and 401 otherwise. The middleware itself never fails.
\<close>

theorem middleware_refusals:
  "case Middleware E V org app issuer audience hdr w of
     (Inl _, _) \<Rightarrow> False
   | (Inr (Refuse status b), w') \<Rightarrow>
       (if HasPrefix hdr ''Bearer ''
        then (\<exists>err. ValidateAccessToken E V org app (TrimPrefix hdr ''Bearer '') issuer audience w = (Inl err, w') \<and>
               status = (if err = ErrNoKeysAvailable then 503 else 401) \<and> b = rejected_body)
        else status = 401 \<and> b = missing_header_body \<and> w' = w)
   | (Inr (Next c), w') \<Rightarrow>
       HasPrefix hdr ''Bearer '' \<and>
       ValidateAccessToken E V org app (TrimPrefix hdr ''Bearer '') issuer audience w = (Inr c, w')"
proof (cases "HasPrefix hdr ''Bearer ''")
  case False
  then show ?thesis by (simp add: Middleware_def ret_def)
next
  case True
  then have n: "hdr \<noteq> []" by (auto simp: HasPrefix_def)
  obtain r w1 where r: "ValidateAccessToken E V org app (TrimPrefix hdr ''Bearer '') issuer audience w = (r, w1)" by force
  show ?thesis
    by (cases r) (simp_all add: Middleware_def True n attempt_def r ret_def)
qed

subsection \<open>Tenants\<close>

text \<open>
  A caller cannot choose its tenant through the query or a header: the handlers behind
  \<^verbatim>\<open>withResolvedTenant\<close> see the resolver's tenant as the only one, and every other query parameter, the path,
  the method and the body as they were sent; and where a tenant is required, a request without one never
  reaches them.
\<close>

theorem tenant_pinned:
  "(withResolvedTenant P nxt h r w = (\<lparr>rs_Status = 404, rs_Header = Header_Set h ''Content-Type'' ''application/json'',
        rs_Body = Text unknown_tenant_body\<rparr>, w) \<and> pv_resolver P r = [] \<and> pv_RequireTenant P) \<or>
   (\<exists>r'. withResolvedTenant P nxt h r w = nxt h r' w \<and>
      query_get r' = (query_get r)(''organization'' := pv_resolver P r, ''tenant'' := []) \<and>
      header_get r' ''X-Organization-ID'' = pv_resolver P r \<and> header_get r' ''X-Tenant-ID'' = [] \<and>
      r_Path r' = r_Path r \<and> r_Method r' = r_Method r \<and> r_Body r' = r_Body r \<and> r_JSON r' = r_JSON r)"
proof (cases "pv_resolver P r = [] \<and> pv_RequireTenant P")
  case True
  then show ?thesis by (simp add: withResolvedTenant_def Let_def)
next
  case False
  let ?r = "pin_tenant (pv_resolver P r) r"
  have "withResolvedTenant P nxt h r w = nxt h ?r w"
    by (simp only: withResolvedTenant_def Let_def if_not_P [OF False])
  moreover have "query_get ?r = (query_get r)(''organization'' := pv_resolver P r, ''tenant'' := [])"
    by (auto simp: query_pinned fun_eq_iff)
  moreover have "r_Path ?r = r_Path r" "r_Method ?r = r_Method r" "r_Body ?r = r_Body r" "r_JSON ?r = r_JSON r"
    by (simp_all add: pin_tenant_def Let_def)
  ultimately show ?thesis by (intro disjI2 exI [of _ ?r]) (simp add: header_pinned)
qed

text \<open>
  Host names identify tenants: two requests that \<^verbatim>\<open>TenantFromHost\<close> puts into the same tenant were sent to
  the same host, which is the tenant's single label in front of the base domain, and no reserved label
  is a tenant.
\<close>

theorem tenant_host_unique:
  assumes "TenantFromHost base reserved r = l" and "TenantFromHost base reserved r' = l" and "l \<noteq> []"
  shows "request_host r = request_host r' \<and> l = takeWhile (\<lambda>c. c \<noteq> CHR ''.'') (request_host r) \<and>
    (\<forall>x \<in> set reserved. ToLower (TrimSpace x) \<noteq> l)"
proof -
  from TenantFromHost_Some [OF assms(1,3)] TenantFromHost_Some [OF assms(2,3)]
  have h: "request_host r = l @ ''.'' @ ToLower (TrimPrefix (TrimSpace base) ''.'')" "request_host r = request_host r'"
    and d: "CHR ''.'' \<notin> set l" and res: "\<forall>x \<in> set reserved. ToLower (TrimSpace x) \<noteq> l" by simp_all
  from d have "takeWhile (\<lambda>c. c \<noteq> CHR ''.'') (request_host r) = l"
    unfolding h(1) by (subst takeWhile_append2) auto
  with h(2) res show ?thesis by simp
qed

definition demo_http :: Request where
  "demo_http = \<lparr>r_Method = ''GET'', r_Path = ''/'', r_RawQuery = [], r_URLHost = [], r_Host = ''acme.as.example:443'',
     r_Header = no_header, r_Body = [], r_JSON = None, r_RemoteAddr = ''10.0.0.1:5000'', r_TLS = None\<rparr>"

lemma tenant_host_unique_witness:
  "TenantFromHost ''.as.example'' [''www''] demo_http = ''acme'' \<and>
     ''acme'' = takeWhile (\<lambda>c. c \<noteq> CHR ''.'') (request_host demo_http)"
proof -
  have x: "TenantFromHost ''.as.example'' [''www''] demo_http = ''acme''" by code_simp
  from tenant_host_unique [OF x x] x show ?thesis by simp
qed

end
