(* ===== verification/NetIP.thy ===== *)
theory NetIP
  imports NetURL "HOL-Library.Word"
begin

text \<open>
  What the program uses of package \<^verbatim>\<open>net\<close> for IP addresses: \<^verbatim>\<open>ParseIP\<close> (the textual forms of IPv4 and IPv6,
  without zones), \<^verbatim>\<open>ParseCIDR\<close>, equality and \<^verbatim>\<open>IPNet.Contains\<close>. An address is its sixteen bytes; one that was
  written as IPv4 is in its mapped form, as \<^verbatim>\<open>ParseIP\<close> returns it.
\<close>

unbundle bit_operations_syntax

type_synonym IP = "8 word list"

subsection \<open>Text\<close>

definition dec_digit :: "char \<Rightarrow> bool" where
  "dec_digit c \<longleftrightarrow> 48 \<le> (of_char c :: nat) \<and> (of_char c :: nat) \<le> 57"

definition dec_value :: "string \<Rightarrow> nat" where
  "dec_value s = foldl (\<lambda>n c. n * 10 + (of_char c - 48)) 0 s"

text \<open>One field of dotted decimal: no leading zero, at most 255.\<close>

definition v4_field :: "string \<Rightarrow> 8 word option" where
  "v4_field s =
     (if s \<noteq> [] \<and> list_all dec_digit s \<and> (hd s \<noteq> CHR ''0'' \<or> length s = 1) \<and> dec_value s \<le> 255
      then Some (of_nat (dec_value s)) else None)"

definition parse_v4 :: "string \<Rightarrow> 8 word list option" where
  "parse_v4 s =
     (case map v4_field (Split s (CHR ''.'')) of
        [Some a, Some b, Some c, Some d] \<Rightarrow> Some [a, b, c, d]
      | _ \<Rightarrow> None)"

definition hex_value :: "string \<Rightarrow> nat" where
  "hex_value s = foldl (\<lambda>n c. n * 16 + the (unhex c)) 0 s"

text \<open>
  The loop of the IPv6 reader: at most eight groups, \<open>ip\<close> holds the bytes read and \<open>ell\<close> the position
  of the ellipsis. It returns these and the text that is left.
\<close>

fun v6_loop :: "nat \<Rightarrow> string \<Rightarrow> 8 word list \<Rightarrow> nat option \<Rightarrow> (8 word list \<times> nat option \<times> string) option" where
  "v6_loop 0 s ip ell = Some (ip, ell, s)"
| "v6_loop (Suc f) s ip ell =
     (let h = takeWhile (\<lambda>c. unhex c \<noteq> None) s; t = dropWhile (\<lambda>c. unhex c \<noteq> None) s in
      if h = [] \<or> length h > 4 then None
      else if t \<noteq> [] \<and> hd t = CHR ''.'' then
        (if ell = None \<and> length ip \<noteq> 12 \<or> length ip + 4 > 16 then None
         else map_option (\<lambda>bs. (ip @ bs, ell, [])) (parse_v4 s))
      else
        (let n = hex_value h; ip' = ip @ [of_nat (n div 256), of_nat (n mod 256)] in
         case t of
           [] \<Rightarrow> Some (ip', ell, [])
         | c # r \<Rightarrow>
             if c \<noteq> CHR '':'' \<or> r = [] then None
             else if hd r = CHR '':'' then
               (if ell \<noteq> None then None
                else if tl r = [] then Some (ip', Some (length ip'), [])
                else v6_loop f (tl r) ip' (Some (length ip')))
             else v6_loop f r ip' ell))"

definition parse_v6 :: "string \<Rightarrow> 8 word list option" where
  "parse_v6 s =
     (if CHR 0x25 \<in> set s then None
      else if s = ''::'' then Some (replicate 16 0)
      else (case (if HasPrefix s ''::'' then v6_loop 8 (drop 2 s) [] (Some 0) else v6_loop 8 s [] None) of
          None \<Rightarrow> None
        | Some (ip, ell, rest) \<Rightarrow>
            if rest \<noteq> [] then None
            else (case ell of
                None \<Rightarrow> if length ip = 16 then Some ip else None
              | Some p \<Rightarrow> if length ip < 16 then Some (take p ip @ replicate (16 - length ip) 0 @ drop p ip) else None)))"

text \<open>\<^verbatim>\<open>netip.ParseAddr\<close> without zones: the first of the three separators decides; true for IPv4.\<close>

definition ParseAddr :: "string \<Rightarrow> (bool \<times> 8 word list) option" where
  "ParseAddr s =
     (case dropWhile (\<lambda>c. c \<noteq> CHR ''.'' \<and> c \<noteq> CHR '':'' \<and> c \<noteq> CHR 0x25) s of
        [] \<Rightarrow> None
      | c # _ \<Rightarrow>
          if c = CHR ''.'' then map_option (Pair True) (parse_v4 s)
          else if c = CHR '':'' then map_option (Pair False) (parse_v6 s)
          else None)"

definition v4_prefix :: "8 word list" where
  "v4_prefix = replicate 10 0 @ [255, 255]"

definition ParseIP :: "string \<Rightarrow> IP option" where
  "ParseIP s = map_option (\<lambda>(v4, bs). if v4 then v4_prefix @ bs else bs) (ParseAddr s)"

subsection \<open>Networks\<close>

text \<open>A network: its address, four bytes or sixteen, and its mask, of either length.\<close>

type_synonym IPNet = "8 word list \<times> 8 word list"

fun CIDRMask :: "nat \<Rightarrow> nat \<Rightarrow> 8 word list" where
  "CIDRMask 0 n = []"
| "CIDRMask (Suc l) n =
     (if n \<ge> 8 then 255 # CIDRMask l (n - 8) else NOT (drop_bit n 255) # CIDRMask l 0)"

definition To4 :: "IP \<Rightarrow> 8 word list option" where
  "To4 ip = (if length ip = 4 then Some ip
     else if length ip = 16 \<and> take 12 ip = v4_prefix then Some (drop 12 ip) else None)"

text \<open>\<^verbatim>\<open>IP.Mask\<close> for a mask of the address's own family.\<close>

definition and_bytes :: "8 word list \<Rightarrow> 8 word list \<Rightarrow> 8 word list" where
  "and_bytes a b = map2 (\<lambda>x y. x AND y) a b"

definition ParseCIDR :: "string \<Rightarrow> IPNet option" where
  "ParseCIDR s =
     (if CHR ''/'' \<notin> set s then None
      else (let addr = takeWhile (\<lambda>c. c \<noteq> CHR ''/'') s; plen = tl (dropWhile (\<lambda>c. c \<noteq> CHR ''/'') s) in
        case ParseAddr addr of
          None \<Rightarrow> None
        | Some (v4, bs) \<Rightarrow>
            if plen = [] \<or> \<not> list_all dec_digit plen \<or> dec_value plen > (if v4 then 32 else 128) then None
            else (let m = CIDRMask (if v4 then 4 else 16) (dec_value plen) in Some (and_bytes bs m, m))))"

definition network_number :: "IPNet \<Rightarrow> (8 word list \<times> 8 word list) option" where
  "network_number net =
     (case net of (nip, m) \<Rightarrow>
        (case To4 nip of
           Some ip4 \<Rightarrow> if length m = 4 then Some (ip4, m) else if length m = 16 then Some (ip4, drop 12 m) else None
         | None \<Rightarrow> if length nip = 16 \<and> length m = 16 then Some (nip, m) else None))"

definition Contains_IP :: "IPNet \<Rightarrow> IP \<Rightarrow> bool" where
  "Contains_IP net ip0 =
     (let ip = (case To4 ip0 of Some x \<Rightarrow> x | None \<Rightarrow> ip0) in
      case network_number net of
        None \<Rightarrow> ip = []
      | Some (nn, m) \<Rightarrow> length ip = length nn \<and> and_bytes nn m = and_bytes ip m)"

subsection \<open>A network is a prefix of bits\<close>

definition byte_bits :: "8 word \<Rightarrow> bool list" where
  "byte_bits w = map (\<lambda>i. bit w (7 - i)) [0..<8]"

definition ip_bits :: "8 word list \<Rightarrow> bool list" where
  "ip_bits bs = concat (map byte_bits bs)"

lemma byte_bits_length [simp]: "length (byte_bits w) = 8"
  by (simp add: byte_bits_def)

lemma byte_255: "(255 :: 8 word) = mask 8"
  by (simp add: mask_eq_exp_minus_1)

lemma mask_byte: "n < 8 \<Longrightarrow> i < 8 \<Longrightarrow> bit (NOT (drop_bit n 255 :: 8 word)) (7 - i) \<longleftrightarrow> i < n"
proof -
  assume n: "n < 8" and i: "i < 8"
  have "bit (NOT (drop_bit n 255 :: 8 word)) (7 - i) \<longleftrightarrow> 7 - i < 8 \<and> \<not> n + (7 - i) < 8"
    unfolding byte_255 bit_not_iff bit_drop_bit_eq comp_def bit_mask_iff by (simp add: possible_bit_def)
  with n i show ?thesis by linarith
qed

lemma bits_reversed: "(\<forall>j < 8. P j) \<longleftrightarrow> (\<forall>i < 8. P (7 - i))" for P :: "nat \<Rightarrow> bool"
proof
  assume p: "\<forall>i < 8. P (7 - i)"
  show "\<forall>j < 8. P j"
  proof (intro allI impI)
    fix j :: nat
    assume "j < 8"
    then have "7 - j < 8" "7 - (7 - j) = j" by auto
    with p show "P j" by metis
  qed
qed auto

lemma and_mask_byte:
  "n < 8 \<Longrightarrow> a AND NOT (drop_bit n 255) = b AND NOT (drop_bit n (255 :: 8 word)) \<longleftrightarrow>
     take n (byte_bits a) = take n (byte_bits b)"
proof -
  assume n: "n < 8"
  have "a AND NOT (drop_bit n 255) = b AND NOT (drop_bit n (255 :: 8 word)) \<longleftrightarrow>
      (\<forall>j < 8. bit a j \<and> bit (NOT (drop_bit n 255 :: 8 word)) j \<longleftrightarrow> bit b j \<and> bit (NOT (drop_bit n 255 :: 8 word)) j)"
    by (auto simp: bit_eq_iff bit_and_iff)
  also have "\<dots> \<longleftrightarrow> (\<forall>i < 8. bit a (7 - i) \<and> i < n \<longleftrightarrow> bit b (7 - i) \<and> i < n)"
    by (subst bits_reversed) (auto simp: mask_byte [OF n])
  also have "\<dots> \<longleftrightarrow> take n (byte_bits a) = take n (byte_bits b)"
  proof -
    have "(\<forall>i < 8. Q i \<and> i < n \<longleftrightarrow> R i \<and> i < n) \<longleftrightarrow> (\<forall>i < n. Q i \<longleftrightarrow> R i)" for Q R :: "nat \<Rightarrow> bool"
      using n by (meson less_trans)
    moreover have "take n (byte_bits w) = map (\<lambda>i. bit w (7 - i)) [0..<n]" for w
      using n by (simp add: byte_bits_def take_map del: upt_Suc)
    ultimately show ?thesis by auto
  qed
  finally show ?thesis .
qed

lemma byte_bits_inject: "byte_bits a = byte_bits b \<longleftrightarrow> a = b"
proof -
  have "\<forall>j < 8. bit a j = bit b j" if "byte_bits a = byte_bits b"
  proof (intro allI impI)
    fix j :: nat
    assume "j < 8"
    then have "7 - j < 8" "7 - (7 - j) = j" by auto
    then have "byte_bits w ! (7 - j) = bit w j" for w by (simp add: byte_bits_def del: upt_Suc)
    with that show "bit a j = bit b j" by metis
  qed
  moreover have "a = b" if "\<forall>j < 8. bit a j = bit b j" using that by (auto simp: bit_eq_iff)
  ultimately show ?thesis by blast
qed

lemma CIDRMask_length [simp]: "length (CIDRMask l n) = l"
  by (induction l n rule: CIDRMask.induct) auto

lemma and_bytes_mask:
  "length a = l \<Longrightarrow> length b = l \<Longrightarrow>
     and_bytes a (CIDRMask l n) = and_bytes b (CIDRMask l n) \<longleftrightarrow> take n (ip_bits a) = take n (ip_bits b)"
proof (induction l n arbitrary: a b rule: CIDRMask.induct)
  case (1 n)
  then show ?case by (simp add: and_bytes_def ip_bits_def)
next
  case (2 l n)
  then obtain x a' y b' where a: "a = x # a'" and b: "b = y # b'" and len: "length a' = l" "length b' = l"
    by (metis length_Suc_conv)
  have full: "z AND (255 :: 8 word) = z" for z
  proof -
    have "(255 :: 8 word) = - 1" by simp
    then show ?thesis by (metis and.right_neutral)
  qed
  show ?case
  proof (cases "n \<ge> 8")
    case True
    with 2(1) [OF True len] show ?thesis
      by (simp add: a b and_bytes_def ip_bits_def full byte_bits_inject)
  next
    case False
    then have "and_bytes a' (CIDRMask l 0) = and_bytes b' (CIDRMask l 0)"
      using 2(2) [OF _ len] by simp
    with False show ?thesis
      by (simp add: a b and_bytes_def ip_bits_def and_mask_byte)
  qed
qed

lemma and_bytes_idem: "length a = length m \<Longrightarrow> and_bytes (and_bytes a m) m = and_bytes a m"
  by (induction a m rule: list_induct2) (simp_all add: and_bytes_def)

lemma and_bytes_length [simp]: "length (and_bytes a b) = min (length a) (length b)"
  by (simp add: and_bytes_def)

lemma map_eq_four: "map f xs = [a, b, c, d] \<longleftrightarrow> (\<exists>x y z u. xs = [x, y, z, u] \<and> f x = a \<and> f y = b \<and> f z = c \<and> f u = d)"
  by (auto simp: map_eq_Cons_conv)

lemma parse_v4_length: "parse_v4 s = Some bs \<Longrightarrow> length bs = 4"
  by (auto simp: parse_v4_def split: list.splits option.splits)

lemma ParseAddr_v4: "ParseAddr s = Some (True, bs) \<Longrightarrow> length bs = 4"
  by (auto simp: ParseAddr_def dest: parse_v4_length split: list.splits if_splits)

text \<open>Membership in an IPv4 network is agreement on the leading bits.\<close>

lemma Contains_v4:
  assumes "length bs = 4" and "length ip = 16"
  shows "Contains_IP (and_bytes bs (CIDRMask 4 n), CIDRMask 4 n) ip \<longleftrightarrow>
    take 12 ip = v4_prefix \<and> take n (ip_bits bs) = take n (ip_bits (drop 12 ip))"
proof -
  let ?m = "CIDRMask 4 n"
  have l: "length bs = length ?m" using assms(1) by simp
  have net: "network_number (and_bytes bs ?m, ?m) = Some (and_bytes bs ?m, ?m)"
    using assms(1) by (simp add: network_number_def To4_def)
  show ?thesis
  proof (cases "take 12 ip = v4_prefix")
    case True
    then have "To4 ip = Some (drop 12 ip)" using assms(2) by (simp add: To4_def)
    then show ?thesis using True assms net
      by (simp add: Contains_IP_def and_bytes_idem [OF l] and_bytes_mask [where l = 4])
  next
    case False
    then have "To4 ip = None" using assms(2) by (simp add: To4_def)
    then show ?thesis using False assms net by (simp add: Contains_IP_def)
  qed
qed

end
