(* ===== verification/Spiffe.thy ===== *)
theory Spiffe
  imports Access NetIP
begin

text \<open>
  Package \<^verbatim>\<open>pkg/spiffe\<close>: SPIFFE ids, certificate fingerprints, the check of a client certificate against
  a registered workload, JWT-SVIDs, and where a client certificate may come from (\<^verbatim>\<open>mtls.go\<close>). X.509
  parsing is a parameter, as PEM is in \<open>rsa_lib\<close>.
\<close>

subsection \<open>SPIFFE ids\<close>

definition BuildSPIFFEID :: "string \<Rightarrow> string \<Rightarrow> string \<Rightarrow> string" where
  "BuildSPIFFEID domain orgID workloadID =
     ''spiffe://'' @ (if domain = [] then ''authpole.local'' else domain) @ ''/ns/'' @ orgID @ ''/sa/'' @ workloadID"

text \<open>
  \<^verbatim>\<open>url.Parse\<close> as far as a SPIFFE id needs it: only a result with the scheme \<^verbatim>\<open>spiffe\<close> is used, of which the
  host and the path. \<open>None\<close> is an error or another scheme. Zones of IPv6 literals are not modelled.
\<close>

definition ctl_byte :: "char \<Rightarrow> bool" where
  "ctl_byte c \<longleftrightarrow> (of_char c :: nat) < 32 \<or> (of_char c :: nat) = 127"

text \<open>Percent escapes, in a path and in a host; a host may escape only bytes outside ASCII.\<close>

fun path_unescape :: "string \<Rightarrow> string option" where
  "path_unescape [] = Some []"
| "path_unescape (c # s) =
     (if c = CHR 0x25 then
        (case s of
           a # b # t \<Rightarrow>
             (case (unhex a, unhex b) of
                (Some x, Some y) \<Rightarrow> map_option (\<lambda>u. char_of (x * 16 + y) # u) (path_unescape t)
              | _ \<Rightarrow> None)
         | _ \<Rightarrow> None)
      else map_option (\<lambda>u. c # u) (path_unescape s))"

definition host_char :: "char \<Rightarrow> bool" where
  "host_char c \<longleftrightarrow> url_plain c \<or> (of_char c :: nat) \<ge> 128 \<or>
     c \<in> set [CHR ''!'', CHR ''$'', CHR 0x26, CHR 0x27, CHR ''('', CHR '')'', CHR ''*'', CHR ''+'', CHR '','',
       CHR 0x3B, CHR ''='', CHR '':'', CHR ''['', CHR '']'', CHR ''<'', CHR ''>'', CHR 0x22]"

fun host_unescape :: "string \<Rightarrow> string option" where
  "host_unescape [] = Some []"
| "host_unescape (c # s) =
     (if c = CHR 0x25 then
        (case s of
           a # b # t \<Rightarrow>
             (case (unhex a, unhex b) of
                (Some x, Some y) \<Rightarrow> if x < 8 then None else map_option (\<lambda>u. char_of (x * 16 + y) # u) (host_unescape t)
              | _ \<Rightarrow> None)
         | _ \<Rightarrow> None)
      else if host_char c then map_option (\<lambda>u. c # u) (host_unescape s) else None)"

definition valid_port :: "string \<Rightarrow> bool" where
  "valid_port p \<longleftrightarrow> p = [] \<or> hd p = CHR '':'' \<and> list_all dec_digit (tl p)"

definition parse_host :: "string \<Rightarrow> string option" where
  "parse_host h =
     (if h \<noteq> [] \<and> hd h = CHR ''['' then
        (let inside = takeWhile (\<lambda>c. c \<noteq> CHR '']'') (tl h); port = tl (dropWhile (\<lambda>c. c \<noteq> CHR '']'') h) in
         if CHR '']'' \<notin> set h \<or> CHR '']'' \<in> set port \<or> CHR ''['' \<in> set (tl h) \<or> \<not> valid_port port then None
         else (case ParseAddr inside of Some (False, _) \<Rightarrow> Some h | _ \<Rightarrow> None))
      else if CHR ''['' \<in> set h then None
      else if \<not> valid_port (dropWhile (\<lambda>c. c \<noteq> CHR '':'') h) then None
      else host_unescape h)"

definition user_char :: "char \<Rightarrow> bool" where
  "user_char c \<longleftrightarrow> url_plain c \<or>
     c \<in> set [CHR '':'', CHR ''!'', CHR ''$'', CHR 0x26, CHR 0x27, CHR ''('', CHR '')'', CHR ''*'', CHR ''+'',
       CHR '','', CHR 0x3B, CHR ''='', CHR 0x25, CHR 0x40]"

definition parse_authority :: "string \<Rightarrow> string option" where
  "parse_authority a =
     (if CHR 0x40 \<in> set a then
        (let host = rev (takeWhile (\<lambda>c. c \<noteq> CHR 0x40) (rev a)); user = take (length a - Suc (length host)) a in
         case parse_host host of
           None \<Rightarrow> None
         | Some h \<Rightarrow> if list_all user_char user \<and> path_unescape user \<noteq> None then Some h else None)
      else parse_host a)"

definition parse_spiffe_url :: "string \<Rightarrow> (string \<times> string) option" where
  "parse_spiffe_url s =
     (let u = takeWhile (\<lambda>c. c \<noteq> CHR ''#'') s; frag = tl (dropWhile (\<lambda>c. c \<noteq> CHR ''#'') s);
          scheme = takeWhile (\<lambda>c. c \<noteq> CHR '':'') u; rest0 = tl (dropWhile (\<lambda>c. c \<noteq> CHR '':'') u);
          rest = takeWhile (\<lambda>c. c \<noteq> CHR ''?'') rest0 in
      if list_ex ctl_byte u \<or> CHR '':'' \<notin> set u \<or> ToLower scheme \<noteq> ''spiffe'' \<or> path_unescape frag = None then None
      else if HasPrefix rest ''//'' then
        (let a = takeWhile (\<lambda>c. c \<noteq> CHR ''/'') (drop 2 rest); p = dropWhile (\<lambda>c. c \<noteq> CHR ''/'') (drop 2 rest) in
         case (parse_authority a, path_unescape p) of (Some h, Some q) \<Rightarrow> Some (h, q) | _ \<Rightarrow> None)
      else if HasPrefix rest ''/'' then map_option (Pair []) (path_unescape rest)
      else Some ([], []))"

definition ParseSPIFFEID :: "string \<Rightarrow> (string \<times> string \<times> string) option" where
  "ParseSPIFFEID spiffeID =
     (case parse_spiffe_url spiffeID of
        None \<Rightarrow> None
      | Some (domain, path) \<Rightarrow>
          (case Split (TrimPrefix path ''/'') (CHR ''/'') of
             ns # org # sa # workload # _ \<Rightarrow>
               if ns \<noteq> ''ns'' \<or> sa \<noteq> ''sa'' then None else Some (domain, org, workload)
           | _ \<Rightarrow> None))"

subsection \<open>Certificates\<close>

datatype spiffe_err =
    ErrCertExpired | ErrFingerprint | ErrNoClientCertificate | ErrUntrustedCertSource | ErrWorkloadNotBound
  | ErrWorkloadRequired | ErrNoURISAN string | ErrPEM | ErrX509 | ErrUnusable spiffe_err

definition ComputeCertFingerprintDER :: "string \<Rightarrow> string" where
  "ComputeCertFingerprintDER der = hex_encode (Sum256 der)"

definition ComputeCertFingerprint :: "rsa_lib \<Rightarrow> string \<Rightarrow> string option" where
  "ComputeCertFingerprint lib certPEM = map_option ComputeCertFingerprintDER (pem_decode lib certPEM)"

definition check_cert :: "gotime \<Rightarrow> Cert \<Rightarrow> SPIFFEWorkload \<Rightarrow> spiffe_err option" where
  "check_cert now cert workload =
     (if Before now (ct_NotBefore cert) \<or> After now (ct_NotAfter cert) then Some ErrCertExpired
      else if TrimSpace (wl_CertFingerprint workload) = [] then Some ErrWorkloadNotBound
      else if \<not> EqualFold (ComputeCertFingerprintDER (ct_Raw cert)) (TrimSpace (wl_CertFingerprint workload))
        then Some ErrFingerprint
      else if wl_SPIFFEID workload \<noteq> [] \<and> \<not> list_ex (\<lambda>uri. uri = wl_SPIFFEID workload) (ct_URIs cert)
        then Some (ErrNoURISAN (wl_SPIFFEID workload))
      else None)"

definition ValidateWorkloadCert ::
  "'s env \<Rightarrow> Cert option \<Rightarrow> SPIFFEWorkload option \<Rightarrow> ('s world, spiffe_err, unit) eng" where
  "ValidateWorkloadCert E cert workload =
     (case cert of
        None \<Rightarrow> fail ErrNoClientCertificate
      | Some c \<Rightarrow>
          (case workload of
             None \<Rightarrow> fail ErrWorkloadRequired
           | Some wl \<Rightarrow>
               andThen (clock E) (\<lambda>now. case check_cert now c wl of Some err \<Rightarrow> fail err | None \<Rightarrow> ret ())))"

text \<open>
  A \<^verbatim>\<open>time.Duration\<close> has 64 bits: products wrap around. \<open>IssueJWTSVID\<close> changes the claims in place before it
  signs them.
\<close>

definition wrap64 :: "int \<Rightarrow> int" where
  "wrap64 n = sint (word_of_int n :: 64 word)"

lemma wrap64_id: "- (2 ^ 63) \<le> n \<Longrightarrow> n < 2 ^ 63 \<Longrightarrow> wrap64 n = n"
  by (simp add: wrap64_def int_word_sint)

lemma wrap64_quarter [simp]: "wrap64 (15 * Minute) = 15 * Minute"
  by (rule wrap64_id) (simp_all add: Minute_def Second_def)

definition IssueJWTSVID :: "'s env \<Rightarrow> AuthClaims \<Rightarrow> SigningKey \<Rightarrow> int \<Rightarrow> ('s world, cerr, string) eng" where
  "IssueJWTSVID E claims key durationMinutes =
     (let minutes = (if durationMinutes \<le> 0 then 15 else durationMinutes) in
      andThen (clock E) (\<lambda>now.
        ofSum (SignJWT (e_rsa E) (claims\<lparr>cl_IssuedAt := Unix now, cl_ExpiresAt := Unix (now + wrap64 (minutes * Minute))\<rparr>)
          (key_PrivateKeyPEM key) (key_KID key))))"

subsection \<open>Where a client certificate comes from\<close>

record proxyTrust =
  px_enabled :: bool
  px_header :: string
  px_nets :: "IPNet list"
  px_ips :: "IP list"

definition parseBool :: "string \<Rightarrow> bool" where
  "parseBool v = list_ex (\<lambda>x. x = ToLower (TrimSpace v)) [''1'', ''true'', ''yes'', ''on'']"

definition DefaultProxyCertHeader :: string where
  "DefaultProxyCertHeader = ''X-Amzn-Mtls-Clientcert''"

text \<open>One entry of the list: a network, else an address, else nothing.\<close>

fun trust_entries :: "string list \<Rightarrow> IPNet list \<times> IP list" where
  "trust_entries [] = ([], [])"
| "trust_entries (raw # rs) =
     (case trust_entries rs of (nets, ips) \<Rightarrow>
        (let entry = TrimSpace raw in
         if entry = [] then (nets, ips)
         else (case ParseCIDR entry of
             Some network \<Rightarrow> (network # nets, ips)
           | None \<Rightarrow> (case ParseIP entry of Some ip \<Rightarrow> (nets, ip # ips) | None \<Rightarrow> (nets, ips)))))"

text \<open>Read once per process: a function of the process's environment.\<close>

definition proxyTrustConfig :: "(string \<Rightarrow> string) \<Rightarrow> proxyTrust" where
  "proxyTrustConfig getenv =
     (let enabled = parseBool (getenv ''AUTHPOLE_TRUST_PROXY_CLIENT_CERT'');
          header = TrimSpace (getenv ''AUTHPOLE_PROXY_CLIENT_CERT_HEADER'');
          header' = (if header = [] then DefaultProxyCertHeader else header) in
      if \<not> enabled then \<lparr>px_enabled = False, px_header = header', px_nets = [], px_ips = []\<rparr>
      else (case trust_entries (Split (getenv ''AUTHPOLE_TRUSTED_PROXIES'') (CHR '','')) of (nets, ips) \<Rightarrow>
        \<lparr>px_enabled = True, px_header = header', px_nets = nets, px_ips = ips\<rparr>))"

definition trustsPeer :: "proxyTrust \<Rightarrow> string \<Rightarrow> bool" where
  "trustsPeer p remoteAddr \<longleftrightarrow>
     (if \<not> px_enabled p then False
      else if px_nets p = [] \<and> px_ips p = [] then True
      else (let host = (case SplitHostPort remoteAddr of Some (h, _) \<Rightarrow> h | None \<Rightarrow> remoteAddr) in
        case ParseIP (TrimSpace host) of
          None \<Rightarrow> False
        | Some ip \<Rightarrow> list_ex (\<lambda>a. a = ip) (px_ips p) \<or> list_ex (\<lambda>n. Contains_IP n ip) (px_nets p)))"

text \<open>\<^verbatim>\<open>strings.ReplaceAll(s, `\n`, newline)\<close>\<close>

fun unescape_newlines :: "string \<Rightarrow> string" where
  "unescape_newlines (a # b # s) =
     (if a = CHR 0x5C \<and> b = CHR ''n'' then CHR 0x0A # unescape_newlines s else a # unescape_newlines (b # s))"
| "unescape_newlines s = s"

definition cert_text :: "string \<Rightarrow> string" where
  "cert_text raw =
     (let c0 = TrimSpace raw;
          c1 = (if Contains c0 [CHR 0x25] then (case QueryUnescape c0 of Some d \<Rightarrow> d | None \<Rightarrow> c0) else c0) in
      if Contains c1 [CHR 0x5C, CHR ''n''] then unescape_newlines c1 else c1)"

definition ParseCertPEM :: "rsa_lib \<Rightarrow> (string \<Rightarrow> Cert option) \<Rightarrow> string \<Rightarrow> spiffe_err + Cert" where
  "ParseCertPEM lib x509 raw =
     (case pem_decode lib (cert_text raw) of
        None \<Rightarrow> Inl ErrPEM
      | Some block \<Rightarrow> (case x509 block of None \<Rightarrow> Inl ErrX509 | Some cert \<Rightarrow> Inr cert))"

definition VerifiedClientCert ::
  "'s env \<Rightarrow> (string \<Rightarrow> Cert option) \<Rightarrow> Request \<Rightarrow> spiffe_err + Cert" where
  "VerifiedClientCert E x509 r =
     (case r_TLS r of
        Some (cert # _) \<Rightarrow> Inr cert
      | _ \<Rightarrow>
          (let cfg = proxyTrustConfig (e_getenv E); raw = header_get r (px_header cfg) in
           if raw = [] then Inl ErrNoClientCertificate
           else if \<not> trustsPeer cfg (r_RemoteAddr r) then Inl ErrUntrustedCertSource
           else (case ParseCertPEM (e_rsa E) x509 raw of Inl err \<Rightarrow> Inl (ErrUnusable err) | Inr cert \<Rightarrow> Inr cert)))"

subsection \<open>Trusted proxies\<close>

text \<open>A parsed IPv4 network holds exactly the mapped IPv4 addresses with its prefix.\<close>

lemma Contains_prefix:
  assumes "ParseCIDR (addr @ ''/'' @ plen) = Some net" and "CHR ''/'' \<notin> set addr"
    and "ParseAddr addr = Some (True, bs)" and "length ip = 16"
  shows "Contains_IP net ip \<longleftrightarrow>
    take 12 ip = v4_prefix \<and> take (dec_value plen) (ip_bits bs) = take (dec_value plen) (ip_bits (drop 12 ip))"
proof -
  have t: "takeWhile (\<lambda>c. c \<noteq> CHR ''/'') (addr @ ''/'' @ plen) = addr"
    using assms(2) by (subst takeWhile_append2) auto
  have d: "dropWhile (\<lambda>c. c \<noteq> CHR ''/'') (addr @ ''/'' @ plen) = CHR ''/'' # plen"
    using assms(2) by (subst dropWhile_append2) auto
  have "net = (and_bytes bs (CIDRMask 4 (dec_value plen)), CIDRMask 4 (dec_value plen))"
    using assms(1) unfolding ParseCIDR_def Let_def t d list.sel assms(3) by (simp split: if_splits)
  with Contains_v4 [OF ParseAddr_v4 [OF assms(3)] assms(4)] show ?thesis by simp
qed

text \<open>
  C30. A trusted IPv4 network is a prefix of bits: when the operator lists one network \<open>addr/plen\<close>, a peer with an
  IPv4 address may assert a client certificate exactly if its address agrees with \<open>addr\<close> on the first \<open>plen\<close> bits.
\<close>

theorem trusted_network_prefix:
  assumes "parseBool (getenv ''AUTHPOLE_TRUST_PROXY_CLIENT_CERT'')"
    and "Split (getenv ''AUTHPOLE_TRUSTED_PROXIES'') (CHR '','') = [entry]" and "TrimSpace entry = addr @ ''/'' @ plen"
    and "CHR ''/'' \<notin> set addr" and "ParseAddr addr = Some (True, bs)" and "ParseCIDR (addr @ ''/'' @ plen) = Some net"
    and "SplitHostPort remoteAddr = Some (host, port)" and "ParseAddr (TrimSpace host) = Some (True, peer)"
  shows "trustsPeer (proxyTrustConfig getenv) remoteAddr \<longleftrightarrow>
    take (dec_value plen) (ip_bits bs) = take (dec_value plen) (ip_bits peer)"
proof -
  have "trustsPeer (proxyTrustConfig getenv) remoteAddr \<longleftrightarrow> Contains_IP net (v4_prefix @ peer)"
    using assms by (simp add: trustsPeer_def proxyTrustConfig_def Let_def ParseIP_def)
  with Contains_prefix [OF assms(6,4,5), of "v4_prefix @ peer"] ParseAddr_v4 [OF assms(8)] show ?thesis
    by (simp add: v4_prefix_def)
qed

lemma trusted_network_prefix_witness:
  "trustsPeer (proxyTrustConfig (\<lambda>v. if v = ''AUTHPOLE_TRUSTED_PROXIES'' then ''10.9.9.9/8'' else ''true'')) ''10.1.2.3:4711''"
proof -
  let ?g = "\<lambda>v. if v = ''AUTHPOLE_TRUSTED_PROXIES'' then ''10.9.9.9/8'' else ''true''"
  have "trustsPeer (proxyTrustConfig ?g) ''10.1.2.3:4711'' \<longleftrightarrow>
      take (dec_value ''8'') (ip_bits [10, 9, 9, 9]) = take (dec_value ''8'') (ip_bits [10, 1, 2, 3])"
  proof (rule trusted_network_prefix)
    show "parseBool (?g ''AUTHPOLE_TRUST_PROXY_CLIENT_CERT'')" by code_simp
    show "Split (?g ''AUTHPOLE_TRUSTED_PROXIES'') (CHR '','') = [''10.9.9.9/8'']" by code_simp
    show "TrimSpace ''10.9.9.9/8'' = ''10.9.9.9'' @ ''/'' @ ''8''" by code_simp
    show "CHR ''/'' \<notin> set ''10.9.9.9''" by simp
    show "ParseAddr ''10.9.9.9'' = Some (True, [10, 9, 9, 9])" by code_simp
    show "ParseCIDR (''10.9.9.9'' @ ''/'' @ ''8'') = Some ([10, 0, 0, 0], [255, 0, 0, 0])" by code_simp
    show "SplitHostPort ''10.1.2.3:4711'' = Some (''10.1.2.3'', ''4711'')" by code_simp
    show "ParseAddr (TrimSpace ''10.1.2.3'') = Some (True, [10, 1, 2, 3])" by code_simp
  qed
  moreover have "take (dec_value ''8'') (ip_bits [10, 9, 9, 9]) = take (dec_value ''8'') (ip_bits [10, 1, 2, 3])"
    by (simp add: ip_bits_def byte_bits_def dec_value_def)
  ultimately show ?thesis by blast
qed

text \<open>
  C29. Where a workload's certificate comes from: \<^verbatim>\<open>VerifiedClientCert\<close> returns the peer's own certificate of the
  TLS connection, or the one in the proxy header, and then only if the operator enabled it and the peer is
  on the allow-list or the allow-list is empty.
\<close>

theorem VerifiedClientCert_sound:
  assumes "VerifiedClientCert E x509 r = Inr cert"
  shows "(\<exists>chain. r_TLS r = Some (cert # chain)) \<or>
    (parseBool (e_getenv E ''AUTHPOLE_TRUST_PROXY_CLIENT_CERT'') \<and>
     (\<exists>nets ips. trust_entries (Split (e_getenv E ''AUTHPOLE_TRUSTED_PROXIES'') (CHR '','')) = (nets, ips) \<and>
        (nets = [] \<and> ips = [] \<or>
         (\<exists>ip. ParseIP (TrimSpace (case SplitHostPort (r_RemoteAddr r) of Some (h, _) \<Rightarrow> h | None \<Rightarrow> r_RemoteAddr r)) = Some ip \<and>
            (ip \<in> set ips \<or> (\<exists>n \<in> set nets. Contains_IP n ip))))) \<and>
     (\<exists>block. pem_decode (e_rsa E) (cert_text (header_get r (px_header (proxyTrustConfig (e_getenv E))))) = Some block \<and>
        x509 block = Some cert))"
proof (cases "\<exists>c chain. r_TLS r = Some (c # chain)")
  case True
  with assms show ?thesis by (auto simp: VerifiedClientCert_def)
next
  case False
  let ?cfg = "proxyTrustConfig (e_getenv E)"
  from False assms have t: "trustsPeer ?cfg (r_RemoteAddr r)"
    and p: "ParseCertPEM (e_rsa E) x509 (header_get r (px_header ?cfg)) = Inr cert"
    by (auto simp: VerifiedClientCert_def Let_def split: option.splits list.splits if_splits sum.splits)
  from t have en: "px_enabled ?cfg" by (auto simp: trustsPeer_def split: if_splits)
  then have "parseBool (e_getenv E ''AUTHPOLE_TRUST_PROXY_CLIENT_CERT'')"
    by (auto simp: proxyTrustConfig_def Let_def split: if_splits)
  moreover from this en obtain nets ips where
    l: "trust_entries (Split (e_getenv E ''AUTHPOLE_TRUSTED_PROXIES'') (CHR '','')) = (nets, ips)"
    and "px_nets ?cfg = nets" "px_ips ?cfg = ips"
    by (cases "trust_entries (Split (e_getenv E ''AUTHPOLE_TRUSTED_PROXIES'') (CHR '',''))")
      (auto simp: proxyTrustConfig_def Let_def)
  with t en have "nets = [] \<and> ips = [] \<or>
      (\<exists>ip. ParseIP (TrimSpace (case SplitHostPort (r_RemoteAddr r) of Some (h, _) \<Rightarrow> h | None \<Rightarrow> r_RemoteAddr r)) = Some ip \<and>
         (ip \<in> set ips \<or> (\<exists>n \<in> set nets. Contains_IP n ip)))"
    by (auto simp: trustsPeer_def Let_def list_ex_iff split: if_splits option.splits)
  moreover from p have "\<exists>block. pem_decode (e_rsa E) (cert_text (header_get r (px_header ?cfg))) = Some block \<and> x509 block = Some cert"
    by (auto simp: ParseCertPEM_def split: option.splits)
  ultimately show ?thesis using l by blast
qed

definition demo_cert :: Cert where
  "demo_cert = \<lparr>ct_Raw = ''der'', ct_NotBefore = 0, ct_NotAfter = 2 * demo_now,
     ct_URIs = [''spiffe://authpole.local/ns/acme/sa/build'']\<rparr>"

lemma VerifiedClientCert_sound_witness:
  "VerifiedClientCert demo_env (\<lambda>_. None) (demo_http\<lparr>r_TLS := Some [demo_cert]\<rparr>) = Inr demo_cert \<and>
     r_TLS (demo_http\<lparr>r_TLS := Some [demo_cert]\<rparr>) = Some [demo_cert]"
proof -
  have x: "VerifiedClientCert demo_env (\<lambda>_. None) (demo_http\<lparr>r_TLS := Some [demo_cert]\<rparr>) = Inr demo_cert"
    by (simp add: VerifiedClientCert_def)
  have n: "\<not> parseBool (e_getenv demo_env v)" for v by (simp add: parseBool_def ToLower_def)
  from VerifiedClientCert_sound [OF x] n x show ?thesis by auto
qed

lemma trust_entries_none:
  "(\<And>e. e \<in> set es \<Longrightarrow> ParseCIDR (TrimSpace e) = None \<and> ParseIP (TrimSpace e) = None) \<Longrightarrow> trust_entries es = ([], [])"
  by (induction es) (auto simp: Let_def)

text \<open>
  The allow-list fails open: with the header enabled and a list in which no entry is an IP address or a
  network (host names, say), every peer is trusted, as if no list had been given.
\<close>

theorem trusted_proxies_fail_open:
  assumes "parseBool (getenv ''AUTHPOLE_TRUST_PROXY_CLIENT_CERT'')"
    and "\<And>e. e \<in> set (Split (getenv ''AUTHPOLE_TRUSTED_PROXIES'') (CHR '','')) \<Longrightarrow>
           ParseCIDR (TrimSpace e) = None \<and> ParseIP (TrimSpace e) = None"
  shows "trustsPeer (proxyTrustConfig getenv) remoteAddr"
  using assms(1) trust_entries_none [OF assms(2)]
  by (simp add: trustsPeer_def proxyTrustConfig_def Let_def)

lemma trusted_proxies_fail_open_witness:
  "trustsPeer (proxyTrustConfig (\<lambda>v. if v = ''AUTHPOLE_TRUSTED_PROXIES'' then ''lb-1.internal,lb-2.internal'' else ''true''))
     ''203.0.113.9:4711''"
proof (rule trusted_proxies_fail_open)
  show "parseBool (if ''AUTHPOLE_TRUST_PROXY_CLIENT_CERT'' = ''AUTHPOLE_TRUSTED_PROXIES'' then ''lb-1.internal,lb-2.internal'' else ''true'')"
    by code_simp
next
  fix e
  assume "e \<in> set (Split (if ''AUTHPOLE_TRUSTED_PROXIES'' = ''AUTHPOLE_TRUSTED_PROXIES'' then ''lb-1.internal,lb-2.internal'' else ''true'') (CHR '',''))"
  then have e: "e = ''lb-1.internal'' \<or> e = ''lb-2.internal''" by simp
  have a: "ParseCIDR (TrimSpace ''lb-1.internal'') = None \<and> ParseIP (TrimSpace ''lb-1.internal'') = None" by code_simp
  have b: "ParseCIDR (TrimSpace ''lb-2.internal'') = None \<and> ParseIP (TrimSpace ''lb-2.internal'') = None" by code_simp
  from e show "ParseCIDR (TrimSpace e) = None \<and> ParseIP (TrimSpace e) = None"
    by (elim disjE) (simp_all only: a b)
qed

subsection \<open>Ids and certificates\<close>

definition id_segment :: "string \<Rightarrow> bool" where
  "id_segment s \<longleftrightarrow> list_all (\<lambda>c. \<not> ctl_byte c \<and> c \<notin> set ''/%?#'') s"

lemma path_unescape_plain: "CHR 0x25 \<notin> set s \<Longrightarrow> path_unescape s = Some s"
  by (induction s) auto

lemma host_unescape_plain: "list_all url_plain s \<Longrightarrow> host_unescape s = Some s"
  by (induction s) (auto simp: host_char_def dest: url_plain_not)

lemma url_plain_others: "url_plain c \<Longrightarrow> c \<noteq> CHR ''['' \<and> c \<noteq> CHR '':'' \<and> c \<noteq> CHR 0x40 \<and> c \<noteq> CHR ''/'' \<and> c \<noteq> CHR ''?'' \<and> c \<noteq> CHR ''#'' \<and> \<not> ctl_byte c"
  by (auto simp: url_plain_def ctl_byte_def Let_def)

lemma parse_authority_plain: "list_all url_plain d \<Longrightarrow> parse_authority d = Some d"
proof -
  assume p: "list_all url_plain d"
  then have no: "CHR 0x40 \<notin> set d" "CHR ''['' \<notin> set d" "CHR '':'' \<notin> set d"
    using url_plain_others by (auto simp: list_all_iff)
  from no(3) have c: "dropWhile (\<lambda>c. c \<noteq> CHR '':'') d = []" by auto
  from no(2) have "\<not> (d \<noteq> [] \<and> hd d = CHR ''['')" by (cases d) auto
  with no(2) have "parse_host d = Some d"
    by (simp only: parse_host_def c host_unescape_plain [OF p] if_False valid_port_def simp_thms)
  with no(1) show ?thesis by (simp only: parse_authority_def if_False)
qed

lemma takeWhile_all: "c \<notin> set s \<Longrightarrow> takeWhile (\<lambda>d. d \<noteq> c) s = s" "c \<notin> set s \<Longrightarrow> dropWhile (\<lambda>d. d \<noteq> c) s = []"
  by auto

lemma dropWhile_sep: "c \<notin> set k \<Longrightarrow> dropWhile (\<lambda>d. d \<noteq> c) (k @ c # x) = c # x"
  by (induction k) auto

lemma parse_built:
  assumes "list_all url_plain d" and "CHR ''#'' \<notin> set p" "CHR ''?'' \<notin> set p" "CHR 0x25 \<notin> set p" "\<not> list_ex ctl_byte p"
  shows "parse_spiffe_url (''spiffe://'' @ d @ CHR ''/'' # p) = Some (d, CHR ''/'' # p)"
proof -
  let ?s = "''spiffe://'' @ d @ CHR ''/'' # p"
  have d: "CHR ''#'' \<notin> set d" "CHR ''?'' \<notin> set d" "CHR ''/'' \<notin> set d" "\<not> list_ex ctl_byte d"
    using assms(1) url_plain_others by (auto simp: list_all_iff list_ex_iff)
  have u: "takeWhile (\<lambda>c. c \<noteq> CHR ''#'') ?s = ?s" "dropWhile (\<lambda>c. c \<noteq> CHR ''#'') ?s = []"
    using d(1) assms(2) by (auto intro!: takeWhile_all)
  have sch: "takeWhile (\<lambda>c. c \<noteq> CHR '':'') ?s = ''spiffe''"
    "dropWhile (\<lambda>c. c \<noteq> CHR '':'') ?s = '':'' @ ''//'' @ d @ CHR ''/'' # p" by simp_all
  have q: "takeWhile (\<lambda>c. c \<noteq> CHR ''?'') (''//'' @ d @ CHR ''/'' # p) = ''//'' @ d @ CHR ''/'' # p"
    using d(2) assms(3) by (intro takeWhile_all) auto
  have a: "takeWhile (\<lambda>c. c \<noteq> CHR ''/'') (d @ CHR ''/'' # p) = d" "dropWhile (\<lambda>c. c \<noteq> CHR ''/'') (d @ CHR ''/'' # p) = CHR ''/'' # p"
    by (rule takeWhile_sep [OF d(3)], rule dropWhile_sep [OF d(3)])
  have low: "ToLower ''spiffe'' = ''spiffe''" by code_simp
  have ctl: "\<not> list_ex ctl_byte ?s" using d(4) assms(5) by (simp add: ctl_byte_def)
  have drop: "drop 2 (''//'' @ x) = x" "HasPrefix (''//'' @ x) ''//''" for x by (simp_all add: HasPrefix_def)
  have t: "tl ('':'' @ x) = x" "tl [] = []" for x :: string by simp_all
  have f: "path_unescape [] \<noteq> None" by simp
  have pu: "path_unescape (CHR ''/'' # p) = Some (CHR ''/'' # p)" using assms(4) by (simp add: path_unescape_plain)
  have co: "CHR '':'' \<in> set ?s" by simp
  show ?thesis
    unfolding parse_spiffe_url_def Let_def u sch t q drop a low parse_authority_plain [OF assms(1)] pu
    using ctl co f drop(2) by simp
qed

text \<open>
  C31. SPIFFE ids are read back: for a trust domain of plain characters (ASCII letters and digits, and the characters
  hyphen, full stop, underscore and tilde) and an organization and a workload in which none of the bytes slash, percent sign,
  question mark, number sign or a control character (below 32, and 127) occurs, parsing the id that was built gives the three
  parts, the default domain where none was given.
\<close>

theorem spiffe_id_roundtrip:
  assumes "list_all url_plain d" and "id_segment org" and "id_segment wl"
  shows "ParseSPIFFEID (BuildSPIFFEID d org wl) = Some (if d = [] then ''authpole.local'' else d, org, wl)"
proof -
  let ?d = "if d = [] then ''authpole.local'' else d"
  let ?p = "''ns/'' @ org @ ''/sa/'' @ wl"
  have no: "CHR ''#'' \<notin> set ?p" "CHR ''?'' \<notin> set ?p" "CHR 0x25 \<notin> set ?p" "\<not> list_ex ctl_byte ?p"
    and sl: "CHR ''/'' \<notin> set org" "CHR ''/'' \<notin> set wl"
    using assms(2,3) by (auto simp: id_segment_def list_all_iff list_ex_iff ctl_byte_def)
  have "list_all url_plain ''authpole.local''" by code_simp
  with assms(1) have d: "list_all url_plain ?d" by simp
  have "BuildSPIFFEID d org wl = ''spiffe://'' @ ?d @ CHR ''/'' # ?p" by (simp add: BuildSPIFFEID_def)
  with parse_built [OF d no] have "parse_spiffe_url (BuildSPIFFEID d org wl) = Some (?d, CHR ''/'' # ?p)" by simp
  moreover have "TrimPrefix (CHR ''/'' # ?p) ''/'' = ?p" using TrimPrefix_append [of "''/''" ?p] by simp
  moreover have "Split ?p (CHR ''/'') = [''ns'', org, ''sa'', wl]"
    using sl Split_append [of "CHR ''/''" "''ns''"] Split_append [of "CHR ''/''" org] Split_append [of "CHR ''/''" "''sa''"]
    by (simp add: Split_none)
  ultimately show ?thesis by (simp add: ParseSPIFFEID_def)
qed

lemma spiffe_id_roundtrip_witness:
  "ParseSPIFFEID ''spiffe://authpole.local/ns/acme/sa/build'' = Some (''authpole.local'', ''acme'', ''build'')"
  using spiffe_id_roundtrip [of "[]" "''acme''" "''build''"]
  by (simp add: BuildSPIFFEID_def id_segment_def ctl_byte_def)

lemma hex_never_empty: "length (hex_encode (Sum256 x)) = 64"
  by (simp add: hex_encode_length Sum256_length)

lemma hexc_not_space: "d < 16 \<Longrightarrow> \<not> is_space (hexc d)"
  by (simp add: hexc_def is_space_def Let_def)

lemma TrimSpace_hex [simp]: "TrimSpace (hex_encode s) = hex_encode s"
proof -
  have "b div 16 < 16" if "b \<in> set (bytes_of s)" for b
    using that by (auto simp: bytes_of_def less_mult_imp_div_less)
  then have n: "\<forall>c \<in> set (hex_encode s). \<not> is_space c" by (auto simp: hex_encode_def hexc_not_space)
  have "dropWhile is_space t = t" if "\<forall>c \<in> set t. \<not> is_space c" for t
    using that by (cases t) auto
  from this [of "hex_encode s"] this [of "rev (hex_encode s)"] n
  have "dropWhile is_space (hex_encode s) = hex_encode s" "dropWhile is_space (rev (hex_encode s)) = rev (hex_encode s)"
    by simp_all
  then show ?thesis by (simp add: TrimSpace_def)
qed

text \<open>When the check of a certificate passes.\<close>

lemma check_cert_passes:
  "check_cert now cert wl = None \<longleftrightarrow> now \<in> {ct_NotBefore cert .. ct_NotAfter cert} \<and>
     ToLower (TrimSpace (wl_CertFingerprint wl)) = ToLower (hex_encode (Sum256 (ct_Raw cert))) \<and>
     wl_SPIFFEID wl \<in> insert [] (set (ct_URIs cert))"
proof -
  have "TrimSpace (wl_CertFingerprint wl) \<noteq> []"
    if "ToLower (TrimSpace (wl_CertFingerprint wl)) = ToLower (hex_encode (Sum256 (ct_Raw cert)))"
    using that hex_never_empty [of "ct_Raw cert"] by (auto simp: ToLower_def)
  then show ?thesis
    by (auto simp: check_cert_def Before_def After_def EqualFold_def ComputeCertFingerprintDER_def list_ex_iff)
qed

lemma ValidateWorkloadCert_passes:
  "fst (ValidateWorkloadCert E (Some cert) (Some wl) w) = Inr () \<longleftrightarrow> check_cert (e_now E (w_tick w)) cert wl = None"
  by (cases "check_cert (e_now E (w_tick w)) cert wl")
    (simp_all add: ValidateWorkloadCert_def andThen_def clock_def fail_def ret_def)

text \<open>
  C27. A client certificate is accepted for a workload exactly when it is within its validity, the SHA-256
  fingerprint of its bytes is the registered one up to letter case and surrounding blanks, and, where the
  workload declares a SPIFFE id, it is one of the certificate's URI names.
\<close>

theorem workload_cert_accepted_iff:
  "fst (ValidateWorkloadCert E (Some cert) (Some wl) w) = Inr () \<longleftrightarrow>
     e_now E (w_tick w) \<in> {ct_NotBefore cert .. ct_NotAfter cert} \<and>
     ToLower (TrimSpace (wl_CertFingerprint wl)) = ToLower (hex_encode (Sum256 (ct_Raw cert))) \<and>
     wl_SPIFFEID wl \<in> insert [] (set (ct_URIs cert))"
  by (simp add: ValidateWorkloadCert_passes check_cert_passes)

end
