(* ===== verification/Svid.thy ===== *)
theory Svid
  imports Spiffe
begin

text \<open>
  \<^verbatim>\<open>pkg/idp/svid.go\<close>: the engine mints a short-lived JWT-SVID for a registered workload whose certificate
  fingerprint the caller presents. The properties say what a minted SVID proves.
\<close>

subsection \<open>The operations\<close>

datatype sviderr =
    ErrWorkloadNotFound | ErrWorkloadInactive | ErrFingerprintMismatch | ErrAudienceNotAllowed
  | ErrWorkloadUnbound | ErrNoSPIFFEID | ErrIdsRequired | ErrAudienceRequired | ErrAudienceAmbiguous nat
  | ErrSigningKey eerr | ErrTokenID cerr | ErrSignSVID cerr

record SVIDRequest =
  sq_OrganizationID :: string
  sq_WorkloadID :: string
  sq_CertFingerprint :: string
  sq_Audience :: string
  sq_RequestedScopes :: "string list"

record SVIDResponse =
  sp_SVID :: string
  sp_SPIFFEID :: string
  sp_TokenType :: string
  sp_ExpiresIn :: int
  sp_Scope :: string
  sp_OrganizationID :: string

definition svidTTLMinutes :: int where
  "svidTTLMinutes = 15"

definition resolveSVIDAudience :: "SPIFFEWorkload \<Rightarrow> string \<Rightarrow> sviderr + string" where
  "resolveSVIDAudience workload requested0 =
     (let requested = TrimSpace requested0; allowed = wl_AllowedAudiences workload in
      if allowed = [] then (if requested = [] then Inl ErrAudienceRequired else Inr requested)
      else if requested = [] then
        (case allowed of [one] \<Rightarrow> Inr one | _ \<Rightarrow> Inl (ErrAudienceAmbiguous (length allowed)))
      else if list_ex (\<lambda>a. a = requested) allowed then Inr requested
      else Inl ErrAudienceNotAllowed)"

text \<open>The inner loop appends a wanted scope at the first entry that allows it.\<close>

definition grantScopes :: "SPIFFEWorkload \<Rightarrow> string list \<Rightarrow> string list" where
  "grantScopes workload requested =
     (if requested = [] then wl_AllowedScopes workload
      else List.filter (\<lambda>want. list_ex (\<lambda>allowed. allowed = ''*'' \<or> allowed = want) (wl_AllowedScopes workload)) requested)"

text \<open>The checks between the record and the signing key: the fingerprint, then the SPIFFE id.\<close>

definition check_workload :: "SPIFFEWorkload \<Rightarrow> string \<Rightarrow> sviderr option" where
  "check_workload workload fingerprint =
     (let registered = ToLower (TrimSpace (wl_CertFingerprint workload));
          presented = ToLower (TrimSpace fingerprint) in
      if \<not> wl_Active workload then Some ErrWorkloadInactive
      else if registered = [] then Some ErrWorkloadUnbound
      else if presented = [] \<or> \<not> SecureCompare registered presented then Some ErrFingerprintMismatch
      else if TrimSpace (wl_SPIFFEID workload) = [] then Some ErrNoSPIFFEID
      else None)"

definition svid_claims :: "SPIFFEWorkload \<Rightarrow> string \<Rightarrow> string \<Rightarrow> string \<Rightarrow> string list \<Rightarrow> gotime \<Rightarrow> string \<Rightarrow> AuthClaims" where
  "svid_claims workload orgID issuer audience granted now jti =
     zero_claims\<lparr>cl_Subject := TrimSpace (wl_SPIFFEID workload), cl_Issuer := issuer, cl_Audience := [audience],
       cl_TokenUse := TokenUseAccess, cl_OrganizationID := orgID, cl_WorkloadID := wl_ID workload,
       cl_SPIFFEID := TrimSpace (wl_SPIFFEID workload), cl_Scope := Join granted '' '',
       cl_NotBefore := Unix now, cl_JTI := jti\<rparr>"

definition mint_svid ::
  "'s env \<Rightarrow> string \<Rightarrow> SPIFFEWorkload \<Rightarrow> string \<Rightarrow> string list \<Rightarrow> ('s world, sviderr, SVIDResponse) eng" where
  "mint_svid E orgID workload audience requested =
     andThen (wrapErr ErrSigningKey (resolveSigningKey E orgID [])) (\<lambda>signingKey.
     let granted = grantScopes workload requested; issuer = IssuerFor E orgID in
     andThen (clock E) (\<lambda>now.
     andThen (wrapErr ErrTokenID (secure_token E ''jti_'')) (\<lambda>jti.
     andThen (wrapErr ErrSignSVID
       (IssueJWTSVID E (svid_claims workload orgID issuer audience granted now jti) signingKey svidTTLMinutes)) (\<lambda>svid.
     ret \<lparr>sp_SVID = svid, sp_SPIFFEID = TrimSpace (wl_SPIFFEID workload), sp_TokenType = ''Bearer'',
          sp_ExpiresIn = svidTTLMinutes * 60, sp_Scope = Join granted '' '', sp_OrganizationID = orgID\<rparr>))))"

definition IssueSVID :: "'s env \<Rightarrow> SVIDRequest \<Rightarrow> ('s world, sviderr, SVIDResponse) eng" where
  "IssueSVID E req =
     (let orgID = TrimSpace (sq_OrganizationID req); workloadID = TrimSpace (sq_WorkloadID req) in
      if orgID = [] \<or> workloadID = [] then fail ErrIdsRequired
      else andThen (wrapErr (\<lambda>_. ErrWorkloadNotFound) (on_store (st_Get (e_ops E) (SPIFFEWorkloadKey orgID workloadID)))) (\<lambda>rec.
        case unmarshal workload_fields zero_workload (sr_Data rec) of
          None \<Rightarrow> fail ErrWorkloadNotFound
        | Some workload \<Rightarrow>
            (case check_workload workload (sq_CertFingerprint req) of
               Some err \<Rightarrow> fail err
             | None \<Rightarrow>
                 andThen (ofSum (resolveSVIDAudience workload (sq_Audience req))) (\<lambda>audience.
                   mint_svid E orgID workload audience (sq_RequestedScopes req)))))"

subsection \<open>What is granted\<close>

lemma grantScopes_allowed:
  "s \<in> set (grantScopes wl req) \<Longrightarrow> (s \<in> set (wl_AllowedScopes wl) \<or> ''*'' \<in> set (wl_AllowedScopes wl)) \<and> (req = [] \<or> s \<in> set req)"
  by (auto simp: grantScopes_def list_ex_iff split: if_splits)

lemma resolve_audience_Inr:
  "resolveSVIDAudience wl a = Inr aud \<Longrightarrow>
     (wl_AllowedAudiences wl = [] \<and> aud = TrimSpace a \<and> aud \<noteq> [] \<or> aud \<in> set (wl_AllowedAudiences wl)) \<and> (TrimSpace a = [] \<or> aud = TrimSpace a)"
  by (auto simp: resolveSVIDAudience_def Let_def list_ex_iff split: if_splits list.splits)

lemma check_workload_None:
  "check_workload wl fp = None \<longleftrightarrow> wl_Active wl \<and> ToLower (TrimSpace (wl_CertFingerprint wl)) = ToLower (TrimSpace fp) \<and>
     TrimSpace fp \<noteq> [] \<and> TrimSpace (wl_SPIFFEID wl) \<noteq> []"
  by (auto simp: check_workload_def Let_def SecureCompare_def ToLower_def)

text \<open>A successful request, step by step.\<close>

lemma IssueSVID_Inr:
  assumes "cas_store (e_ops E) objs" and "IssueSVID E req w = (Inr resp, w')"
  obtains v data wl aud w1 where
    "objs (w_store w) (SPIFFEWorkloadKey (TrimSpace (sq_OrganizationID req)) (TrimSpace (sq_WorkloadID req))) = Some (v, data)"
    "unmarshal workload_fields zero_workload data = Some wl" "check_workload wl (sq_CertFingerprint req) = None"
    "resolveSVIDAudience wl (sq_Audience req) = Inr aud"
    "mint_svid E (TrimSpace (sq_OrganizationID req)) wl aud (sq_RequestedScopes req) w1 = (Inr resp, w')"
    "w_cache w1 = w_cache w" "view objs w1 = view objs w"
proof -
  have e: "engine_store E objs" using assms(1) by (rule engine_store.intro)
  from assms(2) obtain rec wl aud w1 where
    g: "on_store (st_Get (e_ops E) (SPIFFEWorkloadKey (TrimSpace (sq_OrganizationID req)) (TrimSpace (sq_WorkloadID req)))) w = (Inr rec, w1)"
    and "unmarshal workload_fields zero_workload (sr_Data rec) = Some wl" "check_workload wl (sq_CertFingerprint req) = None"
    "resolveSVIDAudience wl (sq_Audience req) = Inr aud"
    "mint_svid E (TrimSpace (sq_OrganizationID req)) wl aud (sq_RequestedScopes req) w1 = (Inr resp, w')"
    by (auto simp: IssueSVID_def Let_def eng_Inr guard_Inr eq_commute [of "Inr _" "resolveSVIDAudience _ _"] split: if_splits)
  moreover from g have "w_cache w1 = w_cache w" by (auto simp: on_store_eq)
  ultimately show ?thesis using engine_store.get_step [OF e g] by (intro that) (auto simp: view_def fun_eq_iff)
qed

lemma mint_svid_Inr:
  assumes "mint_svid E org wl aud req w1 = (Inr resp, w')"
  obtains key w2 now jti t where "resolveSigningKey E org [] w1 = (Inr key, w2)" "t \<in> range (e_now E)" "w_store w' = w_store w2"
    "SignJWT (e_rsa E) ((svid_claims wl org (IssuerFor E org) aud (grantScopes wl req) now jti)
        \<lparr>cl_IssuedAt := Unix t, cl_ExpiresAt := Unix (t + 15 * Minute)\<rparr>) (key_PrivateKeyPEM key) (key_KID key) = Inr (sp_SVID resp)"
proof -
  from assms obtain key w2 now jti w3 w4 where k: "resolveSigningKey E org [] w1 = (Inr key, w2)"
    and c: "clock E w2 = ((Inr now :: sviderr + gotime), w3)" and j: "secure_token E ''jti_'' w3 = (Inr jti, w4)"
    and i: "IssueJWTSVID E (svid_claims wl org (IssuerFor E org) aud (grantScopes wl req) now jti) key 15 w4 = (Inr (sp_SVID resp), w')"
    by (auto simp: mint_svid_def Let_def andThen_Inr wrapErr_Inr svidTTLMinutes_def)
  let ?t = "e_now E (w_tick w4)"
  from i have "w_store w' = w_store w4"
    "SignJWT (e_rsa E) ((svid_claims wl org (IssuerFor E org) aud (grantScopes wl req) now jti)
        \<lparr>cl_IssuedAt := Unix ?t, cl_ExpiresAt := Unix (?t + 15 * Minute)\<rparr>) (key_PrivateKeyPEM key) (key_KID key) = Inr (sp_SVID resp)"
    by (auto simp: IssueJWTSVID_def Let_def andThen_Inr prims_eq)
  moreover have "w_store w4 = w_store w2" using c j by (auto simp: clock_def secure_token_def andThen_Inr prims_eq)
  moreover have "?t \<in> range (e_now E)" by (rule rangeI)
  ultimately show ?thesis using k by (intro that) simp_all
qed

text \<open>
  C25. What a JWT-SVID proves: the workload is registered under the tenant, active, and bound to the
  fingerprint that was presented; its token is signed with the tenant's key (the newest of the cached ones, a stored
  one that can sign, or one created by the call and stored) and names the registered SPIFFE id as the subject, the
  tenant's issuer, one audience (from the workload's allow-list where it has one), only scopes that the workload is
  allowed and, if any were requested, that were requested, the time of its issue, and an expiry fifteen minutes later.
\<close>

theorem svid_sound:
  assumes "cas_store (e_ops E) objs" and "IssueSVID E req w = (Inr resp, w')"
  shows "\<exists>v data wl key c aud granted issued.
    objs (w_store w) (SPIFFEWorkloadKey (TrimSpace (sq_OrganizationID req)) (TrimSpace (sq_WorkloadID req))) = Some (v, data) \<and>
    unmarshal workload_fields zero_workload data = Some wl \<and> wl_Active wl \<and>
    TrimSpace (sq_CertFingerprint req) \<noteq> [] \<and>
    ToLower (TrimSpace (wl_CertFingerprint wl)) = ToLower (TrimSpace (sq_CertFingerprint req)) \<and>
    SignJWT (e_rsa E) c (key_PrivateKeyPEM key) (key_KID key) = Inr (sp_SVID resp) \<and>
    tenant_key objs E w w' (TrimSpace (sq_OrganizationID req)) [] key \<and>
    cl_Subject c = TrimSpace (wl_SPIFFEID wl) \<and> cl_Subject c \<noteq> [] \<and> cl_TokenUse c = TokenUseAccess \<and>
    cl_Issuer c = IssuerFor E (TrimSpace (sq_OrganizationID req)) \<and>
    cl_Audience c = [aud] \<and> (wl_AllowedAudiences wl = [] \<or> aud \<in> set (wl_AllowedAudiences wl)) \<and>
    cl_Scope c = Join granted '' '' \<and> (''*'' \<in> set (wl_AllowedScopes wl) \<or> set granted \<subseteq> set (wl_AllowedScopes wl)) \<and>
    (sq_RequestedScopes req = [] \<or> set granted \<subseteq> set (sq_RequestedScopes req)) \<and>
    issued \<in> range (e_now E) \<and> cl_IssuedAt c = Unix issued \<and> cl_ExpiresAt c = Unix (issued + 15 * Minute)"
proof (rule IssueSVID_Inr [OF assms])
  let ?org = "TrimSpace (sq_OrganizationID req)"
  fix v data wl aud w1
  assume rec: "objs (w_store w) (SPIFFEWorkloadKey ?org (TrimSpace (sq_WorkloadID req))) = Some (v, data)"
      "unmarshal workload_fields zero_workload data = Some wl"
    and ok: "check_workload wl (sq_CertFingerprint req) = None" and aud: "resolveSVIDAudience wl (sq_Audience req) = Inr aud"
    and m: "mint_svid E ?org wl aud (sq_RequestedScopes req) w1 = (Inr resp, w')"
    and w1: "w_cache w1 = w_cache w" "view objs w1 = view objs w"
  let ?granted = "grantScopes wl (sq_RequestedScopes req)"
  have e: "engine_store E objs" using assms(1) by (rule engine_store.intro)
  from m obtain key w2 now jti t where k: "resolveSigningKey E ?org [] w1 = (Inr key, w2)" and t: "t \<in> range (e_now E)"
    and w2: "w_store w' = w_store w2"
    and sign: "SignJWT (e_rsa E) ((svid_claims wl ?org (IssuerFor E ?org) aud ?granted now jti)
        \<lparr>cl_IssuedAt := Unix t, cl_ExpiresAt := Unix (t + 15 * Minute)\<rparr>) (key_PrivateKeyPEM key) (key_KID key) = Inr (sp_SVID resp)"
    by (rule mint_svid_Inr)
  from w2 have "view objs w' = view objs w2" by (simp add: view_def fun_eq_iff)
  with engine_store.resolveSigningKey_tenant_key [OF e k w1] have key: "tenant_key objs E w w' ?org [] key" by blast
  let ?c = "(svid_claims wl ?org (IssuerFor E ?org) aud ?granted now jti)\<lparr>cl_IssuedAt := Unix t, cl_ExpiresAt := Unix (t + 15 * Minute)\<rparr>"
  have c: "cl_Subject ?c = TrimSpace (wl_SPIFFEID wl)" "cl_TokenUse ?c = TokenUseAccess" "cl_Issuer ?c = IssuerFor E ?org"
    "cl_Audience ?c = [aud]" "cl_Scope ?c = Join ?granted '' ''" "cl_ExpiresAt ?c = Unix (t + 15 * Minute)" "cl_IssuedAt ?c = Unix t"
    by (simp_all add: svid_claims_def)
  have g: "''*'' \<in> set (wl_AllowedScopes wl) \<or> set ?granted \<subseteq> set (wl_AllowedScopes wl)"
    using grantScopes_allowed by blast
  have q: "sq_RequestedScopes req = [] \<or> set ?granted \<subseteq> set (sq_RequestedScopes req)" using grantScopes_allowed by blast
  have a: "wl_AllowedAudiences wl = [] \<or> aud \<in> set (wl_AllowedAudiences wl)"
    using resolve_audience_Inr [OF aud] by blast
  from ok have "wl_Active wl" "TrimSpace (sq_CertFingerprint req) \<noteq> []" "TrimSpace (wl_SPIFFEID wl) \<noteq> []"
    "ToLower (TrimSpace (wl_CertFingerprint wl)) = ToLower (TrimSpace (sq_CertFingerprint req))"
    by (simp_all add: check_workload_None)
  with rec sign key t c g q a show ?thesis
    by (intro exI [of _ v] exI [of _ data] exI [of _ wl] exI [of _ key] exI [of _ ?c] exI [of _ aud] exI [of _ ?granted] exI [of _ t])
      (simp; blast)
qed

definition demo_workload :: SPIFFEWorkload where
  "demo_workload = zero_workload\<lparr>wl_ID := ''build'', wl_OrganizationID := ''acme'', wl_SPIFFEID := ''spiffe://authpole.local/ns/acme/sa/build'',
     wl_CertFingerprint := ''ab12'', wl_AllowedScopes := [''deploy''], wl_AllowedAudiences := [''api''], wl_Active := True\<rparr>"

definition svid_world :: "memdb world" where
  "svid_world = demo_world\<lparr>w_store := \<lparr>md_objs = (SPIFFEWorkloadKey ''acme'' ''build'', ''1'', Doc (marshal workload_fields demo_workload)) # demo_objs,
     md_next = 2\<rparr>\<rparr>"

definition demo_svid :: SVIDRequest where
  "demo_svid = \<lparr>sq_OrganizationID = ''acme'', sq_WorkloadID = ''build'', sq_CertFingerprint = ''AB12'', sq_Audience = [], sq_RequestedScopes = []\<rparr>"

lemma svid_world_key: "stored_key mem_view svid_world ''acme'' [] demo_key"
proof -
  have "mem_view (w_store svid_world) (KeyPairKey ''acme'' ''key_1'') = Some (''1'', Doc (marshal key_fields demo_key))"
    by (simp add: svid_world_def mem_view_def demo_objs_def key_defs)
  moreover have "HasPrefix (KeyPairKey ''acme'' ''key_1'') (KeysPrefix ''acme'')"
    by (simp add: HasPrefix_iff KeysPrefix_def KeyPairKey_def)
  moreover have "key_AppID demo_key = []" by (simp add: demo_key_def)
  ultimately show ?thesis using demo_records(2) demo_key_simps(5) unfolding stored_key_def view_def by metis
qed

lemma demo_minted: "\<exists>resp w'. mint_svid demo_env ''acme'' wl aud req svid_world = (Inr resp, w')"
proof -
  have "GetSigningKeys (w_cache svid_world) ''acme'' [] = (\<lambda>_. None)"
    by (simp add: svid_world_def no_keys_cached fun_eq_iff)
  from demo_live.resolveSigningKey_ok [OF svid_world_key demo_can_sign this] obtain key w1 where
    k: "resolveSigningKey demo_env ''acme'' [] svid_world = (Inr key, w1)" and c: "can_sign key" by blast
  from demo_signs [OF c] have sign: "\<exists>t. SignJWT demo_rsa x (key_PrivateKeyPEM key) (key_KID key) = Inr t" for x by blast
  obtain j where j: "secure_token demo_env ''jti_'' (w1\<lparr>w_tick := Suc (w_tick w1)\<rparr>) = (Inr j, w1\<lparr>w_tick := Suc (w_tick w1), w_draw := Suc (w_draw w1)\<rparr>)"
    using demo_live.secure_token_ok [of "''jti_''" "w1\<lparr>w_tick := Suc (w_tick w1)\<rparr>"] by auto
  let ?c = "(svid_claims wl ''acme'' (IssuerFor demo_env ''acme'') aud (grantScopes wl req) demo_now j)
      \<lparr>cl_IssuedAt := Unix demo_now, cl_ExpiresAt := Unix (demo_now + 15 * Minute)\<rparr>"
  obtain t where t: "SignJWT demo_rsa ?c (key_PrivateKeyPEM key) (key_KID key) = Inr t" using sign by blast
  show ?thesis
    by (simp add: mint_svid_def andThen_def wrapErr_def k Let_def clock_def j IssueJWTSVID_def svidTTLMinutes_def ofSum_def t ret_def)
qed

lemma demo_svid_ok: "\<exists>resp w'. IssueSVID demo_env demo_svid svid_world = (Inr resp, w')"
proof -
  have "view mem_view svid_world (SPIFFEWorkloadKey ''acme'' ''build'') = Some (''1'', Doc (marshal workload_fields demo_workload))"
    by (simp add: view_def svid_world_def mem_view_def)
  moreover have "on_store (st_Get (e_ops demo_env) k) svid_world = (Inr \<lparr>sr_Key = k, sr_Version = v, sr_Data = d\<rparr>, svid_world)"
    if "view mem_view svid_world k = Some (v, d)" for k v d
    using that by (simp add: on_store_def view_def mem_view_def JayDBStorage_def jay_Get_def mem_ops_def mem_Get_def attempt_def ret_def)
  ultimately have g: "on_store (st_Get (e_ops demo_env) (SPIFFEWorkloadKey ''acme'' ''build'')) svid_world =
      (Inr \<lparr>sr_Key = SPIFFEWorkloadKey ''acme'' ''build'', sr_Version = ''1'', sr_Data = Doc (marshal workload_fields demo_workload)\<rparr>, svid_world)"
    by blast
  have f: "TrimSpace (sq_OrganizationID demo_svid) = ''acme''" "TrimSpace (sq_WorkloadID demo_svid) = ''build''"
    "check_workload demo_workload (sq_CertFingerprint demo_svid) = None"
    "resolveSVIDAudience demo_workload (sq_Audience demo_svid) = Inr ''api''"
    by code_simp+
  show ?thesis
    using demo_minted
    by (simp add: IssueSVID_def f Let_def andThen_def wrapErr_def g workload_roundtrip ofSum_def del: demo_env_simps)
qed

lemma svid_sound_witness:
  "\<exists>resp w' c (key :: SigningKey). IssueSVID demo_env demo_svid svid_world = (Inr resp, w') \<and>
     SignJWT demo_rsa c (key_PrivateKeyPEM key) (key_KID key) = Inr (sp_SVID resp) \<and>
     cl_Issuer c = ''https://authpole.io/organizations/acme'' \<and> cl_TokenUse c = TokenUseAccess"
proof -
  obtain resp w' where x: "IssueSVID demo_env demo_svid svid_world = (Inr resp, w')" using demo_svid_ok by blast
  have o: "TrimSpace (sq_OrganizationID demo_svid) = ''acme''" by code_simp
  from svid_sound [OF demo_cas x] obtain c and key :: SigningKey where "SignJWT (e_rsa demo_env) c (key_PrivateKeyPEM key) (key_KID key) = Inr (sp_SVID resp)"
    "cl_Issuer c = IssuerFor demo_env (TrimSpace (sq_OrganizationID demo_svid))" "cl_TokenUse c = TokenUseAccess" by blast
  then show ?thesis using x unfolding o demo_issuer demo_env_simps(4) by blast
qed

end
