(* ===== verification/Api.thy ===== *)
theory Api
  imports Svid
begin

text \<open>
  What the handlers of \<^verbatim>\<open>pkg/api\<close> share: the CORS headers and preflight answers of \<^verbatim>\<open>EnableCORS\<close>, the tenant a
  request names, the answers \<^verbatim>\<open>renderError\<close> and \<^verbatim>\<open>renderJSON\<close> write, and the check of an administrator's
  token. A handler is a call that ends early with an answer or falls through to its last one.
\<close>

subsection \<open>Handlers\<close>

type_synonym ('s, 'a) act = "('s world, Response, 'a) eng"

text \<open>An early return and the end of the body both answer the request.\<close>

definition answer :: "('s, Response) act \<Rightarrow> 's world \<Rightarrow> Response \<times> 's world" where
  "answer m w = (case m w of (Inl r, w') \<Rightarrow> (r, w') | (Inr r, w') \<Rightarrow> (r, w'))"

definition EnableCORS :: "Header \<Rightarrow> Request \<Rightarrow> Response + Header" where
  "EnableCORS h0 r =
     (let h1 = Header_Set h0 ''Access-Control-Allow-Origin'' ''*'';
          h2 = Header_Set h1 ''Access-Control-Allow-Headers'' ''Content-Type, Authorization, X-Expected-Version, X-Organization-ID, X-Tenant-ID, X-Admin-Token, X-App-ID'';
          h3 = Header_Set h2 ''Access-Control-Allow-Methods'' ''GET, POST, PUT, DELETE, OPTIONS'' in
      if r_Method r = ''OPTIONS'' then Inl (WriteHeader h3 200) else Inr h3)"

subsection \<open>Which tenant a request is for\<close>

definition or_default :: "string \<Rightarrow> string" where
  "or_default orgID = (if orgID = [] then ''default'' else orgID)"

definition header_tenant :: "Request \<Rightarrow> string" where
  "header_tenant r =
     (let orgID = header_get r ''X-Organization-ID'' in if orgID = [] then header_get r ''X-Tenant-ID'' else orgID)"

definition query_tenant :: "Request \<Rightarrow> string" where
  "query_tenant r = or_default (TenantFromQuery r)"

definition admin_tenant :: "Request \<Rightarrow> string" where
  "admin_tenant r =
     or_default (let orgID = header_tenant r in if orgID = [] then TenantFromQuery r else orgID)"

text \<open>The second segment of the path below a route, or nothing.\<close>

definition path_id :: "string \<Rightarrow> Request \<Rightarrow> string" where
  "path_id route r =
     (case Split (TrimPrefix (r_Path r) route) (CHR ''/'') of _ # part # _ \<Rightarrow> part | _ \<Rightarrow> [])"

subsection \<open>Answers\<close>

definition renderError :: "Header \<Rightarrow> goerr \<Rightarrow> nat \<Rightarrow> Response" where
  "renderError h err statusCode =
     (case (case err of
              StoreErr ErrVersionMismatch \<Rightarrow> (''cas_conflict'', 409)
            | ErrUnauthorizedAdmin \<Rightarrow> (''unauthorized_admin'', 401)
            | UnauthorizedBy _ \<Rightarrow> (''unauthorized_admin'', 401)
            | _ \<Rightarrow> (''error'', statusCode)) of
        (code, status) \<Rightarrow>
          \<lparr>rs_Status = status, rs_Header = Header_Set h ''Content-Type'' ''application/json'',
           rs_Body = ErrorJSON code err\<rparr>)"

definition renderJSON :: "Header \<Rightarrow> jval \<Rightarrow> string \<Rightarrow> Response" where
  "renderJSON h data version =
     (let h1 = Header_Set h ''Content-Type'' ''application/json'' in
      WriteJSON (if version \<noteq> [] then Header_Set h1 ''ETag'' version else h1) data)"

text \<open>The error texts the handlers write by hand.\<close>

definition json_error :: "string \<Rightarrow> string \<Rightarrow> string" where
  "json_error code msg = ''{\"error\":\"'' @ code @ ''\",\"message\":\"'' @ msg @ ''\"}''"

text \<open>A slice of structs as JSON; a nil slice is \<^verbatim>\<open>null\<close>.\<close>

definition json_items :: "'r field list \<Rightarrow> 'r list \<Rightarrow> jval" where
  "json_items fs items = (if items = [] then JNull else JArr (map (marshal fs) items))"

definition method_not_allowed :: "Header \<Rightarrow> Response" where
  "method_not_allowed h = renderError h (TextErr ''method not allowed'') 405"

lemma render_simps [simp]:
  "rs_Status (renderJSON h j v) = 200" "rs_Body (renderJSON h j v) = JSON j"
  by (simp_all add: renderJSON_def Let_def)

subsection \<open>Reading and writing items\<close>

text \<open>
  The loop of a listing: records that do not decode are skipped, the version is the record's.
\<close>

fun decode_items :: "'r field list \<Rightarrow> 'r \<Rightarrow> ((string \<Rightarrow> string) \<Rightarrow> 'r \<Rightarrow> 'r) \<Rightarrow> StoredRecord list \<Rightarrow> 'r list" where
  "decode_items fs zero upd [] = []"
| "decode_items fs zero upd (rec # recs) =
     (case unmarshal fs zero (sr_Data rec) of
        None \<Rightarrow> decode_items fs zero upd recs
      | Some item \<Rightarrow> upd (\<lambda>_. sr_Version rec) item # decode_items fs zero upd recs)"

definition list_items ::
  "'s env \<Rightarrow> Header \<Rightarrow> 'r field list \<Rightarrow> 'r \<Rightarrow> ((string \<Rightarrow> string) \<Rightarrow> 'r \<Rightarrow> 'r) \<Rightarrow> string \<Rightarrow> ('s, Response) act" where
  "list_items E h fs zero upd pre =
     andThen (wrapErr (\<lambda>err. renderError h (StoreErr err) 500) (on_store (st_List (e_ops E) pre))) (\<lambda>list.
     ret (renderJSON h (json_items fs (decode_items fs zero upd list)) []))"

text \<open>One record: a document that does not decode is shown as far as it was filled in.\<close>

definition get_item ::
  "'s env \<Rightarrow> Header \<Rightarrow> 'r field list \<Rightarrow> 'r \<Rightarrow> ((string \<Rightarrow> string) \<Rightarrow> 'r \<Rightarrow> 'r) \<Rightarrow> string \<Rightarrow> ('s, Response) act" where
  "get_item E h fs zero upd key =
     andThen (wrapErr (\<lambda>err. renderError h (StoreErr err) 404) (on_store (st_Get (e_ops E) key))) (\<lambda>rec.
     ret (renderJSON h (marshal fs (upd (\<lambda>_. sr_Version rec) (unmarshal_lax fs zero (sr_Data rec)))) (sr_Version rec)))"

definition decode_body :: "Header \<Rightarrow> Request \<Rightarrow> 'r field list \<Rightarrow> 'r \<Rightarrow> Response + 'r" where
  "decode_body h r fs zero =
     (case r_JSON r of
        None \<Rightarrow> Inl (renderError h DecodeErr 400)
      | Some j \<Rightarrow> (case decode_into fs j zero of (ok, item) \<Rightarrow>
          if ok then Inr item else Inl (renderError h DecodeErr 400)))"

definition expected_version :: "Request \<Rightarrow> string \<Rightarrow> string" where
  "expected_version r version =
     (let v = header_get r ''X-Expected-Version'' in if v = [] then version else v)"

text \<open>\<^verbatim>\<open>fmt.Sprintf("<prefix>_%d", time.Now().UnixNano())\<close> for an item without an id.\<close>

definition fresh_id :: "'s env \<Rightarrow> string \<Rightarrow> string \<Rightarrow> ('s world, 'e, string) eng" where
  "fresh_id E pre ident =
     (if ident = [] then andThen (clock E) (\<lambda>now. ret (pre @ FormatInt now)) else ret ident)"

definition created_at :: "'s env \<Rightarrow> gotime \<Rightarrow> ('s world, 'e, gotime) eng" where
  "created_at E t = (if IsZero t then clock E else ret t)"

definition put_item ::
  "'s env \<Rightarrow> Header \<Rightarrow> 'r field list \<Rightarrow> 'r \<Rightarrow> string \<Rightarrow> string \<Rightarrow> nat \<Rightarrow> ('s, string) act" where
  "put_item E h fs item key version status =
     wrapErr (\<lambda>err. renderError h (StoreErr err) status)
       (on_store (st_Put (e_ops E) key (Doc (marshal fs item)) version))"

subsection \<open>Administrators\<close>

definition bearer_token :: "Request \<Rightarrow> string" where
  "bearer_token r =
     (let authHeader = header_get r ''Authorization'' in
      if authHeader \<noteq> [] \<and> HasPrefix authHeader ''Bearer '' then TrimPrefix authHeader ''Bearer ''
      else header_get r ''X-Admin-Token'')"

definition static_admin_token :: string where
  "static_admin_token = ''authpole_admin_secret_token_123''"

text \<open>Active keys whose ids are not among those already collected.\<close>

fun collect :: "SigningKey option list \<Rightarrow> SigningKey list \<Rightarrow> SigningKey list" where
  "collect [] keys = keys"
| "collect (None # ks) keys = collect ks keys"
| "collect (Some k # ks) keys =
     collect ks (if key_Active k \<and> \<not> list_ex (\<lambda>k'. key_ID k' = key_ID k) keys then keys @ [k] else keys)"

fun decode_keys :: "StoredRecord list \<Rightarrow> SigningKey option list" where
  "decode_keys [] = []"
| "decode_keys (rec # recs) =
     (case unmarshal key_fields zero_key (sr_Data rec) of
        None \<Rightarrow> decode_keys recs
      | Some k \<Rightarrow> Some k # decode_keys recs)"

fun cached_admin_keys :: "'s env \<Rightarrow> string \<Rightarrow> string list \<Rightarrow> SigningKey list \<Rightarrow> ('s world, 'e, SigningKey list) eng" where
  "cached_admin_keys E org [] keys = ret keys"
| "cached_admin_keys E org (app # apps) keys =
     andThen (cached E (\<lambda>c now. GetSigningKeys c org app now)) (\<lambda>hit.
     cached_admin_keys E org apps (case hit of None \<Rightarrow> keys | Some ks \<Rightarrow> collect ks keys))"

fun admin_keys :: "'s env \<Rightarrow> string \<Rightarrow> string list \<Rightarrow> SigningKey list \<Rightarrow> ('s world, 'e, SigningKey list) eng" where
  "admin_keys E appID [] keys = ret keys"
| "admin_keys E appID (targetOrg # orgs) keys =
     (if targetOrg = [] then admin_keys E appID orgs keys
      else andThen (cached_admin_keys E targetOrg [appID, ''admin_console'', []] keys) (\<lambda>keys'.
        attempt (on_store (st_List (e_ops E) (KeysPrefix targetOrg))) (\<lambda>r. case r of
            Inl err \<Rightarrow> admin_keys E appID orgs keys'
          | Inr list \<Rightarrow> admin_keys E appID orgs (collect (decode_keys list) keys'))))"

definition orgs_to_check :: "string \<Rightarrow> string list" where
  "orgs_to_check orgID = (if orgID \<noteq> ''default'' then [orgID, ''default''] else [orgID])"

definition AuthenticateAdmin :: "'s env \<Rightarrow> Request \<Rightarrow> ('s world, goerr, unit) eng" where
  "AuthenticateAdmin E r =
     (let token = bearer_token r in
      if token = [] then fail ErrUnauthorizedAdmin
      else if token = static_admin_token then ret ()
      else andThen (admin_keys E (header_get r ''X-App-ID'') (orgs_to_check (or_default (header_tenant r))) []) (\<lambda>keys.
        if keys = [] then fail ErrUnauthorizedAdmin
        else andThen (wrapErr UnauthorizedBy (verify_jwt E token (map Some keys) no_options)) (\<lambda>claims.
          if cl_Subject claims = [] \<and> cl_Email claims = [] then fail ErrUnauthorizedAdmin else ret ())))"

text \<open>The start of every administrative handler: CORS, then the administrator.\<close>

definition as_admin ::
  "'s env \<Rightarrow> Header \<Rightarrow> Request \<Rightarrow> (Header \<Rightarrow> ('s, Response) act) \<Rightarrow> ('s, Response) act" where
  "as_admin E h0 r body =
     andThen (ofSum (EnableCORS h0 r)) (\<lambda>h.
     andThen (wrapErr (\<lambda>err. renderError h err 401) (AuthenticateAdmin E r)) (\<lambda>_. body h))"

end
