(* ===== verification/Oidc.thy ===== *)
theory Oidc
  imports Api
begin

text \<open>
  \<^verbatim>\<open>pkg/api/oidc_handlers.go\<close>: discovery, the key set, the authorization and token endpoints, the upstream
  callback and the login page for developers.
\<close>

subsection \<open>Discovery\<close>

definition computeServerBaseURL :: "Request \<Rightarrow> string" where
  "computeServerBaseURL r =
     (if r_TLS r \<noteq> None \<or> header_get r ''X-Forwarded-Proto'' = ''https'' then ''https'' else ''http'') @ ''://'' @ r_Host r"

definition json_strings :: "string list \<Rightarrow> jval" where
  "json_strings ss = JArr (map JStr ss)"

definition jwks_path :: "string \<Rightarrow> string" where
  "jwks_path orgID = ''/organizations/'' @ orgID @ ''/.well-known/jwks.json''"

text \<open>The document; a Go map is written with its keys in order.\<close>

definition discovery :: "string \<Rightarrow> string \<Rightarrow> string \<Rightarrow> jval" where
  "discovery issuer base orgID = JObj
     [(''authorization_endpoint'', JStr (base @ ''/oauth/v2/authorize'')),
      (''claims_supported'', json_strings [''sub'', ''iss'', ''aud'', ''exp'', ''iat'', ''nbf'', ''jti'', ''nonce'',
         ''token_use'', ''email'', ''name'', ''organization_id'', ''app_id'', ''scope'']),
      (''code_challenge_methods_supported'', json_strings [''S256'']),
      (''grant_types_supported'', json_strings [''authorization_code'', ''refresh_token'']),
      (''id_token_signing_alg_values_supported'', json_strings [''RS256'']),
      (''introspection_endpoint'', JStr (base @ ''/oauth/v2/introspect'')),
      (''issuer'', JStr issuer),
      (''jwks_uri'', JStr (base @ jwks_path orgID)),
      (''response_types_supported'', json_strings [''code'']),
      (''scopes_supported'', json_strings [''openid'', ''profile'', ''email'']),
      (''subject_types_supported'', json_strings [''public'']),
      (''token_endpoint'', JStr (base @ ''/oauth/v2/token'')),
      (''token_endpoint_auth_methods_supported'', json_strings [''none'', ''client_secret_post'', ''client_secret_basic'']),
      (''userinfo_endpoint'', JStr (base @ ''/oauth/v2/userinfo''))]"

definition json_header :: "Header \<Rightarrow> Header" where
  "json_header h = Header_Set h ''Content-Type'' ''application/json''"

definition WellKnownConfig :: "'s env \<Rightarrow> 's handler" where
  "WellKnownConfig E h0 r = answer (
     andThen (ofSum (EnableCORS h0 r)) (\<lambda>h.
     let orgID = query_tenant r in
     ret (WriteJSON (json_header h) (discovery (IssuerFor E orgID) (computeServerBaseURL r) orgID))))"

subsection \<open>The key set\<close>

definition jwks_answer :: "Header \<Rightarrow> jval \<Rightarrow> Response" where
  "jwks_answer h jwks = WriteJSON (Header_Set (json_header h) ''Cache-Control'' ''public, max-age=3600'') jwks"

text \<open>The keys a tenant publishes: the stored ones, or a new one when there is none.\<close>

definition stored_keys :: "'s env \<Rightarrow> string \<Rightarrow> string \<Rightarrow> ('s world, 'e, SigningKey list) eng" where
  "stored_keys E orgID appID =
     attempt (on_store (st_List (e_ops E) (KeysPrefix orgID))) (\<lambda>r. case r of
         Inl err \<Rightarrow> ret []
       | Inr list \<Rightarrow> ret (usable_keys appID list))"

definition first_key :: "'s env \<Rightarrow> string \<Rightarrow> string \<Rightarrow> ('s world, 'e, SigningKey list) eng" where
  "first_key E orgID appID =
     attempt (generate_key E orgID appID) (\<lambda>r. case r of
         Inl err \<Rightarrow> ret []
       | Inr newKey \<Rightarrow>
           attempt (on_store (st_Put (e_ops E) (KeyPairKey orgID (key_ID newKey)) (Doc (marshal key_fields newKey)) []))
             (\<lambda>_. ret [newKey]))"

definition JWKS :: "'s env \<Rightarrow> 's handler" where
  "JWKS E h0 r = answer (
     andThen (ofSum (EnableCORS h0 r)) (\<lambda>h.
     let orgID = query_tenant r; appID = query_get r ''app_id'' in
     andThen (cached E (\<lambda>c now. GetJWKS c orgID appID now)) (\<lambda>hit. case hit of
         Some jwks \<Rightarrow> ret (jwks_answer h jwks)
       | None \<Rightarrow>
           andThen (stored_keys E orgID appID) (\<lambda>found.
           andThen (if found = [] then first_key E orgID appID else ret found) (\<lambda>keys.
           let jwks = BuildJWKS (e_rsa E) keys in
           andThen (set_cached E (\<lambda>c now. SetJWKS c orgID appID jwks (1 * Minute) now)) (\<lambda>_.
           ret (jwks_answer h jwks)))))))"

subsection \<open>Authorization\<close>

definition authorization_of :: "Request \<Rightarrow> AuthorizationRequest" where
  "authorization_of r =
     \<lparr>ar_ServerBaseURL = computeServerBaseURL r, ar_OrganizationID = query_tenant r,
      ar_ClientID = query_get r ''client_id'', ar_RedirectURI = query_get r ''redirect_uri'',
      ar_Scope = query_get r ''scope'', ar_State = query_get r ''state'',
      ar_IDPID = (let idpID = query_get r ''idp'' in if idpID = [] then query_get r ''idp_hint'' else idpID),
      ar_CodeChallenge = query_get r ''code_challenge'', ar_CodeChallengeMethod = query_get r ''code_challenge_method'',
      ar_Nonce = query_get r ''nonce''\<rparr>"

definition Authorize :: "'s env \<Rightarrow> 's handler" where
  "Authorize E h0 r = answer (
     andThen (ofSum (EnableCORS h0 r)) (\<lambda>h.
     if query_get r ''client_id'' = [] \<or> query_get r ''redirect_uri'' = []
       then fail (Error h (json_error ''invalid_request'' ''missing client_id or redirect_uri'') 400)
     else if query_get r ''response_type'' \<noteq> [] \<and> query_get r ''response_type'' \<noteq> ''code''
       then fail (Error h (json_error ''unsupported_response_type'' ''only response_type=code is supported'') 400)
     else andThen (wrapErr (\<lambda>err. Errorf h (json_error ''invalid_request'' ''%s'') (EngineErr err) 400)
              (PrepareAuthorization E (authorization_of r))) (\<lambda>redirectURL.
       ret (Redirect h redirectURL 302))))"

subsection \<open>The token endpoint\<close>

definition form_tenant :: "Request \<Rightarrow> string" where
  "form_tenant r =
     or_default (let orgID = FormValue r ''organization'' in if orgID = [] then FormValue r ''tenant'' else orgID)"

text \<open>Client credentials: those of the form, and where they are missing the Basic ones.\<close>

definition client_credentials :: "Request \<Rightarrow> string \<times> string" where
  "client_credentials r =
     (let clientID = FormValue r ''client_id''; clientSecret = FormValue r ''client_secret'' in
      case BasicAuth r of
        None \<Rightarrow> (clientID, clientSecret)
      | Some (basicID, basicSecret) \<Rightarrow>
          (if clientID = [] then basicID else clientID, if clientSecret = [] then basicSecret else clientSecret))"

definition token_request_of :: "Request \<Rightarrow> TokenRequest" where
  "token_request_of r =
     (case client_credentials r of (clientID, clientSecret) \<Rightarrow>
        \<lparr>tr_GrantType = FormValue r ''grant_type'', tr_OrganizationID = form_tenant r, tr_ClientID = clientID,
         tr_ClientSecret = clientSecret, tr_Code = FormValue r ''code'', tr_RedirectURI = FormValue r ''redirect_uri'',
         tr_CodeVerifier = FormValue r ''code_verifier'', tr_RefreshToken = FormValue r ''refresh_token''\<rparr>)"

definition token_request_error :: "TokenRequest \<Rightarrow> string option" where
  "token_request_error req =
     (if tr_ClientID req = [] then Some ''missing client_id''
      else if tr_GrantType req = GrantRefreshToken
        then (if tr_RefreshToken req = [] then Some ''missing refresh_token'' else None)
      else if tr_Code req = [] then Some ''missing code''
      else None)"

definition token_fields :: "TokenResponse field list" where
  "token_fields =
    [str_field ''access_token'' tp_AccessToken tp_AccessToken_update,
     str_omit ''id_token'' tp_IDToken tp_IDToken_update,
     str_omit ''refresh_token'' tp_RefreshToken tp_RefreshToken_update,
     str_field ''token_type'' tp_TokenType tp_TokenType_update,
     int_field ''expires_in'' tp_ExpiresIn tp_ExpiresIn_update,
     str_omit ''scope'' tp_Scope tp_Scope_update]"

definition token_answer :: "Header \<Rightarrow> TokenResponse \<Rightarrow> Response" where
  "token_answer h resp =
     WriteJSON (Header_Set (Header_Set (json_header h) ''Cache-Control'' ''no-store'') ''Pragma'' ''no-cache'')
       (marshal token_fields resp)"

definition Token :: "'s env \<Rightarrow> 's handler" where
  "Token E h0 r = answer (
     andThen (ofSum (EnableCORS h0 r)) (\<lambda>h.
     if r_Method r \<noteq> ''POST'' then fail (Error h (json_error ''invalid_request'' ''method must be POST'') 405)
     else (let req = token_request_of r in
       case token_request_error req of
         Some msg \<Rightarrow> fail (Error h (json_error ''invalid_request'' msg) 400)
       | None \<Rightarrow>
           andThen (wrapErr (\<lambda>err. Errorf h (json_error ''invalid_grant'' ''%s'') (EngineErr err) 400)
             (ExchangeCodeForToken E req)) (\<lambda>resp.
           ret (token_answer h resp)))))"

subsection \<open>Logins\<close>

definition mock_claims :: "string \<Rightarrow> string \<Rightarrow> gotime \<Rightarrow> AuthClaims" where
  "mock_claims email name now =
     zero_claims\<lparr>cl_Subject := ''usr_'' @ FormatInt (Unix now), cl_Email := email, cl_Name := name,
       cl_PreferredUser := email, cl_OriginalIDP := ''mock_idp'', cl_Roles := [''user'', ''developer'']\<rparr>"

text \<open>The page of the mock login, line by line.\<close>

definition mock_page :: string where
  \<open>mock_page = Join
    [''<!DOCTYPE html>'',
     ''<html>'',
     ''<head>'',
     ''<meta charset="utf-8" />'',
     ''<title>Auth Pole - Dev Mock Login</title>'',
     ''<style>'',
     ''body { font-family: -apple-system, sans-serif; background: #0f172a; color: #f8fafc; display: flex; align-items: center; justify-content: center; height: 100vh; margin: 0; }'',
     ''.card { background: rgba(30, 41, 59, 0.8); border: 1px solid rgba(255,255,255,0.1); border-radius: 12px; padding: 2rem; width: 340px; box-shadow: 0 20px 25px -5px rgba(0,0,0,0.5); }'',
     ''h2 { font-size: 1.25rem; margin-top: 0; color: #38bdf8; }'',
     ''input { width: 100%; padding: 0.75rem; margin: 0.5rem 0 1rem; border-radius: 6px; border: 1px solid #334155; background: #0f172a; color: #fff; box-sizing: border-box; }'',
     ''button { width: 100%; padding: 0.75rem; background: linear-gradient(135deg, #0ea5e9, #6366f1); border: none; border-radius: 6px; color: white; font-weight: bold; cursor: pointer; }'',
     ''</style>'',
     ''</head>'',
     ''<body>'',
     ''<div class="card">'',
     ''  <h2>'' @ [CHR 0xE2, CHR 0x9A, CHR 0xA1] @ '' Auth Pole Mediator Proxy</h2>'',
     ''  <p style="font-size: 0.85rem; color: #94a3b8;">Simulating upstream identity provider authentication.</p>'',
     ''  <form method="POST">'',
     ''    <label>Email Address</label>'',
     ''    <input type="email" name="email" placeholder="admin@example.com" required />'',
     ''    <label>Full Name</label>'',
     ''    <input type="text" name="name" placeholder="Admin Name" required />'',
     ''    <button type="submit">Complete Authentication & Return</button>'',
     ''  </form>'',
     ''</div>'',
     ''</body>'',
     ''</html>''] [CHR 0x0A]\<close>

definition MockLogin :: "'s env \<Rightarrow> 's handler" where
  "MockLogin E h0 r = answer (
     andThen (ofSum (EnableCORS h0 r)) (\<lambda>h.
     if r_Method r = ''POST'' then
       andThen (clock E) (\<lambda>now.
       andThen (wrapErr (\<lambda>err. Errorf h ''Authentication error: %v'' (EngineErr err) 400)
         (CompleteUpstreamAuthentication E (query_get r ''state'')
            (Some (mock_claims (FormValue r ''email'') (FormValue r ''name'') now)))) (\<lambda>redirectURL.
       ret (Redirect h redirectURL 302)))
     else ret \<lparr>rs_Status = 200, rs_Header = Header_Set h ''Content-Type'' ''text/html; charset=utf-8'', rs_Body = Text mock_page\<rparr>))"

definition Callback :: "'s env \<Rightarrow> 's handler" where
  "Callback E h r = answer (
     let stateID = query_get r ''state''; code = query_get r ''code''; errParam = query_get r ''error'' in
     if errParam \<noteq> [] then
       fail (Error h (''Upstream identity provider returned error: '' @ errParam @ '' - '' @ query_get r ''error_description'') 400)
     else if stateID = [] \<or> code = [] then
       fail (Error h ''Missing state or code query parameter from identity provider callback'' 400)
     else andThen (wrapErr (\<lambda>err. Errorf h ''Authentication failed: %v'' (EngineErr err) 400)
              (ProcessUpstreamCallback E (computeServerBaseURL r) stateID code)) (\<lambda>redirectURL.
       ret (Redirect h redirectURL 302)))"

end
