(* ===== verification/Admin.thy ===== *)
theory Admin
  imports Api
begin

text \<open>
  \<^verbatim>\<open>pkg/api/admin_handlers.go\<close>: the administrative REST handlers. Every write is conditional on the version
  the caller expects; a conflict is answered 409.
\<close>

subsection \<open>The organizations of a user\<close>

definition is_metadata :: "StoredRecord \<Rightarrow> bool" where
  "is_metadata rec \<longleftrightarrow> HasSuffix (sr_Key rec) ''/metadata.json''"

text \<open>The email of the token's claims, where the token verifies under the keys at hand.\<close>

definition user_email :: "'s env \<Rightarrow> Request \<Rightarrow> string \<Rightarrow> ('s world, 'e, string) eng" where
  "user_email E r token =
     (if token = static_admin_token then ret []
      else (let orgID = or_default (header_get r ''X-Organization-ID'') in
        andThen (cached E (\<lambda>c now. GetSigningKeys c orgID [] now)) (\<lambda>hit.
        andThen (case hit of
              Some (k # ks) \<Rightarrow> ret (k # ks)
            | _ \<Rightarrow> attempt (on_store (st_List (e_ops E) (KeysPrefix orgID))) (\<lambda>l. case l of
                Inl err \<Rightarrow> ret []
              | Inr list \<Rightarrow> ret (map Some (usable_keys [] list)))) (\<lambda>keys.
        if keys = [] then ret []
        else attempt (verify_jwt E token keys no_options) (\<lambda>v. case v of
              Inl err \<Rightarrow> ret []
            | Inr claims \<Rightarrow> ret (cl_Email claims))))))"

fun has_member :: "string \<Rightarrow> StoredRecord list \<Rightarrow> bool" where
  "has_member email [] = False"
| "has_member email (rec # recs) =
     (case unmarshal user_fields zero_user (sr_Data rec) of
        None \<Rightarrow> has_member email recs
      | Some u \<Rightarrow> if EqualFold (user_Email u) email then True else has_member email recs)"

definition UsersPrefix :: "string \<Rightarrow> string" where
  "UsersPrefix orgID = ''organizations/'' @ orgID @ ''/admin/users/''"

definition member_of :: "'s env \<Rightarrow> string \<Rightarrow> string \<Rightarrow> ('s world, 'e, bool) eng" where
  "member_of E orgID email =
     attempt (on_store (st_List (e_ops E) (UsersPrefix orgID))) (\<lambda>l. case l of
         Inl err \<Rightarrow> ret False
       | Inr uList \<Rightarrow> ret (has_member email uList))"

fun visible_orgs :: "'s env \<Rightarrow> bool \<Rightarrow> string \<Rightarrow> StoredRecord list \<Rightarrow> ('s world, 'e, Organization list) eng" where
  "visible_orgs E all email [] = ret []"
| "visible_orgs E all email (rec # recs) =
     (case (if is_metadata rec then unmarshal org_fields zero_org (sr_Data rec) else None) of
        None \<Rightarrow> visible_orgs E all email recs
      | Some org0 \<Rightarrow>
          (let org = org0\<lparr>org_Version := sr_Version rec\<rparr> in
           andThen (if all then ret True else member_of E (org_ID org) email) (\<lambda>member.
           andThen (visible_orgs E all email recs) (\<lambda>rest.
           ret (if member then org # rest else rest)))))"

definition HandleUserOrganizations :: "'s env \<Rightarrow> 's handler" where
  "HandleUserOrganizations E h0 r = answer (
     andThen (ofSum (EnableCORS h0 r)) (\<lambda>h.
     if r_Method r \<noteq> ''GET'' then fail (method_not_allowed h)
     else andThen (wrapErr (\<lambda>err. renderError h err 401) (AuthenticateAdmin E r)) (\<lambda>_.
       let token = bearer_token r in
       andThen (user_email E r token) (\<lambda>email.
       andThen (wrapErr (\<lambda>err. renderError h (StoreErr err) 500) (on_store (st_List (e_ops E) ''organizations/''))) (\<lambda>list.
       andThen (visible_orgs E (token = static_admin_token \<or> email = []) email list) (\<lambda>orgs.
       ret (renderJSON h (json_items org_fields orgs) [])))))))"

subsection \<open>Organizations\<close>

text \<open>The id in the path, by the two routes.\<close>

definition org_path_id :: "Request \<Rightarrow> string" where
  "org_path_id r =
     (let parts = Split (TrimPrefix (r_Path r) ''/api/v1/organizations'') (CHR ''/'');
          parts' = (if length parts = 1 \<and> HasPrefix (r_Path r) ''/api/v1/tenants''
                    then Split (TrimPrefix (r_Path r) ''/api/v1/tenants'') (CHR ''/'') else parts) in
      case parts' of _ # part # _ \<Rightarrow> part | _ \<Rightarrow> [])"

definition list_orgs :: "'s env \<Rightarrow> Header \<Rightarrow> ('s, Response) act" where
  "list_orgs E h =
     andThen (wrapErr (\<lambda>err. renderError h (StoreErr err) 500) (on_store (st_List (e_ops E) ''organizations/''))) (\<lambda>list.
     ret (renderJSON h (json_items org_fields (decode_items org_fields zero_org org_Version_update (List.filter is_metadata list))) []))"

definition initial_user :: "string \<Rightarrow> AdminUser \<Rightarrow> string \<Rightarrow> gotime \<Rightarrow> AdminUser" where
  "initial_user orgID u ident now =
     u\<lparr>user_ID := ident, user_OrganizationID := orgID,
       user_RoleIDs := (if user_RoleIDs u = [] then [''super_admin''] else user_RoleIDs u), user_Active := True,
       user_Status := (if user_Status u = [] then ''active'' else user_Status u), user_UpdatedAt := now\<rparr>"

text \<open>The first user is changed in place, so the organization's record holds the same one.\<close>

definition create_initial_user :: "'s env \<Rightarrow> Organization \<Rightarrow> ('s world, 'e, Organization) eng" where
  "create_initial_user E org =
     (case org_InitialUser org of
        None \<Rightarrow> ret org
      | Some u0 \<Rightarrow>
          if user_Email u0 = [] \<and> user_Name u0 = [] then ret org
          else andThen (fresh_id E ''usr_'' (user_ID u0)) (\<lambda>ident.
            andThen (clock E) (\<lambda>now.
            let u1 = initial_user (org_ID org) u0 ident now in
            andThen (created_at E (user_CreatedAt u1)) (\<lambda>created.
            let u = u1\<lparr>user_CreatedAt := created\<rparr> in
            attempt (on_store (st_Put (e_ops E) (AdminUserKey (org_ID org) (user_ID u)) (Doc (marshal user_fields u)) []))
              (\<lambda>_. ret (org\<lparr>org_InitialUser := Some u\<rparr>))))))"

definition save_org :: "'s env \<Rightarrow> Header \<Rightarrow> Request \<Rightarrow> string \<Rightarrow> ('s, Response) act" where
  "save_org E h r orgID =
     andThen (ofSum (decode_body h r org_fields zero_org)) (\<lambda>org0.
     let org1 = (if org_ID org0 = [] then org0\<lparr>org_ID := orgID\<rparr> else org0) in
     if org_ID org1 = [] then fail (renderError h (TextErr ''organization ID is required'') 400)
     else andThen (clock E) (\<lambda>updated.
       andThen (created_at E (org_CreatedAt org1)) (\<lambda>created.
       andThen (create_initial_user E (org1\<lparr>org_UpdatedAt := updated, org_CreatedAt := created\<rparr>)) (\<lambda>org.
       andThen (put_item E h org_fields org (OrganizationKey (org_ID org)) (expected_version r (org_Version org1)) 409) (\<lambda>newVer.
       andThen (set_cached E (\<lambda>c now. InvalidateOrganization c (org_ID org))) (\<lambda>_.
       ret (renderJSON h (marshal org_fields (org\<lparr>org_Version := newVer\<rparr>)) newVer)))))))"

definition HandleOrganizations :: "'s env \<Rightarrow> 's handler" where
  "HandleOrganizations E h0 r = answer (as_admin E h0 r (\<lambda>h.
     let orgID = org_path_id r in
     if r_Method r = ''GET'' then
       (if orgID = [] then list_orgs E h else get_item E h org_fields zero_org org_Version_update (OrganizationKey orgID))
     else if r_Method r = ''POST'' \<or> r_Method r = ''PUT'' then save_org E h r orgID
     else fail (method_not_allowed h)))"

subsection \<open>Applications\<close>

definition AppsPrefix :: "string \<Rightarrow> string" where
  "AppsPrefix orgID = ''organizations/'' @ orgID @ ''/apps/''"

definition completed_app :: "Application \<Rightarrow> string \<Rightarrow> string \<Rightarrow> gotime \<Rightarrow> gotime \<Rightarrow> Application" where
  "completed_app app orgID ident updated created =
     app\<lparr>app_ID := ident,
       app_OrganizationID := (if app_OrganizationID app = [] then orgID else app_OrganizationID app),
       app_ClientID := (if app_ClientID app = [] then ident else app_ClientID app),
       app_UpdatedAt := updated, app_CreatedAt := created\<rparr>"

definition save_app :: "'s env \<Rightarrow> Header \<Rightarrow> Request \<Rightarrow> string \<Rightarrow> string \<Rightarrow> ('s, Response) act" where
  "save_app E h r orgID appID =
     andThen (ofSum (decode_body h r app_fields zero_app)) (\<lambda>app0.
     andThen (fresh_id E ''app_'' (if app_ID app0 = [] then appID else app_ID app0)) (\<lambda>ident.
     andThen (clock E) (\<lambda>updated.
     andThen (created_at E (app_CreatedAt app0)) (\<lambda>created.
     let app = completed_app app0 orgID ident updated created in
     andThen (put_item E h app_fields app (AppKey orgID (app_ID app)) (expected_version r (app_Version app)) 409) (\<lambda>newVer.
     andThen (set_cached E (\<lambda>c now. InvalidateApp c orgID (app_ID app))) (\<lambda>_.
     ret (renderJSON h (marshal app_fields (app\<lparr>app_Version := newVer\<rparr>)) newVer)))))))"

definition HandleApps :: "'s env \<Rightarrow> 's handler" where
  "HandleApps E h0 r = answer (as_admin E h0 r (\<lambda>h.
     let orgID = admin_tenant r; appID = path_id ''/api/v1/apps'' r in
     if r_Method r = ''GET'' then
       (if appID = [] then list_items E h app_fields zero_app app_Version_update (AppsPrefix orgID)
        else get_item E h app_fields zero_app app_Version_update (AppKey orgID appID))
     else if r_Method r = ''POST'' \<or> r_Method r = ''PUT'' then save_app E h r orgID appID
     else fail (method_not_allowed h)))"

subsection \<open>Identity providers\<close>

definition save_idp :: "'s env \<Rightarrow> Header \<Rightarrow> Request \<Rightarrow> string \<Rightarrow> string \<Rightarrow> ('s, Response) act" where
  "save_idp E h r orgID idpID =
     andThen (ofSum (decode_body h r idp_fields zero_idp)) (\<lambda>item0.
     andThen (fresh_id E ''idp_'' (if idp_ID item0 = [] then idpID else idp_ID item0)) (\<lambda>ident.
     let item1 = item0\<lparr>idp_ID := ident,
           idp_OrganizationID := (if idp_OrganizationID item0 = [] then orgID else idp_OrganizationID item0)\<rparr> in
     andThen (clock E) (\<lambda>updated.
     andThen (created_at E (idp_CreatedAt item1)) (\<lambda>created.
     let item = item1\<lparr>idp_UpdatedAt := updated, idp_CreatedAt := created\<rparr> in
     andThen (put_item E h idp_fields item (IDPKey orgID (idp_ID item)) (expected_version r (idp_Version item)) 409) (\<lambda>newVer.
     andThen (set_cached E (\<lambda>c now. InvalidateOrganization c orgID)) (\<lambda>_.
     ret (renderJSON h (marshal idp_fields (item\<lparr>idp_Version := newVer\<rparr>)) newVer)))))))"

definition HandleIDPs :: "'s env \<Rightarrow> 's handler" where
  "HandleIDPs E h0 r = answer (as_admin E h0 r (\<lambda>h.
     let orgID = admin_tenant r; idpID = path_id ''/api/v1/idps'' r in
     if r_Method r = ''GET'' then
       (if idpID = [] then list_items E h idp_fields zero_idp idp_Version_update (''organizations/'' @ orgID @ ''/idps/'')
        else get_item E h idp_fields zero_idp idp_Version_update (IDPKey orgID idpID))
     else if r_Method r = ''POST'' \<or> r_Method r = ''PUT'' then save_idp E h r orgID idpID
     else fail (method_not_allowed h)))"

subsection \<open>Signing keys\<close>

definition list_keys :: "'s env \<Rightarrow> Header \<Rightarrow> string \<Rightarrow> ('s, Response) act" where
  "list_keys E h orgID =
     andThen (wrapErr (\<lambda>err. renderError h (StoreErr err) 500) (on_store (st_List (e_ops E) (KeysPrefix orgID)))) (\<lambda>list.
     ret (renderJSON h (json_items key_fields
       (map (\<lambda>k. k\<lparr>key_PrivateKeyPEM := []\<rparr>) (decode_items key_fields zero_key key_Version_update list))) []))"

definition add_key :: "'s env \<Rightarrow> Header \<Rightarrow> Request \<Rightarrow> string \<Rightarrow> ('s, Response) act" where
  "add_key E h r orgID =
     (let appID = query_get r ''app_id'' in
      andThen (wrapErr (\<lambda>err. renderError h (CryptoErr err) 500) (generate_key E orgID appID)) (\<lambda>keyPair.
      andThen (put_item E h key_fields keyPair (KeyPairKey orgID (key_ID keyPair)) [] 500) (\<lambda>newVer.
      andThen (set_cached E (\<lambda>c now. InvalidateApp c orgID appID)) (\<lambda>_.
      ret (renderJSON h (marshal key_fields (keyPair\<lparr>key_Version := newVer\<rparr>)) newVer)))))"

definition HandleKeys :: "'s env \<Rightarrow> 's handler" where
  "HandleKeys E h0 r = answer (as_admin E h0 r (\<lambda>h.
     let orgID = admin_tenant r in
     if r_Method r = ''GET'' then list_keys E h orgID
     else if r_Method r = ''POST'' then add_key E h r orgID
     else fail (method_not_allowed h)))"

subsection \<open>Administrative users, teams and roles\<close>

definition is_invite :: "Request \<Rightarrow> bool" where
  "is_invite r \<longleftrightarrow> HasSuffix (TrimSuffix (r_Path r) ''/'') ''/invite''"

definition user_path_id :: "Request \<Rightarrow> string" where
  "user_path_id r = (let part = path_id ''/api/v1/admin/users'' r in if part = ''invite'' then [] else part)"

definition invited :: "bool \<Rightarrow> gotime \<Rightarrow> AdminUser \<Rightarrow> AdminUser" where
  "invited invite now u =
     (if invite \<or> user_Status u = ''invited'' then
        u\<lparr>user_Status := ''invited'', user_Active := True,
          user_InvitedBy := (if user_InvitedBy u = [] then ''super_admin'' else user_InvitedBy u), user_InvitedAt := Some now\<rparr>
      else if user_Status u = [] then u\<lparr>user_Status := ''active'', user_Active := True\<rparr>
      else u)"

definition save_user :: "'s env \<Rightarrow> Header \<Rightarrow> Request \<Rightarrow> string \<Rightarrow> ('s, Response) act" where
  "save_user E h r tenant =
     andThen (ofSum (decode_body h r user_fields zero_user)) (\<lambda>user0.
     andThen (fresh_id E ''usr_'' (if user_ID user0 = [] then user_path_id r else user_ID user0)) (\<lambda>ident.
     let orgID = (if user_OrganizationID user0 \<noteq> [] then user_OrganizationID user0 else tenant);
         user1 = user0\<lparr>user_ID := ident, user_OrganizationID := orgID\<rparr> in
     andThen (clock E) (\<lambda>now.
     let user2 = invited (is_invite r) now user1;
         user = user2\<lparr>user_UpdatedAt := now, user_CreatedAt := (if IsZero (user_CreatedAt user2) then now else user_CreatedAt user2)\<rparr> in
     andThen (put_item E h user_fields user (AdminUserKey orgID (user_ID user)) (expected_version r (user_Version user)) 409) (\<lambda>newVer.
     ret (renderJSON h (marshal user_fields (user\<lparr>user_Version := newVer\<rparr>)) newVer)))))"

definition HandleAdminUsers :: "'s env \<Rightarrow> 's handler" where
  "HandleAdminUsers E h0 r = answer (as_admin E h0 r (\<lambda>h.
     let orgID = or_default (header_tenant r) in
     if r_Method r = ''GET'' then list_items E h user_fields zero_user user_Version_update (UsersPrefix orgID)
     else if r_Method r = ''POST'' \<or> r_Method r = ''PUT'' then save_user E h r orgID
     else fail (method_not_allowed h)))"

definition save_team :: "'s env \<Rightarrow> Header \<Rightarrow> Request \<Rightarrow> string \<Rightarrow> ('s, Response) act" where
  "save_team E h r orgID =
     andThen (ofSum (decode_body h r team_fields zero_team)) (\<lambda>team0.
     andThen (fresh_id E ''team_'' (team_ID team0)) (\<lambda>ident.
     andThen (clock E) (\<lambda>updated.
     andThen (created_at E (team_CreatedAt team0)) (\<lambda>created.
     let team = team0\<lparr>team_ID := ident, team_OrganizationID := orgID, team_UpdatedAt := updated, team_CreatedAt := created\<rparr> in
     andThen (put_item E h team_fields team (TeamKey orgID (team_ID team)) (expected_version r (team_Version team)) 409) (\<lambda>newVer.
     ret (renderJSON h (marshal team_fields (team\<lparr>team_Version := newVer\<rparr>)) newVer))))))"

definition HandleTeams :: "'s env \<Rightarrow> 's handler" where
  "HandleTeams E h0 r = answer (as_admin E h0 r (\<lambda>h.
     let orgID = or_default (header_tenant r) in
     if r_Method r = ''GET'' then
       list_items E h team_fields zero_team team_Version_update (''organizations/'' @ orgID @ ''/admin/teams/'')
     else if r_Method r = ''POST'' \<or> r_Method r = ''PUT'' then save_team E h r orgID
     else fail (method_not_allowed h)))"

definition save_role :: "'s env \<Rightarrow> Header \<Rightarrow> Request \<Rightarrow> string \<Rightarrow> ('s, Response) act" where
  "save_role E h r orgID =
     andThen (ofSum (decode_body h r role_fields zero_role)) (\<lambda>role0.
     andThen (fresh_id E ''role_'' (role_ID role0)) (\<lambda>ident.
     andThen (clock E) (\<lambda>updated.
     andThen (created_at E (role_CreatedAt role0)) (\<lambda>created.
     let role = role0\<lparr>role_ID := ident, role_OrganizationID := orgID, role_UpdatedAt := updated, role_CreatedAt := created\<rparr> in
     andThen (put_item E h role_fields role (RoleKey orgID (role_ID role)) (expected_version r (role_Version role)) 409) (\<lambda>newVer.
     ret (renderJSON h (marshal role_fields (role\<lparr>role_Version := newVer\<rparr>)) newVer))))))"

definition HandleRoles :: "'s env \<Rightarrow> 's handler" where
  "HandleRoles E h0 r = answer (as_admin E h0 r (\<lambda>h.
     let orgID = or_default (header_tenant r) in
     if r_Method r = ''GET'' then
       list_items E h role_fields zero_role role_Version_update (''organizations/'' @ orgID @ ''/admin/roles/'')
     else if r_Method r = ''POST'' \<or> r_Method r = ''PUT'' then save_role E h r orgID
     else fail (method_not_allowed h)))"

end
