(* ===== verification/Workloads.thy ===== *)
theory Workloads
  imports Api
begin

text \<open>
  \<^verbatim>\<open>pkg/api/spiffe_handlers.go\<close>: the endpoint that gives a workload an SVID for its client certificate, the
  trust bundle verifiers fetch, and the administration of workloads.
\<close>

subsection \<open>The SVID endpoint\<close>

text \<open>The texts of the package's errors; that of the X.509 parser is not modelled.\<close>

primrec spiffe_goerr :: "spiffe_err \<Rightarrow> goerr" where
  "spiffe_goerr ErrCertExpired = TextErr ''long-expiry client certificate has expired''"
| "spiffe_goerr ErrFingerprint = TextErr ''certificate fingerprint mismatch''"
| "spiffe_goerr ErrNoClientCertificate =
     TextErr ''no verified client certificate presented: mutual TLS is required to obtain an SVID''"
| "spiffe_goerr ErrUntrustedCertSource =
     TextErr ''client certificate header is not trusted from this peer; configure AUTHPOLE_TRUST_PROXY_CLIENT_CERT and AUTHPOLE_TRUSTED_PROXIES''"
| "spiffe_goerr ErrWorkloadNotBound =
     TextErr ''workload has no registered certificate fingerprint; register one before requesting an SVID''"
| "spiffe_goerr ErrWorkloadRequired = TextErr ''workload is required''"
| "spiffe_goerr (ErrNoURISAN s) = FormatErr ''certificate does not carry SPIFFE ID %q as a URI SAN'' [s]"
| "spiffe_goerr ErrPEM = TextErr ''failed to decode certificate PEM''"
| "spiffe_goerr ErrX509 = TextErr ''failed to parse x509 certificate: %w''"
| "spiffe_goerr (ErrUnusable e) = WrapErr ''proxy-forwarded client certificate is unusable: %w'' (spiffe_goerr e)"

record SVIDBody =
  sb_WorkloadID :: string
  sb_Audience :: string
  sb_RequestedScopes :: "string list"

definition zero_svid_body :: SVIDBody where
  "zero_svid_body = \<lparr>sb_WorkloadID = [], sb_Audience = [], sb_RequestedScopes = []\<rparr>"

definition svid_body_fields :: "SVIDBody field list" where
  "svid_body_fields =
    [str_field ''workload_id'' sb_WorkloadID sb_WorkloadID_update,
     str_field ''audience'' sb_Audience sb_Audience_update,
     strs_field ''requested_scopes'' sb_RequestedScopes sb_RequestedScopes_update]"

text \<open>The body, if there is one; a decoding error is dropped.\<close>

definition svid_body :: "Request \<Rightarrow> SVIDBody" where
  "svid_body r =
     (case r_JSON r of None \<Rightarrow> zero_svid_body | Some j \<Rightarrow> snd (decode_into svid_body_fields j zero_svid_body))"

definition first_org_key :: "'s env \<Rightarrow> Header \<Rightarrow> string \<Rightarrow> ('s, SigningKey option list) act" where
  "first_org_key E h orgID =
     andThen (wrapErr (\<lambda>_. Error h (json_error ''server_error'' ''failed to generate signing key'') 500)
       (generate_key E orgID [])) (\<lambda>newKey.
     attempt (on_store (st_Put (e_ops E) (KeyPairKey orgID (key_ID newKey)) (Doc (marshal key_fields newKey)) []))
       (\<lambda>_. ret [Some newKey]))"

definition org_keys :: "'s env \<Rightarrow> Header \<Rightarrow> string \<Rightarrow> ('s, SigningKey option list) act" where
  "org_keys E h orgID =
     andThen (cached E (\<lambda>c now. GetSigningKeys c orgID [] now)) (\<lambda>hit. case hit of
         Some (k # ks) \<Rightarrow> ret (k # ks)
       | _ \<Rightarrow>
           andThen (attempt (on_store (st_List (e_ops E) (KeysPrefix orgID))) (\<lambda>l. case l of
               Inl err \<Rightarrow> ret []
             | Inr list \<Rightarrow> ret (map Some (usable_keys [] list)))) (\<lambda>found.
           andThen (if found = [] then first_org_key E h orgID else ret found) (\<lambda>keys.
           andThen (set_cached E (\<lambda>c now. SetSigningKeys c orgID [] keys (1 * Hour) now)) (\<lambda>_. ret keys))))"

definition workload_claims :: "SPIFFEWorkload \<Rightarrow> string \<Rightarrow> string \<Rightarrow> string \<Rightarrow> string list \<Rightarrow> AuthClaims" where
  "workload_claims workload orgID workloadID audience0 granted =
     (let spiffeID = (if wl_SPIFFEID workload = [] then BuildSPIFFEID ''authpole.local'' orgID workloadID else wl_SPIFFEID workload);
          audience = (if audience0 = [] then ''spiffe://authpole.local/ns/'' @ orgID else audience0) in
      zero_claims\<lparr>cl_Subject := spiffeID, cl_Issuer := ''https://authpole.io/organizations/'' @ orgID,
        cl_Audience := [audience], cl_OrganizationID := orgID, cl_WorkloadID := wl_ID workload,
        cl_SPIFFEID := spiffeID, cl_Scope := Join granted '' ''\<rparr>)"

definition svid_answer :: "Header \<Rightarrow> string \<Rightarrow> AuthClaims \<Rightarrow> Response" where
  "svid_answer h svid c =
     WriteJSON (Header_Set h ''Content-Type'' ''application/json'')
       (JObj [(''expires_in'', JInt 900), (''organization_id'', JStr (cl_OrganizationID c)), (''scope'', JStr (cl_Scope c)),
              (''spiffe_id'', JStr (cl_SPIFFEID c)), (''svid'', JStr svid), (''token_type'', JStr ''Bearer'')])"

text \<open>
  What follows once the certificate is bound to the workload. A nil first key makes the handler panic: the
  connection is closed without an answer, which is \<open>aborted\<close>.
\<close>

definition aborted :: "Header \<Rightarrow> Response" where
  "aborted h = WriteHeader h 0"

definition sign_svid ::
  "'s env \<Rightarrow> Header \<Rightarrow> SPIFFEWorkload \<Rightarrow> string \<Rightarrow> string \<Rightarrow> SVIDBody \<Rightarrow> ('s, Response) act" where
  "sign_svid E h workload orgID workloadID body =
     andThen (org_keys E h orgID) (\<lambda>keys. case hd keys of
         None \<Rightarrow> fail (aborted h)
       | Some activeKey \<Rightarrow>
           (let c = workload_claims workload orgID workloadID (sb_Audience body)
                      (grantScopes workload (sb_RequestedScopes body)) in
            andThen (wrapErr (\<lambda>err. Errorf h (json_error ''svid_issuance_failed'' ''%s'') (CryptoErr err) 500)
              (IssueJWTSVID E c activeKey 15)) (\<lambda>svid.
            ret (svid_answer h svid c))))"

definition bind_workload ::
  "'s env \<Rightarrow> Header \<Rightarrow> Cert \<Rightarrow> string \<Rightarrow> string \<Rightarrow> ('s, SPIFFEWorkload) act" where
  "bind_workload E h clientCert orgID workloadID =
     andThen (wrapErr (\<lambda>_. Errorf h (json_error ''workload_not_found'' ''workload %q not found'') (TextErr workloadID) 404)
       (on_store (st_Get (e_ops E) (SPIFFEWorkloadKey orgID workloadID)))) (\<lambda>rec.
     case unmarshal workload_fields zero_workload (sr_Data rec) of
       None \<Rightarrow> fail (Error h (json_error ''unauthorized_workload'' ''workload is inactive or invalid'') 401)
     | Some workload \<Rightarrow>
         if \<not> wl_Active workload
         then fail (Error h (json_error ''unauthorized_workload'' ''workload is inactive or invalid'') 401)
         else andThen (wrapErr (\<lambda>err. Errorf h (json_error ''invalid_client_certificate'' ''%s'') (spiffe_goerr err) 401)
                (ValidateWorkloadCert E (Some clientCert) (Some workload))) (\<lambda>_.
              ret workload))"

definition svid_workload_id :: "Request \<Rightarrow> string" where
  "svid_workload_id r =
     (let workloadID = sb_WorkloadID (svid_body r) in if workloadID = [] then query_get r ''workload_id'' else workloadID)"

definition HandleSVID :: "'s env \<Rightarrow> (string \<Rightarrow> Cert option) \<Rightarrow> 's handler" where
  "HandleSVID E x509 h0 r = answer (
     andThen (ofSum (EnableCORS h0 r)) (\<lambda>h.
     if r_Method r \<noteq> ''POST'' then fail (Error h (json_error ''invalid_request'' ''method must be POST'') 405)
     else (let orgID = or_default (header_tenant r); workloadID = svid_workload_id r in
       case VerifiedClientCert E x509 r of
         Inl err \<Rightarrow> fail (Errorf h (json_error ''mtls_required'' ''%s'') (spiffe_goerr err) 401)
       | Inr clientCert \<Rightarrow>
           if workloadID = [] then fail (Error h (json_error ''invalid_request'' ''workload_id is required'') 400)
           else andThen (bind_workload E h clientCert orgID workloadID) (\<lambda>workload.
                sign_svid E h workload orgID workloadID (svid_body r)))))"

subsection \<open>The trust bundle\<close>

record SPIFFETrustBundle =
  tb_SPIFFEID :: string
  tb_OrganizationID :: string
  tb_Domain :: string
  tb_Keys :: jval
  tb_CACerts :: "string list"
  tb_UpdatedAt :: gotime
  tb_Version :: string

text \<open>The encoding of the struct, whose keys are any JSON value.\<close>

definition bundle_json :: "SPIFFETrustBundle \<Rightarrow> jval" where
  "bundle_json b = JObj
     ([(''spiffe_id'', JStr (tb_SPIFFEID b)), (''organization_id'', JStr (tb_OrganizationID b)),
       (''domain'', JStr (tb_Domain b)), (''keys'', tb_Keys b)]
      @ (if tb_CACerts b = [] then [] else [(''ca_certs'', enc_strs (tb_CACerts b))])
      @ [(''updated_at'', JTime (tb_UpdatedAt b)), (''version'', JStr (tb_Version b))])"

text \<open>Decoding a document into an empty interface and encoding it again: objects become maps, written in the order of
  their keys.\<close>

fun as_interface :: "jval \<Rightarrow> jval" where
  "as_interface (JArr vs) = JArr (map as_interface vs)"
| "as_interface (JObj es) = JObj (sort_key fst (foldl (\<lambda>m (k, v). put_key k v m) [] (map (\<lambda>(k, v). (k, as_interface v)) es)))"
| "as_interface v = v"

definition bundle_keys :: "'s env \<Rightarrow> string \<Rightarrow> ('s world, 'e, SigningKey list) eng" where
  "bundle_keys E orgID =
     attempt (on_store (st_List (e_ops E) (KeysPrefix orgID))) (\<lambda>l. case l of
         Inl err \<Rightarrow> ret []
       | Inr list \<Rightarrow> ret (usable_keys [] list))"

definition TrustBundle :: "'s env \<Rightarrow> 's handler" where
  "TrustBundle E h0 r = answer (
     andThen (ofSum (EnableCORS h0 r)) (\<lambda>h.
     let orgID = query_tenant r in
     andThen (bundle_keys E orgID) (\<lambda>keys.
     andThen (clock E) (\<lambda>updated.
     andThen (clock E) (\<lambda>now.
     let bundle = \<lparr>tb_SPIFFEID = BuildSPIFFEID ''authpole.local'' orgID ''trust-bundle'', tb_OrganizationID = orgID,
                    tb_Domain = ''authpole.local'', tb_Keys = as_interface (BuildJWKS (e_rsa E) keys), tb_CACerts = [],
                    tb_UpdatedAt = updated, tb_Version = ''tb_'' @ FormatInt (Unix now)\<rparr>;
         h1 = Header_Set h ''Content-Type'' ''application/json'';
         h2 = Header_Set h1 ''Cache-Control'' ''public, max-age=300'';
         h3 = Header_Set h2 ''ETag'' (tb_Version bundle) in
     ret (WriteJSON h3 (bundle_json bundle)))))))"

subsection \<open>Administration\<close>

definition with_fingerprint :: "rsa_lib \<Rightarrow> SPIFFEWorkload \<Rightarrow> SPIFFEWorkload" where
  "with_fingerprint lib item =
     (if wl_ClientCertPEM item \<noteq> [] \<and> wl_CertFingerprint item = []
      then item\<lparr>wl_CertFingerprint := (case ComputeCertFingerprint lib (wl_ClientCertPEM item) of None \<Rightarrow> [] | Some fp \<Rightarrow> fp)\<rparr>
      else item)"

definition save_workload :: "'s env \<Rightarrow> Header \<Rightarrow> Request \<Rightarrow> string \<Rightarrow> ('s, Response) act" where
  "save_workload E h r orgID =
     andThen (ofSum (decode_body h r workload_fields zero_workload)) (\<lambda>item0.
     andThen (fresh_id E ''workload_'' (wl_ID item0)) (\<lambda>ident.
     let item1 = with_fingerprint (e_rsa E) (item0\<lparr>wl_ID := ident, wl_OrganizationID := orgID,
           wl_SPIFFEID := (if wl_SPIFFEID item0 = [] then BuildSPIFFEID ''authpole.local'' orgID ident else wl_SPIFFEID item0)\<rparr>) in
     andThen (clock E) (\<lambda>updated.
     andThen (created_at E (wl_CreatedAt item1)) (\<lambda>created.
     let item = item1\<lparr>wl_UpdatedAt := updated, wl_CreatedAt := created\<rparr> in
     andThen (put_item E h workload_fields item (SPIFFEWorkloadKey orgID (wl_ID item)) (expected_version r (wl_Version item)) 409) (\<lambda>newVer.
     ret (renderJSON h (marshal workload_fields (item\<lparr>wl_Version := newVer\<rparr>)) newVer))))))"

definition HandleWorkloads :: "'s env \<Rightarrow> 's handler" where
  "HandleWorkloads E h0 r = answer (as_admin E h0 r (\<lambda>h.
     let orgID = or_default (header_tenant r) in
     if r_Method r = ''GET'' then
       list_items E h workload_fields zero_workload wl_Version_update (''organizations/'' @ orgID @ ''/spiffe/workloads/'')
     else if r_Method r = ''POST'' \<or> r_Method r = ''PUT'' then save_workload E h r orgID
     else fail (method_not_allowed h)))"

end
