(* ===== verification/Server.thy ===== *)
theory Server
  imports Oidc Admin Workloads
begin

text \<open>
  \<^verbatim>\<open>pkg/api/server.go\<close>: the routes and the multiplexer that finds one, the validation endpoint, the
  cross-origin policy, and the whole server, \<open>ServeHTTP\<close>. \<open>Handler\<close> is the surface an embedding application
  mounts (\<^verbatim>\<open>authpole.go\<close>).
\<close>

subsection \<open>The multiplexer (\<^verbatim>\<open>net/http\<close>)\<close>

text \<open>
  \<^verbatim>\<open>cleanPath\<close>: no empty, \<open>.\<close> or \<open>..\<close> segments; a trailing slash stays. The model takes paths that are their own
  escaped form.
\<close>

fun clean_segments :: "string list \<Rightarrow> string list \<Rightarrow> string list" where
  "clean_segments [] out = rev out"
| "clean_segments (p # ps) out =
     (if p = [] \<or> p = ''.'' then clean_segments ps out
      else if p = ''..'' then clean_segments ps (tl out)
      else clean_segments ps (p # out))"

definition cleanPath :: "string \<Rightarrow> string" where
  "cleanPath p0 =
     (let p = (if HasPrefix p0 ''/'' then p0 else CHR ''/'' # p0);
          segs = clean_segments (Split p (CHR ''/'')) [];
          np = CHR ''/'' # Join segs ''/'' in
      if HasSuffix p ''/'' \<and> np \<noteq> ''/'' then np @ ''/'' else np)"

type_synonym 's routing = "(string \<times> 's handler) list"

definition registered :: "'s routing \<Rightarrow> string \<Rightarrow> bool" where
  "registered rs p \<longleftrightarrow> list_ex (\<lambda>(pat, _). pat = p) rs"

text \<open>A pattern that ends in a slash matches the paths below it; the longest pattern wins.\<close>

definition matches :: "string \<Rightarrow> string \<Rightarrow> bool" where
  "matches pat p \<longleftrightarrow> pat = p \<or> HasSuffix pat ''/'' \<and> HasPrefix p pat"

fun best_match :: "'s routing \<Rightarrow> string \<Rightarrow> (string \<times> 's handler) option \<Rightarrow> (string \<times> 's handler) option" where
  "best_match [] p best = best"
| "best_match ((pat, k) # rs) p best =
     best_match rs p
       (if matches pat p \<and> (case best of None \<Rightarrow> True | Some (q, _) \<Rightarrow> length q < length pat)
        then Some (pat, k) else best)"

definition with_query :: "string \<Rightarrow> Request \<Rightarrow> string" where
  "with_query p r = p @ (if r_RawQuery r = [] then [] else CHR ''?'' # r_RawQuery r)"

definition ServeMux :: "'s routing \<Rightarrow> 's handler" where
  "ServeMux rs h r w =
     (let p = (if r_Method r = ''CONNECT'' then r_Path r else cleanPath (r_Path r)) in
      if \<not> registered rs p \<and> p \<noteq> [] \<and> \<not> HasSuffix p ''/'' \<and> registered rs (p @ ''/'')
        then (Redirect h (with_query (cleanPath (r_Path r) @ ''/'') r) 301, w)
      else if p \<noteq> r_Path r then (Redirect h (with_query p r) 301, w)
      else (case best_match rs p None of None \<Rightarrow> (NotFound h, w) | Some (_, k) \<Rightarrow> k h r w))"

subsection \<open>The server\<close>

record 's Server =
  sv_env :: "'s env"
  sv_x509 :: "string \<Rightarrow> Cert option"
  sv_validator :: "'s TokenValidator"

definition NewServer :: "'s env \<Rightarrow> (string \<Rightarrow> Cert option) \<Rightarrow> 's Server" where
  "NewServer E x509 = \<lparr>sv_env = E, sv_x509 = x509, sv_validator = NewTokenValidatorWithSource (SigningKeys E)\<rparr>"

definition orgSubHandler :: "'s Server \<Rightarrow> 's handler" where
  "orgSubHandler S h r w =
     (let p = r_Path r in
      if length p \<ge> 20 \<and> drop (length p - 16) p = ''.well-known/jwks.json'' then JWKS (sv_env S) h r w
      else if length p \<ge> 30 \<and> drop (length p - 25) p = ''.well-known/spiffe-bundle.json'' then TrustBundle (sv_env S) h r w
      else (NotFound h, w))"

definition validate_answer :: "Header \<Rightarrow> AuthClaims \<Rightarrow> Response" where
  "validate_answer h claims =
     WriteJSON (Header_Set (Header_Set h ''Content-Type'' ''application/json'') ''Cache-Control'' ''no-store'')
       (JObj [(''claims'', marshal claims_fields claims), (''valid'', JBool True)])"

definition validateEndpoint :: "'s Server \<Rightarrow> 's handler" where
  "validateEndpoint S h0 r = answer (
     andThen (ofSum (EnableCORS h0 r)) (\<lambda>h.
     let orgID = or_default (header_tenant r); authHeader = header_get r ''Authorization'';
         audience = header_get r ''X-Expected-Audience'' in
     if authHeader = [] then fail (Error h (json_error ''unauthorized'' ''missing bearer token'') 401)
     else if audience = [] then fail (Error h (json_error ''invalid_request'' ''X-Expected-Audience header is required'') 400)
     else andThen (wrapErr (\<lambda>err. Error h (json_error ''invalid_token'' ''token rejected'')
                     (if err = ErrNoKeysAvailable then 503 else 401))
            (Validate (sv_env S) (sv_validator S) orgID (header_get r ''X-App-ID'') (TrimPrefix authHeader ''Bearer '')
               \<lparr>op_Issuer = IssuerFor (sv_env S) orgID, op_Audience = audience, op_TokenUse = TokenUseAccess\<rparr>))
          (\<lambda>claims. ret (validate_answer h claims))))"

definition healthz :: "'s handler" where
  "healthz h0 r = answer (
     andThen (ofSum (EnableCORS h0 r)) (\<lambda>h.
     ret (WriteText (Header_Set h ''Content-Type'' ''application/json'') ''{\"status\":\"ok\",\"service\":\"authpole\"}'')))"

definition routes :: "'s Server \<Rightarrow> 's routing" where
  "routes S = (let E = sv_env S in
    [(''/.well-known/openid-configuration'', WellKnownConfig E),
     (''/.well-known/jwks.json'', JWKS E),
     (''/organizations/'', orgSubHandler S),
     (''/tenants/'', orgSubHandler S),
     (''/oauth/v2/authorize'', Authorize E),
     (''/oauth/v2/token'', Token E),
     (''/oauth/v2/callback'', Callback E),
     (''/oauth/v2/mock_login'', MockLogin E),
     (''/api/v1/spiffe/svid'', HandleSVID E (sv_x509 S)),
     (''/spiffe/v1/svid'', HandleSVID E (sv_x509 S)),
     (''/.well-known/spiffe/bundle'', TrustBundle E),
     (''/api/v1/auth/validate'', validateEndpoint S),
     (''/api/v1/user/organizations'', HandleUserOrganizations E),
     (''/api/v1/organizations'', HandleOrganizations E),
     (''/api/v1/organizations/'', HandleOrganizations E),
     (''/api/v1/tenants'', HandleOrganizations E),
     (''/api/v1/tenants/'', HandleOrganizations E),
     (''/api/v1/apps'', HandleApps E),
     (''/api/v1/apps/'', HandleApps E),
     (''/api/v1/idps'', HandleIDPs E),
     (''/api/v1/idps/'', HandleIDPs E),
     (''/api/v1/keys'', HandleKeys E),
     (''/api/v1/admin/users'', HandleAdminUsers E),
     (''/api/v1/admin/users/'', HandleAdminUsers E),
     (''/api/v1/admin/teams'', HandleTeams E),
     (''/api/v1/admin/roles'', HandleRoles E),
     (''/api/v1/admin/spiffe/workloads'', HandleWorkloads E),
     (''/api/v1/admin/spiffe/workloads/'', HandleWorkloads E),
     (''/healthz'', healthz)])"

subsection \<open>Cross-origin policy\<close>

definition publicReadPaths :: "string list" where
  "publicReadPaths = [''/.well-known/openid-configuration'', ''/.well-known/jwks.json'', ''/.well-known/spiffe/bundle'', ''/healthz'']"

definition origin_tenant :: "Request \<Rightarrow> string" where
  "origin_tenant r =
     (let orgID = header_tenant r; orgID' = (if orgID = [] then query_get r ''organization'' else orgID) in
      if orgID' = [] then FormValue r ''organization'' else orgID')"

definition origin_client :: "Request \<Rightarrow> string" where
  "origin_client r =
     (let clientID = query_get r ''client_id'' in if clientID = [] then FormValue r ''client_id'' else clientID)"

fun any_allows :: "string \<Rightarrow> StoredRecord list \<Rightarrow> bool" where
  "any_allows origin [] = False"
| "any_allows origin (rec # recs) =
     (case unmarshal app_fields zero_app (sr_Data rec) of
        None \<Rightarrow> any_allows origin recs
      | Some app \<Rightarrow> if HasAllowedOrigin (Some app) origin then True else any_allows origin recs)"

definition originAllowed :: "'s env \<Rightarrow> Request \<Rightarrow> string \<Rightarrow> ('s world, 'e, bool) eng" where
  "originAllowed E r origin =
     (let orgID = origin_tenant r; clientID = origin_client r in
      if orgID = [] then ret False
      else if clientID \<noteq> [] then
        attempt (on_store (st_Get (e_ops E) (AppKey orgID clientID))) (\<lambda>g. case g of
            Inl err \<Rightarrow> ret False
          | Inr rec \<Rightarrow> ret (case unmarshal app_fields zero_app (sr_Data rec) of
                None \<Rightarrow> False | Some app \<Rightarrow> HasAllowedOrigin (Some app) origin))
      else attempt (on_store (st_List (e_ops E) (AppsPrefix orgID))) (\<lambda>l. case l of
            Inl err \<Rightarrow> ret False
          | Inr list \<Rightarrow> ret (any_allows origin list)))"

text \<open>Looking into the form uses the body up: a form body can no longer be decoded as JSON.\<close>

definition after_origin_check :: "Request \<Rightarrow> Request" where
  "after_origin_check r =
     (if (header_tenant r = [] \<and> query_get r ''organization'' = [] \<or> query_get r ''client_id'' = []) \<and> is_form r
      then r\<lparr>r_JSON := None\<rparr> else r)"

definition cors_methods :: "Header \<Rightarrow> Header" where
  "cors_methods h =
     Header_Set (Header_Set h ''Access-Control-Allow-Methods'' ''GET, POST, PUT, DELETE, OPTIONS'')
       ''Access-Control-Allow-Headers''
       ''Content-Type, Authorization, X-Expected-Version, X-Organization-ID, X-Tenant-ID, X-Admin-Token, X-App-ID, X-Expected-Audience''"

definition applyCORS :: "'s Server \<Rightarrow> Header \<Rightarrow> Request \<Rightarrow> ('s, Header \<times> Request) act" where
  "applyCORS S h0 r =
     (let h = cors_methods h0; origin = header_get r ''Origin'' in
      if r_Path r \<in> set publicReadPaths \<or> HasSuffix (r_Path r) ''/.well-known/jwks.json''
        then ret (Header_Set h ''Access-Control-Allow-Origin'' ''*'', r)
      else if origin = [] then ret (h, r)
      else andThen (originAllowed (sv_env S) r origin) (\<lambda>allowed.
        ret (if allowed then Header_Add (Header_Set h ''Access-Control-Allow-Origin'' origin) ''Vary'' ''Origin'' else h,
             after_origin_check r)))"

definition ServeHTTP :: "'s Server \<Rightarrow> 's handler" where
  "ServeHTTP S h0 r = answer (
     andThen (applyCORS S h0 r) (\<lambda>(h, r').
     if r_Method r' = ''OPTIONS'' then ret (WriteHeader h 204)
     else (\<lambda>w. case ServeMux (routes S) h r' w of (resp, w') \<Rightarrow> (Inr resp, w'))))"

definition Handler :: "'s Provider \<Rightarrow> (string \<Rightarrow> Cert option) \<Rightarrow> 's handler" where
  "Handler P x509 = withResolvedTenant P (ServeHTTP (NewServer (pv_env P) x509))"

end
