(* ===== verification/Seed.thy ===== *)
theory Seed
  imports Server
begin

text \<open>
  \<^verbatim>\<open>cmd/server/main.go\<close>: what the server process does before it listens. It loads the upstream providers'
  credentials from the parameter store of AWS (the \<^verbatim>\<open>aws\<close> command is a parameter), chooses a storage and seeds a
  default tenant into an empty one. Listening, signals and logging are not modelled.
\<close>

subsection \<open>Records\<close>

definition seed_organization :: "gotime \<Rightarrow> gotime \<Rightarrow> Organization" where
  "seed_organization created updated = zero_org\<lparr>org_ID := ''default'', org_Name := ''Default Organization'',
     org_Domain := ''authpole.local'', org_CreatedAt := created, org_UpdatedAt := updated\<rparr>"

definition seed_demo_app :: "gotime \<Rightarrow> gotime \<Rightarrow> Application" where
  "seed_demo_app created updated = zero_app\<lparr>app_ID := ''demo_app'', app_OrganizationID := ''default'',
     app_Name := ''Demo Client App'', app_ClientID := ''demo_app'', app_ClientSecret := ''secret_12345'',
     app_RedirectURIs := [''http://localhost:3000/callback'', ''http://localhost:8080/oauth/v2/mock_login''],
     app_AllowedIDPs := [''mock_idp''], app_Scopes := [''openid'', ''profile'', ''email''],
     app_CreatedAt := created, app_UpdatedAt := updated\<rparr>"

definition seed_admin_app :: "gotime \<Rightarrow> gotime \<Rightarrow> Application" where
  "seed_admin_app created updated = zero_app\<lparr>app_ID := ''admin_console'', app_OrganizationID := ''default'',
     app_Name := ''Authpole Admin Console'', app_ClientID := ''admin_console'', app_ClientSecret := ''admin_console_secret'',
     app_RedirectURIs := [''http://localhost:3000'', ''http://localhost:3000/callback.html'', ''http://localhost:8080/admin/'',
       ''https://authpole-admin.swii.sh'', ''https://authpole-admin.swii.sh/callback.html''],
     app_AllowedIDPs := [''google'', ''github''], app_Scopes := [''openid'', ''profile'', ''email''],
     app_CreatedAt := created, app_UpdatedAt := updated\<rparr>"

definition seed_google :: "gotime \<Rightarrow> gotime \<Rightarrow> IdentityProvider" where
  "seed_google created updated = zero_idp\<lparr>idp_ID := ''google'', idp_OrganizationID := ''default'',
     idp_Name := ''Google Workspace'', idp_Type := ''oidc'', idp_ClientID := ''google_oauth_client_id.apps.googleusercontent.com'',
     idp_ClientSecret := ''google_oauth_client_secret'', idp_AuthorizeURL := ''https://accounts.google.com/o/oauth2/v2/auth'',
     idp_TokenURL := ''https://oauth2.googleapis.com/token'', idp_Scopes := [''openid'', ''profile'', ''email''],
     idp_Enabled := True, idp_CreatedAt := created, idp_UpdatedAt := updated\<rparr>"

definition seed_github :: "gotime \<Rightarrow> gotime \<Rightarrow> IdentityProvider" where
  "seed_github created updated = zero_idp\<lparr>idp_ID := ''github'', idp_OrganizationID := ''default'',
     idp_Name := ''GitHub Enterprise'', idp_Type := ''oauth2'', idp_ClientID := ''github_oauth_client_id'',
     idp_ClientSecret := ''github_oauth_client_secret'', idp_AuthorizeURL := ''https://github.com/login/oauth/authorize'',
     idp_TokenURL := ''https://github.com/login/oauth/access_token'', idp_Scopes := [''user:email'', ''read:user''],
     idp_Enabled := True, idp_CreatedAt := created, idp_UpdatedAt := updated\<rparr>"

definition seed_admin :: "gotime \<Rightarrow> gotime \<Rightarrow> AdminUser" where
  "seed_admin created updated = zero_user\<lparr>user_ID := ''admin_root'', user_OrganizationID := ''default'',
     user_Email := ''admin@authpole.io'', user_Name := ''System Admin'', user_RoleIDs := [''super_admin''],
     user_TeamIDs := [''core_ops''], user_Active := True, user_Status := ''active'',
     user_CreatedAt := created, user_UpdatedAt := updated\<rparr>"

definition seed_role :: "gotime \<Rightarrow> gotime \<Rightarrow> Role" where
  "seed_role created updated = zero_role\<lparr>role_ID := ''super_admin'', role_OrganizationID := ''default'',
     role_Name := ''Super Administrator'',
     role_Description := ''Full access to all Auth Pole organization configurations and settings'',
     role_Permissions := [''organization:read'', ''organization:write'', ''app:manage'', ''idp:manage'', ''keys:manage''],
     role_CreatedAt := created, role_UpdatedAt := updated\<rparr>"

definition seed_team :: "gotime \<Rightarrow> gotime \<Rightarrow> Team" where
  "seed_team created updated = zero_team\<lparr>team_ID := ''core_ops'', team_OrganizationID := ''default'',
     team_Name := ''Core Operations Team'',
     team_Description := ''Platform operations and auth pole configuration maintainers'',
     team_RoleIDs := [''super_admin''], team_CreatedAt := created, team_UpdatedAt := updated\<rparr>"

definition seed_workload :: "gotime \<Rightarrow> gotime \<Rightarrow> SPIFFEWorkload" where
  "seed_workload created updated = zero_workload\<lparr>wl_ID := ''payment_service'', wl_OrganizationID := ''default'',
     wl_SPIFFEID := ''spiffe://authpole.local/ns/default/sa/payment-service'', wl_Name := ''Payment Processing Service'',
     wl_AllowedScopes := [''read:transactions'', ''write:payments''],
     wl_AllowedAudiences := [''spiffe://authpole.local/ns/default''], wl_Active := True,
     wl_CreatedAt := created, wl_UpdatedAt := updated\<rparr>"

subsection \<open>Seeding\<close>

text \<open>A record is stamped with two readings of the clock.\<close>

definition stamped :: "'s env \<Rightarrow> (gotime \<Rightarrow> gotime \<Rightarrow> 'r) \<Rightarrow> ('s world, 'e, 'r) eng" where
  "stamped E f = andThen (clock E) (\<lambda>created. andThen (clock E) (\<lambda>updated. ret (f created updated)))"

text \<open>An unconditional write whose failure is ignored; the version is then empty.\<close>

definition put_seed :: "'s env \<Rightarrow> string \<Rightarrow> jval \<Rightarrow> ('s world, 'e, string) eng" where
  "put_seed E key j =
     attempt (on_store (st_Put (e_ops E) key (Doc j) [])) (\<lambda>r. case r of Inl err \<Rightarrow> ret [] | Inr ver \<Rightarrow> ret ver)"

definition seed_item :: "'s env \<Rightarrow> 'r field list \<Rightarrow> (gotime \<Rightarrow> gotime \<Rightarrow> 'r) \<Rightarrow> string \<Rightarrow> ('s world, 'e, unit) eng" where
  "seed_item E fs f key = andThen (stamped E f) (\<lambda>item. andThen (put_seed E key (marshal fs item)) (\<lambda>_. ret ()))"

definition seed_app :: "'s env \<Rightarrow> (gotime \<Rightarrow> gotime \<Rightarrow> Application) \<Rightarrow> string \<Rightarrow> ('s world, 'e, unit) eng" where
  "seed_app E f ident =
     andThen (stamped E f) (\<lambda>app.
     andThen (put_seed E (AppKey ''default'' ident) (marshal app_fields app)) (\<lambda>ver.
     set_cached E (\<lambda>c now. SetApp c ''default'' ident (Some (app\<lparr>app_Version := ver\<rparr>)) (1 * Hour) now)))"

definition seed_key :: "'s env \<Rightarrow> ('s world, 'e, unit) eng" where
  "seed_key E =
     attempt (generate_key E ''default'' ''demo_app'') (\<lambda>r. case r of
         Inl err \<Rightarrow> ret ()
       | Inr keyPair \<Rightarrow>
           andThen (put_seed E (KeyPairKey ''default'' (key_ID keyPair)) (marshal key_fields keyPair)) (\<lambda>ver.
           set_cached E (\<lambda>c now. SetSigningKeys c ''default'' ''demo_app'' [Some (keyPair\<lparr>key_Version := ver\<rparr>)] (1 * Hour) now)))"

definition seed_default :: "'s env \<Rightarrow> ('s world, 'e, unit) eng" where
  "seed_default E =
     andThen (seed_item E org_fields seed_organization (OrganizationKey ''default'')) (\<lambda>_.
     andThen (seed_app E seed_demo_app ''demo_app'') (\<lambda>_.
     andThen (seed_app E seed_admin_app ''admin_console'') (\<lambda>_.
     andThen (seed_item E idp_fields seed_google (IDPKey ''default'' ''google'')) (\<lambda>_.
     andThen (seed_item E idp_fields seed_github (IDPKey ''default'' ''github'')) (\<lambda>_.
     andThen (seed_key E) (\<lambda>_.
     andThen (seed_item E user_fields seed_admin (AdminUserKey ''default'' ''admin_root'')) (\<lambda>_.
     andThen (seed_item E role_fields seed_role (RoleKey ''default'' ''super_admin'')) (\<lambda>_.
     andThen (seed_item E team_fields seed_team (TeamKey ''default'' ''core_ops'')) (\<lambda>_.
     seed_item E workload_fields seed_workload (SPIFFEWorkloadKey ''default'' ''payment_service''))))))))))"

definition seedInitialData :: "'s env \<Rightarrow> ('s world, 'e, unit) eng" where
  "seedInitialData E =
     attempt (on_store (st_Get (e_ops E) (OrganizationKey ''default'')))
       (\<lambda>r. if r = Inl ErrNotFound then seed_default E else ret ())"

subsection \<open>Credentials and storage\<close>

definition ssm_params :: "(string \<times> string \<times> bool) list" where
  "ssm_params =
    [(''AUTHPOLE_GOOGLE_CLIENT_ID'', ''/authpole/production/google_client_id'', False),
     (''AUTHPOLE_GOOGLE_CLIENT_SECRET'', ''/authpole/production/google_client_secret'', True),
     (''AUTHPOLE_GITHUB_CLIENT_ID'', ''/authpole/production/github_client_id'', False),
     (''AUTHPOLE_GITHUB_CLIENT_SECRET'', ''/authpole/production/github_client_secret'', True)]"

definition ssm_args :: "string \<Rightarrow> string \<Rightarrow> bool \<Rightarrow> string list" where
  "ssm_args region ssmName isSecret =
     [''ssm'', ''get-parameter'', ''--name'', ssmName, ''--query'', ''Parameter.Value'', ''--output'', ''text'', ''--region'', region]
       @ (if isSecret then [''--with-decryption''] else [])"

text \<open>The output of the command, or nothing where it fails; the process's environment is changed in place.\<close>

fun load_params ::
  "(string list \<Rightarrow> string option) \<Rightarrow> string \<Rightarrow> (string \<times> string \<times> bool) list \<Rightarrow> (string \<Rightarrow> string) \<Rightarrow> string \<Rightarrow> string" where
  "load_params aws region [] env = env"
| "load_params aws region ((envKey, ssmName, isSecret) # ps) env =
     load_params aws region ps
       (if env envKey \<noteq> [] then env
        else (case aws (ssm_args region ssmName isSecret) of
            None \<Rightarrow> env
          | Some out \<Rightarrow>
              (let val = TrimSpace out in if val \<noteq> [] \<and> val \<noteq> ''None'' then env(envKey := val) else env)))"

definition loadOAuthCredentialsFromSSM :: "(string list \<Rightarrow> string option) \<Rightarrow> (string \<Rightarrow> string) \<Rightarrow> string \<Rightarrow> string" where
  "loadOAuthCredentialsFromSSM aws env =
     load_params aws (if env ''AWS_REGION'' = [] then ''us-east-1'' else env ''AWS_REGION'') ssm_params env"

datatype storage_choice = S3Storage string string string | FSStorage string | MemoryStorage

definition choose_storage :: "string \<Rightarrow> string \<Rightarrow> string \<Rightarrow> storage_choice" where
  "choose_storage s3Bucket s3Endpoint dataDir =
     (if s3Bucket \<noteq> [] then S3Storage s3Bucket ''us-east-1'' s3Endpoint
      else if dataDir \<noteq> [] then FSStorage dataDir
      else MemoryStorage)"

definition listen_port :: "(string \<Rightarrow> string) \<Rightarrow> string \<Rightarrow> string" where
  "listen_port env port = (if env ''PORT'' \<noteq> [] then env ''PORT'' else port)"

subsection \<open>What seeding does\<close>

definition written ::
  "(string \<Rightarrow> (string \<times> blob) option) \<Rightarrow> string \<Rightarrow> 'r field list \<Rightarrow> (gotime \<Rightarrow> gotime \<Rightarrow> 'r) \<Rightarrow> bool" where
  "written st k fs f \<longleftrightarrow> (\<exists>v created updated. st k = Some (v, Doc (marshal fs (f created updated))))"

definition seed_keys :: "string set" where
  "seed_keys = {OrganizationKey ''default'', AppKey ''default'' ''demo_app'', AppKey ''default'' ''admin_console'',
     IDPKey ''default'' ''google'', IDPKey ''default'' ''github'', AdminUserKey ''default'' ''admin_root'',
     RoleKey ''default'' ''super_admin'', TeamKey ''default'' ''core_ops'', SPIFFEWorkloadKey ''default'' ''payment_service''}"

text \<open>The key that the next draw of the generator gives, if it gives one, is stored under its own id.\<close>

definition key_written ::
  "'s env \<Rightarrow> nat \<Rightarrow> (string \<Rightarrow> (string \<times> blob) option) \<Rightarrow> (string \<Rightarrow> (string \<times> blob) option) \<Rightarrow> bool" where
  "key_written E g st st' \<longleftrightarrow> (\<exists>now \<in> range (e_now E).
     case GenerateRSAKeyPair (e_genkey E g) now ''default'' ''demo_app'' of
       Inl err \<Rightarrow> \<forall>i. st' (KeyPairKey ''default'' i) = st (KeyPairKey ''default'' i)
     | Inr key \<Rightarrow> (\<exists>v. st' (KeyPairKey ''default'' (key_ID key)) = Some (v, Doc (marshal key_fields key))) \<and>
         (\<forall>i. i \<noteq> key_ID key \<longrightarrow> st' (KeyPairKey ''default'' i) = st (KeyPairKey ''default'' i)))"

text \<open>A call that always returns, and what it does to the stored objects and to the generator of keys.\<close>

type_synonym seeded = "(string \<Rightarrow> (string \<times> blob) option) \<times> nat"

definition does ::
  "('s \<Rightarrow> string \<Rightarrow> (string \<times> blob) option) \<Rightarrow> ('s world, 'e, 'a) eng \<Rightarrow> (seeded \<Rightarrow> seeded \<Rightarrow> bool) \<Rightarrow> bool" where
  "does objs m R \<longleftrightarrow> (\<forall>w. \<exists>a w'. m w = (Inr a, w') \<and> R (objs (w_store w), w_gen w) (objs (w_store w'), w_gen w'))"

definition puts :: "string \<Rightarrow> 'r field list \<Rightarrow> (gotime \<Rightarrow> gotime \<Rightarrow> 'r) \<Rightarrow> seeded \<Rightarrow> seeded \<Rightarrow> bool" where
  "puts k fs f p p' \<longleftrightarrow> (\<exists>v c u. p' = ((fst p)(k \<mapsto> (v, Doc (marshal fs (f c u)))), snd p))"

lemma doesD: "does objs m R \<Longrightarrow> \<exists>a w'. m w = (Inr a, w') \<and> R (objs (w_store w), w_gen w) (objs (w_store w'), w_gen w')"
  by (simp add: does_def)

lemma does_andThen:
  assumes "does objs m R" and "\<And>a. does objs (f a) S"
  shows "does objs (andThen m f) (R OO S)"
  unfolding does_def
proof
  fix w
  from assms(1) obtain a w1 where "m w = (Inr a, w1)" "R (objs (w_store w), w_gen w) (objs (w_store w1), w_gen w1)"
    unfolding does_def by blast
  moreover from assms(2) [of a] obtain b w2 where "f a w1 = (Inr b, w2)"
    "S (objs (w_store w1), w_gen w1) (objs (w_store w2), w_gen w2)"
    unfolding does_def by blast
  ultimately show "\<exists>b w'. andThen m f w = (Inr b, w') \<and> (R OO S) (objs (w_store w), w_gen w) (objs (w_store w'), w_gen w')"
    by (auto simp: andThen_def)
qed

lemma does_quiet: "does objs (clock E) (=)" "does objs (set_cached E g) (=)" "does objs (ret a) (=)"
  by (simp_all add: does_def prims_eq)

lemma stamped_eq:
  "stamped E f w = (Inr (f (e_now E (w_tick w)) (e_now E (Suc (w_tick w)))), w\<lparr>w_tick := Suc (Suc (w_tick w))\<rparr>)"
  by (simp add: stamped_def andThen_def clock_def ret_def)

definition puts_key :: "'s env \<Rightarrow> seeded \<Rightarrow> seeded \<Rightarrow> bool" where
  "puts_key E p p' \<longleftrightarrow> (\<exists>now \<in> range (e_now E).
     case GenerateRSAKeyPair (e_genkey E (snd p)) now ''default'' ''demo_app'' of
       Inl err \<Rightarrow> fst p' = fst p
     | Inr key \<Rightarrow> (\<exists>v. fst p' = (fst p)(KeyPairKey ''default'' (key_ID key) \<mapsto> (v, Doc (marshal key_fields key)))))"

definition seeding :: "'s env \<Rightarrow> seeded \<Rightarrow> seeded \<Rightarrow> bool" where
  "seeding E =
     puts (OrganizationKey ''default'') org_fields seed_organization
     OO puts (AppKey ''default'' ''demo_app'') app_fields seed_demo_app
     OO puts (AppKey ''default'' ''admin_console'') app_fields seed_admin_app
     OO puts (IDPKey ''default'' ''google'') idp_fields seed_google
     OO puts (IDPKey ''default'' ''github'') idp_fields seed_github
     OO puts_key E
     OO puts (AdminUserKey ''default'' ''admin_root'') user_fields seed_admin
     OO puts (RoleKey ''default'' ''super_admin'') role_fields seed_role
     OO puts (TeamKey ''default'' ''core_ops'') team_fields seed_team
     OO puts (SPIFFEWorkloadKey ''default'' ''payment_service'') workload_fields seed_workload"

context reliable_engine
begin

lemma does_put_seed: "does objs (put_seed E k j) (\<lambda>p p'. \<exists>v. p' = ((fst p)(k \<mapsto> (v, Doc j)), snd p))"
  unfolding does_def
proof
  fix w :: "'s world"
  obtain v s where p: "st_Put (e_ops E) k (Doc j) [] (w_store w) = (Inr v, s)"
    using put_total [of "[]" "w_store w" k "Doc j"] by (auto simp: cas_ok_def)
  with put_done [OF p]
  show "\<exists>v w'. put_seed E k j w = (Inr v, w') \<and>
      (\<exists>v. (objs (w_store w'), w_gen w') = ((fst (objs (w_store w), w_gen w))(k \<mapsto> (v, Doc j)), snd (objs (w_store w), w_gen w)))"
    by (auto simp: put_seed_def attempt_def on_store_def ret_def)
qed

lemma does_stamped:
  assumes "\<And>item. does objs (g item) (\<lambda>p p'. \<exists>v. p' = ((fst p)(k \<mapsto> (v, Doc (marshal fs item))), snd p))"
  shows "does objs (andThen (stamped E f) g) (puts k fs f)"
  unfolding does_def
proof
  fix w :: "'s world"
  let ?w = "w\<lparr>w_tick := Suc (Suc (w_tick w))\<rparr>" and ?i = "f (e_now E (w_tick w)) (e_now E (Suc (w_tick w)))"
  from doesD [OF assms [of ?i], of ?w] obtain a w' v where "g ?i ?w = (Inr a, w')"
    "objs (w_store w') = (objs (w_store w))(k \<mapsto> (v, Doc (marshal fs ?i)))" "w_gen w' = w_gen w"
    by auto
  then show "\<exists>a w'. andThen (stamped E f) g w = (Inr a, w') \<and>
      puts k fs f (objs (w_store w), w_gen w) (objs (w_store w'), w_gen w')"
    by (auto simp: andThen_def stamped_eq puts_def)
qed

lemma does_then_quiet: "does objs m R \<Longrightarrow> (\<And>a. does objs (n a) (=)) \<Longrightarrow> does objs (andThen m n) R"
  using does_andThen [of objs m R n "(=)"] by (simp add: OO_eq)

lemma does_seed_item: "does objs (seed_item E fs f k) (puts k fs f)"
  unfolding seed_item_def by (intro does_stamped does_then_quiet does_put_seed does_quiet)

lemma does_seed_app: "does objs (seed_app E f ident) (puts (AppKey ''default'' ident) app_fields f)"
  unfolding seed_app_def by (intro does_stamped does_then_quiet does_put_seed does_quiet)

lemma does_seed_key: "does objs (seed_key E :: ('s world, 'e, unit) eng) (puts_key E)"
  unfolding does_def
proof
  fix w :: "'s world"
  let ?now = "e_now E (w_tick w)" and ?w1 = "w\<lparr>w_gen := Suc (w_gen w), w_tick := Suc (w_tick w)\<rparr>"
  have g: "generate_key E ''default'' ''demo_app'' w = (GenerateRSAKeyPair (e_genkey E (w_gen w)) ?now ''default'' ''demo_app'', ?w1)"
    by (simp add: generate_key_def andThen_def draw_key_def clock_def ofSum_def)
  have put: "does objs (andThen (put_seed E (KeyPairKey ''default'' (key_ID k)) (marshal key_fields k)) (\<lambda>ver.
      set_cached E (\<lambda>c now. SetSigningKeys c ''default'' ''demo_app'' [Some (k\<lparr>key_Version := ver\<rparr>)] (1 * Hour) now)))
      (\<lambda>p p'. \<exists>v. p' = ((fst p)(KeyPairKey ''default'' (key_ID k) \<mapsto> (v, Doc (marshal key_fields k))), snd p))" for k
    by (intro does_then_quiet does_put_seed does_quiet)
  show "\<exists>a w'. seed_key E w = ((Inr a :: 'e + unit), w') \<and> puts_key E (objs (w_store w), w_gen w) (objs (w_store w'), w_gen w')"
  proof (cases "GenerateRSAKeyPair (e_genkey E (w_gen w)) ?now ''default'' ''demo_app''")
    case (Inl err)
    with g show ?thesis by (auto simp: seed_key_def attempt_def ret_def puts_key_def intro!: exI [of _ "w_tick w"])
  next
    case (Inr k)
    from doesD [OF put, of k ?w1] obtain a w' v where
      p: "andThen (put_seed E (KeyPairKey ''default'' (key_ID k)) (marshal key_fields k)) (\<lambda>ver.
        set_cached E (\<lambda>c now. SetSigningKeys c ''default'' ''demo_app'' [Some (k\<lparr>key_Version := ver\<rparr>)] (1 * Hour) now)) ?w1 = ((Inr a :: 'e + unit), w')"
      and w': "objs (w_store w') = (objs (w_store w))(KeyPairKey ''default'' (key_ID k) \<mapsto> (v, Doc (marshal key_fields k)))" by auto
    from g Inr have "seed_key E w = ((Inr a :: 'e + unit), w')" by (simp add: seed_key_def attempt_def p [simplified])
    moreover from Inr w' have "puts_key E (objs (w_store w), w_gen w) (objs (w_store w'), w_gen w')"
      by (auto simp: puts_key_def intro!: exI [of _ "w_tick w"])
    ultimately show ?thesis by blast
  qed
qed

lemma does_seed_default: "does objs (seed_default E) (seeding E)"
  unfolding seed_default_def seeding_def by (intro does_andThen does_seed_item does_seed_app does_seed_key)

end

lemma puts_written: "puts k fs f p p' \<Longrightarrow> written (fst p') k fs f"
  by (auto simp: puts_def written_def) blast

lemma puts_other: "puts k fs f p p' \<Longrightarrow> k' \<noteq> k \<Longrightarrow> fst p' k' = fst p k'"
  by (auto simp: puts_def)

lemma puts_gen: "puts k fs f p p' \<Longrightarrow> snd p' = snd p"
  by (auto simp: puts_def)

lemma puts_key_other: "puts_key E p p' \<Longrightarrow> k \<notin> range (KeyPairKey ''default'') \<Longrightarrow> fst p' k = fst p k"
  unfolding puts_key_def by (erule bexE) (auto split: sum.split_asm)

lemma puts_key_written: "puts_key E p p' \<Longrightarrow> key_written E (snd p) (fst p) (fst p')"
  unfolding puts_key_def key_written_def by (erule bexE, rule bexI, auto simp: key_defs split: sum.splits)

lemma seeding_result:
  assumes "seeding E (st, g) (st', g')"
  shows "written st' (OrganizationKey ''default'') org_fields seed_organization" (is ?A)
    and "written st' (AppKey ''default'' ''demo_app'') app_fields seed_demo_app" (is ?B)
    and "written st' (AppKey ''default'' ''admin_console'') app_fields seed_admin_app" (is ?C)
    and "written st' (IDPKey ''default'' ''google'') idp_fields seed_google" (is ?D)
    and "written st' (IDPKey ''default'' ''github'') idp_fields seed_github" (is ?E)
    and "written st' (AdminUserKey ''default'' ''admin_root'') user_fields seed_admin" (is ?F)
    and "written st' (RoleKey ''default'' ''super_admin'') role_fields seed_role" (is ?G)
    and "written st' (TeamKey ''default'' ''core_ops'') team_fields seed_team" (is ?H)
    and "written st' (SPIFFEWorkloadKey ''default'' ''payment_service'') workload_fields seed_workload" (is ?I)
    and "key_written E g st st'" (is ?K)
    and "k \<notin> seed_keys \<Longrightarrow> k \<notin> range (KeyPairKey ''default'') \<Longrightarrow> st' k = st k" (is "_ \<Longrightarrow> _ \<Longrightarrow> ?J")
proof -
  from assms obtain s1 s2 s3 s4 s5 s6 s7 s8 s9 where
    p: "puts (OrganizationKey ''default'') org_fields seed_organization (st, g) s1"
      "puts (AppKey ''default'' ''demo_app'') app_fields seed_demo_app s1 s2"
      "puts (AppKey ''default'' ''admin_console'') app_fields seed_admin_app s2 s3"
      "puts (IDPKey ''default'' ''google'') idp_fields seed_google s3 s4"
      "puts (IDPKey ''default'' ''github'') idp_fields seed_github s4 s5"
      "puts (AdminUserKey ''default'' ''admin_root'') user_fields seed_admin s6 s7"
      "puts (RoleKey ''default'' ''super_admin'') role_fields seed_role s7 s8"
      "puts (TeamKey ''default'' ''core_ops'') team_fields seed_team s8 s9"
      "puts (SPIFFEWorkloadKey ''default'' ''payment_service'') workload_fields seed_workload s9 (st', g')"
    and key: "puts_key E s5 s6"
    unfolding seeding_def relcompp_apply by (elim exE conjE)
  note k = puts_key_other [OF key] and w = p [THEN puts_written, unfolded fst_conv] and o = p [THEN puts_other, unfolded fst_conv]
  show ?A ?B ?C ?D ?E ?F ?G ?H ?I
    using w unfolding written_def by (simp_all add: o k key_defs image_iff)
  have "snd s5 = g" using p [THEN puts_gen] by simp
  moreover have "fst s5 (KeyPairKey ''default'' i) = st (KeyPairKey ''default'' i)"
    "st' (KeyPairKey ''default'' i) = fst s6 (KeyPairKey ''default'' i)" for i
    using o by (simp_all add: key_defs)
  ultimately show ?K using puts_key_written [OF key] unfolding key_written_def by (simp only: split: sum.splits)
  show ?J if "k \<notin> seed_keys" "k \<notin> range (KeyPairKey ''default'')" using that by (simp add: o k seed_keys_def)
qed

text \<open>The two ways a start of the process goes.\<close>

context reliable_engine
begin

lemma seed_absent:
  assumes "(seedInitialData E :: ('s world, 'e, unit) eng) w = (r, w')"
    and "objs (w_store w) (OrganizationKey ''default'') = None"
  shows "seeding E (objs (w_store w), w_gen w) (objs (w_store w'), w_gen w')"
proof -
  from get_absent [OF assms(2)] obtain s where
    g: "st_Get (e_ops E) (OrganizationKey ''default'') (w_store w) = (Inl ErrNotFound, s)" by blast
  have "(seedInitialData E :: ('s world, 'e, unit) eng) w = seed_default E (w\<lparr>w_store := s\<rparr>)"
    by (simp add: seedInitialData_def attempt_def on_store_def g)
  with assms(1) have x: "seed_default E (w\<lparr>w_store := s\<rparr>) = (r, w')" by (simp only:)
  from doesD [OF does_seed_default]
  have "\<exists>a w2. (seed_default E :: ('s world, 'e, unit) eng) (w\<lparr>w_store := s\<rparr>) = (Inr a, w2) \<and>
    seeding E (objs (w_store (w\<lparr>w_store := s\<rparr>)), w_gen (w\<lparr>w_store := s\<rparr>)) (objs (w_store w2), w_gen w2)" .
  with x get_frame [OF g] show ?thesis by simp
qed

lemma seed_present:
  assumes "(seedInitialData E :: ('s world, 'e, unit) eng) w = (r, w')"
    and "objs (w_store w) (OrganizationKey ''default'') = Some vd"
  shows "objs (w_store w') = objs (w_store w) \<and> w_cache w' = w_cache w"
proof -
  from assms(2) obtain v d where "objs (w_store w) (OrganizationKey ''default'') = Some (v, d)" by (cases vd) auto
  from get_total [OF this] obtain s where
    g: "st_Get (e_ops E) (OrganizationKey ''default'') (w_store w) =
      (Inr \<lparr>sr_Key = OrganizationKey ''default'', sr_Version = v, sr_Data = d\<rparr>, s)" by blast
  with assms(1) have "w' = w\<lparr>w_store := s\<rparr>"
    by (simp add: seedInitialData_def attempt_def on_store_def)
  with get_frame [OF g] show ?thesis by simp
qed

lemma default_exists:
  assumes "(seedInitialData E :: ('s world, 'e, unit) eng) w = (r, w')"
  shows "objs (w_store w') (OrganizationKey ''default'') \<noteq> None"
proof (cases "objs (w_store w) (OrganizationKey ''default'')")
  case None
  from seeding_result(1) [OF seed_absent [OF assms None]] show ?thesis by (auto simp: written_def)
next
  case (Some vd)
  with seed_present [OF assms Some] show ?thesis by simp
qed

end

lemma reliable_engineI: "reliable_store (e_ops E) objs \<Longrightarrow> reliable_engine E objs"
  by (intro reliable_engine.intro engine_store.intro) (auto dest: reliable_store.axioms)



end
