(* ===== verification/Surface.thy ===== *)
theory Surface
  imports Server
begin

text \<open>
  Properties of the HTTP surface: how a request reaches the engine, and what the answers say.
\<close>

subsection \<open>From a request to a handler\<close>

lemma HasPrefix_simps [simp]:
  "HasPrefix s []" "\<not> HasPrefix [] (d # p)" "HasPrefix (c # s) (d # p) \<longleftrightarrow> c = d \<and> HasPrefix s p"
  by (auto simp: HasPrefix_iff)

lemma answer_ofSum: "answer (andThen (ofSum s) f) w = (case s of Inl resp \<Rightarrow> (resp, w) | Inr a \<Rightarrow> answer (f a) w)"
  by (cases s) (simp_all add: answer_def andThen_def ofSum_def)

lemma answer_simps [simp]: "answer (ret resp) w = (resp, w)" "answer (fail resp) w = (resp, w)"
  by (simp_all add: answer_def ret_def fail_def)

lemma EnableCORS_Inr: "r_Method r \<noteq> ''OPTIONS'' \<Longrightarrow>
    EnableCORS h r = Inr (Header_Set (Header_Set (Header_Set h ''Access-Control-Allow-Origin'' ''*'')
      ''Access-Control-Allow-Headers'' ''Content-Type, Authorization, X-Expected-Version, X-Organization-ID, X-Tenant-ID, X-Admin-Token, X-App-ID'')
      ''Access-Control-Allow-Methods'' ''GET, POST, PUT, DELETE, OPTIONS'')"
  by (simp add: EnableCORS_def)

lemma ServeHTTP_routed:
  assumes "applyCORS S h0 r w = (Inr (h, r'), w1)" and "r_Method r' \<noteq> ''OPTIONS''"
  shows "ServeHTTP S h0 r w = ServeMux (routes S) h r' w1"
  using assms by (simp add: ServeHTTP_def answer_def andThen_def split: prod.splits)

lemma applyCORS_no_origin:
  "header_get r ''Origin'' = [] \<Longrightarrow> \<exists>h. applyCORS S h0 r w = (Inr (h, r), w)"
  by (simp add: applyCORS_def ret_def Let_def)

lemma originAllowed_total: "\<exists>b w1. originAllowed E r origin w = (Inr b, w1)"
  by (auto simp: originAllowed_def Let_def attempt_def ret_def split: prod.splits sum.splits)

text \<open>Whatever the policy decides, the request that is routed has the same method and path.\<close>

lemma applyCORS_result:
  "\<exists>h r' w1. applyCORS S h0 r w = (Inr (h, r'), w1) \<and> (r' = r \<or> r' = r\<lparr>r_JSON := None\<rparr>)"
proof -
  obtain b w1 where "(originAllowed (sv_env S) r (header_get r ''Origin'') :: ('a, bool) act) w = (Inr b, w1)"
    using originAllowed_total by blast
  then show ?thesis by (auto simp: applyCORS_def Let_def andThen_def ret_def after_origin_check_def)
qed

text \<open>Using up the body changes nothing else that a handler reads.\<close>

lemma body_used [simp]:
  "query_get (r\<lparr>r_JSON := j\<rparr>) = query_get r" "header_get (r\<lparr>r_JSON := j\<rparr>) = header_get r" "is_form (r\<lparr>r_JSON := j\<rparr>) = is_form r"
  by (simp_all add: fun_eq_iff query_get_def Query_def header_get_def is_form_def)

lemma body_used_form [simp]: "FormValue (r\<lparr>r_JSON := j\<rparr>) = FormValue r"
  by (simp add: fun_eq_iff FormValue_def form_values_def Query_def)

lemma body_used_derived [simp]:
  "TenantFromQuery (r\<lparr>r_JSON := j\<rparr>) = TenantFromQuery r" "query_tenant (r\<lparr>r_JSON := j\<rparr>) = query_tenant r"
  "header_tenant (r\<lparr>r_JSON := j\<rparr>) = header_tenant r" "computeServerBaseURL (r\<lparr>r_JSON := j\<rparr>) = computeServerBaseURL r"
  "BasicAuth (r\<lparr>r_JSON := j\<rparr>) = BasicAuth r" "token_request_of (r\<lparr>r_JSON := j\<rparr>) = token_request_of r"
  by (simp_all add: TenantFromQuery_def query_tenant_def header_tenant_def computeServerBaseURL_def BasicAuth_def
      token_request_of_def client_credentials_def form_tenant_def Let_def)

text \<open>Clean paths: segments that are neither empty nor dots are left as they are.\<close>

lemma clean_segments_plain:
  "\<forall>p \<in> set ps. p \<noteq> [] \<and> p \<noteq> ''.'' \<and> p \<noteq> ''..'' \<Longrightarrow> clean_segments ps out = rev out @ ps"
  by (induction ps arbitrary: out) auto

lemma Split_snoc: "Split (t @ [c]) c = Split t c @ [[]]"
  by (induction t) (auto split: list.splits)

lemma cleanPath_segments:
  assumes "ps \<noteq> []" and "\<forall>p \<in> set ps. p \<noteq> [] \<and> p \<noteq> ''.'' \<and> p \<noteq> ''..'' \<and> CHR ''/'' \<notin> set p"
  shows "cleanPath (CHR ''/'' # Join ps ''/'') = CHR ''/'' # Join ps ''/''"
proof -
  have s: "Split (CHR ''/'' # Join ps ''/'') CHR ''/'' = [] # ps"
    using Split_Join [OF assms(1)] assms(2) by simp
  have "\<not> HasSuffix (CHR ''/'' # Join ps ''/'') ''/''"
  proof
    assume "HasSuffix (CHR ''/'' # Join ps ''/'') ''/''"
    then obtain t where t: "CHR ''/'' # Join ps ''/'' = t @ ''/''" by (auto simp: HasSuffix_iff)
    with s Split_snoc [of t "CHR ''/''"] have "[] # ps = Split t CHR ''/'' @ [[]]" by simp
    with assms show False by (metis last_ConsR last_in_set last_snoc)
  qed
  with s clean_segments_plain [of ps "[]"] assms(2) show ?thesis
    by (simp add: cleanPath_def Let_def)
qed

text \<open>The longest matching pattern: one that matches exactly, or the only one that matches.\<close>

lemma best_match_append_none:
  "\<forall>q \<in> set rs. \<not> matches (fst q) p \<Longrightarrow> best_match rs p best = best"
  by (induction rs p best rule: best_match.induct) auto

lemma cleanPath_nonempty: "cleanPath p \<noteq> []"
  by (simp add: cleanPath_def Let_def)

text \<open>A path that no pattern but one matches, and whose extension by a slash is not a pattern.\<close>

lemma ServeMux_to:
  assumes "cleanPath (r_Path r) = r_Path r" and "rs = before @ (pat, k) # after" and "matches pat (r_Path r)"
    and "\<forall>q \<in> set before \<union> set after. \<not> matches (fst q) (r_Path r)" and "\<not> registered rs (r_Path r @ ''/'')"
  shows "ServeMux rs h r w = k h r w"
proof -
  have app: "best_match (xs @ ys) p b = best_match ys p (best_match xs p b)" for xs ys :: "('a routing)" and p b
    by (induction xs p b rule: best_match.induct) auto
  have "best_match rs (r_Path r) None = Some (pat, k)"
    using assms(3,4) by (simp add: assms(2) app best_match_append_none)
  moreover have "r_Path r \<noteq> []" using assms(1) cleanPath_nonempty by metis
  ultimately show ?thesis using assms(1,5) by (simp add: ServeMux_def Let_def)
qed

definition plain_segment :: "string \<Rightarrow> bool" where
  "plain_segment s \<longleftrightarrow> s \<noteq> [] \<and> s \<noteq> ''.'' \<and> s \<noteq> ''..'' \<and> CHR ''/'' \<notin> set s"

lemma orgSubHandler_404: "orgSubHandler S h r w = (NotFound h, w)"
proof -
  have short: "drop (length p - n) p \<noteq> lit" if "n < length lit" for p n and lit :: string
  proof
    assume "drop (length p - n) p = lit"
    then have "length p - (length p - n) = length lit" by (metis length_drop)
    with that show False by simp
  qed
  show ?thesis using short [of 16 "''.well-known/jwks.json''" "r_Path r"] short [of 25 "''.well-known/spiffe-bundle.json''" "r_Path r"]
    by (simp add: orgSubHandler_def Let_def)
qed

text \<open>The pattern \<open>/organizations/\<close> is the only one for paths below it.\<close>

lemma routes_split:
  "routes S = [(''/.well-known/openid-configuration'', WellKnownConfig (sv_env S)), (''/.well-known/jwks.json'', JWKS (sv_env S))]
     @ (''/organizations/'', orgSubHandler S) # drop 3 (routes S)"
  by (simp add: routes_def Let_def)

lemma organizations_only:
  "q \<in> set (drop 3 (routes S)) \<Longrightarrow> \<not> matches (fst q) (''/organizations/'' @ x)"
  "\<not> registered (routes S) (''/organizations/'' @ c # x)"
  by (auto simp: routes_def Let_def matches_def registered_def)

lemma HasSuffix_slash: "HasSuffix s ''/'' \<longleftrightarrow> s \<noteq> [] \<and> last s = CHR ''/''"
  by (cases s rule: rev_cases) (auto simp: HasSuffix_iff)

text \<open>The fixed paths used below.\<close>

lemma fixed_paths_clean:
  "cleanPath ''/.well-known/openid-configuration'' = ''/.well-known/openid-configuration''"
  "cleanPath ''/oauth/v2/token'' = ''/oauth/v2/token''"
  "cleanPath ''/oauth/v2/mock_login'' = ''/oauth/v2/mock_login''"
  "cleanPath ''/api/v1/auth/validate'' = ''/api/v1/auth/validate''"
  by (simp_all add: cleanPath_def Let_def HasSuffix_slash)

lemma best_match_skip:
  "\<not> matches pat p \<Longrightarrow> best_match ((pat, k) # rs) p best = best_match rs p best"
  "matches pat p \<Longrightarrow> best_match ((pat, k) # rs) p None = best_match rs p (Some (pat, k))"
  by simp_all

lemma ServeMux_fixed:
  assumes "r_Path r = p" and "cleanPath p = p" and "best_match rs p None = Some (pat, k)" and "\<not> registered rs (p @ ''/'')"
  shows "ServeMux rs h r w = k h r w"
  using assms cleanPath_nonempty [of p] by (simp add: ServeMux_def Let_def)

lemma best_matches:
  "best_match (routes S) ''/.well-known/openid-configuration'' None = Some (''/.well-known/openid-configuration'', WellKnownConfig (sv_env S))"
  "best_match (routes S) ''/oauth/v2/token'' None = Some (''/oauth/v2/token'', Token (sv_env S))"
  "best_match (routes S) ''/oauth/v2/mock_login'' None = Some (''/oauth/v2/mock_login'', MockLogin (sv_env S))"
  "best_match (routes S) ''/api/v1/auth/validate'' None = Some (''/api/v1/auth/validate'', validateEndpoint S)"
  unfolding routes_def Let_def
  by (simp_all add: best_match_skip matches_def HasSuffix_slash del: best_match.simps(2))

lemma not_registered:
  "\<not> registered (routes S) (''/.well-known/openid-configuration'' @ ''/'')" "\<not> registered (routes S) (''/oauth/v2/token'' @ ''/'')"
  "\<not> registered (routes S) (''/oauth/v2/mock_login'' @ ''/'')" "\<not> registered (routes S) (''/api/v1/auth/validate'' @ ''/'')"
  by (simp_all add: routes_def Let_def registered_def)

lemma routed:
  "r_Path r = ''/.well-known/openid-configuration'' \<Longrightarrow> ServeMux (routes S) h r w = WellKnownConfig (sv_env S) h r w"
  "r_Path r = ''/oauth/v2/token'' \<Longrightarrow> ServeMux (routes S) h r w = Token (sv_env S) h r w"
  "r_Path r = ''/oauth/v2/mock_login'' \<Longrightarrow> ServeMux (routes S) h r w = MockLogin (sv_env S) h r w"
  "r_Path r = ''/api/v1/auth/validate'' \<Longrightarrow> ServeMux (routes S) h r w = validateEndpoint S h r w"
  by (erule ServeMux_fixed, rule fixed_paths_clean, rule best_matches, rule not_registered)+

lemma routed_organizations:
  assumes "cleanPath (r_Path r) = r_Path r" and "r_Path r = ''/organizations/'' @ c # x"
  shows "ServeMux (routes S) h r w = (NotFound h, w)"
proof -
  have "ServeMux (routes S) h r w = orgSubHandler S h r w"
    by (rule ServeMux_to [OF assms(1) routes_split])
      (use organizations_only [where S = S] in \<open>auto simp: assms(2) matches_def HasSuffix_slash\<close>)
  then show ?thesis by (simp add: orgSubHandler_404)
qed

subsection \<open>Discovery\<close>

text \<open>
  C38. The advertised key set is not there: for every tenant, the discovery document names
  \<open>{base}/organizations/{org}/.well-known/jwks.json\<close> as its \<open>jwks_uri\<close>, and the same server answers any request for
  that path, whatever its method short of OPTIONS and its tenant, with 404.
\<close>

theorem advertised_jwks_missing:
  assumes "r_Path q = ''/.well-known/openid-configuration''" and "r_Method q \<noteq> ''OPTIONS''"
    and "r_Path r = jwks_path (query_tenant q)" and "r_Method r \<noteq> ''OPTIONS''" and "plain_segment (query_tenant q)"
  shows "(\<exists>doc. rs_Body (fst (ServeHTTP S h q w)) = JSON (JObj doc) \<and>
      map_of doc ''jwks_uri'' = Some (JStr (computeServerBaseURL q @ r_Path r))) \<and>
    rs_Status (fst (ServeHTTP S h' r w')) = 404"
proof
  obtain h1 q' w1 where c: "applyCORS S h q w = (Inr (h1, q'), w1)" "q' = q \<or> q' = q\<lparr>r_JSON := None\<rparr>"
    using applyCORS_result by blast
  then have same: "query_tenant q' = query_tenant q" "computeServerBaseURL q' = computeServerBaseURL q"
    and q': "r_Path q' = r_Path q" "r_Method q' = r_Method q"
    by auto
  have "ServeHTTP S h q w = WellKnownConfig (sv_env S) h1 q' w1"
    using ServeHTTP_routed [OF c(1)] routed(1) [of q'] q' assms(1,2) by simp
  then show "\<exists>doc. rs_Body (fst (ServeHTTP S h q w)) = JSON (JObj doc) \<and>
      map_of doc ''jwks_uri'' = Some (JStr (computeServerBaseURL q @ r_Path r))"
    using q' assms(2,3)
    by (simp add: WellKnownConfig_def answer_ofSum EnableCORS_Inr Let_def discovery_def same)
next
  obtain h1 r' w1 where c: "applyCORS S h' r w' = (Inr (h1, r'), w1)" "r' = r \<or> r' = r\<lparr>r_JSON := None\<rparr>"
    using applyCORS_result by blast
  let ?org = "query_tenant q"
  have p: "r_Path r' = ''/organizations/'' @ ?org @ ''/.well-known/jwks.json''" and m: "r_Method r' \<noteq> ''OPTIONS''"
    using c(2) assms(3,4) by (auto simp: jwks_path_def)
  have clean: "cleanPath (r_Path r') = r_Path r'"
    using cleanPath_segments [of "[''organizations'', ?org, ''.well-known'', ''jwks.json'']"] assms(5)
    by (simp add: p plain_segment_def)
  obtain d x where "?org = d # x" using assms(5) by (cases ?org) (auto simp: plain_segment_def)
  with p have "ServeMux (routes S) h1 r' w1 = (NotFound h1, w1)"
    using routed_organizations [OF clean, of d "x @ ''/.well-known/jwks.json''"] by simp
  with ServeHTTP_routed [OF c(1) m] show "rs_Status (fst (ServeHTTP S h' r w')) = 404"
    by (simp add: NotFound_def)
qed

definition demo_server :: "memdb Server" where
  "demo_server = NewServer demo_env (\<lambda>_. None)"

lemma advertised_jwks_missing_witness:
  "let q = demo_http\<lparr>r_Path := ''/.well-known/openid-configuration'', r_RawQuery := ''organization=acme''\<rparr>;
       r = demo_http\<lparr>r_Path := ''/organizations/acme/.well-known/jwks.json''\<rparr> in
   (\<exists>doc. rs_Body (fst (ServeHTTP demo_server no_header q demo_world)) = JSON (JObj doc) \<and>
      map_of doc ''jwks_uri'' = Some (JStr (computeServerBaseURL q @ ''/organizations/acme/.well-known/jwks.json''))) \<and>
   rs_Status (fst (ServeHTTP demo_server no_header r demo_world)) = 404"
proof -
  let ?q = "demo_http\<lparr>r_Path := ''/.well-known/openid-configuration'', r_RawQuery := ''organization=acme''\<rparr>"
  let ?r = "demo_http\<lparr>r_Path := ''/organizations/acme/.well-known/jwks.json''\<rparr>"
  have t: "query_tenant ?q = ''acme''" by code_simp
  have m: "r_Method ?q \<noteq> ''OPTIONS''" "r_Method ?r \<noteq> ''OPTIONS''" by (simp_all add: demo_http_def)
  show ?thesis
    using advertised_jwks_missing [of ?q ?r demo_server no_header demo_world no_header demo_world] t m
    by (simp add: jwks_path_def plain_segment_def Let_def)
qed

subsection \<open>The token endpoint\<close>

lemma answer_headers:
  "Header_Get (rs_Header (Error h m c)) ''Access-Control-Allow-Origin'' = Header_Get h ''Access-Control-Allow-Origin''"
  "Header_Get (rs_Header (Errorf h m e c)) ''Access-Control-Allow-Origin'' = Header_Get h ''Access-Control-Allow-Origin''"
  "Header_Get (rs_Header (token_answer h t)) ''Access-Control-Allow-Origin'' = Header_Get h ''Access-Control-Allow-Origin''"
  by (simp_all add: Error_def Errorf_def token_answer_def json_header_def WriteJSON_def CanonicalKey_def token_char_def
      upper_def lower_def)

lemma originAllowed_frame:
  assumes "cas_store (e_ops E) objs" and "originAllowed E r origin w = (b, w')"
  shows "\<exists>s. w' = w\<lparr>w_store := s\<rparr> \<and> objs s = objs (w_store w)"
proof -
  note get_frame = cas_store.get_frame [OF assms(1)] and list_frame = cas_store.list_frame [OF assms(1)]
  have s: "\<exists>s. w = w\<lparr>w_store := s\<rparr> \<and> objs s = objs (w_store w)" by (rule exI [of _ "w_store w"]) simp
  from assms(2) s show ?thesis
    by (auto simp: originAllowed_def Let_def attempt_sum on_store_eq split: if_splits
        dest!: get_frame list_frame intro: s)
qed

lemma applyCORS_frame:
  assumes "cas_store (e_ops (sv_env S)) objs" and "applyCORS S h0 r w = (x, w')"
  shows "\<exists>s. w' = w\<lparr>w_store := s\<rparr> \<and> objs s = objs (w_store w)"
proof -
  have s: "\<exists>s. w = w\<lparr>w_store := s\<rparr> \<and> objs s = objs (w_store w)" by (rule exI [of _ "w_store w"]) simp
  show ?thesis
  proof (cases "w' = w")
    case True
    with s show ?thesis by simp
  next
    case False
    with assms(2) obtain b where "(originAllowed (sv_env S) r (header_get r ''Origin'') :: ('a, bool) act) w = (b, w')"
      by (auto simp: applyCORS_def Let_def andThen_def split: if_splits prod.splits sum.splits)
    with originAllowed_frame [OF assms(1)] show ?thesis by blast
  qed
qed

lemma token_routed:
  assumes "r_Path r = ''/oauth/v2/token''" and "r_Method r = ''POST''"
  obtains h x w1 where "Header_Get h ''Access-Control-Allow-Origin'' = ''*''" and "applyCORS S h0 r w = (Inr x, w1)"
    and "ServeHTTP S h0 r w =
      (let req = token_request_of r in
       case token_request_error req of
         Some msg \<Rightarrow> (Error h (json_error ''invalid_request'' msg) 400, w1)
       | None \<Rightarrow> (case ExchangeCodeForToken (sv_env S) req w1 of
           (Inl err, w') \<Rightarrow> (Errorf h (json_error ''invalid_grant'' ''%s'') (EngineErr err) 400, w')
         | (Inr resp, w') \<Rightarrow> (token_answer h resp, w')))"
proof -
  obtain h1 r' w1 where c: "applyCORS S h0 r w = (Inr (h1, r'), w1)" "r' = r \<or> r' = r\<lparr>r_JSON := None\<rparr>"
    using applyCORS_result by blast
  from c(2) assms have r': "r_Path r' = ''/oauth/v2/token''" "r_Method r' = ''POST''" "token_request_of r' = token_request_of r"
    by auto
  obtain h where h: "EnableCORS h1 r' = Inr h" "Header_Get h ''Access-Control-Allow-Origin'' = ''*''"
    using r'(2) by (simp add: EnableCORS_Inr CanonicalKey_def token_char_def upper_def lower_def)
  have "ServeHTTP S h0 r w = Token (sv_env S) h1 r' w1"
    using ServeHTTP_routed [OF c(1)] routed(2) [OF r'(1)] r'(2) by simp
  also have "\<dots> = (let req = token_request_of r in
       case token_request_error req of
         Some msg \<Rightarrow> (Error h (json_error ''invalid_request'' msg) 400, w1)
       | None \<Rightarrow> (case ExchangeCodeForToken (sv_env S) req w1 of
           (Inl err, w') \<Rightarrow> (Errorf h (json_error ''invalid_grant'' ''%s'') (EngineErr err) 400, w')
         | (Inr resp, w') \<Rightarrow> (token_answer h resp, w')))"
    by (simp add: Token_def answer_ofSum h(1) r' Let_def answer_def andThen_def wrapErr_def ret_def fail_def
        split: option.split prod.split sum.split)
  finally show thesis using that [OF h(2) c(1)] by blast
qed

lemma token_served:
  assumes "cas_store (e_ops (sv_env S)) objs" and "r_Path r = ''/oauth/v2/token''" and "r_Method r = ''POST''"
  shows "\<exists>h s. Header_Get h ''Access-Control-Allow-Origin'' = ''*'' \<and> objs s = objs (w_store w) \<and> ServeHTTP S h0 r w =
      (let req = token_request_of r; w1 = w\<lparr>w_store := s\<rparr> in
       case token_request_error req of
         Some msg \<Rightarrow> (Error h (json_error ''invalid_request'' msg) 400, w1)
       | None \<Rightarrow> (case ExchangeCodeForToken (sv_env S) req w1 of
           (Inl err, w') \<Rightarrow> (Errorf h (json_error ''invalid_grant'' ''%s'') (EngineErr err) 400, w')
         | (Inr resp, w') \<Rightarrow> (token_answer h resp, w')))"
proof (rule token_routed [OF assms(2,3), of S h0 w])
  fix h x w1
  assume h: "Header_Get h ''Access-Control-Allow-Origin'' = ''*''" and c: "applyCORS S h0 r w = (Inr x, w1)"
    and served: "ServeHTTP S h0 r w =
      (let req = token_request_of r in
       case token_request_error req of
         Some msg \<Rightarrow> (Error h (json_error ''invalid_request'' msg) 400, w1)
       | None \<Rightarrow> (case ExchangeCodeForToken (sv_env S) req w1 of
           (Inl err, w') \<Rightarrow> (Errorf h (json_error ''invalid_grant'' ''%s'') (EngineErr err) 400, w')
         | (Inr resp, w') \<Rightarrow> (token_answer h resp, w')))"
  from applyCORS_frame [OF assms(1) c] obtain s where w1: "w1 = w\<lparr>w_store := s\<rparr>" and s: "objs s = objs (w_store w)" by blast
  from h s served [unfolded w1] show ?thesis unfolding Let_def by blast
qed

text \<open>
  C11. The token endpoint is the engine's exchange: a POST to \<open>/oauth/v2/token\<close> whose parameters are complete is
  answered with the result of \<^verbatim>\<open>ExchangeCodeForToken\<close> on them, 200 and the tokens or 400 and the error, and leaves
  the world that call leaves; one whose parameters are not complete is answered 400 and changes no object. Every
  answer allows any origin, against the policy \<^verbatim>\<open>applyCORS\<close> states for this endpoint.
\<close>

theorem token_endpoint_refines:
  assumes "cas_store (e_ops (sv_env S)) objs" and "r_Path r = ''/oauth/v2/token''" and "r_Method r = ''POST''"
  shows "Header_Get (rs_Header (fst (ServeHTTP S h0 r w))) ''Access-Control-Allow-Origin'' = ''*'' \<and>
    (\<exists>h s. objs s = objs (w_store w) \<and> ServeHTTP S h0 r w =
      (let req = token_request_of r; w1 = w\<lparr>w_store := s\<rparr> in
       case token_request_error req of
         Some msg \<Rightarrow> (Error h (json_error ''invalid_request'' msg) 400, w1)
       | None \<Rightarrow> (case ExchangeCodeForToken (sv_env S) req w1 of
           (Inl err, w') \<Rightarrow> (Errorf h (json_error ''invalid_grant'' ''%s'') (EngineErr err) 400, w')
         | (Inr resp, w') \<Rightarrow> (token_answer h resp, w'))))"
proof -
  obtain h s where h: "Header_Get h ''Access-Control-Allow-Origin'' = ''*''" and s: "objs s = objs (w_store w)"
    and eq: "ServeHTTP S h0 r w = (let req = token_request_of r; w1 = w\<lparr>w_store := s\<rparr> in
       case token_request_error req of
         Some msg \<Rightarrow> (Error h (json_error ''invalid_request'' msg) 400, w1)
       | None \<Rightarrow> (case ExchangeCodeForToken (sv_env S) req w1 of
           (Inl err, w') \<Rightarrow> (Errorf h (json_error ''invalid_grant'' ''%s'') (EngineErr err) 400, w')
         | (Inr resp, w') \<Rightarrow> (token_answer h resp, w')))"
    using token_served [OF assms, of w h0] by blast
  have "Header_Get (rs_Header (Error h m c)) ''Access-Control-Allow-Origin'' = ''*''"
    "Header_Get (rs_Header (Errorf h m e c)) ''Access-Control-Allow-Origin'' = ''*''"
    "Header_Get (rs_Header (token_answer h t)) ''Access-Control-Allow-Origin'' = ''*''" for m c e t
    using h by (simp_all add: answer_headers)
  then have "Header_Get (rs_Header (fst (ServeHTTP S h0 r w))) ''Access-Control-Allow-Origin'' = ''*''"
    unfolding eq by (simp add: Let_def split: option.split prod.split sum.split)
  with eq s show ?thesis by (auto simp: Let_def)
qed

definition demo_token_post :: Request where
  "demo_token_post = demo_http\<lparr>r_Method := ''POST'', r_Path := ''/oauth/v2/token'',
     r_RawQuery := ''client_id=web&client_secret=s3cret&code=c1''\<rparr>"

lemma demo_token_request: "token_request_of demo_token_post = demo_request\<lparr>tr_OrganizationID := ''default'', tr_RefreshToken := []\<rparr>"
  by code_simp

lemma token_endpoint_refines_witness:
  "rs_Status (fst (ServeHTTP demo_server no_header demo_token_post demo_world)) = 200"
proof -
  let ?req = "demo_request\<lparr>tr_OrganizationID := ''default'', tr_RefreshToken := []\<rparr>"
  have c: "cas_store (e_ops (sv_env demo_server)) mem_view" using demo_cas by (simp add: demo_server_def NewServer_def)
  have p: "r_Path demo_token_post = ''/oauth/v2/token''" "r_Method demo_token_post = ''POST''"
    by (simp_all add: demo_token_post_def)
  have none: "token_request_error ?req = None" by code_simp
  have grant: "tr_GrantType ?req = []" by (simp add: demo_request_def)
  obtain h s where s: "mem_view s = mem_view (w_store demo_world)"
    and x: "ServeHTTP demo_server no_header demo_token_post demo_world =
      (case ExchangeCodeForToken demo_env ?req (demo_world\<lparr>w_store := s\<rparr>) of
           (Inl err, w') \<Rightarrow> (Errorf h (json_error ''invalid_grant'' ''%s'') (EngineErr err) 400, w')
         | (Inr resp, w') \<Rightarrow> (token_answer h resp, w'))"
    using token_endpoint_refines [OF c p, of no_header demo_world]
    unfolding demo_token_request Let_def none option.case by (auto simp: demo_server_def NewServer_def)
  have v: "view mem_view (demo_world\<lparr>w_store := s\<rparr>) = view mem_view demo_world" using s by (simp add: view_def)
  have dv: "mem_view s (AuthCodeKey ''c1'') = Some (''1'', Doc (marshal code_fields demo_code))"
    "mem_view s (AppKey ''acme'' ''web'') = Some (''1'', Doc (marshal app_fields demo_app))"
    using demo_view(1,5) unfolding s view_def by fast+
  have "stored_key mem_view (demo_world\<lparr>w_store := s\<rparr>) ''acme'' app demo_key" for app
    using demo_stored_key [of app] unfolding stored_key_def v .
  moreover have auth: "authenticate_client demo_app demo_code ?req = None"
    by (simp add: authenticate_client_def IsPublicClient_def demo_app_def demo_request_def demo_code_def
        zero_app_def zero_code_def SecureCompare_def)
  ultimately have "\<exists>resp w'. exchangeAuthorizationCode demo_env ?req (demo_world\<lparr>w_store := s\<rparr>) = (Inr resp, w')"
    by (intro demo_live.exchange_ok [where ac = demo_code and base = demo_claims and app = demo_app and k = demo_key and v = "''1''"])
      (simp_all add: dv auth demo_fields demo_claims_ok demo_can_sign demo_signs)
  then show ?thesis
    unfolding x by (auto simp: ExchangeCodeForToken_def grant GrantRefreshToken_def token_answer_def)
qed

subsection \<open>The mock login\<close>

context reliable_engine
begin

lemma consume_state_ok:
  assumes "view objs w (AuthStateKey st) = Some (v, Doc (marshal state_fields s))" and "v \<noteq> []"
    and "\<forall>n. e_now E n \<le> as_CreatedAt s + authStateTTL"
  shows "\<exists>w1. fetchAndConsumeAuthState E st w = (Inr (Some s), w1) \<and> view objs w1 = (view objs w)(AuthStateKey st := None) \<and>
    w_draw w1 = w_draw w"
proof -
  let ?w0 = "w\<lparr>w_states := (w_states w)(st := None)\<rparr>"
  from claim_ok [of ?w0 "AuthStateKey st" v] assms(1,2) obtain u where
    c: "claimSingleUse E (AuthStateKey st) ?w0 = (Inr (Some (Doc (marshal state_fields s))), ?w0\<lparr>w_store := u\<rparr>)"
    and "objs u = (view objs w)(AuthStateKey st := None)" by auto
  moreover have "fetchAndConsumeAuthState E st w = (Inr (Some s), ?w0\<lparr>w_store := u, w_tick := Suc (w_tick w)\<rparr>)"
    using c assms(3) by (simp add: fetchAndConsumeAuthState_def andThen_def set_states_def live_state_def state_roundtrip
        clock_def ret_def After_def not_less)
  ultimately show ?thesis by (auto simp: view_def)
qed

lemma complete_ok:
  assumes "e_rand E (w_draw w) = Some x" and "code = ''code_'' @ EncodeToString x"
  shows "\<exists>v now w'. CompleteUpstreamAuthenticationWithState E s claims w = (Inr (client_redirect s code), w') \<and>
    view objs w' = (view objs w)(AuthCodeKey code \<mapsto> (v, Doc (marshal code_fields (code_of_state s claims code now)))) \<and>
    now \<in> range (e_now E) \<and> v \<noteq> []"
proof -
  have st: "secure_token E ''code_'' w = (Inr code, w\<lparr>w_draw := Suc (w_draw w)\<rparr>)"
    using assms by (auto simp: secure_token_Inr)
  let ?w1 = "w\<lparr>w_draw := Suc (w_draw w), w_tick := Suc (w_tick w)\<rparr>"
  let ?now = "e_now E (w_tick w)"
  obtain v u where p: "on_store (st_Put (e_ops E) (AuthCodeKey code) (Doc (marshal code_fields
      (code_of_state s claims code ?now))) []) ?w1 = (Inr v, u)"
    using put_ok by fastforce
  have "CompleteUpstreamAuthenticationWithState E s claims w =
      (Inr (client_redirect s code), u\<lparr>w_codes := (w_codes u)(code \<mapsto> code_of_state s claims code ?now)\<rparr>)"
    using st p by (simp add: CompleteUpstreamAuthenticationWithState_def andThen_def wrapErr_def clock_def Let_def set_codes_def ret_def)
  with put_step [OF p] show ?thesis by (auto simp: view_def)
qed

end

text \<open>Completing a login asks no upstream server.\<close>

lemma keeps_req_complete: "keeps w_req (CompleteUpstreamAuthentication E st c)"
proof -
  have p: "keeps w_req (clock E)" "keeps w_req (secure_token E p)" "keeps w_req (on_store m)"
    "keeps w_req (set_states fs)" "keeps w_req (set_codes fc)" for p m fs fc
    by (auto simp: keeps_def clock_def draw_def secure_token_def on_store_def set_states_def set_codes_def andThen_def
        ofSum_def split: prod.splits)
  show ?thesis
    by (auto simp: CompleteUpstreamAuthentication_def CompleteUpstreamAuthenticationWithState_def
        fetchAndConsumeAuthState_def claimSingleUse_def live_state_def Let_def intro!: keeps_rules p split: option.splits)
qed

lemma mock_login_served:
  assumes "reliable_store (e_ops (sv_env S)) objs" and "e_rand (sv_env S) (w_draw w) = Some x"
    and "r_Path r = ''/oauth/v2/mock_login''" and "r_Method r = ''POST''"
    and "objs (w_store w) (AuthStateKey (query_get r ''state'')) = Some (v, Doc (marshal state_fields s))" and "v \<noteq> []"
    and "\<forall>n. e_now (sv_env S) n \<le> as_CreatedAt s + authStateTTL" and "code = ''code_'' @ EncodeToString x"
  shows "\<exists>now now' v' resp w'. ServeHTTP S h0 r w = (resp, w') \<and> rs_Status resp = 302 \<and>
    rs_Body resp = RedirectTo (client_redirect s code) \<and>
    objs (w_store w') = (objs (w_store w))(AuthStateKey (query_get r ''state'') := None,
      AuthCodeKey code \<mapsto> (v', Doc (marshal code_fields
        (code_of_state s (Some (mock_claims (FormValue r ''email'') (FormValue r ''name'') now)) code now')))) \<and>
    w_req w' = w_req w \<and> now' \<in> range (e_now (sv_env S)) \<and> v' \<noteq> []"
proof -
  let ?E = "sv_env S" and ?st = "query_get r ''state''"
  have cas: "cas_store (e_ops ?E) objs" using assms(1) by (rule reliable_store.axioms)
  then have rel: "reliable_engine ?E objs" by (intro reliable_engine.intro engine_store.intro assms(1))
  obtain h1 r' w1 where c: "applyCORS S h0 r w = (Inr (h1, r'), w1)" "r' = r \<or> r' = r\<lparr>r_JSON := None\<rparr>"
    using applyCORS_result by blast
  obtain u where w1: "w1 = w\<lparr>w_store := u\<rparr>" "objs u = objs (w_store w)"
    using applyCORS_frame [OF cas c(1)] by blast
  from c(2) assms(3,4) have r': "r_Path r' = ''/oauth/v2/mock_login''" "r_Method r' = ''POST''" "query_get r' = query_get r"
    "FormValue r' = FormValue r" by auto
  obtain h where h: "EnableCORS h1 r' = Inr h" using r'(2) by (simp add: EnableCORS_Inr)
  let ?w2 = "w1\<lparr>w_tick := Suc (w_tick w1)\<rparr>"
  let ?now = "e_now ?E (w_tick w1)"
  let ?c = "Some (mock_claims (FormValue r ''email'') (FormValue r ''name'') ?now)"
  have "view objs ?w2 (AuthStateKey ?st) = Some (v, Doc (marshal state_fields s))"
    using assms(5) w1 by (simp add: view_def)
  from reliable_engine.consume_state_ok [OF rel this assms(6,7)] obtain w3 where
    f: "fetchAndConsumeAuthState ?E ?st ?w2 = (Inr (Some s), w3)"
    and w3: "view objs w3 = (view objs ?w2)(AuthStateKey ?st := None)" "w_draw w3 = w_draw w" using w1(1) by auto
  from reliable_engine.complete_ok [OF rel _ assms(8), of w3] assms(2) w3(2) obtain v' now' w' where
    d: "CompleteUpstreamAuthenticationWithState ?E s ?c w3 = (Inr (client_redirect s code), w')"
    and n: "view objs w' = (view objs w3)(AuthCodeKey code \<mapsto> (v', Doc (marshal code_fields (code_of_state s ?c code now'))))"
      "now' \<in> range (e_now ?E)" "v' \<noteq> []" by metis
  have x: "CompleteUpstreamAuthentication ?E ?st ?c ?w2 = (Inr (client_redirect s code), w')"
    using f d by (simp add: CompleteUpstreamAuthentication_def andThen_def)
  have "ServeHTTP S h0 r w = MockLogin ?E h1 r' w1"
    using ServeHTTP_routed [OF c(1)] routed(3) [OF r'(1)] r'(2) by simp
  also have "\<dots> = (Redirect h (client_redirect s code) 302, w')"
    using x by (simp add: MockLogin_def answer_ofSum h r' answer_def andThen_def clock_def wrapErr_def ret_def ofSum_def)
  finally have "ServeHTTP S h0 r w = (Redirect h (client_redirect s code) 302, w')" .
  moreover have "w_req w' = w_req w"
    using keepsD [OF keeps_req_complete x] w1 by simp
  moreover have "objs (w_store w') = (objs (w_store w))(AuthStateKey ?st := None,
      AuthCodeKey code \<mapsto> (v', Doc (marshal code_fields (code_of_state s ?c code now'))))"
    using n(1) w3(1) w1 by (simp add: view_def fun_eq_iff)
  ultimately show ?thesis using n(2,3) by (intro exI [of _ ?now] exI [of _ now'] exI [of _ v']) simp
qed

text \<open>
  C23. The mock login is open in every deployment: whoever holds the id of a login in progress, which the browser
  of anyone who starts one is given, completes it by a POST to \<open>/oauth/v2/mock_login\<close> under any email address and
  name, with the roles of a developer. No provider is asked; the code that is stored carries those claims.
\<close>

theorem mock_login_bypass:
  assumes "reliable_store (e_ops (sv_env S)) objs" and "\<forall>n. e_rand (sv_env S) n \<noteq> None"
    and "r_Path r = ''/oauth/v2/mock_login''" and "r_Method r = ''POST''"
    and "objs (w_store w) (AuthStateKey (query_get r ''state'')) = Some (v, Doc (marshal state_fields s))" and "v \<noteq> []"
    and "\<forall>n. e_now (sv_env S) n \<le> as_CreatedAt s + authStateTTL"
  shows "\<exists>code now now' v' resp w'. ServeHTTP S h0 r w = (resp, w') \<and> rs_Status resp = 302 \<and>
    rs_Body resp = RedirectTo (client_redirect s code) \<and>
    objs (w_store w') (AuthCodeKey code) = Some (v', Doc (marshal code_fields
      (code_of_state s (Some (mock_claims (FormValue r ''email'') (FormValue r ''name'') now)) code now'))) \<and>
    w_req w' = w_req w"
proof -
  obtain x where "e_rand (sv_env S) (w_draw w) = Some x" using assms(2) by blast
  from mock_login_served [OF assms(1) this assms(3-7) refl, of h0] show ?thesis by (metis fun_upd_same)
qed

definition demo_mock_login :: Request where
  "demo_mock_login = demo_http\<lparr>r_Method := ''POST'', r_Path := ''/oauth/v2/mock_login'', r_RawQuery := ''state=st1&email=root%40acme.io''\<rparr>"

lemma mock_login_bypass_witness:
  "\<exists>code now now' v' resp w'. ServeHTTP demo_server no_header demo_mock_login demo_world = (resp, w') \<and> rs_Status resp = 302 \<and>
    mem_view (w_store w') (AuthCodeKey code) = Some (v', Doc (marshal code_fields
      (code_of_state demo_state (Some (mock_claims ''root@acme.io'' [] now)) code now')))"
proof -
  have q: "query_get demo_mock_login ''state'' = ''st1''" "FormValue demo_mock_login ''email'' = ''root@acme.io''"
    "FormValue demo_mock_login ''name'' = []" "r_Path demo_mock_login = ''/oauth/v2/mock_login''" "r_Method demo_mock_login = ''POST''"
    by code_simp+
  have e: "sv_env demo_server = demo_env" by (simp add: demo_server_def NewServer_def)
  have "mem_view (w_store demo_world) (AuthStateKey ''st1'') = Some (''1'', Doc (marshal state_fields demo_state))"
    by (simp add: mem_view_def demo_objs_def key_defs)
  moreover have "demo_now \<le> as_CreatedAt demo_state + authStateTTL" by (simp add: demo_state_def zero_state_def authStateTTL_def Minute_def Second_def)
  ultimately show ?thesis
    using mock_login_bypass [of demo_server mem_view demo_mock_login demo_world "''1''" demo_state no_header] demo_reliable
    unfolding q e by (simp del: demo_world_simps) blast
qed

end
