(* ===== verification/Conduct.thy ===== *)
theory Conduct
  imports Calls Seed Surface
begin

text \<open>
  What a request does to the store, call by call. The locale \<open>session_calls\<close> is the interface between the handlers and what is
  to be known of their storage calls: a property \<open>P\<close> of the node that reads, deletes and writes of tenants' records keep, and that
  a write of a one-time record keeps if its handle has just been drawn. Every operation of the engine and every handler keeps
  such a property; \<open>Reach\<close> instantiates it with an invariant of the store, \<open>Script\<close> with one of the calls made so far.
\<close>

subsection \<open>Handlers\<close>

definition safe_handler :: "('s world \<Rightarrow> bool) \<Rightarrow> 's handler \<Rightarrow> bool" where
  "safe_handler P k \<longleftrightarrow> (\<forall>h r w. P w \<longrightarrow> P (snd (k h r w)))"

lemma safe_answer: "safe P m \<Longrightarrow> P w \<Longrightarrow> P (snd (answer m w))"
  by (auto simp: answer_def sat_def split: prod.splits sum.splits)

lemma safe_handlerI:
  "(\<And>h r. k h r = answer (m h r)) \<Longrightarrow> (\<And>h r. safe P (m h r)) \<Longrightarrow> safe_handler P k"
  by (simp add: safe_handler_def safe_answer)

lemma best_match_mem: "best_match rs p b = Some (q, k) \<Longrightarrow> (q, k) \<in> set rs \<or> b = Some (q, k)"
  by (induction rs p b rule: best_match.induct) (auto split: if_splits)

subsection \<open>What one-time records look like\<close>

definition state_ok :: "string \<Rightarrow> AuthState \<Rightarrow> bool" where
  "state_ok ident s \<longleftrightarrow> as_StateID s = ident \<and>
     (as_CodeChallenge s \<noteq> [] \<longrightarrow> as_CodeChallengeMethod s = pkceMethodS256)"

definition code_ok :: "string \<Rightarrow> AuthCode \<Rightarrow> bool" where
  "code_ok ident c \<longleftrightarrow> ac_Code c = ident \<and> ac_ExpiresAt c = ac_CreatedAt c + authCodeTTL \<and>
     (ac_CodeChallenge c \<noteq> [] \<longrightarrow> ac_CodeChallengeMethod c = pkceMethodS256)"

definition refresh_ok :: "string \<Rightarrow> RefreshToken \<Rightarrow> bool" where
  "refresh_ok ident t \<longleftrightarrow> rt_Token t = ident \<and> rt_ExpiresAt t = rt_CreatedAt t + refreshTokenTTL \<and>
     rt_FamilyID t \<noteq> [] \<and> (\<exists>c. rt_Claims t = Some c \<and> cl_Subject c = rt_Subject t)"

text \<open>
  What kind of object belongs under a key: the JSON of a tenant's record, or of a one-time record, whose id is the one in
  the key.
\<close>

definition tenant_object :: "string \<Rightarrow> blob \<Rightarrow> bool" where
  "tenant_object k d \<longleftrightarrow>
     (\<exists>g. k = OrganizationKey (org_ID g) \<and> d = Doc (marshal org_fields g)) \<or>
     (\<exists>org a. k = AppKey org (app_ID a) \<and> d = Doc (marshal app_fields a)) \<or>
     (\<exists>org i. k = IDPKey org (idp_ID i) \<and> d = Doc (marshal idp_fields i)) \<or>
     (\<exists>org s. k = KeyPairKey org (key_ID s) \<and> d = Doc (marshal key_fields s)) \<or>
     (\<exists>org u. k = AdminUserKey org (user_ID u) \<and> d = Doc (marshal user_fields u)) \<or>
     (\<exists>org t. k = TeamKey org (team_ID t) \<and> d = Doc (marshal team_fields t)) \<or>
     (\<exists>org r. k = RoleKey org (role_ID r) \<and> d = Doc (marshal role_fields r)) \<or>
     (\<exists>org w. k = SPIFFEWorkloadKey org (wl_ID w) \<and> d = Doc (marshal workload_fields w))"

definition session_object :: "string \<Rightarrow> blob \<Rightarrow> bool" where
  "session_object k d \<longleftrightarrow>
     (\<exists>s. k = AuthStateKey (as_StateID s) \<and> d = Doc (marshal state_fields s)) \<or>
     (\<exists>c. k = AuthCodeKey (ac_Code c) \<and> d = Doc (marshal code_fields c)) \<or>
     (\<exists>t. k = RefreshTokenKey (rt_Token t) \<and> d = Doc (marshal refresh_fields t))"

text \<open>
  Where handles come from: \<open>one_time pre t k\<close> says that \<open>k\<close> is the key of the record of a handle \<open>t\<close> whose kind has the
  prefix \<open>pre\<close>; \<open>new_handle E b pre t\<close> that \<open>t\<close> is a draw of the random source at a position from \<open>b\<close> on, and \<open>drawn\<close>
  that the position is below an end.
\<close>

definition one_time :: "string \<Rightarrow> string \<Rightarrow> string \<Rightarrow> bool" where
  "one_time pre t k \<longleftrightarrow> pre = ''state_'' \<and> k = AuthStateKey t \<or> pre = ''code_'' \<and> k = AuthCodeKey t \<or>
     pre = ''rt_'' \<and> k = RefreshTokenKey t"

lemma one_time_keys [simp]:
  "one_time pre t (AuthStateKey i) \<longleftrightarrow> pre = ''state_'' \<and> t = i"
  "one_time pre t (AuthCodeKey i) \<longleftrightarrow> pre = ''code_'' \<and> t = i"
  "one_time pre t (RefreshTokenKey i) \<longleftrightarrow> pre = ''rt_'' \<and> t = i"
  by (auto simp: one_time_def)

definition drawn :: "'s env \<Rightarrow> nat \<Rightarrow> nat \<Rightarrow> string \<Rightarrow> string \<Rightarrow> bool" where
  "drawn E b e pre t \<longleftrightarrow> (\<exists>p x. b \<le> p \<and> p < e \<and> e_rand E p = Some x \<and> t = pre @ EncodeToString x)"

definition new_handle :: "'s env \<Rightarrow> nat \<Rightarrow> string \<Rightarrow> string \<Rightarrow> bool" where
  "new_handle E b pre t \<longleftrightarrow> (\<exists>p x. b \<le> p \<and> e_rand E p = Some x \<and> t = pre @ EncodeToString x)"

lemma drawn_later: "drawn E b e pre t \<Longrightarrow> e \<le> e' \<Longrightarrow> drawn E b e' pre t"
  by (force simp: drawn_def)

lemma tenant_keys [simp]:
  "HasPrefix (OrganizationKey org) ''organizations/''" "HasPrefix (AppKey org a) ''organizations/''"
  "HasPrefix (IDPKey org a) ''organizations/''" "HasPrefix (KeyPairKey org a) ''organizations/''"
  "HasPrefix (AdminUserKey org a) ''organizations/''" "HasPrefix (TeamKey org a) ''organizations/''"
  "HasPrefix (RoleKey org a) ''organizations/''" "HasPrefix (SPIFFEWorkloadKey org a) ''organizations/''"
  by (simp_all add: key_defs HasPrefix_def)

lemma tenant_object_key: "tenant_object k d \<Longrightarrow> HasPrefix k ''organizations/''"
  by (auto simp: tenant_object_def)

lemma tenant_objects:
  "tenant_object (OrganizationKey (org_ID o')) (Doc (marshal org_fields o'))"
  "tenant_object (AppKey org (app_ID a)) (Doc (marshal app_fields a))"
  "tenant_object (IDPKey org (idp_ID i)) (Doc (marshal idp_fields i))"
  "tenant_object (KeyPairKey org (key_ID s)) (Doc (marshal key_fields s))"
  "tenant_object (AdminUserKey org (user_ID u)) (Doc (marshal user_fields u))"
  "tenant_object (TeamKey org (team_ID t)) (Doc (marshal team_fields t))"
  "tenant_object (RoleKey org (role_ID r)) (Doc (marshal role_fields r))"
  "tenant_object (SPIFFEWorkloadKey org (wl_ID w)) (Doc (marshal workload_fields w))"
  unfolding tenant_object_def by blast+

text \<open>What a request may put under the key of a one-time record, and what it can tell of a state it has read.\<close>

definition session_entry :: "string \<Rightarrow> blob \<Rightarrow> bool" where
  "session_entry k d \<longleftrightarrow>
     (\<exists>ident s. k = AuthStateKey ident \<and> d = Doc (marshal state_fields s) \<and> state_ok ident s) \<or>
     (\<exists>ident c. k = AuthCodeKey ident \<and> d = Doc (marshal code_fields c) \<and> code_ok ident c) \<or>
     (\<exists>ident t. k = RefreshTokenKey ident \<and> d = Doc (marshal refresh_fields t) \<and> refresh_ok ident t)"

definition state_readable :: "string \<Rightarrow> blob \<Rightarrow> bool" where
  "state_readable k d \<longleftrightarrow> (\<forall>ident. k = AuthStateKey ident \<longrightarrow> (\<exists>s. d = Doc (marshal state_fields s) \<and> state_ok ident s))"

lemma session_entry_keys [simp]:
  "session_entry (AuthStateKey i) d \<longleftrightarrow> (\<exists>s. d = Doc (marshal state_fields s) \<and> state_ok i s)"
  "session_entry (AuthCodeKey i) d \<longleftrightarrow> (\<exists>c. d = Doc (marshal code_fields c) \<and> code_ok i c)"
  "session_entry (RefreshTokenKey i) d \<longleftrightarrow> (\<exists>t. d = Doc (marshal refresh_fields t) \<and> refresh_ok i t)"
  by (auto simp: session_entry_def)

lemma session_entry_object: "session_entry k d \<Longrightarrow> session_object k d"
  unfolding session_entry_def session_object_def state_ok_def code_ok_def refresh_ok_def by blast

lemma tenant_not_one_time: "tenant_object k d \<Longrightarrow> \<not> one_time pre t k"
  using tenant_object_key by (fastforce simp: one_time_def key_defs HasPrefix_iff)

subsection \<open>Every operation keeps them\<close>

locale session_calls =
  fixes E :: "'s env" and base :: nat and P :: "(string \<times> string) option \<Rightarrow> 's world \<Rightarrow> bool"
  assumes frame: "P T w \<Longrightarrow> w_store w' = w_store w \<Longrightarrow> w_draw w \<le> w_draw w' \<Longrightarrow> P T w'"
    and forget: "P T w \<Longrightarrow> P None w"
    and after_base: "P T w \<Longrightarrow> base \<le> w_draw w"
    and draws: "P None w \<Longrightarrow> e_rand E (w_draw w) = Some x \<Longrightarrow>
          P (Some (pre, pre @ EncodeToString x)) (w\<lparr>w_draw := Suc (w_draw w)\<rparr>)"
    and reads: "P T w \<Longrightarrow> st_Get (e_ops E) k (w_store w) = (g, s) \<Longrightarrow>
          P T (w\<lparr>w_store := s\<rparr>) \<and> (\<forall>rec. g = Inr rec \<longrightarrow> state_readable k (sr_Data rec))"
    and lists: "P T w \<Longrightarrow> st_List (e_ops E) k (w_store w) = (l, s) \<Longrightarrow> P T (w\<lparr>w_store := s\<rparr>)"
    and deletes: "P T w \<Longrightarrow> st_Delete (e_ops E) k v (w_store w) = (u, s) \<Longrightarrow> P T (w\<lparr>w_store := s\<rparr>)"
    and puts_tenant: "P T w \<Longrightarrow> tenant_object k d \<Longrightarrow> st_Put (e_ops E) k d v (w_store w) = (p, s) \<Longrightarrow> P T (w\<lparr>w_store := s\<rparr>)"
    and puts_session: "P (Some (pre, t)) w \<Longrightarrow> one_time pre t k \<Longrightarrow> session_entry k d \<Longrightarrow>
          st_Put (e_ops E) k d v (w_store w) = (p, s) \<Longrightarrow> P None (w\<lparr>w_store := s\<rparr>)"
begin

abbreviation ok :: "'s world \<Rightarrow> bool" where
  "ok \<equiv> P None"

lemma safe_clock [safe_rules]:
  "safe (P T) (clock E')" "safe (P T) (cached E' f)" "safe (P T) (set_cached E' g)" "safe (P T) (http_do E' rq)"
  "safe (P T) (secure_token E' p)" "safe (P T) (generate_key E' org app)" "safe (P T) (verify_jwt E' tok ks opts)"
  "safe (P T) (set_states f')" "safe (P T) (set_codes g')"
  by (rule safeI, erule frame;
      auto simp: prims_eq generate_key_def secure_token_def verify_jwt_def andThen_def
        draw_key_def draw_def clock_def ofSum_def split: prod.splits)+

lemma safe_get [safe_rules]: "safe (P T) (on_store (st_Get (e_ops E) k))"
  by (rule safeI) (auto simp: on_store_eq dest: reads)

lemma safe_list [safe_rules]: "safe (P T) (on_store (st_List (e_ops E) p))"
  by (rule safeI) (auto simp: on_store_eq dest: lists)

lemma safe_delete [safe_rules]: "safe (P T) (on_store (st_Delete (e_ops E) k v))"
  by (rule safeI) (auto simp: on_store_eq dest: deletes)

lemma safe_put_tenant: "tenant_object k d \<Longrightarrow> safe (P T) (on_store (st_Put (e_ops E) k d v))"
  by (rule safeI) (auto simp: on_store_eq dest: puts_tenant)

text \<open>A handle that has been drawn may be stored, once.\<close>

lemma sat_token: "sat (P T) (secure_token E p) (new_handle E base p)"
proof (rule satI)
  fix w r w'
  assume w: "P T w" and x: "secure_token E p w = (r, w')"
  from satD [OF safe_clock(5) x w] after_base [OF w] x
  show "P T w' \<and> (\<forall>a. r = Inr a \<longrightarrow> new_handle E base p a)"
    by (auto simp: secure_token_Inr new_handle_def)
qed

lemma sat_draw:
  assumes "\<And>t. new_handle E base p t \<Longrightarrow> leads (P (Some (p, t))) (f t) ok Q"
  shows "sat ok (andThen (wrapErr g (secure_token E p)) f) Q"
proof (rule satI)
  fix w r w'
  assume w: "ok w" and x: "andThen (wrapErr g (secure_token E p)) f w = (r, w')"
  obtain s w1 where s: "wrapErr g (secure_token E p) w = (s, w1)" by fastforce
  note w1 = sat_step [OF sat_wrapErr [OF sat_token] w s]
  show "ok w' \<and> (\<forall>a. r = Inr a \<longrightarrow> Q a)"
  proof (cases s)
    case (Inl e)
    with x s w1 show ?thesis by (auto simp: andThen_def)
  next
    case (Inr t)
    with s draws [OF w] have "P (Some (p, t)) w1" by (auto simp: wrapErr_Inr secure_token_Inr)
    moreover have "f t w1 = (r, w')" using x s Inr by (simp add: andThen_def)
    ultimately show ?thesis using leads_step [OF assms] w1 Inr by blast
  qed
qed

lemma leads_then: "sat (P T) m Q \<Longrightarrow> (\<And>a. Q a \<Longrightarrow> leads (P T) (f a) ok R) \<Longrightarrow> leads (P T) (andThen m f) ok R"
  unfolding sat_leads by (erule leads_andThen) (auto intro: forget)

lemma leads_put:
  assumes "one_time p t k" and "session_entry k d" and "\<And>u. sat ok (f u) Q"
  shows "leads (P (Some (p, t))) (andThen (wrapErr g (on_store (st_Put (e_ops E) k d v))) f) ok Q"
proof (rule leads_andThen)
  show "leads (P (Some (p, t))) (wrapErr g (on_store (st_Put (e_ops E) k d v))) ok (\<lambda>_. True)"
    by (intro leads_wrapErr leadsI) (auto simp: on_store_eq dest: puts_session [OF _ assms(1,2)])
qed (use assms(3) in \<open>simp_all add: sat_leads\<close>)

text \<open>Reading.\<close>

lemma safe_reads [safe_rules]:
  "safe ok (loadApplication E org cid)" "safe ok (loadSigningKeys E org app)"
  "safe ok (key_cached E org app)" "safe ok (cache_keys E org app ks)" "safe ok (stored_idp E org idp)"
  "safe ok (enabledIDPIDs E org)" "safe ok (claimSingleUse E k)" "safe ok (fetchBody E url tok)"
  unfolding loadApplication_def loadSigningKeys_def key_cached_def cache_keys_def stored_idp_def
    enabledIDPIDs_def claimSingleUse_def fetchBody_def
  by (intro safe_rules)+

lemma safe_fetches [safe_rules]:
  "safe ok (fetchJSONObject E url tok)" "safe ok (fetchPrimaryEmail E url tok)"
  "safe ok (resolveUpstreamIDP E org cid idp)" "safe ok (select_idp E a req)"
  "safe ok (upstream_exchange E cfg url code)" "safe ok (SigningKeys E org app)"
  unfolding fetchJSONObject_def fetchPrimaryEmail_def resolveUpstreamIDP_def select_idp_def upstream_exchange_def SigningKeys_def
  by (intro safe_rules)+

lemma safe_claims [safe_rules]: "safe ok (fetchUpstreamClaims E p tok)"
  unfolding fetchUpstreamClaims_def by (intro safe_rules)

lemma safe_create_key [safe_rules]: "safe ok (create_key E org app)"
  unfolding create_key_def by (intro safe_rules safe_put_tenant tenant_objects)

lemma safe_signing_key [safe_rules]: "safe ok (resolveSigningKey E org app)"
  unfolding resolveSigningKey_def by (intro safe_rules)

text \<open>Beginning a login.\<close>

lemma safe_begin_login:
  assumes "check_request a req = None"
  shows "safe ok (begin_login E req a sel p)"
proof -
  have wf: "state_ok ident (state_of_request req a sel ident now)" for ident now
    using assms by (auto simp: state_ok_def state_of_request_def check_request_def split: if_splits)
  show ?thesis
    unfolding begin_login_def Let_def
    by (intro sat_draw leads_then [OF safe_clock(1)] leads_put safe_rules) (use wf in auto)
qed

lemma safe_PrepareAuthorization [safe_rules]: "safe ok (PrepareAuthorization E req)"
  unfolding PrepareAuthorization_def by (intro safe_rules safe_begin_login)

text \<open>Completing one: what is claimed is what was stored.\<close>

lemma sat_get: "sat ok (on_store (st_Get (e_ops E) k)) (\<lambda>rec. state_readable k (sr_Data rec))"
  by (rule satI) (auto simp: on_store_eq dest: reads)

lemma sat_claim: "sat ok (claimSingleUse E k) (\<lambda>c. \<forall>data. c = Some data \<longrightarrow> state_readable k data)"
  unfolding claimSingleUse_def
proof (rule sat_attempt [OF sat_get])
  fix rec
  assume r: "state_readable k (sr_Data rec)"
  have "sat ok (attempt (on_store (st_Delete (e_ops E) k v)) (\<lambda>d. case d of Inl err \<Rightarrow> ret None | Inr x \<Rightarrow> ret (Some (sr_Data rec))))
     (\<lambda>c. \<forall>data. c = Some data \<longrightarrow> state_readable k data)" for v
    by (rule sat_attempt [OF safe_delete]) (use r in \<open>auto intro!: sat_ret\<close>)
  then show "sat ok (case Inr rec of Inl err \<Rightarrow> ret None | Inr rec \<Rightarrow>
       if blob_empty (sr_Data rec) then ret None else if sr_Version rec = [] then ret None
       else attempt (on_store (st_Delete (e_ops E) k (sr_Version rec)))
              (\<lambda>d. case d of Inl err \<Rightarrow> ret None | Inr x \<Rightarrow> ret (Some (sr_Data rec))))
     (\<lambda>c. \<forall>data. c = Some data \<longrightarrow> state_readable k data)"
    by (auto intro!: sat_ret)
qed (auto intro!: sat_ret)

lemma sat_consume_state:
  "sat ok (fetchAndConsumeAuthState E ident) (\<lambda>c. \<forall>s. c = Some s \<longrightarrow> state_ok ident s)"
proof -
  have wf: "state_ok ident s" if "state_readable (AuthStateKey ident) data" "unmarshal state_fields zero_state data = Some s" for data s
    using that state_roundtrip by (auto simp: state_readable_def)
  have "sat ok (live_state E c) (\<lambda>c. \<forall>s. c = Some s \<longrightarrow> state_ok ident s)"
    if "\<forall>data. c = Some data \<longrightarrow> state_readable (AuthStateKey ident) data" for c
    unfolding live_state_def using that
    by (auto split: option.splits if_splits intro!: sat_ret sat_andThen [OF safe_clock(1)] intro: wf)
  then show ?thesis
    unfolding fetchAndConsumeAuthState_def
    by (intro sat_andThen [OF safe_clock(8)] sat_andThen [OF sat_claim])
qed

lemma safe_complete_with:
  assumes "state_ok ident s"
  shows "safe ok (CompleteUpstreamAuthenticationWithState E s c)"
proof -
  have wf: "code_ok code (code_of_state s c code now)" for code now
    using assms by (auto simp: code_ok_def state_ok_def code_of_state_def)
  show ?thesis
    unfolding CompleteUpstreamAuthenticationWithState_def Let_def
    by (intro sat_draw leads_then [OF safe_clock(1)] leads_put safe_rules) (use wf in auto)
qed

lemma safe_complete [safe_rules]: "safe ok (CompleteUpstreamAuthentication E ident c)"
  unfolding CompleteUpstreamAuthentication_def
  by (rule sat_andThen [OF sat_consume_state]) (auto split: option.splits intro!: safe_rules safe_complete_with)

lemma safe_callback [safe_rules]: "safe ok (ProcessUpstreamCallback E url ident code)"
  unfolding ProcessUpstreamCallback_def
  by (rule sat_andThen [OF sat_consume_state])
    (auto split: option.splits intro!: safe_rules safe_complete_with)

text \<open>Redemption.\<close>

lemma sat_mint: "sat ok (mintRefreshToken E a pre scope fam) (new_handle E base ''rt_'')"
proof -
  have fam: "sat (P T) (if fam = [] then wrapErr EFamilyToken (secure_token E ''rtf_'') else ret fam) (\<lambda>f. f \<noteq> [])" for T
    by (auto simp: new_handle_def intro!: sat_wrapErr sat_weaken [OF sat_token] sat_ret)
  have wf: "f \<noteq> [] \<Longrightarrow> refresh_ok h (refresh_record a pre scope f h now)" for f h now
    by (auto simp: refresh_ok_def refresh_record_def)
  show ?thesis
    unfolding mintRefreshToken_def
    by (intro sat_draw leads_then [OF fam] leads_then [OF safe_clock(1)] leads_put sat_ret) (use wf in auto)
qed

lemma sat_issueTokens:
  "sat ok (issueTokens E a c scope nonce fam) (\<lambda>resp. new_handle E (base) ''rt_'' (tp_RefreshToken resp))"
  unfolding issueTokens_def Let_def
  by (cases c) (auto intro!: sat_fail sat_then safe_rules sat_andThen [OF sat_mint] sat_ret)

lemmas safe_mint [safe_rules] = sat_stable [OF sat_mint]

lemmas safe_issueTokens [safe_rules] = sat_stable [OF sat_issueTokens]

lemma safe_redeem [safe_rules]:
  "safe ok (redeem_code E rq ac)" "safe ok (redeem_refresh E rq data)"
  unfolding redeem_code_def redeem_refresh_def by (intro safe_rules)+

lemma safe_exchange [safe_rules]: "safe ok (ExchangeCodeForToken E rq)"
  unfolding ExchangeCodeForToken_def exchangeRefreshToken_def exchangeAuthorizationCode_def fetchAndConsumeAuthCode_def
  by (intro safe_rules)

text \<open>Validation and SVIDs.\<close>

lemma safe_source [safe_rules]: "safe ok (from_source E (NewTokenValidatorWithSource (SigningKeys E)) org app)"
  unfolding from_source_def NewTokenValidatorWithSource_def by (simp, intro conjI impI safe_rules)

lemma safe_validate [safe_rules]:
  "safe ok (Validate E (NewTokenValidatorWithSource (SigningKeys E)) org app tok opts)"
  unfolding Validate_def keysFor_def by (intro safe_rules)

lemma safe_svid [safe_rules]:
  "safe ok (IssueJWTSVID E c key n)" "safe ok (ValidateWorkloadCert E cert wl)" "safe ok (mint_svid E org w aud scopes)"
  "safe ok (IssueSVID E sq)"
  unfolding IssueJWTSVID_def ValidateWorkloadCert_def mint_svid_def IssueSVID_def
  by (intro safe_rules)+

text \<open>The handlers.\<close>

lemma safe_cached_admin_keys [safe_rules]: "safe ok (cached_admin_keys E org apps keys)"
  by (induction apps arbitrary: keys) (auto intro!: safe_rules)

lemma safe_admin_keys [safe_rules]: "safe ok (admin_keys E app orgs keys)"
  by (induction orgs arbitrary: keys) (auto intro!: safe_rules simp del: cached_admin_keys.simps)

lemma safe_admin [safe_rules]:
  "safe ok (AuthenticateAdmin E r)"
  "(\<And>h. safe ok (body h)) \<Longrightarrow> safe ok (as_admin E h0 r body)"
  unfolding AuthenticateAdmin_def as_admin_def by (intro safe_rules)+

lemma safe_items [safe_rules]:
  "safe ok (list_items E h fs zero upd pre)" "safe ok (get_item E h fs zero upd key)"
  "safe ok (fresh_id E pre ident)" "safe ok (created_at E t)"
  "tenant_object key (Doc (marshal fs item)) \<Longrightarrow> safe ok (put_item E h fs item key v st)"
  unfolding list_items_def get_item_def fresh_id_def created_at_def put_item_def
  by (intro safe_rules safe_put_tenant)+

lemma safe_saves [safe_rules]:
  "safe ok (save_app E h r org ident)" "safe ok (save_idp E h r org ident)" "safe ok (add_key E h r org)"
  "safe ok (list_keys E h org)" "safe ok (save_user E h r org)" "safe ok (save_team E h r org)" "safe ok (save_role E h r org)"
  "safe ok (save_workload E h r org)" "safe ok (list_orgs E h)"
  unfolding save_app_def save_idp_def add_key_def list_keys_def save_user_def save_team_def save_role_def save_workload_def
    list_orgs_def
  by (intro safe_rules tenant_objects)+

lemma safe_save_org [safe_rules]: "safe ok (save_org E h r ident)"
  unfolding save_org_def create_initial_user_def by (intro safe_rules safe_put_tenant tenant_objects)

lemma safe_visible_orgs [safe_rules]: "safe ok (visible_orgs E all email recs)"
  unfolding member_of_def [abs_def]
  by (induction recs) (auto simp: member_of_def Let_def split: option.splits intro!: safe_rules)

lemma safe_user_email [safe_rules]: "safe ok (user_email E r token)"
  unfolding user_email_def by (intro safe_rules)

lemma safe_admin_handlers:
  "safe_handler ok (HandleApps E)" "safe_handler ok (HandleIDPs E)" "safe_handler ok (HandleKeys E)"
  "safe_handler ok (HandleAdminUsers E)" "safe_handler ok (HandleTeams E)" "safe_handler ok (HandleRoles E)"
  "safe_handler ok (HandleWorkloads E)" "safe_handler ok (HandleOrganizations E)" "safe_handler ok (HandleUserOrganizations E)"
  by (rule safe_handlerI, rule HandleApps_def HandleIDPs_def HandleKeys_def HandleAdminUsers_def HandleTeams_def
      HandleRoles_def HandleWorkloads_def HandleOrganizations_def HandleUserOrganizations_def, intro safe_rules tenant_objects)+

lemma safe_jwks [safe_rules]: "safe ok (stored_keys E org app)" "safe ok (first_key E org app)"
  unfolding stored_keys_def first_key_def by (intro safe_rules safe_put_tenant tenant_objects)+

lemma safe_oidc_handlers:
  "safe_handler ok (WellKnownConfig E)" "safe_handler ok (JWKS E)" "safe_handler ok (Authorize E)"
  "safe_handler ok (Token E)" "safe_handler ok (MockLogin E)" "safe_handler ok (Callback E)"
  by (rule safe_handlerI, rule WellKnownConfig_def JWKS_def Authorize_def Token_def MockLogin_def Callback_def, intro safe_rules)+

lemma safe_svid_parts [safe_rules]:
  "safe ok (first_org_key E h org)" "safe ok (bind_workload E h cert org w)" "safe ok (bundle_keys E org)"
  unfolding first_org_key_def bind_workload_def bundle_keys_def by (intro safe_rules safe_put_tenant tenant_objects)+

lemma safe_sign_svid [safe_rules]: "safe ok (sign_svid E h w org wid body)"
  unfolding sign_svid_def org_keys_def by (intro safe_rules)

lemma safe_spiffe_handlers: "safe_handler ok (HandleSVID E x509)" "safe_handler ok (TrustBundle E)"
  by (rule safe_handlerI, rule HandleSVID_def TrustBundle_def, intro safe_rules)+

text \<open>The server.\<close>

lemma safe_validate_endpoint: "sv_env S = E \<Longrightarrow> sv_validator S = NewTokenValidatorWithSource (SigningKeys E) \<Longrightarrow>
    safe_handler ok (validateEndpoint S)"
  by (rule safe_handlerI, rule validateEndpoint_def, simp only:, intro safe_rules)

lemma safe_healthz: "safe_handler ok healthz"
  by (rule safe_handlerI, rule healthz_def, intro safe_rules)

lemma safe_org_sub: "sv_env S = E \<Longrightarrow> safe_handler ok (orgSubHandler S)"
  using safe_oidc_handlers(2) safe_spiffe_handlers(2) by (auto simp: safe_handler_def orgSubHandler_def Let_def)

lemma safe_routes: "list_all (\<lambda>(p, k). safe_handler ok k) (routes (NewServer E x509))"
  unfolding routes_def Let_def NewServer_def
  by (simp add: safe_oidc_handlers safe_spiffe_handlers safe_admin_handlers safe_healthz safe_org_sub safe_validate_endpoint)

lemma safe_mux:
  assumes "list_all (\<lambda>(p, k). safe_handler ok k) rs"
  shows "safe_handler ok (ServeMux rs)"
proof -
  have "safe_handler ok k" if "best_match rs p None = Some (q, k)" for p q k
    using assms best_match_mem [OF that] by (auto simp: list_all_iff)
  then show ?thesis
    by (auto simp: safe_handler_def ServeMux_def Let_def split: option.splits)
qed

lemma safe_cors [safe_rules]: "safe ok (applyCORS (NewServer E x509) h r)"
  unfolding applyCORS_def originAllowed_def NewServer_def Let_def by (simp, intro conjI impI safe_rules)

lemma safe_ServeHTTP: "safe_handler ok (ServeHTTP (NewServer E x509))"
proof (rule safe_handlerI, rule ServeHTTP_def, rule sat_andThen [OF safe_cors])
  fix a :: "Header \<times> Request"
  have "safe ok (\<lambda>w. case ServeMux (routes (NewServer E x509)) h r w of (resp, w') \<Rightarrow> (Inr resp, w'))" for h r
    using safe_mux [OF safe_routes [of x509]] by (auto simp: sat_def safe_handler_def split: prod.splits) (metis snd_conv)
  then show "safe ok (case a of (h, r') \<Rightarrow> if r_Method r' = ''OPTIONS'' then ret (WriteHeader h 204)
      else (\<lambda>w. case ServeMux (routes (NewServer E x509)) h r' w of (resp, w') \<Rightarrow> (Inr resp, w')))"
    by (intro safe_rules)
qed

lemma safe_Handler: "pv_env pv = E \<Longrightarrow> safe_handler ok (Handler pv x509)"
  using safe_ServeHTTP by (auto simp: safe_handler_def Handler_def withResolvedTenant_def Let_def)

lemma sat_stamped: "sat ok (stamped E f) (\<lambda>item. \<exists>c u. item = f c u)"
  unfolding stamped_def by (intro sat_then safe_rules sat_ret exI) (rule refl)

lemma safe_put_seed: "tenant_object k (Doc j) \<Longrightarrow> safe ok (put_seed E k j)"
  unfolding put_seed_def by (intro safe_rules safe_put_tenant)

lemma safe_seed_item: "(\<And>c u. tenant_object k (Doc (marshal fs (f c u)))) \<Longrightarrow> safe ok (seed_item E fs f k)"
  unfolding seed_item_def by (auto intro!: sat_andThen [OF sat_stamped] safe_rules safe_put_seed)

lemma safe_seed_app:
  assumes "\<And>c u. app_ID (f c u) = ident"
  shows "safe ok (seed_app E f ident)"
proof -
  have "tenant_object (AppKey ''default'' ident) (Doc (marshal app_fields (f c u)))" for c u
    using tenant_objects(2) [of "''default''" "f c u"] assms by simp
  then show ?thesis
    unfolding seed_app_def by (auto intro!: sat_andThen [OF sat_stamped] safe_rules safe_put_seed)
qed

lemma safe_seed_key: "safe ok (seed_key E)"
  unfolding seed_key_def by (intro safe_rules safe_put_seed tenant_objects)

text \<open>What is seeded is under its own id.\<close>

lemma seed_objects:
  "tenant_object (OrganizationKey ''default'') (Doc (marshal org_fields (seed_organization c u)))"
  "tenant_object (IDPKey ''default'' ''google'') (Doc (marshal idp_fields (seed_google c u)))"
  "tenant_object (IDPKey ''default'' ''github'') (Doc (marshal idp_fields (seed_github c u)))"
  "tenant_object (AdminUserKey ''default'' ''admin_root'') (Doc (marshal user_fields (seed_admin c u)))"
  "tenant_object (RoleKey ''default'' ''super_admin'') (Doc (marshal role_fields (seed_role c u)))"
  "tenant_object (TeamKey ''default'' ''core_ops'') (Doc (marshal team_fields (seed_team c u)))"
  "tenant_object (SPIFFEWorkloadKey ''default'' ''payment_service'') (Doc (marshal workload_fields (seed_workload c u)))"
  using tenant_objects(1) [of "seed_organization c u"] tenant_objects(3) [of "''default''" "seed_google c u"]
    tenant_objects(3) [of "''default''" "seed_github c u"] tenant_objects(5) [of "''default''" "seed_admin c u"]
    tenant_objects(7) [of "''default''" "seed_role c u"] tenant_objects(6) [of "''default''" "seed_team c u"]
    tenant_objects(8) [of "''default''" "seed_workload c u"]
  by (simp_all add: seed_organization_def seed_google_def seed_github_def seed_admin_def seed_role_def seed_team_def
      seed_workload_def)

lemma safe_seed [safe_rules]: "safe ok (seedInitialData E)"
  unfolding seedInitialData_def seed_default_def
  by (intro safe_rules safe_seed_item safe_seed_app safe_seed_key seed_objects)
    (simp_all add: seed_demo_app_def seed_admin_app_def)

end

end
