(* ===== verification/Paired.thy ===== *)
theory Paired
  imports Conduct
begin

text \<open>
  Two runs of one request over two stores. The handlers of the model are functions of the store's operations; \<open>paired\<close> relates the
  run over one store with the run over another, call by call. As long as the stores answer alike (\<open>S\<close>), the runs do the same; from
  a call that they answer differently on, the stores have diverged (\<open>D\<close>), and stay so whatever the runs do.
\<close>

subsection \<open>Relational rules\<close>

definition paired ::
  "('v \<Rightarrow> 'w \<Rightarrow> bool) \<Rightarrow> ('v \<Rightarrow> 'w \<Rightarrow> bool) \<Rightarrow> ('v \<Rightarrow> 'a \<times> 'v) \<Rightarrow> ('w \<Rightarrow> 'a \<times> 'w) \<Rightarrow> bool" where
  "paired V U m n \<longleftrightarrow>
     (\<forall>v w r v' q w'. V v w \<longrightarrow> m v = (r, v') \<longrightarrow> n w = (q, w') \<longrightarrow> r = q \<and> V v' w' \<or> U v' w') \<and>
     (\<forall>v w r v'. U v w \<longrightarrow> m v = (r, v') \<longrightarrow> U v' w) \<and> (\<forall>v w q w'. U v w \<longrightarrow> n w = (q, w') \<longrightarrow> U v w')"

named_theorems paired_rules

lemma pairedI:
  assumes "\<And>v w r v' q w'. V v w \<Longrightarrow> m v = (r, v') \<Longrightarrow> n w = (q, w') \<Longrightarrow> r = q \<and> V v' w' \<or> U v' w'"
    and "\<And>v w r v'. U v w \<Longrightarrow> m v = (r, v') \<Longrightarrow> U v' w" and "\<And>v w q w'. U v w \<Longrightarrow> n w = (q, w') \<Longrightarrow> U v w'"
  shows "paired V U m n"
  using assms unfolding paired_def by blast

lemma paired_step: "paired V U m n \<Longrightarrow> V v w \<Longrightarrow> m v = (r, v') \<Longrightarrow> n w = (q, w') \<Longrightarrow> r = q \<and> V v' w' \<or> U v' w'"
  unfolding paired_def by blast

lemma paired_diverged:
  "paired V U m n \<Longrightarrow> U v w \<Longrightarrow> m v = (r, v') \<Longrightarrow> U v' w"
  "paired V U m n \<Longrightarrow> U v w \<Longrightarrow> n w = (q, w') \<Longrightarrow> U v w'"
  unfolding paired_def by blast+

lemma paired_const: "paired V U (\<lambda>v. (x, v)) (\<lambda>w. (x, w))"
  unfolding paired_def by clarsimp

lemma paired_calls [paired_rules]:
  "paired V U (ret a) (ret a)" "paired V U (fail e) (fail e)" "paired V U (ofSum s) (ofSum s)"
  unfolding ret_def [abs_def] fail_def [abs_def] ofSum_def [abs_def] by (rule paired_const)+

lemma paired_attempt [paired_rules]:
  assumes "paired V U m n" and "\<And>r. paired V U (f r) (g r)"
  shows "paired V U (attempt m f) (attempt n g)"
proof (rule pairedI)
  fix v w r v' q w'
  assume vw: "V v w" and "attempt m f v = (r, v')" "attempt n g w = (q, w')"
  then obtain r1 v1 q1 w1 where m: "m v = (r1, v1)" "f r1 v1 = (r, v')" and n: "n w = (q1, w1)" "g q1 w1 = (q, w')"
    by (auto simp: attempt_iff)
  from paired_step [OF assms(1) vw m(1) n(1)] show "r = q \<and> V v' w' \<or> U v' w'"
  proof
    assume "r1 = q1 \<and> V v1 w1"
    with paired_step [OF assms(2) _ m(2)] n(2) show ?thesis by blast
  next
    assume "U v1 w1"
    then have "U v' w1" by (rule paired_diverged(1) [OF assms(2) _ m(2)])
    then show ?thesis using paired_diverged(2) [OF assms(2) _ n(2)] by blast
  qed
next
  fix v w r v'
  assume u: "U v w" and "attempt m f v = (r, v')"
  then obtain r1 v1 where m: "m v = (r1, v1)" "f r1 v1 = (r, v')" by (auto simp: attempt_iff)
  from paired_diverged(1) [OF assms(1) u m(1)] show "U v' w" by (rule paired_diverged(1) [OF assms(2) _ m(2)])
next
  fix v w q w'
  assume u: "U v w" and "attempt n g w = (q, w')"
  then obtain q1 w1 where n: "n w = (q1, w1)" "g q1 w1 = (q, w')" by (auto simp: attempt_iff)
  from paired_diverged(2) [OF assms(1) u n(1)] show "U v w'" by (rule paired_diverged(2) [OF assms(2) _ n(2)])
qed

text \<open>Sequencing and rewrapping of errors are cases of it.\<close>

lemma andThen_attempt: "andThen m f = attempt m (\<lambda>r. case r of Inl e \<Rightarrow> fail e | Inr a \<Rightarrow> f a)"
  by (auto simp: fun_eq_iff andThen_def attempt_def fail_def split: prod.splits sum.splits)

lemma wrapErr_attempt: "wrapErr g m = attempt m (\<lambda>r. case r of Inl e \<Rightarrow> fail (g e) | Inr a \<Rightarrow> ret a)"
  by (auto simp: fun_eq_iff wrapErr_def attempt_def fail_def ret_def split: prod.splits sum.splits)

lemma paired_sequence [paired_rules]:
  "paired V U m n \<Longrightarrow> (\<And>a. paired V U (f a) (g a)) \<Longrightarrow> paired V U (andThen m f) (andThen n g)"
  "paired V U m' n' \<Longrightarrow> paired V U (wrapErr h m') (wrapErr h n')"
  unfolding andThen_attempt wrapErr_attempt
  by (auto intro!: paired_attempt paired_calls split: sum.split)

lemma paired_branches [paired_rules]:
  "paired V U m n \<Longrightarrow> paired V U m' n' \<Longrightarrow> paired V U (if b then m else m') (if b then n else n')"
  "(\<And>x. paired V U (f x) (g x)) \<Longrightarrow> paired V U (let x = a in f x) (let x = a in g x)"
  "paired V U m n \<Longrightarrow> (\<And>a. paired V U (f a) (g a)) \<Longrightarrow>
     paired V U (case o' of None \<Rightarrow> m | Some a \<Rightarrow> f a) (case o' of None \<Rightarrow> n | Some a \<Rightarrow> g a)"
  "(\<And>e. paired V U (fl e) (gl e)) \<Longrightarrow> (\<And>a. paired V U (f a) (g a)) \<Longrightarrow>
     paired V U (case s of Inl e \<Rightarrow> fl e | Inr a \<Rightarrow> f a) (case s of Inl e \<Rightarrow> gl e | Inr a \<Rightarrow> g a)"
  "paired V U m n \<Longrightarrow> (\<And>a as. paired V U (k a as) (l a as)) \<Longrightarrow>
     paired V U (case xs of [] \<Rightarrow> m | a # as \<Rightarrow> k a as) (case xs of [] \<Rightarrow> n | a # as \<Rightarrow> l a as)"
  "(\<And>a b. paired V U (k2 a b) (l2 a b)) \<Longrightarrow> paired V U (case c of (a, b) \<Rightarrow> k2 a b) (case c of (a, b) \<Rightarrow> l2 a b)"
  "paired V U m n \<Longrightarrow> paired V U m' n' \<Longrightarrow> (\<And>i b t. paired V U (k3 i b t) (l3 i b t)) \<Longrightarrow>
     paired V U (case h of BadRequest \<Rightarrow> m | NoAnswer \<Rightarrow> m' | Answer i b t \<Rightarrow> k3 i b t)
       (case h of BadRequest \<Rightarrow> n | NoAnswer \<Rightarrow> n' | Answer i b t \<Rightarrow> l3 i b t)"
  "paired V U j1 i1 \<Longrightarrow> (\<And>b. paired V U (j2 b) (i2 b)) \<Longrightarrow> (\<And>i. paired V U (j3 i) (i3 i)) \<Longrightarrow>
     (\<And>f. paired V U (j4 f) (i4 f)) \<Longrightarrow> (\<And>t. paired V U (j5 t) (i5 t)) \<Longrightarrow> (\<And>x. paired V U (j6 x) (i6 x)) \<Longrightarrow>
     (\<And>vs. paired V U (j7 vs) (i7 vs)) \<Longrightarrow> (\<And>es. paired V U (j8 es) (i8 es)) \<Longrightarrow>
     paired V U (case_jval j1 j2 j3 j4 j5 j6 j7 j8 j) (case_jval i1 i2 i3 i4 i5 i6 i7 i8 j)"
  by (auto split: option.splits sum.splits list.splits prod.splits http_result.splits jval.splits)

text \<open>Calls that do not fail: the answer of a handler.\<close>

lemma paired_if_fun:
  "paired V U m n \<Longrightarrow> paired V U m' n' \<Longrightarrow> paired V U (\<lambda>v. if b then m v else m' v) (\<lambda>w. if b then n w else n' w)"
  by (cases b) simp_all

lemmas paired_handlers = paired_if_fun paired_const

lemma paired_map:
  assumes "paired V U m n"
  shows "paired V U (\<lambda>v. case m v of (a, v') \<Rightarrow> (f a, v')) (\<lambda>w. case n w of (a, w') \<Rightarrow> (f a, w'))"
proof (rule pairedI)
  fix v w r v' q w'
  assume vw: "V v w" and x: "(case m v of (a, v') \<Rightarrow> (f a, v')) = (r, v')" and y: "(case n w of (a, w') \<Rightarrow> (f a, w')) = (q, w')"
  obtain a b where m: "m v = (a, v')" "r = f a" and n: "n w = (b, w')" "q = f b" using x y by (cases "m v"; cases "n w") simp
  from paired_step [OF assms vw m(1) n(1)] m(2) n(2) show "r = q \<and> V v' w' \<or> U v' w'" by metis
next
  fix v w r v'
  assume u: "U v w" and x: "(case m v of (a, v') \<Rightarrow> (f a, v')) = (r, v')"
  then obtain a where "m v = (a, v')" by (cases "m v") simp
  then show "U v' w" by (rule paired_diverged(1) [OF assms u])
next
  fix v w q w'
  assume u: "U v w" and y: "(case n w of (a, w') \<Rightarrow> (f a, w')) = (q, w')"
  then obtain a where "n w = (a, w')" by (cases "n w") simp
  then show "U v w'" by (rule paired_diverged(2) [OF assms u])
qed

lemma answer_map: "answer m = (\<lambda>w. case m w of (a, w') \<Rightarrow> (case a of Inl r \<Rightarrow> r | Inr r \<Rightarrow> r, w'))"
  by (auto simp: fun_eq_iff answer_def split: prod.splits sum.splits)

lemma paired_answer: "paired V U m n \<Longrightarrow> paired V U (answer m) (answer n)"
  unfolding answer_map by (rule paired_map)

subsection \<open>Two nodes with the same memory\<close>

text \<open>All of a node but its store.\<close>

definition same_memory :: "'s world \<Rightarrow> 't world \<Rightarrow> bool" where
  "same_memory v w \<longleftrightarrow> w_cache v = w_cache w \<and> w_states v = w_states w \<and> w_codes v = w_codes w \<and>
     w_tick v = w_tick w \<and> w_draw v = w_draw w \<and> w_gen v = w_gen w \<and> w_req v = w_req w"

definition alike :: "('s \<Rightarrow> 't \<Rightarrow> bool) \<Rightarrow> 's world \<Rightarrow> 't world \<Rightarrow> bool" where
  "alike S v w \<longleftrightarrow> same_memory v w \<and> S (w_store v) (w_store w)"

definition apart :: "('s \<Rightarrow> 't \<Rightarrow> bool) \<Rightarrow> 's world \<Rightarrow> 't world \<Rightarrow> bool" where
  "apart D v w \<longleftrightarrow> D (w_store v) (w_store w)"

lemma paired_on_store:
  assumes "paired S D m n"
  shows "paired (alike S) (apart D) (on_store m) (on_store n)"
proof (rule pairedI)
  fix v w r v' q w'
  assume vw: "alike S v w" and "on_store m v = (r, v')" and "on_store n w = (q, w')"
  then obtain s t where st: "m (w_store v) = (r, s)" "n (w_store w) = (q, t)" "v' = v\<lparr>w_store := s\<rparr>" "w' = w\<lparr>w_store := t\<rparr>"
    by (auto simp: on_store_eq)
  with paired_step [OF assms _ st(1,2)] vw show "r = q \<and> alike S v' w' \<or> apart D v' w'"
    by (simp add: alike_def apart_def same_memory_def)
next
  fix v w r v'
  assume "apart D v w" and "on_store m v = (r, v')"
  then show "apart D v' w" using paired_diverged(1) [OF assms] unfolding on_store_eq apart_def by force
next
  fix v w q w'
  assume "apart D v w" and "on_store n w = (q, w')"
  then show "apart D v w'" using paired_diverged(2) [OF assms] unfolding on_store_eq apart_def by force
qed

definition same_surroundings :: "'s env \<Rightarrow> 't env \<Rightarrow> bool" where
  "same_surroundings E F \<longleftrightarrow> e_now F = e_now E \<and> e_rand F = e_rand E \<and> e_genkey F = e_genkey E \<and> e_rsa F = e_rsa E \<and>
     e_http F = e_http E \<and> e_getenv F = e_getenv E \<and> e_resolver F = e_resolver E"

subsection \<open>Every operation runs alike\<close>

locale paired_stores =
  fixes E :: "'s env" and F :: "'t env" and S D :: "'s \<Rightarrow> 't \<Rightarrow> bool"
  assumes surroundings: "same_surroundings E F"
    and gets: "paired S D (st_Get (e_ops E) k) (st_Get (e_ops F) k)"
    and puts: "paired S D (st_Put (e_ops E) k d v) (st_Put (e_ops F) k d v)"
    and deletes: "paired S D (st_Delete (e_ops E) k v) (st_Delete (e_ops F) k v)"
    and lists: "paired S D (st_List (e_ops E) k) (st_List (e_ops F) k)"
begin

abbreviation pair :: "('s world \<Rightarrow> 'a \<times> 's world) \<Rightarrow> ('t world \<Rightarrow> 'a \<times> 't world) \<Rightarrow> bool" where
  "pair \<equiv> paired (alike S) (apart D)"

lemmas fields = surroundings [unfolded same_surroundings_def]

lemma same_fields:
  "e_now F = e_now E" "e_rand F = e_rand E" "e_genkey F = e_genkey E" "e_rsa F = e_rsa E"
  "e_http F = e_http E" "e_getenv F = e_getenv E" "e_resolver F = e_resolver E"
  "IssuerFor F = IssuerFor E" "VerifiedClientCert F = VerifiedClientCert E"
proof -
  show "IssuerFor F = IssuerFor E" by (rule ext) (simp add: IssuerFor_def fields split: option.split)
  show "VerifiedClientCert F = VerifiedClientCert E"
    by (intro ext) (simp only: VerifiedClientCert_def fields)
qed (simp_all add: fields)

lemma pair_store [paired_rules]:
  "pair (on_store (st_Get (e_ops E) k)) (on_store (st_Get (e_ops F) k))"
  "pair (on_store (st_Put (e_ops E) k d v)) (on_store (st_Put (e_ops F) k d v))"
  "pair (on_store (st_Delete (e_ops E) k v)) (on_store (st_Delete (e_ops F) k v))"
  "pair (on_store (st_List (e_ops E) k)) (on_store (st_List (e_ops F) k))"
  by (intro paired_on_store gets puts deletes lists)+

lemma pair_memory [paired_rules]:
  "pair (clock E) (clock F)" "pair (cached E f) (cached F f)" "pair (set_cached E g) (set_cached F g)"
  "pair (http_do E rq) (http_do F rq)" "pair (set_states ss) (set_states ss)" "pair (set_codes cs) (set_codes cs)"
  "pair (verify_jwt E tok ks opts) (verify_jwt F tok ks opts)" "pair (draw E) (draw F)" "pair (draw_key E) (draw_key F)"
  by (rule pairedI; auto simp: prims_eq alike_def apart_def same_memory_def verify_jwt_def same_fields)+

lemma pair_draws [paired_rules]:
  "pair (secure_token E p) (secure_token F p)" "pair (generate_key E org app) (generate_key F org app)"
  unfolding secure_token_def generate_key_def by (intro paired_rules)+

lemma pair_reads [paired_rules]:
  "pair (loadApplication E org cid) (loadApplication F org cid)" "pair (loadSigningKeys E org app) (loadSigningKeys F org app)"
  "pair (key_cached E org app) (key_cached F org app)" "pair (cache_keys E org app ks) (cache_keys F org app ks)"
  "pair (stored_idp E org idp) (stored_idp F org idp)" "pair (enabledIDPIDs E org) (enabledIDPIDs F org)"
  "pair (claimSingleUse E k) (claimSingleUse F k)" "pair (fetchBody E url tok) (fetchBody F url tok)"
  unfolding loadApplication_def loadSigningKeys_def key_cached_def cache_keys_def stored_idp_def
    enabledIDPIDs_def claimSingleUse_def fetchBody_def same_fields
  by (intro paired_rules)+

lemma pair_fetches [paired_rules]:
  "pair (fetchJSONObject E url tok) (fetchJSONObject F url tok)" "pair (fetchPrimaryEmail E url tok) (fetchPrimaryEmail F url tok)"
  "pair (resolveUpstreamIDP E org cid idp) (resolveUpstreamIDP F org cid idp)" "pair (select_idp E a req) (select_idp F a req)"
  "pair (upstream_exchange E cfg url code) (upstream_exchange F cfg url code)" "pair (SigningKeys E org app) (SigningKeys F org app)"
  unfolding fetchJSONObject_def fetchPrimaryEmail_def resolveUpstreamIDP_def select_idp_def upstream_exchange_def
    SigningKeys_def same_fields
  by (intro paired_rules)+

lemma pair_claims [paired_rules]: "pair (fetchUpstreamClaims E p tok) (fetchUpstreamClaims F p tok)"
  unfolding fetchUpstreamClaims_def same_fields by (intro paired_rules)

lemma pair_keys [paired_rules]:
  "pair (create_key E org app) (create_key F org app)" "pair (resolveSigningKey E org app) (resolveSigningKey F org app)"
  unfolding create_key_def resolveSigningKey_def same_fields by (intro paired_rules)+

lemma pair_logins [paired_rules]:
  "pair (begin_login E req a sel p) (begin_login F req a sel p)" "pair (PrepareAuthorization E req) (PrepareAuthorization F req)"
  "pair (live_state E c) (live_state F c)" "pair (fetchAndConsumeAuthState E ident) (fetchAndConsumeAuthState F ident)"
  "pair (CompleteUpstreamAuthenticationWithState E s cl) (CompleteUpstreamAuthenticationWithState F s cl)"
  "pair (CompleteUpstreamAuthentication E ident cl) (CompleteUpstreamAuthentication F ident cl)"
  "pair (ProcessUpstreamCallback E url ident code) (ProcessUpstreamCallback F url ident code)"
  unfolding begin_login_def PrepareAuthorization_def live_state_def fetchAndConsumeAuthState_def
    CompleteUpstreamAuthenticationWithState_def CompleteUpstreamAuthentication_def ProcessUpstreamCallback_def same_fields
  by (intro paired_rules)+

lemma pair_tokens [paired_rules]:
  "pair (mintRefreshToken E a c scope fam) (mintRefreshToken F a c scope fam)"
  "pair (issueTokens E a b scope nonce fam) (issueTokens F a b scope nonce fam)"
  "pair (redeem_code E rq ac) (redeem_code F rq ac)" "pair (redeem_refresh E rq data) (redeem_refresh F rq data)"
  "pair (ExchangeCodeForToken E rq) (ExchangeCodeForToken F rq)"
  unfolding mintRefreshToken_def issueTokens_def redeem_code_def redeem_refresh_def ExchangeCodeForToken_def
    exchangeRefreshToken_def exchangeAuthorizationCode_def fetchAndConsumeAuthCode_def same_fields
  by (intro paired_rules)+

text \<open>Validation and SVIDs.\<close>

lemma pair_source [paired_rules]:
  "pair (from_source E (NewTokenValidatorWithSource (SigningKeys E)) org app) (from_source F (NewTokenValidatorWithSource (SigningKeys F)) org app)"
  unfolding from_source_def NewTokenValidatorWithSource_def TokenValidator.simps option.case Let_def
  by (intro paired_rules)

lemma pair_svids [paired_rules]:
  "pair (Validate E (NewTokenValidatorWithSource (SigningKeys E)) org app tok opts) (Validate F (NewTokenValidatorWithSource (SigningKeys F)) org app tok opts)"
  "pair (IssueJWTSVID E c key n) (IssueJWTSVID F c key n)"
  "pair (ValidateWorkloadCert E cert wl) (ValidateWorkloadCert F cert wl)"
  "pair (mint_svid E org wl' aud scopes) (mint_svid F org wl' aud scopes)"
  "pair (IssueSVID E sq) (IssueSVID F sq)"
  unfolding Validate_def keysFor_def IssueJWTSVID_def ValidateWorkloadCert_def mint_svid_def IssueSVID_def same_fields
  by (intro paired_rules)+

text \<open>The handlers.\<close>

lemma pair_cached_admin_keys [paired_rules]:
  "pair (cached_admin_keys E org apps keys) (cached_admin_keys F org apps keys)"
  by (induction apps arbitrary: keys) (auto intro!: paired_rules)

lemma pair_admin_keys [paired_rules]:
  "pair (admin_keys E app orgs keys) (admin_keys F app orgs keys)"
  by (induction orgs arbitrary: keys) (auto intro!: paired_rules simp del: cached_admin_keys.simps)

lemma pair_admin [paired_rules]:
  "pair (AuthenticateAdmin E r) (AuthenticateAdmin F r)"
  unfolding AuthenticateAdmin_def same_fields
  by (intro paired_rules)+

lemma pair_as_admin [paired_rules]:
  "(\<And>h. pair (body h) (body' h)) \<Longrightarrow> pair (as_admin E h0 r body) (as_admin F h0 r body')"
  unfolding as_admin_def by (intro paired_rules)

lemma pair_items [paired_rules]:
  "pair (list_items E h fs zero upd pre) (list_items F h fs zero upd pre)"
  "pair (get_item E h fs zero upd key) (get_item F h fs zero upd key)"
  "pair (fresh_id E pre ident) (fresh_id F pre ident)"
  "pair (created_at E t) (created_at F t)"
  "pair (put_item E h fs item key v st) (put_item F h fs item key v st)"
  unfolding list_items_def get_item_def fresh_id_def created_at_def put_item_def same_fields
  by (intro paired_rules)+

lemma pair_saves [paired_rules]:
  "pair (save_app E h r org ident) (save_app F h r org ident)"
  "pair (save_idp E h r org ident) (save_idp F h r org ident)"
  "pair (add_key E h r org) (add_key F h r org)"
  "pair (list_keys E h org) (list_keys F h org)"
  "pair (save_user E h r org) (save_user F h r org)"
  "pair (save_team E h r org) (save_team F h r org)"
  "pair (save_role E h r org) (save_role F h r org)"
  "pair (save_workload E h r org) (save_workload F h r org)"
  "pair (list_orgs E h) (list_orgs F h)"
  "pair (save_org E h r ident) (save_org F h r ident)"
  unfolding save_app_def save_idp_def add_key_def list_keys_def save_user_def save_team_def save_role_def save_workload_def list_orgs_def save_org_def create_initial_user_def same_fields
  by (intro paired_rules)+

lemma pair_member [paired_rules]:
  "pair (member_of E org email) (member_of F org email)"
  unfolding member_of_def same_fields
  by (intro paired_rules)+

lemma pair_visible_orgs [paired_rules]:
  "pair (visible_orgs E all email recs) (visible_orgs F all email recs)"
  by (induction recs) (auto simp: Let_def split: option.splits intro!: paired_rules)

lemma pair_parts [paired_rules]:
  "pair (user_email E r token) (user_email F r token)"
  "pair (stored_keys E org app) (stored_keys F org app)"
  "pair (first_key E org app) (first_key F org app)"
  "pair (first_org_key E h org) (first_org_key F h org)"
  "pair (bind_workload E h cert org wid) (bind_workload F h cert org wid)"
  "pair (bundle_keys E org) (bundle_keys F org)"
  "pair (sign_svid E h wl org wid body) (sign_svid F h wl org wid body)"
  unfolding user_email_def stored_keys_def first_key_def first_org_key_def bind_workload_def bundle_keys_def sign_svid_def org_keys_def same_fields
  by (intro paired_rules)+

definition pair_handler :: "'s handler \<Rightarrow> 't handler \<Rightarrow> bool" where
  "pair_handler k l \<longleftrightarrow> (\<forall>h r. pair (k h r) (l h r))"

lemma pair_handlerI:
  assumes "\<And>h r. k h r = answer (m h r)" and "\<And>h r. l h r = answer (n h r)" and "\<And>h r. pair (m h r) (n h r)"
  shows "pair_handler k l"
  unfolding pair_handler_def assms(1,2) using assms(3) by (intro allI paired_answer)

lemma pair_admin_handlers:
  "pair_handler (HandleApps E) (HandleApps F)"
  "pair_handler (HandleIDPs E) (HandleIDPs F)"
  "pair_handler (HandleKeys E) (HandleKeys F)"
  "pair_handler (HandleAdminUsers E) (HandleAdminUsers F)"
  "pair_handler (HandleTeams E) (HandleTeams F)"
  "pair_handler (HandleRoles E) (HandleRoles F)"
  "pair_handler (HandleWorkloads E) (HandleWorkloads F)"
  "pair_handler (HandleOrganizations E) (HandleOrganizations F)"
  "pair_handler (HandleUserOrganizations E) (HandleUserOrganizations F)"
  by (rule pair_handlerI, (rule HandleApps_def HandleIDPs_def HandleKeys_def HandleAdminUsers_def HandleTeams_def HandleRoles_def HandleWorkloads_def HandleOrganizations_def HandleUserOrganizations_def)+, (unfold same_fields)?, intro paired_rules)+

lemma pair_oidc_handlers:
  "pair_handler (WellKnownConfig E) (WellKnownConfig F)"
  "pair_handler (JWKS E) (JWKS F)"
  "pair_handler (Authorize E) (Authorize F)"
  "pair_handler (Token E) (Token F)"
  "pair_handler (MockLogin E) (MockLogin F)"
  "pair_handler (Callback E) (Callback F)"
  by (rule pair_handlerI, (rule WellKnownConfig_def JWKS_def Authorize_def Token_def MockLogin_def Callback_def)+, (unfold same_fields)?, intro paired_rules)+

lemma pair_spiffe_handlers:
  "pair_handler (HandleSVID E x509) (HandleSVID F x509)"
  "pair_handler (TrustBundle E) (TrustBundle F)"
  by (rule pair_handlerI, (rule HandleSVID_def TrustBundle_def)+, (unfold same_fields)?, intro paired_rules)+

lemma pair_healthz: "pair_handler healthz healthz"
  by (rule pair_handlerI, (rule healthz_def)+, intro paired_rules)

text \<open>The server.\<close>

lemma pair_validate_endpoint: "pair_handler (validateEndpoint (NewServer E x509)) (validateEndpoint (NewServer F x509))"
  by (rule pair_handlerI, (rule validateEndpoint_def)+, simp only: NewServer_def Server.simps same_fields, intro paired_rules)

lemma pair_org_sub: "pair_handler (orgSubHandler (NewServer E x509)) (orgSubHandler (NewServer F x509))"
  unfolding pair_handler_def
proof (intro allI)
  fix h r
  from pair_oidc_handlers(2) pair_spiffe_handlers(2)
  have "pair (JWKS E h r) (JWKS F h r)" "pair (TrustBundle E h r) (TrustBundle F h r)" unfolding pair_handler_def by blast+
  then show "pair (orgSubHandler (NewServer E x509) h r) (orgSubHandler (NewServer F x509) h r)"
    unfolding orgSubHandler_def [abs_def] Let_def NewServer_def Server.simps by (intro paired_handlers)
qed

definition pair_routes :: "'s routing \<Rightarrow> 't routing \<Rightarrow> bool" where
  "pair_routes rs qs \<longleftrightarrow> list_all2 (\<lambda>(p, k) (q, l). p = q \<and> pair_handler k l) rs qs"

lemma pair_server_routes: "pair_routes (routes (NewServer E x509)) (routes (NewServer F x509))"
  unfolding routes_def Let_def pair_routes_def
  by (simp add: pair_oidc_handlers pair_spiffe_handlers pair_admin_handlers pair_healthz pair_org_sub pair_validate_endpoint)
    (simp add: NewServer_def pair_oidc_handlers pair_spiffe_handlers pair_admin_handlers)

lemma pair_registered: "pair_routes rs qs \<Longrightarrow> registered rs p = registered qs p"
  unfolding pair_routes_def registered_def
  by (induction rs qs rule: list_all2_induct) auto

lemma pair_best_match:
  assumes "pair_routes rs qs" and "rel_option (\<lambda>(p, k) (q, l). p = q \<and> pair_handler k l) b c"
  shows "rel_option (\<lambda>(p, k) (q, l). p = q \<and> pair_handler k l) (best_match rs p b) (best_match qs p c)"
  using assms unfolding pair_routes_def
proof (induction rs qs arbitrary: b c rule: list_all2_induct)
  case (Cons x xs y ys)
  then show ?case by (cases x; cases y; cases b; cases c) (auto intro!: Cons.IH)
qed simp

lemma pair_mux:
  assumes "pair_routes rs qs"
  shows "pair_handler (ServeMux rs) (ServeMux qs)"
  unfolding pair_handler_def
proof (intro allI)
  fix h r
  have found: "pair (\<lambda>w. case best_match rs p None of None \<Rightarrow> (NotFound h, w) | Some (q, k) \<Rightarrow> k h r w)
     (\<lambda>w. case best_match qs p None of None \<Rightarrow> (NotFound h, w) | Some (q, k) \<Rightarrow> k h r w)" for p
    using pair_best_match [OF assms, of None None p]
    by (cases "best_match rs p None"; cases "best_match qs p None") (auto simp: paired_const pair_handler_def)
  show "pair (ServeMux rs h r) (ServeMux qs h r)"
    unfolding ServeMux_def [abs_def] Let_def pair_registered [OF assms]
    by (intro paired_handlers found)
qed

lemma pair_cors [paired_rules]: "pair (applyCORS (NewServer E x509) h r) (applyCORS (NewServer F x509) h r)"
  unfolding applyCORS_def originAllowed_def NewServer_def Let_def by (simp, intro conjI impI paired_rules)

lemma pair_ServeHTTP: "pair_handler (ServeHTTP (NewServer E x509)) (ServeHTTP (NewServer F x509))"
proof (rule pair_handlerI, (rule ServeHTTP_def)+)
  fix h r
  have "pair (\<lambda>w. case ServeMux (routes (NewServer E x509)) h r w of (resp, w') \<Rightarrow> (Inr resp, w'))
      (\<lambda>w. case ServeMux (routes (NewServer F x509)) h r w of (resp, w') \<Rightarrow> (Inr resp, w'))" for h r
    using pair_mux [OF pair_server_routes [of x509]] unfolding pair_handler_def by (intro paired_map) blast
  then show "pair (andThen (applyCORS (NewServer E x509) h r) (\<lambda>(h, r'). if r_Method r' = ''OPTIONS'' then ret (WriteHeader h 204)
       else (\<lambda>w. case ServeMux (routes (NewServer E x509)) h r' w of (resp, w') \<Rightarrow> (Inr resp, w'))))
     (andThen (applyCORS (NewServer F x509) h r) (\<lambda>(h, r'). if r_Method r' = ''OPTIONS'' then ret (WriteHeader h 204)
       else (\<lambda>w. case ServeMux (routes (NewServer F x509)) h r' w of (resp, w') \<Rightarrow> (Inr resp, w'))))"
    by (intro paired_rules)
qed

lemma pair_Handler:
  assumes "pv_env P = E" and "pv_env Q = F" and "pv_resolver Q = pv_resolver P" and "pv_RequireTenant Q = pv_RequireTenant P"
  shows "pair_handler (Handler P x509) (Handler Q x509)"
  unfolding pair_handler_def
proof (intro allI)
  fix h r
  from pair_ServeHTTP have "pair (ServeHTTP (NewServer E x509) h r') (ServeHTTP (NewServer F x509) h r')" for r'
    unfolding pair_handler_def by blast
  then show "pair (Handler P x509 h r) (Handler Q x509 h r)"
    unfolding Handler_def withResolvedTenant_def [abs_def] Let_def assms
    by (intro paired_handlers)
qed

text \<open>Seeding.\<close>

lemma pair_stamped [paired_rules]:
  "pair (stamped E f) (stamped F f)"
  "pair (put_seed E k j) (put_seed F k j)"
  "pair (seed_item E fs f k) (seed_item F fs f k)"
  "pair (seed_app E f ident) (seed_app F f ident)"
  "pair (seed_key E) (seed_key F)"
  "pair (seed_default E) (seed_default F)"
  "pair (seedInitialData E) (seedInitialData F)"
  unfolding stamped_def put_seed_def seed_item_def seed_app_def seed_key_def seed_default_def seedInitialData_def same_fields
  by (intro paired_rules)+

end

end
