(* ===== verification/Reach.thy ===== *)
theory Reach
  imports Conduct
begin

text \<open>
  The whole service as a transition system: any number of nodes, each with its own memory, over one shared
  store. A step is a request served (by the server or through the embedding API), an SVID issued through the library, a start of the process that seeds the
  store, or a sweep of a cache. The invariant says what the one-time records of the store look like, whatever
  requests have been served by whichever nodes.
\<close>

subsection \<open>What the store looks like\<close>

definition sessions_ok :: "(string \<Rightarrow> (string \<times> blob) option) \<Rightarrow> bool" where
  "sessions_ok st \<longleftrightarrow> (\<forall>pre t k v d. one_time pre t k \<longrightarrow> st k = Some (v, d) \<longrightarrow> session_entry k d)"

lemma sessions_ok_delete: "sessions_ok st \<Longrightarrow> sessions_ok (st(k := None))"
  by (simp add: sessions_ok_def)

lemma sessions_ok_put: "sessions_ok st \<Longrightarrow> tenant_object k d \<or> session_entry k d \<Longrightarrow> sessions_ok (st(k \<mapsto> (v, d)))"
  using tenant_not_one_time unfolding sessions_ok_def by auto

lemma sessions_ok_readable: "sessions_ok st \<Longrightarrow> st k = Some (v, d) \<Longrightarrow> state_readable k d"
  unfolding sessions_ok_def state_readable_def by (metis one_time_keys(1) session_entry_keys(1))

definition well_typed :: "(string \<Rightarrow> (string \<times> blob) option) \<Rightarrow> bool" where
  "well_typed st \<longleftrightarrow> (\<forall>k v d. st k = Some (v, d) \<longrightarrow> tenant_object k d \<or> session_object k d)"

lemma well_typed_delete: "well_typed st \<Longrightarrow> well_typed (st(k := None))"
  by (simp add: well_typed_def)

lemma well_typed_put: "well_typed st \<Longrightarrow> tenant_object k d \<or> session_object k d \<Longrightarrow> well_typed (st(k \<mapsto> (v, d)))"
  by (simp add: well_typed_def)

text \<open>
  A step that began over the objects \<open>fst R\<close> with the random source at position \<open>snd R\<close>: a one-time record was there
  before, or its handle has been drawn in the step.
\<close>

definition from_draws ::
  "'s env \<Rightarrow> (string \<Rightarrow> (string \<times> blob) option) \<times> nat \<Rightarrow> nat \<Rightarrow> (string \<Rightarrow> (string \<times> blob) option) \<Rightarrow> bool" where
  "from_draws E R e st \<longleftrightarrow>
     (\<forall>pre t k. one_time pre t k \<longrightarrow> st k \<noteq> None \<longrightarrow> fst R k \<noteq> None \<or> drawn E (snd R) e pre t)"

lemma from_drawsD:
  "from_draws E R e st \<Longrightarrow> one_time pre t k \<Longrightarrow> st k \<noteq> None \<Longrightarrow> fst R k \<noteq> None \<or> drawn E (snd R) e pre t"
  unfolding from_draws_def by blast

lemma from_draws_later: "from_draws E R e st \<Longrightarrow> e \<le> e' \<Longrightarrow> from_draws E R e' st"
  unfolding from_draws_def by (blast intro: drawn_later)

lemma from_draws_delete: "from_draws E R e st \<Longrightarrow> from_draws E R e (st(k := None))"
  unfolding from_draws_def by simp

lemma from_draws_put:
  "from_draws E R e st \<Longrightarrow> (\<And>pre t. one_time pre t k \<Longrightarrow> drawn E (snd R) e pre t) \<Longrightarrow> from_draws E R e (st(k \<mapsto> x))"
  unfolding from_draws_def by simp

text \<open>
  The state of a node in the course of such a step; a handle \<open>(pre, t)\<close> has been drawn and is yet to be stored.
\<close>

definition service_ok ::
  "('s \<Rightarrow> string \<Rightarrow> (string \<times> blob) option) \<Rightarrow> 's env \<Rightarrow> (string \<Rightarrow> (string \<times> blob) option) \<times> nat \<Rightarrow>
     (string \<times> string) option \<Rightarrow> 's world \<Rightarrow> bool" where
  "service_ok objs E R T w \<longleftrightarrow> sessions_ok (objs (w_store w)) \<and> snd R \<le> w_draw w \<and>
     (well_typed (fst R) \<longrightarrow> well_typed (objs (w_store w))) \<and> from_draws E R (w_draw w) (objs (w_store w)) \<and>
     (\<forall>pre t. T = Some (pre, t) \<longrightarrow> drawn E (snd R) (w_draw w) pre t)"

lemma service_ok_frame:
  assumes "service_ok objs E R T w" and "objs (w_store w') = objs (w_store w)" and "w_draw w \<le> w_draw w'"
  shows "service_ok objs E R T w'"
  using assms unfolding service_ok_def by (auto intro: drawn_later from_draws_later)

lemma service_ok_deleted:
  "service_ok objs E R T w \<Longrightarrow> objs s = (objs (w_store w))(k := None) \<Longrightarrow> service_ok objs E R T (w\<lparr>w_store := s\<rparr>)"
  by (simp add: service_ok_def sessions_ok_delete from_draws_delete well_typed_delete)

lemma one_time_unique: "one_time pre t k \<Longrightarrow> one_time pre' t' k \<Longrightarrow> pre' = pre \<and> t' = t"
  by (auto simp: one_time_def)

text \<open>What a put of each kind of object does to it.\<close>

lemma service_ok_put:
  assumes cas: "cas_store (e_ops E) objs" and p: "st_Put (e_ops E) k d v (w_store w) = (p, s)"
    and w: "service_ok objs E R T w"
  shows "tenant_object k d \<Longrightarrow> service_ok objs E R T (w\<lparr>w_store := s\<rparr>)"
    "T = Some (pre, t) \<Longrightarrow> one_time pre t k \<Longrightarrow> session_entry k d \<Longrightarrow> service_ok objs E R None (w\<lparr>w_store := s\<rparr>)"
proof -
  have put: "objs s = objs (w_store w) \<or> (\<exists>v'. objs s = (objs (w_store w))(k \<mapsto> (v', d)))"
    by (rule cas_store.put_cases [OF cas p]) blast+
  show "service_ok objs E R T (w\<lparr>w_store := s\<rparr>)" if d: "tenant_object k d"
    using put
  proof
    assume "objs s = objs (w_store w)"
    with w show ?thesis by (auto intro: service_ok_frame [where w = w])
  next
    assume "\<exists>v'. objs s = (objs (w_store w))(k \<mapsto> (v', d))"
    with w d tenant_not_one_time [OF d] show ?thesis
      by (auto simp: service_ok_def intro!: sessions_ok_put from_draws_put well_typed_put)
  qed
  show "service_ok objs E R None (w\<lparr>w_store := s\<rparr>)" if T: "T = Some (pre, t)" and k: "one_time pre t k" and d: "session_entry k d"
  proof -
    from w T have w': "service_ok objs E R None w" "drawn E (snd R) (w_draw w) pre t" by (simp_all add: service_ok_def)
    from put show ?thesis
    proof
      assume "objs s = objs (w_store w)"
      with w' show ?thesis by (auto intro: service_ok_frame [where w = w])
    next
      assume "\<exists>v'. objs s = (objs (w_store w))(k \<mapsto> (v', d))"
      with w' d one_time_unique [OF k] session_entry_object [OF d] show ?thesis
        by (auto simp: service_ok_def intro!: sessions_ok_put from_draws_put well_typed_put)
    qed
  qed
qed

text \<open>The storage contract makes this an instance of the interface.\<close>

lemma service_calls:
  fixes E :: "'s env"
  assumes "cas_store (e_ops E) objs"
  shows "session_calls E (snd R) (service_ok objs E R)"
proof (rule session_calls.intro)
  let ?P = "service_ok objs E R"
  note same = service_ok_frame [where w' = "w\<lparr>w_store := s\<rparr>" for w :: "'s world" and s]
  fix T w k
  show "?P T w \<Longrightarrow> w_store w' = w_store w \<Longrightarrow> w_draw w \<le> w_draw w' \<Longrightarrow> ?P T w'" for w' by (erule service_ok_frame) auto
  show "?P T w \<Longrightarrow> ?P None w" "?P T w \<Longrightarrow> snd R \<le> w_draw w" by (auto simp: service_ok_def)
  show "?P (Some (pre, pre @ EncodeToString x)) (w\<lparr>w_draw := Suc (w_draw w)\<rparr>)" if "?P None w" "e_rand E (w_draw w) = Some x" for pre x
    using that by (auto simp: service_ok_def drawn_def intro: from_draws_later)
  show "?P T (w\<lparr>w_store := s\<rparr>) \<and> (\<forall>rec. g = Inr rec \<longrightarrow> state_readable k (sr_Data rec))"
    if "?P T w" "st_Get (e_ops E) k (w_store w) = (g, s)" for g s
  proof
    show "?P T (w\<lparr>w_store := s\<rparr>)" using that cas_store.get_frame [OF assms that(2)] by (intro same) auto
    show "\<forall>rec. g = Inr rec \<longrightarrow> state_readable k (sr_Data rec)"
      using that cas_store.get_found [OF assms] sessions_ok_readable unfolding service_ok_def by blast
  qed
  show "?P T (w\<lparr>w_store := s\<rparr>)" if "?P T w" "st_List (e_ops E) k (w_store w) = (l, s)" for l s
    using that cas_store.list_frame [OF assms that(2)] by (intro same) auto
  show "?P T (w\<lparr>w_store := s\<rparr>)" if w: "?P T w" and d: "st_Delete (e_ops E) k v (w_store w) = (u, s)" for v u s
  proof (rule cas_store.delete_cases [OF assms d])
    show ?thesis if "objs s = objs (w_store w)" using w that by (intro same) auto
    show ?thesis if "objs s = (objs (w_store w))(k := None)" using w that by (intro service_ok_deleted) auto
  qed
  show "?P T w \<Longrightarrow> tenant_object k d \<Longrightarrow> st_Put (e_ops E) k d v (w_store w) = (p, s) \<Longrightarrow> ?P T (w\<lparr>w_store := s\<rparr>)" for d v p s
    using service_ok_put(1) [OF assms] by blast
  show "?P (Some (pre, t)) w \<Longrightarrow> one_time pre t k \<Longrightarrow> session_entry k d \<Longrightarrow> st_Put (e_ops E) k d v (w_store w) = (p, s) \<Longrightarrow>
      ?P None (w\<lparr>w_store := s\<rparr>)" for pre t d v p s
    using service_ok_put(2) [OF assms _ _ refl] by blast
qed

subsection \<open>The service\<close>

text \<open>
  Node \<open>n\<close> runs in the environment \<open>env n\<close>; all share a store, which at the start holds records of tenants only. A
  state is the store with the nodes. Requests, to the server or to the handler of a provider that embeds it, are served one after
  the other; \<open>Overlap\<close> has the requests that overlap. A process that starts again has lost its memory, while the
  clock, the random source and the network go on.
\<close>

type_synonym 's run = "'s \<times> (nat \<Rightarrow> 's world)"

definition restarted :: "'s \<Rightarrow> 's world \<Rightarrow> 's world" where
  "restarted st w = (new_world st)\<lparr>w_tick := w_tick w, w_draw := w_draw w, w_gen := w_gen w, w_req := w_req w\<rparr>"

inductive service_step ::
  "(nat \<Rightarrow> 's env) \<Rightarrow> (string \<Rightarrow> Cert option) \<Rightarrow> 's run \<Rightarrow> 's run \<Rightarrow> bool"
  for env :: "nat \<Rightarrow> 's env" and x509
where
  boot: "(seedInitialData (env n) :: ('s world, unit, unit) eng) (restarted st (nodes n)) = (r, w) \<Longrightarrow>
    service_step env x509 (st, nodes) (w_store w, nodes(n := w))"
| serve: "ServeHTTP (NewServer (env n) x509) h rq ((nodes n)\<lparr>w_store := st\<rparr>) = (resp, w) \<Longrightarrow>
    service_step env x509 (st, nodes) (w_store w, nodes(n := w))"
| embed: "pv_env P = env n \<Longrightarrow> Handler P x509 h rq ((nodes n)\<lparr>w_store := st\<rparr>) = (resp, w) \<Longrightarrow>
    service_step env x509 (st, nodes) (w_store w, nodes(n := w))"
| svid: "IssueSVID (env n) sq ((nodes n)\<lparr>w_store := st\<rparr>) = (sr, w) \<Longrightarrow>
    service_step env x509 (st, nodes) (w_store w, nodes(n := w))"
| sweep: "service_step env x509 (st, nodes) (st, nodes(n := (nodes n)\<lparr>w_cache := janitor_tick (w_cache (nodes n)) now\<rparr>))"

inductive service ::
  "(nat \<Rightarrow> 's env) \<Rightarrow> (string \<Rightarrow> Cert option) \<Rightarrow> ('s \<Rightarrow> string \<Rightarrow> (string \<times> blob) option) \<Rightarrow> 's \<Rightarrow> (nat \<Rightarrow> 's world) \<Rightarrow> bool"
  for env :: "nat \<Rightarrow> 's env" and x509 and objs
where
  start: "(\<And>k. \<not> HasPrefix k ''organizations/'' \<Longrightarrow> objs st k = None) \<Longrightarrow> service env x509 objs st (\<lambda>n. new_world st)"
| step: "service env x509 objs st nodes \<Longrightarrow> service_step env x509 (st, nodes) (st', nodes') \<Longrightarrow>
    service env x509 objs st' nodes'"

inductive_cases service_stepE: "service_step env x509 (st, nodes) (st', nodes')"

text \<open>
  What one step does: one node moves, its random source never goes back, the records stay well formed, and a one-time
  record that is there afterwards was there before or has a handle that this node drew in the step.
\<close>

lemma step_keeps:
  fixes st :: 's
  assumes "service_step env x509 (st, nodes) (st', nodes')" and cas: "\<And>n. cas_store (e_ops (env n)) objs"
    and ok: "sessions_ok (objs st)"
  shows "\<exists>n. (\<forall>m. m \<noteq> n \<longrightarrow> nodes' m = nodes m) \<and> sessions_ok (objs st') \<and>
    w_draw (nodes n) \<le> w_draw (nodes' n) \<and> (well_typed (objs st) \<longrightarrow> well_typed (objs st')) \<and>
    from_draws (env n) (objs st, w_draw (nodes n)) (w_draw (nodes' n)) (objs st')"
proof -
  let ?ok = "\<lambda>n. service_ok objs (env n) (objs st, w_draw (nodes n)) None"
  note calls = service_calls [OF cas, of _ "(objs st, w_draw (nodes n))" for n, unfolded snd_conv]
  have first: "?ok n w" if "objs (w_store w) = objs st" "w_draw w = w_draw (nodes n)" for n w
    using that ok by (simp add: service_ok_def from_draws_def)
  have moved: ?thesis if "?ok n w" "st' = w_store w" "nodes' = nodes(n := w)" for n w
    using that by (intro exI [of _ n]) (simp add: service_ok_def)
  from assms(1) consider
      (boot) n r w where "(seedInitialData (env n) :: ('s world, unit, unit) eng) (restarted st (nodes n)) = (r, w)"
        "st' = w_store w" "nodes' = nodes(n := w)"
    | (serve) n h rq resp w where "ServeHTTP (NewServer (env n) x509) h rq ((nodes n)\<lparr>w_store := st\<rparr>) = (resp, w)"
        "st' = w_store w" "nodes' = nodes(n := w)"
    | (embed) n P h rq resp w where "pv_env P = env n" "Handler P x509 h rq ((nodes n)\<lparr>w_store := st\<rparr>) = (resp, w)"
        "st' = w_store w" "nodes' = nodes(n := w)"
    | (svid) n sq sr w where "IssueSVID (env n) sq ((nodes n)\<lparr>w_store := st\<rparr>) = (sr, w)"
        "st' = w_store w" "nodes' = nodes(n := w)"
    | (sweep) n now where "st' = st" "nodes' = nodes(n := (nodes n)\<lparr>w_cache := janitor_tick (w_cache (nodes n)) now\<rparr>)"
    by (auto elim!: service_stepE)
  then show ?thesis
  proof cases
    case boot
    have "?ok n (restarted st (nodes n))" by (rule first) (simp_all add: restarted_def new_world_def)
    from satD [OF session_calls.safe_seed [OF calls] boot(1) this] boot(2,3) show ?thesis by (rule moved)
  next
    case serve
    have "?ok n ((nodes n)\<lparr>w_store := st\<rparr>)" by (rule first) simp_all
    with session_calls.safe_ServeHTTP [OF calls] serve(1) have "?ok n w" unfolding safe_handler_def by (metis snd_conv)
    then show ?thesis using serve(2,3) by (rule moved)
  next
    case embed
    have "?ok n ((nodes n)\<lparr>w_store := st\<rparr>)" by (rule first) simp_all
    with session_calls.safe_Handler [OF calls embed(1)] embed(2) have "?ok n w" unfolding safe_handler_def by (metis snd_conv)
    then show ?thesis using embed(3,4) by (rule moved)
  next
    case svid
    have "?ok n ((nodes n)\<lparr>w_store := st\<rparr>)" by (rule first) simp_all
    from satD [OF session_calls.safe_svid(4) [OF calls] svid(1) this] svid(2,3) show ?thesis by (rule moved)
  next
    case sweep
    with ok show ?thesis by (intro exI [of _ n]) (simp add: from_draws_def)
  qed
qed

lemma service_invariant:
  assumes "service env x509 objs st nodes" and "\<And>n. cas_store (e_ops (env n)) objs"
  shows "sessions_ok (objs st)"
  using assms(1)
proof (induction rule: service.induct)
  case (start st)
  then have "objs st k = None" if "one_time pre t k" for pre t k
    using that by (auto simp: one_time_def key_defs HasPrefix_def)
  then show ?case by (simp add: sessions_ok_def)
next
  case (step st nodes st' nodes')
  from step_keeps [OF step.hyps(2) assms(2) step.IH] show ?case by blast
qed

lemma service_steps:
  assumes "service env x509 objs (fst s) (snd s)" and "(service_step env x509)\<^sup>*\<^sup>* s s'"
  shows "service env x509 objs (fst s') (snd s')"
  using assms(2,1)
proof (induction rule: rtranclp_induct)
  case base
  then show ?case .
next
  case (step y z)
  then show ?case by (cases y; cases z) (auto intro: service.step)
qed

text \<open>What that says of each kind of record.\<close>

definition records_sound :: "(string \<Rightarrow> (string \<times> blob) option) \<Rightarrow> bool" where
  "records_sound st \<longleftrightarrow>
    (\<forall>ident v d. st (AuthStateKey ident) = Some (v, d) \<longrightarrow>
      (\<exists>s. d = Doc (marshal state_fields s) \<and> as_StateID s = ident \<and>
        (as_CodeChallenge s \<noteq> [] \<longrightarrow> as_CodeChallengeMethod s = ''S256''))) \<and>
    (\<forall>ident v d. st (AuthCodeKey ident) = Some (v, d) \<longrightarrow>
      (\<exists>c. d = Doc (marshal code_fields c) \<and> ac_Code c = ident \<and> ac_ExpiresAt c = ac_CreatedAt c + 2 * Minute \<and>
        (ac_CodeChallenge c \<noteq> [] \<longrightarrow> ac_CodeChallengeMethod c = ''S256''))) \<and>
    (\<forall>ident v d. st (RefreshTokenKey ident) = Some (v, d) \<longrightarrow>
      (\<exists>t c. d = Doc (marshal refresh_fields t) \<and> rt_Token t = ident \<and> rt_ExpiresAt t = rt_CreatedAt t + 14 * 24 * Hour \<and>
        rt_FamilyID t \<noteq> [] \<and> rt_Claims t = Some c \<and> cl_Subject c = rt_Subject t))"

lemma sessions_ok_records:
  assumes "sessions_ok st"
  shows "records_sound st"
proof -
  have "st k = Some (v, d) \<Longrightarrow> one_time pre t k \<Longrightarrow> session_entry k d" for k v d pre t
    using assms unfolding sessions_ok_def by blast
  from this [of "AuthStateKey i" for i] this [of "AuthCodeKey i" for i] this [of "RefreshTokenKey i" for i] show ?thesis
    by (simp add: records_sound_def state_ok_def code_ok_def refresh_ok_def pkceMethodS256_def authCodeTTL_def refreshTokenTTL_def)
qed

text \<open>
  C4. In every state the service can reach, with any number of nodes over one store and whatever requests they have
  served, the one-time records are well formed: a state, a code or a refresh token is stored under its own handle; a
  challenge comes with the method S256; a code lives two minutes and a refresh token fourteen days from its creation;
  and a refresh token belongs to a family and carries the claims of its subject.
\<close>

theorem session_records_sound:
  assumes "service env x509 objs st nodes" and "\<forall>n. cas_store (e_ops (env n)) objs"
  shows "records_sound (objs st)"
  using service_invariant [OF assms(1)] assms(2) by (intro sessions_ok_records) blast

definition tenant_store :: memdb where
  "tenant_store = \<lparr>md_objs = take 3 demo_objs, md_next = 2\<rparr>"

definition demo_login_request :: Request where
  "demo_login_request = demo_http\<lparr>r_Path := ''/oauth/v2/authorize'',
     r_RawQuery := ''organization=acme&client_id=web&redirect_uri=https%3A%2F%2Fapp%2Fcb''\<rparr>"

lemma demo_login_begun:
  "mem_view (w_store (snd (Authorize demo_env h demo_login_request (new_world tenant_store)))) (AuthStateKey ''state_MA'') \<noteq> None"
  by code_simp

lemma best_match_authorize:
  "best_match (routes S) ''/oauth/v2/authorize'' None = Some (''/oauth/v2/authorize'', Authorize (sv_env S))"
  unfolding routes_def Let_def by (simp add: best_match_skip matches_def HasSuffix_slash del: best_match.simps(2))

lemma demo_login_routed:
  "\<exists>h. ServeHTTP (NewServer E x509) no_header demo_login_request w = Authorize E h demo_login_request w"
proof -
  let ?S = "NewServer E x509"
  have r: "r_Path demo_login_request = ''/oauth/v2/authorize''" "r_Method demo_login_request = ''GET''"
    "header_get demo_login_request ''Origin'' = []" by code_simp+
  have c: "cleanPath ''/oauth/v2/authorize'' = ''/oauth/v2/authorize''" by code_simp
  have n: "\<not> registered (routes ?S) (''/oauth/v2/authorize'' @ ''/'')" by (simp add: routes_def Let_def registered_def)
  have e: "sv_env ?S = E" by (simp add: NewServer_def)
  obtain h where "applyCORS ?S no_header demo_login_request w = (Inr (h, demo_login_request), w)"
    using applyCORS_no_origin [OF r(3)] by blast
  from ServeHTTP_routed [OF this] r(2) show ?thesis
    by (simp only: ServeMux_fixed [OF r(1) c best_match_authorize n, unfolded e]) auto
qed

lemma demo_login_served:
  "mem_view (w_store (snd (ServeHTTP (NewServer demo_env (\<lambda>_. None)) no_header demo_login_request (new_world tenant_store))))
     (AuthStateKey ''state_MA'') \<noteq> None"
  using demo_login_routed [of demo_env "\<lambda>_. None" "new_world tenant_store"] demo_login_begun by metis

lemma tenant_only: "\<not> HasPrefix k ''organizations/'' \<Longrightarrow> mem_view tenant_store k = None"
proof -
  have "md_objs tenant_store = [(AppKey ''acme'' ''web'', ''1'', Doc (marshal app_fields demo_app)),
     (KeyPairKey ''acme'' ''key_1'', ''1'', Doc (marshal key_fields demo_key)),
     (IDPKey ''acme'' ''google'', ''1'', Doc (marshal idp_fields demo_idp))]"
    by (simp add: tenant_store_def demo_objs_def numeral_3_eq_3)
  then show "\<not> HasPrefix k ''organizations/'' \<Longrightarrow> mem_view tenant_store k = None"
    by (auto simp: mem_view_def)
qed

lemma session_records_sound_witness:
  "\<exists>st nodes v s. service (\<lambda>_. demo_env) (\<lambda>_. None) mem_view st nodes \<and>
     mem_view st (AuthStateKey ''state_MA'') = Some (v, Doc (marshal state_fields s)) \<and> as_StateID s = ''state_MA''"
proof -
  obtain resp w where x: "ServeHTTP (NewServer demo_env (\<lambda>_. None)) no_header demo_login_request (new_world tenant_store) = (resp, w)"
    by fastforce
  have "service (\<lambda>_. demo_env) (\<lambda>_. None) mem_view tenant_store (\<lambda>n. new_world tenant_store)"
    by (rule service.start) (rule tenant_only)
  moreover have "(new_world tenant_store)\<lparr>w_store := tenant_store\<rparr> = new_world tenant_store" by (simp add: new_world_def)
  ultimately have s: "service (\<lambda>_. demo_env) (\<lambda>_. None) mem_view (w_store w) ((\<lambda>n. new_world tenant_store)(0 := w))"
    using x by (intro service.step [OF _ service_step.serve]) auto
  from demo_login_served x obtain v d where "mem_view (w_store w) (AuthStateKey ''state_MA'') = Some (v, d)" by auto
  moreover from session_records_sound [OF s] demo_cas this obtain r where "d = Doc (marshal state_fields r)" "as_StateID r = ''state_MA''"
    unfolding records_sound_def by blast
  ultimately show ?thesis using s by blast
qed

end
