(* ===== verification/Replay.thy ===== *)
theory Replay
  imports Reach Flows
begin

text \<open>
  Codes and refresh tokens in the life of the whole service: where their handles come from, and that none is honoured
  twice, by whichever nodes and with whatever else the service does in between.
\<close>

subsection \<open>What a token request redeems\<close>

definition grant_key :: "TokenRequest \<Rightarrow> string" where
  "grant_key req =
     (if tr_GrantType req = GrantRefreshToken then RefreshTokenKey (tr_RefreshToken req) else AuthCodeKey (tr_Code req))"

definition spends :: "Request \<Rightarrow> string \<Rightarrow> bool" where
  "spends r k \<longleftrightarrow> r_Path r = ''/oauth/v2/token'' \<and> r_Method r = ''POST'' \<and> grant_key (token_request_of r) = k"

context engine_store
begin

lemma grant_absent:
  assumes "view objs w (grant_key req) = None" and "ExchangeCodeForToken E req w = (Inr resp, w')"
  shows False
proof (cases "tr_GrantType req = GrantRefreshToken")
  case True
  with refresh_absent [of req w "Inr resp" w'] assms show False by (simp add: ExchangeCodeForToken_def grant_key_def)
next
  case False
  with code_absent [of req w "Inr resp" w'] assms show False
    by (simp add: ExchangeCodeForToken_def grant_key_def fail_def split: if_splits)
qed

lemma grant_spent:
  assumes "ExchangeCodeForToken E req w = (Inr resp, w')" and "RefreshTokenKey (tp_RefreshToken resp) \<noteq> grant_key req"
  shows "view objs w' (grant_key req) = None"
proof (cases "tr_GrantType req = GrantRefreshToken")
  case True
  with refresh_spent assms show ?thesis by (simp add: ExchangeCodeForToken_def grant_key_def)
next
  case False
  with code_spent [of req w "Inr resp" w'] assms show ?thesis
    by (simp add: ExchangeCodeForToken_def grant_key_def fail_def split: if_splits)
qed

end

context session_calls
begin

lemma sat_exchange:
  assumes "tr_GrantType req = GrantRefreshToken"
  shows "sat ok (ExchangeCodeForToken E req) (\<lambda>resp. new_handle E base ''rt_'' (tp_RefreshToken resp))"
proof -
  have "sat ok (redeem_refresh E req data) (\<lambda>resp. new_handle E base ''rt_'' (tp_RefreshToken resp))" for data
    unfolding redeem_refresh_def
    by (auto split: option.split intro!: sat_fail sat_then safe_rules sat_issueTokens)
  with assms show ?thesis
    unfolding ExchangeCodeForToken_def exchangeRefreshToken_def
    by (auto split: option.split intro!: sat_fail sat_then safe_rules)
qed

end

subsection \<open>Handles in a run\<close>

text \<open>No value of the random source comes twice, on one node or on two.\<close>

definition fresh_draws :: "(nat \<Rightarrow> 's env) \<Rightarrow> bool" where
  "fresh_draws env \<longleftrightarrow> (\<forall>n m p q x. e_rand (env n) p = Some x \<longrightarrow> e_rand (env m) q = Some x \<longrightarrow> n = m \<and> p = q)"

lemma drawn_once:
  assumes "fresh_draws env" and "drawn (env n) 0 e pre t" and "drawn (env m) b e' pre t"
  shows "n = m \<and> b < e"
  using assms unfolding drawn_def fresh_draws_def by (metis Encode_inject append_eq_append_conv less_le_trans not_le)

text \<open>A handle whose record is gone and that has been drawn already.\<close>

definition spent ::
  "(nat \<Rightarrow> 's env) \<Rightarrow> ('s \<Rightarrow> string \<Rightarrow> (string \<times> blob) option) \<Rightarrow> string \<Rightarrow> string \<Rightarrow> string \<Rightarrow> 's run \<Rightarrow> bool" where
  "spent env objs pre t k s \<longleftrightarrow> one_time pre t k \<and> objs (fst s) k = None \<and> (\<exists>n. drawn (env n) 0 (w_draw (snd s n)) pre t)"

lemma records_drawn:
  assumes "service env x509 objs st nodes" and cas: "\<And>n. cas_store (e_ops (env n)) objs"
    and "one_time pre t k" and "objs st k \<noteq> None"
  shows "\<exists>n. drawn (env n) 0 (w_draw (nodes n)) pre t"
  using assms(1,4)
proof (induction rule: service.induct)
  case (start st)
  with assms(3) show ?case by (auto simp: one_time_def key_defs HasPrefix_def)
next
  case (step st nodes st' nodes')
  from step_keeps [OF step.hyps(2) cas service_invariant [OF step.hyps(1) cas]] obtain n where
    n: "\<forall>m. m \<noteq> n \<longrightarrow> nodes' m = nodes m" "w_draw (nodes n) \<le> w_draw (nodes' n)"
    and f: "from_draws (env n) (objs st, w_draw (nodes n)) (w_draw (nodes' n)) (objs st')" by blast
  from from_drawsD [OF f assms(3) step.prems] consider "objs st k \<noteq> None"
    | "drawn (env n) (w_draw (nodes n)) (w_draw (nodes' n)) pre t" by auto
  then show ?case
  proof cases
    case 1
    with step.IH obtain m where "drawn (env m) 0 (w_draw (nodes m)) pre t" by blast
    with n show ?thesis by (metis drawn_later)
  next
    case 2
    then show ?thesis unfolding drawn_def by blast
  qed
qed

lemma spent_step:
  assumes "service env x509 objs st nodes" and cas: "\<And>n. cas_store (e_ops (env n)) objs" and fresh: "fresh_draws env"
    and step: "service_step env x509 (st, nodes) (st', nodes')" and spent: "spent env objs pre t k (st, nodes)"
  shows "spent env objs pre t k (st', nodes')"
proof -
  from step_keeps [OF step cas service_invariant [OF assms(1) cas]] obtain n where
    n: "\<forall>m. m \<noteq> n \<longrightarrow> nodes' m = nodes m" "w_draw (nodes n) \<le> w_draw (nodes' n)"
    and f: "from_draws (env n) (objs st, w_draw (nodes n)) (w_draw (nodes' n)) (objs st')" by blast
  from spent obtain m where k: "one_time pre t k" "objs st k = None" and m: "drawn (env m) 0 (w_draw (nodes m)) pre t"
    unfolding spent_def by auto
  have "objs st' k = None"
  proof (rule ccontr)
    assume "objs st' k \<noteq> None"
    from from_drawsD [OF f k(1) this] k(2) have "drawn (env n) (w_draw (nodes n)) (w_draw (nodes' n)) pre t" by simp
    from drawn_once [OF fresh m this] show False by auto
  qed
  with k(1) m n show ?thesis unfolding spent_def by (metis drawn_later fst_conv snd_conv)
qed

lemma spent_steps:
  assumes "(service_step env x509)\<^sup>*\<^sup>* s s'" and "service env x509 objs (fst s) (snd s)"
    and "\<And>n. cas_store (e_ops (env n)) objs" and "fresh_draws env" and "spent env objs pre t k s"
  shows "spent env objs pre t k s'"
  using assms(1,5)
proof (induction rule: rtranclp_induct)
  case (step y z)
  have "service env x509 objs (fst y) (snd y)" by (rule service_steps [OF assms(2) step.hyps(1)])
  with step spent_step [OF _ assms(3,4)] show ?case by (metis prod.collapse)
qed

subsection \<open>No replay\<close>

lemma status_simps [simp]:
  "rs_Status (Error h m c) = c" "rs_Status (Errorf h m e c) = c" "rs_Status (token_answer h t) = 200"
  by (simp_all add: Error_def Errorf_def token_answer_def)

lemma token_request_200:
  assumes "cas_store (e_ops (sv_env S)) objs" and "spends r k" and "ServeHTTP S h r w = (resp, w')" and "rs_Status resp = 200"
  obtains s tokens where "objs s = objs (w_store w)"
    "ExchangeCodeForToken (sv_env S) (token_request_of r) (w\<lparr>w_store := s\<rparr>) = (Inr tokens, w')"
proof -
  from assms(2) have "r_Path r = ''/oauth/v2/token''" "r_Method r = ''POST''" by (simp_all add: spends_def)
  from token_served [OF assms(1) this, of w h] assms(3,4) that show thesis
    by (auto simp: Let_def split: option.splits prod.splits sum.splits)
qed

lemma token_request_400:
  assumes "cas_store (e_ops (sv_env S)) objs" and "spends r k" and "objs (w_store w) k = None"
  shows "rs_Status (fst (ServeHTTP S h r w)) = 400"
proof (rule ccontr)
  assume no: "rs_Status (fst (ServeHTTP S h r w)) \<noteq> 400"
  obtain resp w' where x: "ServeHTTP S h r w = (resp, w')" by fastforce
  from assms(2) have r: "r_Path r = ''/oauth/v2/token''" "r_Method r = ''POST''" "grant_key (token_request_of r) = k"
    by (simp_all add: spends_def)
  from token_served [OF assms(1) r(1,2), of w h] no x have "rs_Status resp = 200"
    by (auto simp: Let_def split: option.splits prod.splits sum.splits)
  from token_request_200 [OF assms(1,2) x this] obtain s tokens where s: "objs s = objs (w_store w)"
    and g: "ExchangeCodeForToken (sv_env S) (token_request_of r) (w\<lparr>w_store := s\<rparr>) = (Inr tokens, w')" by blast
  have "view objs (w\<lparr>w_store := s\<rparr>) (grant_key (token_request_of r)) = None" using s assms(3) r(3) by (simp add: view_def)
  from engine_store.grant_absent [OF engine_store.intro [OF assms(1)] this g] show False .
qed

text \<open>A redemption in a run leaves the handle spent.\<close>

lemma redemption_spends:
  assumes run: "service env x509 objs st nodes" and cas: "\<And>n. cas_store (e_ops (env n)) objs" and fresh: "fresh_draws env"
    and x: "ServeHTTP (NewServer (env n) x509) h r ((nodes n)\<lparr>w_store := st\<rparr>) = (resp, w)"
    and r: "spends r k" "rs_Status resp = 200"
  shows "\<exists>pre t. spent env objs pre t k (w_store w, nodes(n := w))"
proof -
  have e: "engine_store (env n) objs" using cas by (rule engine_store.intro)
  have sv: "sv_env (NewServer (env n) x509) = env n" by (simp add: NewServer_def)
  obtain s tokens where s: "objs s = objs st"
    and g: "ExchangeCodeForToken (env n) (token_request_of r) ((nodes n)\<lparr>w_store := s\<rparr>) = (Inr tokens, w)"
    using token_request_200 [OF _ r(1) x r(2), unfolded sv, OF cas] by auto
  let ?w0 = "(nodes n)\<lparr>w_store := s\<rparr>"
  have k: "grant_key (token_request_of r) = k" using r(1) by (simp add: spends_def)
  have before: "objs st k \<noteq> None"
  proof
    assume "objs st k = None"
    with k s have "view objs ?w0 (grant_key (token_request_of r)) = None" by (simp add: view_def)
    from engine_store.grant_absent [OF e this g] show False .
  qed
  obtain pre t where t: "one_time pre t k" using k unfolding grant_key_def by (metis one_time_keys(2,3))
  from records_drawn [OF run cas t before] obtain m where m: "drawn (env m) 0 (w_draw (nodes m)) pre t" by blast
  let ?R = "(objs st, w_draw (nodes n))"
  have ok: "service_ok objs (env n) ?R None ?w0"
    using service_invariant [OF run cas] s by (simp add: service_ok_def from_draws_def)
  note calls = service_calls [OF cas, of n ?R, unfolded snd_conv]
  have "RefreshTokenKey (tp_RefreshToken tokens) \<noteq> k"
  proof
    assume same: "RefreshTokenKey (tp_RefreshToken tokens) = k"
    with k have grant: "tr_GrantType (token_request_of r) = GrantRefreshToken" by (auto simp: grant_key_def split: if_splits)
    from t same have "pre = ''rt_''" "t = tp_RefreshToken tokens" by auto
    moreover from sat_step [OF session_calls.sat_exchange [OF calls grant] ok g]
    have "new_handle (env n) (w_draw (nodes n)) ''rt_'' (tp_RefreshToken tokens)" by simp
    ultimately obtain e' where "drawn (env n) (w_draw (nodes n)) e' pre t" unfolding new_handle_def drawn_def by blast
    from drawn_once [OF fresh m this] show False by auto
  qed
  with engine_store.grant_spent [OF e g] k have "objs (w_store w) k = None" by (simp add: view_def)
  moreover have "w_draw (nodes m) \<le> w_draw ((nodes(n := w)) m)"
    using satD [OF session_calls.safe_exchange [OF calls] g ok] by (simp add: service_ok_def)
  ultimately show ?thesis using t m unfolding spent_def by (metis drawn_later fst_conv snd_conv)
qed

text \<open>
  C1. Nothing is redeemed twice in the life of the service: once a token request for a code or a refresh token has been
  answered 200 by any node, every later token request for it is answered 400, by whichever node and whatever the
  service has done in between (requests of every kind, SVIDs, restarts, cache sweeps), as long as the random source of
  the nodes does not repeat itself.
\<close>

theorem no_replay:
  assumes "service env x509 objs st nodes" and "\<forall>n. cas_store (e_ops (env n)) objs" and "fresh_draws env"
    and "ServeHTTP (NewServer (env n) x509) h r ((nodes n)\<lparr>w_store := st\<rparr>) = (resp, w)"
    and "spends r k" and "rs_Status resp = 200"
    and "(service_step env x509)\<^sup>*\<^sup>* (w_store w, nodes(n := w)) (st', nodes')" and "spends r' k"
  shows "rs_Status (fst (ServeHTTP (NewServer (env m) x509) h' r' ((nodes' m)\<lparr>w_store := st'\<rparr>))) = 400"
proof -
  have cas: "cas_store (e_ops (env n)) objs" for n using assms(2) by blast
  have "service env x509 objs (w_store w) (nodes(n := w))"
    using assms(1,4) by (intro service.step [OF _ service_step.serve])
  moreover obtain pre t where "spent env objs pre t k (w_store w, nodes(n := w))"
    using redemption_spends [OF assms(1) cas assms(3-6)] by blast
  ultimately have "spent env objs pre t k (st', nodes')"
    using spent_steps [OF assms(7) _ cas assms(3)] by simp
  then have "objs st' k = None" by (simp add: spent_def)
  with token_request_400 [of "NewServer (env m) x509" objs r' k] cas assms(8) show ?thesis
    by (simp add: NewServer_def)
qed

text \<open>
  A run with a redemption: node 0 begins and completes a login, node 1 redeems the code, and node 0 is asked for it
  again. The random source of node \<open>n\<close> is unary in the node and the position.
\<close>

definition replay_env :: "nat \<Rightarrow> memdb env" where
  "replay_env n = demo_env\<lparr>e_rand := \<lambda>p. Some (replicate n (CHR ''a'') @ replicate (Suc p) (CHR ''b''))\<rparr>"

lemma replay_fresh: "fresh_draws replay_env"
proof -
  have "n = m \<and> p = q"
    if "replicate n (CHR ''a'') @ replicate (Suc p) (CHR ''b'') = replicate m (CHR ''a'') @ replicate (Suc q) (CHR ''b'')"
    for n m p q :: nat
  proof
    let ?c = "\<lambda>x s. length (List.filter ((=) x) s)"
    from that have "?c (CHR ''a'') (replicate n (CHR ''a'') @ replicate (Suc p) (CHR ''b'')) =
        ?c (CHR ''a'') (replicate m (CHR ''a'') @ replicate (Suc q) (CHR ''b''))" by (rule arg_cong)
    then show nm: "n = m" by simp
    with that show "p = q" by (simp add: replicate_eq_replicate)
  qed
  then show ?thesis unfolding fresh_draws_def replay_env_def by (metis env.select_convs(3) env.surjective env.update_convs(3) option.inject)
qed

definition login_state :: AuthState where
  "login_state = \<lparr>as_StateID = ''state_Yg'', as_OrganizationID = ''acme'', as_AppID = ''web'', as_ClientID = ''web'',
     as_RedirectURI = ''https://app/cb'', as_Scope = [], as_OriginalState = [], as_UpstreamIDP = ''google'',
     as_CodeChallenge = [], as_CodeChallengeMethod = [], as_Nonce = [], as_CreatedAt = demo_now\<rparr>"

lemma replay_live: "reliable_engine (replay_env n) mem_view" and replay_cas: "cas_store (e_ops (replay_env n)) mem_view"
  and replay_reliable: "reliable_store (e_ops (replay_env n)) mem_view"
  using demo_cas demo_reliable
  by (auto simp: replay_env_def intro!: reliable_engine.intro engine_store.intro)

lemma replay_env_simps:
  "e_rsa (replay_env n) = demo_rsa" "e_now (replay_env n) = (\<lambda>_. demo_now)" "sv_env (NewServer (replay_env n) x509) = replay_env n"
  "e_rand (replay_env n) = (\<lambda>p. Some (replicate n (CHR ''a'') @ replicate (Suc p) (CHR ''b'')))"
  by (simp_all add: replay_env_def NewServer_def)

lemma login_begun:
  "let w = snd (Authorize (replay_env 0) h demo_login_request (new_world tenant_store)) in
     mem_view (w_store w) (AuthStateKey ''state_Yg'') = Some ([CHR 0x22, CHR ''2'', CHR 0x22], Doc (marshal state_fields login_state)) \<and>
     mem_view (w_store w) (AppKey ''acme'' ''web'') = Some (''1'', Doc (marshal app_fields demo_app)) \<and>
     mem_view (w_store w) (KeyPairKey ''acme'' ''key_1'') = Some (''1'', Doc (marshal key_fields demo_key)) \<and> w_draw w = 1"
  by code_simp

definition mock_post :: Request where
  "mock_post = demo_http\<lparr>r_Method := ''POST'', r_Path := ''/oauth/v2/mock_login'', r_RawQuery := ''state=state_Yg&email=root%40acme.io''\<rparr>"

definition redeem_post :: Request where
  "redeem_post = demo_http\<lparr>r_Method := ''POST'', r_Path := ''/oauth/v2/token'',
     r_RawQuery := ''client_id=web&client_secret=s3cret&code=code_YmI''\<rparr>"

lemma redeem_request:
  "token_request_of redeem_post = demo_request\<lparr>tr_OrganizationID := ''default'', tr_RefreshToken := [], tr_Code := ''code_YmI''\<rparr>"
  "token_request_error (token_request_of redeem_post) = None"
  by code_simp+

lemma redeem_spends: "spends redeem_post (AuthCodeKey ''code_YmI'')"
  by (simp add: spends_def grant_key_def redeem_request GrantRefreshToken_def demo_request_def)
    (simp add: redeem_post_def)

text \<open>A node with nothing in its memory honours the code.\<close>

lemma redeemed:
  assumes "mem_view s (AuthCodeKey ''code_YmI'') = Some (v, Doc (marshal code_fields ac))" and "v \<noteq> []"
    and "ac = code_of_state login_state (Some (mock_claims e m t)) ''code_YmI'' demo_now"
    and "mem_view s (AppKey ''acme'' ''web'') = Some (''1'', Doc (marshal app_fields demo_app))"
    and "mem_view s (KeyPairKey ''acme'' ''key_1'') = Some (''1'', Doc (marshal key_fields demo_key))"
  shows "rs_Status (fst (ServeHTTP (NewServer (replay_env n) x509) h redeem_post (new_world s))) = 200"
proof -
  let ?req = "token_request_of redeem_post"
  have p: "r_Path redeem_post = ''/oauth/v2/token''" "r_Method redeem_post = ''POST''" by (simp_all add: redeem_post_def)
  obtain h' s' where s': "mem_view s' = mem_view s"
    and x: "ServeHTTP (NewServer (replay_env n) x509) h redeem_post (new_world s) =
      (case ExchangeCodeForToken (replay_env n) ?req ((new_world s)\<lparr>w_store := s'\<rparr>) of
           (Inl err, w') \<Rightarrow> (Errorf h' (json_error ''invalid_grant'' ''%s'') (EngineErr err) 400, w')
         | (Inr resp, w') \<Rightarrow> (token_answer h' resp, w'))"
    using token_served [of "NewServer (replay_env n) x509" mem_view, OF _ p, of "new_world s" h] replay_cas [of n]
    by (auto simp: replay_env_simps redeem_request(2) new_world_def Let_def)
  let ?w = "(new_world s)\<lparr>w_store := s'\<rparr>"
  have v: "view mem_view ?w = mem_view s" using s' by (simp add: view_def)
  have cache: "w_cache ?w = NewMemoryCache" by (simp add: new_world_def)
  have "HasPrefix (KeyPairKey ''acme'' ''key_1'') (KeysPrefix ''acme'')" by (simp add: HasPrefix_iff KeysPrefix_def KeyPairKey_def)
  moreover have "key_Active demo_key" "key_AppID demo_key = []" by (simp_all add: demo_key_def)
  ultimately have key: "stored_key mem_view ?w ''acme'' ''web'' demo_key"
    using assms(5) demo_records(2) unfolding stored_key_def v by metis
  have base: "claims_ok (mock_claims e m t)" by (simp add: claims_ok_def mock_claims_def zero_claims_def int64_def)
  have ac: "ac_Claims ac = Some (mock_claims e m t)" "ac_ClientID ac = ''web''" "ac_OrganizationID ac = ''acme''"
    "ac_ExpiresAt ac = demo_now + authCodeTTL" "ac_CodeChallenge ac = []"
    by (simp_all add: assms(3) code_of_state_def login_state_def)
  have req: "tr_Code ?req = ''code_YmI''" "tr_ClientID ?req = ''web''" "tr_RedirectURI ?req = []" "tr_GrantType ?req = []"
    "tr_ClientSecret ?req = ''s3cret''"
    by (simp_all add: redeem_request(1) demo_request_def)
  have app: "app_OrganizationID demo_app = ''acme''" "app_ID demo_app = ''web''" "authenticate_client demo_app ac ?req = None"
    by (simp_all add: authenticate_client_def IsPublicClient_def demo_app_def zero_app_def SecureCompare_def ac req)
  have "\<exists>resp w'. exchangeAuthorizationCode (replay_env n) ?req ?w = (Inr resp, w')"
    by (rule reliable_engine.exchange_ok [OF replay_live, where ac = ac and base = "mock_claims e m t" and app = demo_app and k = demo_key
          and v = v and v' = "''1''"])
      (use assms(1,2,4) key base in \<open>simp_all add: v s' ac req app replay_env_simps authCodeTTL_def Minute_def Second_def demo_can_sign demo_signs cache\<close>)
  then show ?thesis
    unfolding x by (auto simp: ExchangeCodeForToken_def req GrantRefreshToken_def)
qed

lemma login_run:
  "\<exists>st w. (service_step replay_env (\<lambda>_. None))\<^sup>*\<^sup>* (tenant_store, \<lambda>n. new_world tenant_store) (st, (\<lambda>n. new_world tenant_store)(0 := w)) \<and>
     mem_view st (AuthCodeKey ''code_YmI'') \<noteq> None \<and>
     (\<forall>n. rs_Status (fst (ServeHTTP (NewServer (replay_env n) (\<lambda>_. None)) no_header redeem_post (new_world st))) = 200)"
proof -
  let ?step = "service_step replay_env (\<lambda>_. None)"
  let ?nodes = "\<lambda>n::nat. new_world tenant_store"
  have same: "(new_world tenant_store)\<lparr>w_store := tenant_store\<rparr> = new_world tenant_store" by (simp add: new_world_def)
  obtain h where h: "ServeHTTP (NewServer (replay_env 0) (\<lambda>_. None)) no_header demo_login_request (new_world tenant_store) =
      Authorize (replay_env 0) h demo_login_request (new_world tenant_store)"
    using demo_login_routed by blast
  obtain r1 w1 where x1: "Authorize (replay_env 0) h demo_login_request (new_world tenant_store) = (r1, w1)" by fastforce
  have s1: "?step (tenant_store, ?nodes) (w_store w1, ?nodes(0 := w1))"
    using h x1 same by (intro service_step.serve) auto
  note begun = login_begun [of h, unfolded x1 Let_def snd_conv]
  let ?w1 = "w1\<lparr>w_store := w_store w1\<rparr>"
  have q: "query_get mock_post ''state'' = ''state_Yg''" "r_Path mock_post = ''/oauth/v2/mock_login''" "r_Method mock_post = ''POST''"
    by code_simp+
  have c: "''code_YmI'' = ''code_'' @ EncodeToString ''bb''" by code_simp
  have ttl: "demo_now \<le> as_CreatedAt login_state + authStateTTL" by (simp add: login_state_def authStateTTL_def Minute_def Second_def)
  obtain now now' v r2 w2 where x2: "ServeHTTP (NewServer (replay_env 0) (\<lambda>_. None)) no_header mock_post ?w1 = (r2, w2)"
    and st2: "mem_view (w_store w2) = (mem_view (w_store w1))(AuthStateKey ''state_Yg'' := None,
      AuthCodeKey ''code_YmI'' \<mapsto> (v, Doc (marshal code_fields
        (code_of_state login_state (Some (mock_claims (FormValue mock_post ''email'') (FormValue mock_post ''name'') now)) ''code_YmI'' now'))))"
    and n: "now' = demo_now" "v \<noteq> []"
    using mock_login_served [of "NewServer (replay_env 0) (\<lambda>_. None)" mem_view ?w1 "''bb''" mock_post _ login_state "''code_YmI''" no_header]
      begun replay_reliable [of 0] ttl c unfolding q replay_env_simps by (auto simp: numeral_2_eq_2)
  have s2: "?step (w_store w1, ?nodes(0 := w1)) (w_store w2, ?nodes(0 := w2))"
    using service_step.serve [where env = replay_env and n = 0 and nodes = "?nodes(0 := w1)", of "\<lambda>_. None" no_header mock_post "w_store w1" r2 w2] x2
    by simp
  have "rs_Status (fst (ServeHTTP (NewServer (replay_env n) (\<lambda>_. None)) no_header redeem_post (new_world (w_store w2)))) = 200" for n
    by (rule redeemed [OF _ n(2) refl]) (use st2 begun n(1) in \<open>simp_all add: key_defs\<close>)
  moreover from st2 have "mem_view (w_store w2) (AuthCodeKey ''code_YmI'') \<noteq> None" by simp
  ultimately show ?thesis using s1 s2 by (intro exI [of _ "w_store w2"] exI [of _ w2]) auto
qed

lemma no_replay_witness:
  "\<exists>st nodes resp w. service replay_env (\<lambda>_. None) mem_view st nodes \<and>
     ServeHTTP (NewServer (replay_env 1) (\<lambda>_. None)) no_header redeem_post ((nodes 1)\<lparr>w_store := st\<rparr>) = (resp, w) \<and>
     rs_Status resp = 200 \<and>
     rs_Status (fst (ServeHTTP (NewServer (replay_env 0) (\<lambda>_. None)) no_header redeem_post ((nodes 0)\<lparr>w_store := w_store w\<rparr>))) = 400"
proof -
  let ?start = "\<lambda>n::nat. new_world tenant_store"
  obtain st w2 where steps: "(service_step replay_env (\<lambda>_. None))\<^sup>*\<^sup>* (tenant_store, ?start) (st, ?start(0 := w2))"
    and ok: "rs_Status (fst (ServeHTTP (NewServer (replay_env 1) (\<lambda>_. None)) no_header redeem_post (new_world st))) = 200"
    using login_run by blast
  let ?nodes = "?start(0 := w2)"
  have "service replay_env (\<lambda>_. None) mem_view tenant_store ?start" by (rule service.start) (rule tenant_only)
  with service_steps [OF _ steps] have s: "service replay_env (\<lambda>_. None) mem_view st ?nodes" by simp
  obtain r3 w3 where x3: "ServeHTTP (NewServer (replay_env 1) (\<lambda>_. None)) no_header redeem_post (new_world st) = (r3, w3)" by fastforce
  have m: "(?nodes 1)\<lparr>w_store := st\<rparr> = new_world st" by (simp add: new_world_def)
  have "rs_Status (fst (ServeHTTP (NewServer (replay_env 0) (\<lambda>_. None)) no_header redeem_post
      (((?nodes(1 := w3)) 0)\<lparr>w_store := w_store w3\<rparr>))) = 400"
    by (rule no_replay [OF s _ replay_fresh _ redeem_spends _ rtranclp.rtrancl_refl redeem_spends, where n = 1 and h = no_header and resp = r3])
      (use replay_cas x3 m ok in simp_all)
  with s x3 m ok show ?thesis
    by (intro exI [of _ st] exI [of _ ?nodes] exI [of _ r3] exI [of _ w3]) simp
qed

end
