(* ===== verification/Script.thy ===== *)
theory Script
  imports Paired Replay
begin

text \<open>
  A request as the sequence of its storage calls. The store of the model is a parameter, so a request can be run over a store that
  is no store at all: a script of replies. Such a run makes the calls the replies answer and stops at the first call that has no
  reply, and that is how far the request has got. Nothing of the handlers is repeated here: what a request does after some replies
  is what its definition does over the script.
\<close>

subsection \<open>Calls and replies\<close>

datatype call = CGet string | CPut string blob string | CDelete string string | CList string

datatype reply = RGet "sterr + StoredRecord" | RPut "sterr + string" | RDelete "sterr + unit" | RList "sterr + StoredRecord list"

text \<open>A call on a store, as one atomic step.\<close>

fun perform :: "'s store_ops \<Rightarrow> call \<Rightarrow> 's \<Rightarrow> reply \<times> 's" where
  "perform ops (CGet k) s = (case st_Get ops k s of (g, s') \<Rightarrow> (RGet g, s'))"
| "perform ops (CPut k d v) s = (case st_Put ops k d v s of (p, s') \<Rightarrow> (RPut p, s'))"
| "perform ops (CDelete k v) s = (case st_Delete ops k v s of (u, s') \<Rightarrow> (RDelete u, s'))"
| "perform ops (CList p) s = (case st_List ops p s of (l, s') \<Rightarrow> (RList l, s'))"

text \<open>
  The replies that are left, the calls that have been answered, and the first call that was not. From there on every call
  fails, and nothing is noted.
\<close>

record script =
  sc_rest :: "reply list"
  sc_past :: "(call \<times> reply) list"
  sc_next :: "call option"

definition script_of :: "reply list \<Rightarrow> script" where
  "script_of rs = \<lparr>sc_rest = rs, sc_past = [], sc_next = None\<rparr>"

definition ask :: "call \<Rightarrow> script \<Rightarrow> reply option \<times> script" where
  "ask c s =
     (case sc_next s of
        Some _ \<Rightarrow> (None, s)
      | None \<Rightarrow>
          (case sc_rest s of
             [] \<Rightarrow> (None, s\<lparr>sc_next := Some c\<rparr>)
           | r # rs \<Rightarrow> (Some r, s\<lparr>sc_rest := rs, sc_past := sc_past s @ [(c, r)]\<rparr>)))"

definition no_reply :: sterr where
  "no_reply = StOther ''no reply''"

fun got :: "string \<Rightarrow> reply option \<Rightarrow> sterr + StoredRecord" where
  "got k (Some (RGet (Inr rec))) = (if sr_Key rec = k then Inr rec else Inl no_reply)"
| "got k (Some (RGet (Inl e))) = Inl e"
| "got k _ = Inl no_reply"

fun put_result :: "reply option \<Rightarrow> sterr + string" where
  "put_result (Some (RPut p)) = p"
| "put_result _ = Inl no_reply"

fun delete_result :: "reply option \<Rightarrow> sterr + unit" where
  "delete_result (Some (RDelete u)) = u"
| "delete_result _ = Inl no_reply"

fun list_result :: "reply option \<Rightarrow> sterr + StoredRecord list" where
  "list_result (Some (RList l)) = l"
| "list_result _ = Inl no_reply"

definition script_ops :: "script store_ops" where
  "script_ops = \<lparr>
     st_Get = (\<lambda>k s. case ask (CGet k) s of (r, s') \<Rightarrow> (got k r, s')),
     st_Put = (\<lambda>k d v s. case ask (CPut k d v) s of (r, s') \<Rightarrow> (put_result r, s')),
     st_Delete = (\<lambda>k v s. case ask (CDelete k v) s of (r, s') \<Rightarrow> (delete_result r, s')),
     st_List = (\<lambda>p s. case ask (CList p) s of (r, s') \<Rightarrow> (list_result r, s'))\<rparr>"

text \<open>The environment of a node over another kind of store.\<close>

definition over :: "'t store_ops \<Rightarrow> 's env \<Rightarrow> 't env" where
  "over ops E = \<lparr>e_ops = ops, e_now = e_now E, e_rand = e_rand E, e_genkey = e_genkey E, e_rsa = e_rsa E,
     e_http = e_http E, e_getenv = e_getenv E, e_resolver = e_resolver E\<rparr>"

abbreviation scripted :: "'s env \<Rightarrow> script env" where
  "scripted \<equiv> over script_ops"

lemma over_simps [simp]:
  "e_ops (over ops E) = ops" "e_now (over ops E) = e_now E" "e_rand (over ops E) = e_rand E"
  by (simp_all add: over_def)

lemma over_surroundings: "same_surroundings (over ops E) (over ops' E)" "same_surroundings E (over ops E)"
  by (simp_all add: same_surroundings_def over_def)

subsection \<open>Jobs\<close>

text \<open>What a node can be asked to do: the steps of \<open>service\<close>, sweeps of the cache aside.\<close>

datatype job = Serve Header Request | Embed TenantResolver bool Header Request | Issue SVIDRequest | Boot

datatype outcome = Answered Response | Issued "sviderr + SVIDResponse" | Booted

definition provider_over :: "'s env \<Rightarrow> TenantResolver \<Rightarrow> bool \<Rightarrow> 's Provider" where
  "provider_over E resolver require = \<lparr>pv_env = E, pv_resolver = resolver, pv_RequireTenant = require,
     pv_validator = NewTokenValidatorWithSource (SigningKeys E)\<rparr>"

primrec run :: "'s env \<Rightarrow> (string \<Rightarrow> Cert option) \<Rightarrow> job \<Rightarrow> 's world \<Rightarrow> outcome \<times> 's world" where
  "run E x509 (Serve h r) = (\<lambda>w. case ServeHTTP (NewServer E x509) h r w of (resp, w') \<Rightarrow> (Answered resp, w'))"
| "run E x509 (Embed resolver require h r) =
     (\<lambda>w. case Handler (provider_over E resolver require) x509 h r w of (resp, w') \<Rightarrow> (Answered resp, w'))"
| "run E x509 (Issue sq) = (\<lambda>w. case IssueSVID E sq w of (resp, w') \<Rightarrow> (Issued resp, w'))"
| "run E x509 Boot =
     (\<lambda>w. case (seedInitialData E :: ('s world, unit, unit) eng) (restarted (w_store w) w) of (_, w') \<Rightarrow> (Booted, w'))"

text \<open>How far a job has got after some replies: its run over them, the calls it has made, and the call it waits for.\<close>

definition resume :: "'s env \<Rightarrow> (string \<Rightarrow> Cert option) \<Rightarrow> job \<Rightarrow> script world \<Rightarrow> reply list \<Rightarrow> outcome \<times> script world" where
  "resume E x509 j w rs = run (scripted E) x509 j (w\<lparr>w_store := script_of rs\<rparr>)"

definition past :: "'s env \<Rightarrow> (string \<Rightarrow> Cert option) \<Rightarrow> job \<Rightarrow> script world \<Rightarrow> reply list \<Rightarrow> (call \<times> reply) list" where
  "past E x509 j w rs = sc_past (w_store (snd (resume E x509 j w rs)))"

definition pending :: "'s env \<Rightarrow> (string \<Rightarrow> Cert option) \<Rightarrow> job \<Rightarrow> script world \<Rightarrow> reply list \<Rightarrow> call option" where
  "pending E x509 j w rs = sc_next (w_store (snd (resume E x509 j w rs)))"

text \<open>What every operation keeps, every job keeps.\<close>

context session_calls
begin

lemma safe_run:
  assumes "ok w"
  shows "ok (snd (run E x509 j w))"
proof (cases j)
  case (Serve h r)
  with safe_ServeHTTP assms show ?thesis by (simp add: safe_handler_def split: prod.split) (metis snd_conv)
next
  case (Embed resolver require h r)
  with safe_Handler [of "provider_over E resolver require"] assms show ?thesis
    by (simp add: safe_handler_def provider_over_def split: prod.split) (metis snd_conv)
next
  case (Issue sq)
  with satD [OF safe_svid(4) _ assms] show ?thesis by (simp split: prod.split)
next
  case Boot
  have "ok (restarted (w_store w) w)"
    by (rule frame [OF assms]) (simp_all add: restarted_def new_world_def)
  moreover obtain u w' where x: "(seedInitialData E :: ('s world, unit, unit) eng) (restarted (w_store w) w) = (u, w')" by fastforce
  ultimately show ?thesis using satD [OF safe_seed x] Boot by simp
qed

end

context paired_stores
begin

lemma pair_run: "pair (run E x509 j) (run F x509 j)"
proof (cases j)
  case (Serve h r)
  with pair_ServeHTTP show ?thesis by (simp add: pair_handler_def paired_map)
next
  case (Embed resolver require h r)
  with pair_Handler [of "provider_over E resolver require" "provider_over F resolver require"] show ?thesis
    by (simp add: pair_handler_def paired_map provider_over_def)
next
  case (Issue sq)
  then show ?thesis by (simp add: paired_map pair_svids)
next
  case Boot
  have seed: "pair (\<lambda>w. case (seedInitialData E :: ('s world, unit, unit) eng) w of (u, w') \<Rightarrow> (Booted, w'))
      (\<lambda>w. case (seedInitialData F :: ('t world, unit, unit) eng) w of (u, w') \<Rightarrow> (Booted, w'))"
    by (intro paired_map [where f = "\<lambda>_. Booted"] pair_stamped)
  have fresh: "alike S v w \<Longrightarrow> alike S (restarted (w_store v) v) (restarted (w_store w) w)"
    "apart D (restarted (w_store v) v) w = apart D v w" "apart D v (restarted (w_store w) w) = apart D v w" for v w
    by (simp_all add: alike_def same_memory_def apart_def restarted_def new_world_def)
  show ?thesis unfolding Boot run.simps
    using paired_step [OF seed fresh(1)] paired_diverged [OF seed] fresh(2,3) by (intro pairedI) blast+
qed

end

subsection \<open>What a script run notes\<close>

definition asked :: "script \<Rightarrow> call list" where
  "asked s = map fst (sc_past s) @ (case sc_next s of None \<Rightarrow> [] | Some c \<Rightarrow> [c])"

lemma ask_cases:
  assumes "ask c s = (r, s')"
  obtains (stopped) c' where "sc_next s = Some c'" "r = None" "s' = s"
    | (stops) "sc_next s = None" "sc_rest s = []" "r = None" "s' = s\<lparr>sc_next := Some c\<rparr>"
    | (answered) x rs where "sc_next s = None" "sc_rest s = x # rs" "r = Some x"
        "s' = s\<lparr>sc_rest := rs, sc_past := sc_past s @ [(c, x)]\<rparr>"
  using assms by (auto simp: ask_def split: option.splits list.splits)

lemma script_steps:
  "st_Get script_ops k s = (g, s') \<longleftrightarrow> (\<exists>r. ask (CGet k) s = (r, s') \<and> g = got k r)"
  "st_Put script_ops k d v s = (p, s') \<longleftrightarrow> (\<exists>r. ask (CPut k d v) s = (r, s') \<and> p = put_result r)"
  "st_Delete script_ops k v s = (u, s') \<longleftrightarrow> (\<exists>r. ask (CDelete k v) s = (r, s') \<and> u = delete_result r)"
  "st_List script_ops k s = (l, s') \<longleftrightarrow> (\<exists>r. ask (CList k) s = (r, s') \<and> l = list_result r)"
  by (auto simp: script_ops_def split: prod.splits)

lemma got_Inr: "got k r = Inr rec \<longleftrightarrow> r = Some (RGet (Inr rec)) \<and> sr_Key rec = k"
  by (cases "(k, r)" rule: got.cases) auto

lemma delete_result_Inr: "delete_result r = Inr u \<longleftrightarrow> r = Some (RDelete (Inr u))"
  by (cases r rule: delete_result.cases) auto

text \<open>The bookkeeping: replies are used in their order and all before the run stops, and what has been noted stays.\<close>

definition noted :: "reply list \<Rightarrow> (call \<times> reply) set \<Rightarrow> bool \<Rightarrow> script \<Rightarrow> bool" where
  "noted rs L stop s \<longleftrightarrow> map snd (sc_past s) @ sc_rest s = rs \<and> (sc_next s \<noteq> None \<longrightarrow> sc_rest s = []) \<and>
     L \<subseteq> set (sc_past s) \<and> (stop \<longrightarrow> sc_next s \<noteq> None)"

lemma noted_ask: "noted rs L stop s \<Longrightarrow> ask c s = (r, s') \<Longrightarrow> noted rs L stop s'"
  by (erule ask_cases) (auto simp: noted_def)

text \<open>What can be told of a reply: a state is one that was stored under its id, and no version is the wild card.\<close>

fun good_reply :: "reply \<Rightarrow> bool" where
  "good_reply (RGet (Inr rec)) \<longleftrightarrow> state_readable (sr_Key rec) (sr_Data rec) \<and> sr_Version rec \<noteq> MatchAnyVersion"
| "good_reply _ \<longleftrightarrow> True"

lemma good_answer:
  assumes "ask (CGet k) s = (r, s')" and "got k r = Inr rec" and "\<forall>x \<in> set (sc_rest s). good_reply x"
  shows "state_readable k (sr_Data rec)"
  using assms by (auto simp: got_Inr elim!: ask_cases)

text \<open>An instance of \<open>session_calls\<close> for runs over scripts is a property of the script and of the position in the random source.\<close>

lemma script_calls:
  fixes R :: "(string \<times> string) option \<Rightarrow> nat \<Rightarrow> script \<Rightarrow> bool"
  assumes later: "\<And>T d d' s. R T d s \<Longrightarrow> d \<le> d' \<Longrightarrow> R T d' s"
    and forget: "\<And>T d s. R T d s \<Longrightarrow> R None d s" and base: "\<And>T d s. R T d s \<Longrightarrow> base \<le> d"
    and draws: "\<And>d s x pre. R None d s \<Longrightarrow> e_rand E d = Some x \<Longrightarrow> R (Some (pre, pre @ EncodeToString x)) (Suc d) s"
    and reads: "\<And>T d s c r s'. R T d s \<Longrightarrow> ask c s = (r, s') \<Longrightarrow> (\<And>k b v. c \<noteq> CPut k b v) \<Longrightarrow> R T d s'"
    and tenant: "\<And>T d s k b v r s'. R T d s \<Longrightarrow> tenant_object k b \<Longrightarrow> ask (CPut k b v) s = (r, s') \<Longrightarrow> R T d s'"
    and session: "\<And>pre t d s k b v r s'. R (Some (pre, t)) d s \<Longrightarrow> one_time pre t k \<Longrightarrow> session_entry k b \<Longrightarrow>
        ask (CPut k b v) s = (r, s') \<Longrightarrow> R None d s'"
  shows "session_calls (scripted E) base
    (\<lambda>T w. R T (w_draw w) (w_store w) \<and> (\<forall>x \<in> set (sc_rest (w_store w)). good_reply x))"
proof (rule session_calls.intro)
  have rest: "ask c s = (r, s') \<Longrightarrow> \<forall>x \<in> set (sc_rest s). good_reply x \<Longrightarrow> \<forall>x \<in> set (sc_rest s'). good_reply x" for c s r s'
    by (erule ask_cases) auto
  let ?P = "\<lambda>T w. R T (w_draw w) (w_store w) \<and> (\<forall>x \<in> set (sc_rest (w_store w)). good_reply x)"
  fix T w k
  show "?P T w \<Longrightarrow> w_store w' = w_store w \<Longrightarrow> w_draw w \<le> w_draw w' \<Longrightarrow> ?P T w'" for w' :: "script world"
    using later by auto
  show "?P T w \<Longrightarrow> ?P None w" "?P T w \<Longrightarrow> base \<le> w_draw w" using forget base by blast+
  show "?P None w \<Longrightarrow> e_rand (scripted E) (w_draw w) = Some x \<Longrightarrow>
      ?P (Some (pre, pre @ EncodeToString x)) (w\<lparr>w_draw := Suc (w_draw w)\<rparr>)" for x pre
    using draws by simp
  show "?P T (w\<lparr>w_store := s\<rparr>) \<and> (\<forall>rec. g = Inr rec \<longrightarrow> state_readable k (sr_Data rec))"
    if w: "?P T w" and g: "st_Get (e_ops (scripted E)) k (w_store w) = (g, s)" for g s
  proof -
    from g obtain r where r: "ask (CGet k) (w_store w) = (r, s)" "g = got k r" by (auto simp: script_steps)
    from reads [OF _ r(1)] rest [OF r(1)] good_answer [OF r(1)] r(2) w show ?thesis by auto
  qed
  show "?P T w \<Longrightarrow> st_List (e_ops (scripted E)) k (w_store w) = (l, s) \<Longrightarrow> ?P T (w\<lparr>w_store := s\<rparr>)" for l s
    using reads [of T "w_draw w" "w_store w" "CList k"] rest by (auto simp: script_steps)
  show "?P T w \<Longrightarrow> st_Delete (e_ops (scripted E)) k v (w_store w) = (u, s) \<Longrightarrow> ?P T (w\<lparr>w_store := s\<rparr>)" for v u s
    using reads [of T "w_draw w" "w_store w" "CDelete k v"] rest by (auto simp: script_steps)
  show "?P T w \<Longrightarrow> tenant_object k b \<Longrightarrow> st_Put (e_ops (scripted E)) k b v (w_store w) = (q, s) \<Longrightarrow> ?P T (w\<lparr>w_store := s\<rparr>)" for b v q s
    using tenant [of T "w_draw w" "w_store w" k b v] rest by (auto simp: script_steps)
  show "?P (Some (pre, t)) w \<Longrightarrow> one_time pre t k \<Longrightarrow> session_entry k b \<Longrightarrow>
      st_Put (e_ops (scripted E)) k b v (w_store w) = (q, s) \<Longrightarrow> ?P None (w\<lparr>w_store := s\<rparr>)" for pre t b v q s
    using session [of pre t "w_draw w" "w_store w" k b v] rest by (auto simp: script_steps)
qed

lemma noting_calls:
  "session_calls (scripted E) 0 (\<lambda>T w. noted rs L stop (w_store w) \<and> (\<forall>x \<in> set (sc_rest (w_store w)). good_reply x))"
  by (rule script_calls) (auto dest: noted_ask)

interpretation noting: session_calls "scripted E" 0
    "\<lambda>T w. noted rs L stop (w_store w) \<and> (\<forall>x \<in> set (sc_rest (w_store w)). good_reply x)" for E rs L stop
  by (rule noting_calls)

text \<open>
  What a run puts: under the key of a one-time record only an entry of its kind, once, with a handle it has drawn.
\<close>

fun put_keys :: "call list \<Rightarrow> string list" where
  "put_keys [] = []"
| "put_keys (CPut k d v # cs) = k # put_keys cs"
| "put_keys (_ # cs) = put_keys cs"

lemma put_keys_append [simp]: "put_keys (cs @ ds) = put_keys cs @ put_keys ds"
  by (induction cs rule: put_keys.induct) auto

lemma put_keys_mem: "k \<in> set (put_keys cs) \<longleftrightarrow> (\<exists>d v. CPut k d v \<in> set cs)"
  by (induction cs rule: put_keys.induct) auto

definition typed_puts :: "call list \<Rightarrow> bool" where
  "typed_puts cs \<longleftrightarrow> (\<forall>k x v. CPut k x v \<in> set cs \<longrightarrow> tenant_object k x \<or> session_entry k x)"

definition drawn_puts :: "'s env \<Rightarrow> nat \<Rightarrow> nat \<Rightarrow> call list \<Rightarrow> bool" where
  "drawn_puts E b d cs \<longleftrightarrow> (\<forall>pre t k. one_time pre t k \<longrightarrow> k \<in> set (put_keys cs) \<longrightarrow> drawn E b d pre t)"

definition single_puts :: "call list \<Rightarrow> bool" where
  "single_puts cs \<longleftrightarrow> (\<forall>pre t k. one_time pre t k \<longrightarrow> count_list (put_keys cs) k \<le> 1)"

definition unput :: "string \<Rightarrow> string \<Rightarrow> call list \<Rightarrow> bool" where
  "unput pre t cs \<longleftrightarrow> (\<forall>k. one_time pre t k \<longrightarrow> k \<notin> set (put_keys cs))"

definition conduct :: "'s env \<Rightarrow> nat \<Rightarrow> (string \<times> string) option \<Rightarrow> nat \<Rightarrow> script \<Rightarrow> bool" where
  "conduct E b T d s \<longleftrightarrow> b \<le> d \<and> typed_puts (asked s) \<and> drawn_puts E b d (asked s) \<and> single_puts (asked s) \<and>
     (case T of None \<Rightarrow> True | Some (pre, t) \<Rightarrow> drawn E b d pre t \<and> unput pre t (asked s))"

text \<open>Calls that put no one-time record, and a put of one that has not been put.\<close>

lemma tenant_puts:
  assumes "\<And>k x v. c = CPut k x v \<Longrightarrow> tenant_object k x"
  shows "typed_puts cs \<Longrightarrow> typed_puts (cs @ [c])" "drawn_puts E b d (cs @ [c]) = drawn_puts E b d cs"
    "single_puts (cs @ [c]) = single_puts cs" "unput pre t (cs @ [c]) = unput pre t cs"
proof -
  have none: "k \<notin> set (put_keys [c])" if "one_time pre t k" for pre t k
    using assms tenant_not_one_time that by (cases c) auto
  have count: "count_list (put_keys [c]) k = 0" if "one_time pre t k" for pre t k
    using none [OF that] by (simp add: count_list_0_iff)
  show "typed_puts cs \<Longrightarrow> typed_puts (cs @ [c])" using assms by (auto simp: typed_puts_def)
  show "drawn_puts E b d (cs @ [c]) = drawn_puts E b d cs" using none by (auto simp: drawn_puts_def)
  show "single_puts (cs @ [c]) = single_puts cs" using count by (auto simp: single_puts_def)
  show "unput pre t (cs @ [c]) = unput pre t cs" using none by (auto simp: unput_def)
qed

lemma session_puts:
  assumes "one_time pre t k" and "session_entry k x" and "unput pre t cs"
  shows "typed_puts cs \<Longrightarrow> typed_puts (cs @ [CPut k x v])"
    "drawn_puts E b d cs \<Longrightarrow> drawn E b d pre t \<Longrightarrow> drawn_puts E b d (cs @ [CPut k x v])"
    "single_puts cs \<Longrightarrow> single_puts (cs @ [CPut k x v])"
proof -
  show "typed_puts cs \<Longrightarrow> typed_puts (cs @ [CPut k x v])" using assms(2) by (auto simp: typed_puts_def)
  show "drawn_puts E b d cs \<Longrightarrow> drawn E b d pre t \<Longrightarrow> drawn_puts E b d (cs @ [CPut k x v])"
    using one_time_unique [OF assms(1)] by (auto simp: drawn_puts_def)
  have "count_list (put_keys cs) k = 0" using assms(1,3) by (simp add: unput_def count_list_0_iff)
  then show "single_puts cs \<Longrightarrow> single_puts (cs @ [CPut k x v])" by (auto simp: single_puts_def)
qed

lemma asked_ask: "ask c s = (r, s') \<Longrightarrow> asked s' = asked s \<or> asked s' = asked s @ [c]"
  by (erule ask_cases) (auto simp: asked_def)

lemma conduct_later: "conduct E b T d s \<Longrightarrow> d \<le> d' \<Longrightarrow> conduct E b T d' s"
  by (auto simp: conduct_def drawn_puts_def intro: drawn_later split: option.splits)

lemma conduct_quiet:
  assumes "conduct E b T d s" and a: "ask c s = (r, s')" and quiet: "\<And>k x v. c = CPut k x v \<Longrightarrow> tenant_object k x"
  shows "conduct E b T d s'"
  using asked_ask [OF a] assms(1) by (auto simp: conduct_def tenant_puts [OF quiet] split: option.splits)

lemma conduct_session:
  assumes "conduct E b (Some (pre, t)) d s" and "one_time pre t k" and "session_entry k x" and a: "ask (CPut k x v) s = (r, s')"
  shows "conduct E b None d s'"
  using asked_ask [OF a] assms(1) by (auto simp: conduct_def session_puts [OF assms(2,3)])

definition draws_once :: "'s env \<Rightarrow> bool" where
  "draws_once E \<longleftrightarrow> (\<forall>p q x. e_rand E p = Some x \<longrightarrow> e_rand E q = Some x \<longrightarrow> p = q)"

lemma conduct_draw:
  assumes once: "draws_once E"
    and c: "conduct E b None d s" and x: "e_rand E d = Some x"
  shows "conduct E b (Some (pre, pre @ EncodeToString x)) (Suc d) s"
proof -
  let ?t = "pre @ EncodeToString x"
  have "\<not> drawn E b d pre ?t" using once x by (auto simp: draws_once_def drawn_def Encode_inject)
  then have "unput pre ?t (asked s)" using c by (auto simp: conduct_def drawn_puts_def unput_def)
  moreover have "drawn E b (Suc d) pre ?t" using x c by (auto simp: drawn_def conduct_def)
  ultimately show ?thesis using conduct_later [OF c, of "Suc d"] by (simp add: conduct_def)
qed

lemma conduct_calls:
  assumes "draws_once E"
  shows "session_calls (scripted E) b
    (\<lambda>T w. conduct E b T (w_draw w) (w_store w) \<and> (\<forall>x \<in> set (sc_rest (w_store w)). good_reply x))"
proof (rule script_calls)
  fix T d d' s pre x and c :: call and r s'
  show "conduct E b T d s \<Longrightarrow> d \<le> d' \<Longrightarrow> conduct E b T d' s" by (rule conduct_later)
  show "conduct E b T d s \<Longrightarrow> conduct E b None d s" "conduct E b T d s \<Longrightarrow> b \<le> d" by (simp_all add: conduct_def)
  show "conduct E b None d s \<Longrightarrow> e_rand E d = Some x \<Longrightarrow> conduct E b (Some (pre, pre @ EncodeToString x)) (Suc d) s"
    by (rule conduct_draw [OF assms])
  show "conduct E b T d s \<Longrightarrow> ask c s = (r, s') \<Longrightarrow> (\<And>k b v. c \<noteq> CPut k b v) \<Longrightarrow> conduct E b T d s'"
    by (rule conduct_quiet) auto
next
  fix T d s k x v r s'
  show "conduct E b T d s \<Longrightarrow> tenant_object k x \<Longrightarrow> ask (CPut k x v) s = (r, s') \<Longrightarrow> conduct E b T d s'"
    by (rule conduct_quiet) auto
qed (rule conduct_session)

subsection \<open>Runs over scripts\<close>

lemma resume_noted:
  assumes "resume E x509 j w rs = (out, w')" and "\<forall>x \<in> set rs. good_reply x"
  shows "noted rs {} False (w_store w')"
proof -
  have "noted rs {} False (script_of rs) \<and> (\<forall>x \<in> set (sc_rest (script_of rs)). good_reply x)"
    using assms(2) by (simp add: noted_def script_of_def)
  with session_calls.safe_run [OF noting_calls [of E rs "{}" False], of "w\<lparr>w_store := script_of rs\<rparr>" x509 j] assms(1)
  show ?thesis by (simp add: resume_def)
qed

lemma resume_conduct:
  assumes "draws_once E"
    and "resume E x509 j w rs = (out, w')" and "\<forall>x \<in> set rs. good_reply x"
  shows "conduct E (w_draw w) None (w_draw w') (w_store w')"
proof -
  have "conduct E (w_draw w) None (w_draw w) (script_of rs)"
    by (simp add: conduct_def asked_def script_of_def typed_puts_def drawn_puts_def single_puts_def)
  with session_calls.safe_run [OF conduct_calls [where b = "w_draw w", OF assms(1)], where w = "w\<lparr>w_store := script_of rs\<rparr>" and ?x509.0 = x509 and j = j]
    assms(2,3) show ?thesis by (simp add: resume_def script_of_def)
qed

text \<open>A run over extra replies continues a run over fewer.\<close>

definition in_step :: "reply list \<Rightarrow> reply list \<Rightarrow> script \<Rightarrow> script \<Rightarrow> bool" where
  "in_step rs extra s t \<longleftrightarrow> sc_next s = None \<and> sc_next t = None \<and> sc_past t = sc_past s \<and> sc_rest t = sc_rest s @ extra \<and>
     map snd (sc_past s) @ sc_rest s = rs"

definition ahead :: "reply list \<Rightarrow> reply list \<Rightarrow> script \<Rightarrow> script \<Rightarrow> bool" where
  "ahead rs extra s t \<longleftrightarrow> (\<exists>c cs. sc_next s = Some c \<and> sc_past t = sc_past s @ (c, hd extra) # cs \<and> map snd (sc_past s) = rs \<and>
     map snd (sc_past t) @ sc_rest t = rs @ extra)"

lemma paired_ask:
  assumes "extra \<noteq> []"
  shows "paired (in_step rs extra) (ahead rs extra) (ask c) (ask c)"
proof (rule pairedI)
  fix s t r s' q t'
  assume "in_step rs extra s t" and s: "ask c s = (r, s')" and t: "ask c t = (q, t')"
  then show "r = q \<and> in_step rs extra s' t' \<or> ahead rs extra s' t'"
    using assms by (cases extra) (auto simp: in_step_def ahead_def ask_def split: option.splits list.splits)
qed (auto simp: ahead_def ask_def split: option.splits list.splits)

lemma script_pair:
  assumes "extra \<noteq> []"
  shows "paired_stores (scripted E) (scripted E) (in_step rs extra) (ahead rs extra)"
proof (rule paired_stores.intro)
  note p = paired_map [OF paired_ask [OF assms, of rs]]
  show "same_surroundings (scripted E) (scripted E)" by (rule over_surroundings)
qed (simp_all add: script_ops_def paired_map paired_ask [OF assms])

lemma resume_further:
  assumes extra: "extra \<noteq> []" and x: "resume E x509 j w rs = (out, v)" and y: "resume E x509 j w (rs @ extra) = (out', v')"
  shows "out = out' \<and> same_memory v v' \<and> in_step rs extra (w_store v) (w_store v') \<or> ahead rs extra (w_store v) (w_store v')"
proof -
  have "alike (in_step rs extra) (w\<lparr>w_store := script_of rs\<rparr>) (w\<lparr>w_store := script_of (rs @ extra)\<rparr>)"
    by (simp add: alike_def same_memory_def in_step_def script_of_def)
  from paired_step [OF paired_stores.pair_run [OF script_pair [OF extra]] this] x y
  show ?thesis unfolding resume_def by (simp add: alike_def apart_def) blast
qed

lemma past_further:
  assumes "pending E x509 j w rs = Some c"
  shows "past E x509 j w (rs @ [r]) = past E x509 j w rs @ [(c, r)]"
proof -
  obtain out v where x: "resume E x509 j w rs = (out, v)" by fastforce
  obtain out' v' where y: "resume E x509 j w (rs @ [r]) = (out', v')" by fastforce
  from assms x have "sc_next (w_store v) = Some c" by (simp add: pending_def)
  with resume_further [OF _ x y] have "ahead rs [r] (w_store v) (w_store v')" by (auto simp: in_step_def)
  then obtain cs where "sc_past (w_store v') = sc_past (w_store v) @ (c, r) # cs" "map snd (sc_past (w_store v)) = rs"
    "map snd (sc_past (w_store v')) @ sc_rest (w_store v') = rs @ [r]"
    using \<open>sc_next (w_store v) = Some c\<close> unfolding ahead_def by auto
  then have "sc_past (w_store v') = sc_past (w_store v) @ [(c, r)]" by auto
  with x y show ?thesis by (simp add: past_def)
qed

text \<open>Without replies nothing has happened.\<close>

lemma past_start: "past E x509 j w [] = []"
proof -
  obtain out v where x: "resume E x509 j w [] = (out, v)" by fastforce
  with resume_noted [OF x] show ?thesis by (simp add: past_def noted_def)
qed

subsection \<open>What a redemption has done\<close>

lemma claim_noted:
  assumes "claimSingleUse (scripted E) k w = (Inr (Some data), w')"
  obtains rec where "(CGet k, RGet (Inr rec)) \<in> set (sc_past (w_store w'))"
    and "(CDelete k (sr_Version rec), RDelete (Inr ())) \<in> set (sc_past (w_store w'))" and "sr_Version rec \<noteq> []"
proof -
  from assms obtain rec s s' where g: "st_Get script_ops k (w_store w) = (Inr rec, s)" and v: "sr_Version rec \<noteq> []"
    and d: "st_Delete script_ops k (sr_Version rec) s = (Inr (), s')" and w': "w_store w' = s'"
    by (auto simp: claimSingleUse_def attempt_sum on_store_eq split: if_splits)
  from g have a: "ask (CGet k) (w_store w) = (Some (RGet (Inr rec)), s)" by (auto simp: script_steps got_Inr eq_commute [of "Inr rec"])
  from d have b: "ask (CDelete k (sr_Version rec)) s = (Some (RDelete (Inr ())), s')"
    by (auto simp: script_steps delete_result_Inr eq_commute [of "Inr ()"])
  from a b v w' that [of rec] show thesis by (auto elim!: ask_cases)
qed

text \<open>A token request that is answered has claimed the record it redeems, and that stays in the past of the run.\<close>

lemma exchange_noted:
  assumes x: "ExchangeCodeForToken (scripted E) req w = (Inr resp, w')"
    and w: "noted rs {} False (w_store w)" "\<forall>x \<in> set (sc_rest (w_store w)). good_reply x"
  obtains rec where "(CGet (grant_key req), RGet (Inr rec)) \<in> set (sc_past (w_store w'))"
    and "(CDelete (grant_key req) (sr_Version rec), RDelete (Inr ())) \<in> set (sc_past (w_store w'))" and "sr_Version rec \<noteq> []"
proof -
  let ?P = "\<lambda>L w. noted rs L False (w_store w) \<and> (\<forall>x \<in> set (sc_rest (w_store w)). good_reply x)"
  note claimed = that
  have keep: "thesis" if c: "claimSingleUse (scripted E) (grant_key req) v = (Inr (Some data), v1)"
    and safe: "\<And>L. safe (?P L) m" and m: "m v1 = (Inr resp, w')" and v: "?P {} v"
    for data v v1 and m :: "(script world, eerr, TokenResponse) eng"
  proof (rule claim_noted [OF c])
    fix rec
    let ?L = "{(CGet (grant_key req), RGet (Inr rec)), (CDelete (grant_key req) (sr_Version rec), RDelete (Inr ()))}"
    assume e: "(CGet (grant_key req), RGet (Inr rec)) \<in> set (sc_past (w_store v1))"
      "(CDelete (grant_key req) (sr_Version rec), RDelete (Inr ())) \<in> set (sc_past (w_store v1))" "sr_Version rec \<noteq> []"
    from satD [OF noting.safe_reads(7) c v] e have "?P ?L v1" by (simp add: noted_def)
    from satD [OF safe m this] have "?L \<subseteq> set (sc_past (w_store w'))" by (simp add: noted_def)
    with claimed [of rec] e(3) show thesis by simp
  qed
  show thesis
  proof (cases "tr_GrantType req = GrantRefreshToken")
    case True
    with x obtain data v1 where c: "claimSingleUse (scripted E) (grant_key req) w = (Inr (Some data), v1)"
      and m: "redeem_refresh (scripted E) req data v1 = (Inr resp, w')"
      by (auto simp: ExchangeCodeForToken_def exchangeRefreshToken_def andThen_Inr guard_Inr grant_key_def split: if_splits)
    show thesis by (rule keep [OF c noting.safe_redeem(2) m]) (use w in auto)
  next
    case False
    let ?w = "w\<lparr>w_codes := (w_codes w)(tr_Code req := None)\<rparr>"
    from x False obtain data v1 ac where c: "claimSingleUse (scripted E) (grant_key req) ?w = (Inr (Some data), v1)"
      and m: "redeem_code (scripted E) req ac v1 = (Inr resp, w')"
      by (auto simp: ExchangeCodeForToken_def exchangeAuthorizationCode_def fetchAndConsumeAuthCode_def andThen_Inr guard_Inr
          grant_key_def prims_eq split: if_splits option.splits)
    show thesis by (rule keep [OF c noting.safe_redeem(1) m]) (use w in auto)
  qed
qed

text \<open>The request a job serves, as the server sees it.\<close>

fun served :: "job \<Rightarrow> Request option" where
  "served (Serve h r) = Some r"
| "served (Embed resolver require h r) = Some (pin_tenant (resolver r) r)"
| "served _ = None"

definition redeems :: "string \<Rightarrow> job \<Rightarrow> outcome \<Rightarrow> bool" where
  "redeems k j out \<longleftrightarrow>
     (case (served j, out) of (Some r, Answered resp) \<Rightarrow> spends r k \<and> rs_Status resp = 200 | _ \<Rightarrow> False)"

lemma redeems_served:
  assumes "redeems k j out" and "run E x509 j w = (out, w')"
  obtains h r resp where "spends r k" "ServeHTTP (NewServer E x509) h r w = (resp, w')" "rs_Status resp = 200"
proof (cases j)
  case (Serve h r)
  with assms that show thesis by (auto simp: redeems_def split: prod.splits)
next
  case (Embed resolver require h r)
  with assms that show thesis
    by (auto simp: redeems_def Handler_def withResolvedTenant_def provider_over_def Let_def split: prod.splits if_splits)
qed (use assms in \<open>simp_all add: redeems_def\<close>)

lemma redeems_claimed:
  assumes "redeems k j out" and x: "resume E x509 j w rs = (out, w')" and good: "\<forall>x \<in> set rs. good_reply x"
  obtains v where "(CDelete k v, RDelete (Inr ())) \<in> set (past E x509 j w rs)" "v \<noteq> []" "v \<noteq> MatchAnyVersion"
proof -
  from x have run: "run (scripted E) x509 j (w\<lparr>w_store := script_of rs\<rparr>) = (out, w')" by (simp add: resume_def)
  obtain h r resp where r: "spends r k" and s: "ServeHTTP (NewServer (scripted E) x509) h r (w\<lparr>w_store := script_of rs\<rparr>) = (resp, w')"
    and ok: "rs_Status resp = 200" by (rule redeems_served [OF assms(1) run])
  from r have r': "r_Path r = ''/oauth/v2/token''" "r_Method r = ''POST''" "grant_key (token_request_of r) = k"
    by (simp_all add: spends_def)
  have sv: "sv_env (NewServer (scripted E) x509) = scripted E" by (simp add: NewServer_def)
  obtain h1 y w1 where c: "applyCORS (NewServer (scripted E) x509) h r (w\<lparr>w_store := script_of rs\<rparr>) = (Inr y, w1)"
    and t: "ServeHTTP (NewServer (scripted E) x509) h r (w\<lparr>w_store := script_of rs\<rparr>) =
      (let req = token_request_of r in
       case token_request_error req of
         Some msg \<Rightarrow> (Error h1 (json_error ''invalid_request'' msg) 400, w1)
       | None \<Rightarrow> (case ExchangeCodeForToken (scripted E) req w1 of
           (Inl err, w') \<Rightarrow> (Errorf h1 (json_error ''invalid_grant'' ''%s'') (EngineErr err) 400, w')
         | (Inr resp, w') \<Rightarrow> (token_answer h1 resp, w')))"
    by (rule token_routed [OF r'(1,2), where S = "NewServer (scripted E) x509" and ?h0.0 = h and w = "w\<lparr>w_store := script_of rs\<rparr>", unfolded sv])
  from t s ok obtain tokens where e: "ExchangeCodeForToken (scripted E) (token_request_of r) w1 = (Inr tokens, w')"
    by (auto simp: Let_def split: option.splits prod.splits sum.splits)
  have "noted rs {} False (script_of rs) \<and> (\<forall>x \<in> set (sc_rest (script_of rs)). good_reply x)"
    using good by (simp add: noted_def script_of_def)
  with satD [OF session_calls.safe_cors [OF noting_calls [of E rs "{}" False]] c]
  have w1: "noted rs {} False (w_store w1)" "\<forall>x \<in> set (sc_rest (w_store w1)). good_reply x" by auto
  obtain rec where g: "(CGet k, RGet (Inr rec)) \<in> set (sc_past (w_store w'))"
    and d: "(CDelete k (sr_Version rec), RDelete (Inr ())) \<in> set (sc_past (w_store w'))" and v: "sr_Version rec \<noteq> []"
    using exchange_noted [OF e w1] unfolding r'(3) by blast
  from resume_noted [OF x good] g have "RGet (Inr rec) \<in> set rs" by (force simp: noted_def)
  with good have "sr_Version rec \<noteq> MatchAnyVersion" by auto
  with that [of "sr_Version rec"] d v x show thesis by (simp add: past_def)
qed

end
