(* ===== verification/Race.thy ===== *)
theory Race
  imports Script
begin

text \<open>
  \<^verbatim>\<open>claimSingleUse\<close> run by many nodes at once on one store. A node is the method's own definition over the replies its storage
  calls have had so far (\<open>Script\<close>); a step answers one call of one node, and between the calls of a node other nodes, and other
  uses of the store, may run. For the proof a node's replies are read as a stage of its claim, and the steps as steps between
  stages (\<open>race_step\<close>).
\<close>

subsection \<open>Claims at work\<close>

text \<open>How far a claim has got after some replies: its run over them, the call it waits for, and what it has returned.\<close>

definition claim_run :: "'s env \<Rightarrow> string \<Rightarrow> reply list \<Rightarrow> (eerr + blob option) \<times> script world" where
  "claim_run E key rs = claimSingleUse (scripted E) key (new_world (script_of rs))"

definition claim_pending :: "'s env \<Rightarrow> string \<Rightarrow> reply list \<Rightarrow> call option" where
  "claim_pending E key rs = sc_next (w_store (snd (claim_run E key rs)))"

definition claim_returned :: "'s env \<Rightarrow> string \<Rightarrow> reply list \<Rightarrow> blob option \<Rightarrow> bool" where
  "claim_returned E key rs x \<longleftrightarrow> claim_pending E key rs = None \<and> fst (claim_run E key rs) = Inr x"

record 's claims =
  cm_store :: 's
  cm_node :: "nat \<Rightarrow> reply list"

definition claims_start :: "'s \<Rightarrow> 's claims" where
  "claims_start s = \<lparr>cm_store = s, cm_node = (\<lambda>_. [])\<rparr>"

text \<open>Other uses of the store: any read, any listing, writes and deletes of other keys.\<close>

fun elsewhere :: "string \<Rightarrow> call \<Rightarrow> bool" where
  "elsewhere key (CPut k d ev) = (k \<noteq> key)"
| "elsewhere key (CDelete k ev) = (k \<noteq> key)"
| "elsewhere key c = True"

inductive claim_step :: "'s env \<Rightarrow> string \<Rightarrow> 's claims \<Rightarrow> 's claims \<Rightarrow> bool" for E :: "'s env" and key :: string where
  node_calls: "claim_pending E key (cm_node s i) = Some c \<Longrightarrow> perform (e_ops E) c (cm_store s) = (r, t) \<Longrightarrow>
     claim_step E key s (s\<lparr>cm_store := t, cm_node := (cm_node s)(i := cm_node s i @ [r])\<rparr>)"
| other_calls: "elsewhere key c \<Longrightarrow> perform (e_ops E) c (cm_store s) = (r, t) \<Longrightarrow> claim_step E key s (s\<lparr>cm_store := t\<rparr>)"

abbreviation claim_steps :: "'s env \<Rightarrow> string \<Rightarrow> 's claims \<Rightarrow> 's claims \<Rightarrow> bool" where
  "claim_steps E key \<equiv> (claim_step E key)\<^sup>*\<^sup>*"

subsection \<open>Stages of a claim\<close>

definition claimable :: "sterr + StoredRecord \<Rightarrow> StoredRecord option" where
  "claimable r =
     (case r of
        Inl err \<Rightarrow> None
      | Inr rec \<Rightarrow> if blob_empty (sr_Data rec) \<or> sr_Version rec = [] then None else Some rec)"

datatype phase = Start | Holding StoredRecord | Won blob | Lost

definition after_read :: "sterr + StoredRecord \<Rightarrow> phase" where
  "after_read r = (case claimable r of None \<Rightarrow> Lost | Some rec \<Rightarrow> Holding rec)"

definition after_delete :: "StoredRecord \<Rightarrow> sterr + unit \<Rightarrow> phase" where
  "after_delete rec d = (case d of Inl err \<Rightarrow> Lost | Inr u \<Rightarrow> Won (sr_Data rec))"

record 's race =
  ra_store :: 's
  ra_node :: "nat \<Rightarrow> phase"

inductive race_step :: "'s store_ops \<Rightarrow> string \<Rightarrow> 's race \<Rightarrow> 's race \<Rightarrow> bool"
  for ops :: "'s store_ops" and key :: string
where
  node_reads: "ra_node s i = Start \<Longrightarrow> st_Get ops key (ra_store s) = (r, t) \<Longrightarrow>
     race_step ops key s (s\<lparr>ra_store := t, ra_node := (ra_node s)(i := after_read r)\<rparr>)"
| node_deletes: "ra_node s i = Holding rec \<Longrightarrow> st_Delete ops key (sr_Version rec) (ra_store s) = (d, t) \<Longrightarrow>
     race_step ops key s (s\<lparr>ra_store := t, ra_node := (ra_node s)(i := after_delete rec d)\<rparr>)"
| other_get: "st_Get ops k (ra_store s) = (r, t) \<Longrightarrow> race_step ops key s (s\<lparr>ra_store := t\<rparr>)"
| other_put: "k \<noteq> key \<Longrightarrow> st_Put ops k d ev (ra_store s) = (p, t) \<Longrightarrow> race_step ops key s (s\<lparr>ra_store := t\<rparr>)"
| other_delete: "k \<noteq> key \<Longrightarrow> st_Delete ops k ev (ra_store s) = (d, t) \<Longrightarrow> race_step ops key s (s\<lparr>ra_store := t\<rparr>)"
| other_list: "st_List ops p (ra_store s) = (l, t) \<Longrightarrow> race_step ops key s (s\<lparr>ra_store := t\<rparr>)"

abbreviation race_steps :: "'s store_ops \<Rightarrow> string \<Rightarrow> 's race \<Rightarrow> 's race \<Rightarrow> bool" where
  "race_steps ops key \<equiv> (race_step ops key)\<^sup>*\<^sup>*"

definition race_init :: "'s \<Rightarrow> 's race" where
  "race_init s = \<lparr>ra_store = s, ra_node = (\<lambda>_. Start)\<rparr>"

text \<open>The stage that a list of replies stands for, and what the method does there.\<close>

definition stage :: "string \<Rightarrow> reply list \<Rightarrow> phase \<Rightarrow> bool" where
  "stage key rs p \<longleftrightarrow>
     rs = [] \<and> p = Start \<or>
     (\<exists>g. rs = [RGet g] \<and> p = after_read (got key (Some (RGet g)))) \<or>
     (\<exists>g rec u. rs = [RGet g, RDelete u] \<and> after_read (got key (Some (RGet g))) = Holding rec \<and> p = after_delete rec u)"

lemma claim_run_start: "claim_pending E key [] = Some (CGet key)"
  by (simp add: claim_pending_def claim_run_def claimSingleUse_def attempt_def on_store_def script_ops_def ask_def script_of_def
      new_world_def ret_def no_reply_def)

lemma claim_run_read:
  "claim_run E key (RGet g # rs) = (case claimable (got key (Some (RGet g))) of
      None \<Rightarrow> (Inr None, new_world \<lparr>sc_rest = rs, sc_past = [(CGet key, RGet g)], sc_next = None\<rparr>)
    | Some rec \<Rightarrow> attempt (on_store (st_Delete script_ops key (sr_Version rec))) (\<lambda>d. case d of
          Inl err \<Rightarrow> ret None
        | Inr u \<Rightarrow> ret (Some (sr_Data rec))) (new_world \<lparr>sc_rest = rs, sc_past = [(CGet key, RGet g)], sc_next = None\<rparr>))"
proof -
  have g: "st_Get script_ops key (script_of (RGet g # rs)) =
      (got key (Some (RGet g)), \<lparr>sc_rest = rs, sc_past = [(CGet key, RGet g)], sc_next = None\<rparr>)"
    by (simp add: script_ops_def ask_def script_of_def)
  show ?thesis
    by (cases "got key (Some (RGet g))")
      (simp_all add: claim_run_def claimSingleUse_def attempt_def on_store_def g claimable_def new_world_def ret_def)
qed

lemma stage_pending:
  assumes "stage key rs p"
  shows "claim_pending E key rs = (case p of Start \<Rightarrow> Some (CGet key) | Holding rec \<Rightarrow> Some (CDelete key (sr_Version rec)) | _ \<Rightarrow> None)"
  using assms unfolding stage_def
proof (elim disjE conjE exE)
  assume "rs = []" "p = Start"
  then show ?thesis by (simp add: claim_run_start)
next
  fix g
  assume "rs = [RGet g]" "p = after_read (got key (Some (RGet g)))"
  then show ?thesis
    by (cases "claimable (got key (Some (RGet g)))")
      (simp_all add: claim_pending_def claim_run_read after_read_def new_world_def attempt_def on_store_def script_ops_def ask_def ret_def
        no_reply_def)
next
  fix g rec u
  assume rs: "rs = [RGet g, RDelete u]" and g: "after_read (got key (Some (RGet g))) = Holding rec" and p: "p = after_delete rec u"
  from g have "claimable (got key (Some (RGet g))) = Some rec" by (auto simp: after_read_def split: option.splits)
  with rs p show ?thesis
    by (cases u) (simp_all add: claim_pending_def claim_run_read after_delete_def new_world_def attempt_def on_store_def
        script_ops_def ask_def ret_def)
qed

lemma stage_returned:
  assumes "stage key rs p"
  shows "claim_returned E key rs x \<longleftrightarrow> (p = Lost \<and> x = None) \<or> (\<exists>d. p = Won d \<and> x = Some d)"
  using assms unfolding stage_def
proof (elim disjE conjE exE)
  assume "rs = []" "p = Start"
  then show ?thesis by (simp add: claim_returned_def claim_run_start)
next
  fix g
  assume rs: "rs = [RGet g]" and p: "p = after_read (got key (Some (RGet g)))"
  from assms have "claim_pending E key rs = (case p of Start \<Rightarrow> Some (CGet key) | Holding rec \<Rightarrow> Some (CDelete key (sr_Version rec)) | _ \<Rightarrow> None)"
    by (rule stage_pending)
  with rs p show ?thesis
    by (cases "claimable (got key (Some (RGet g)))") (auto simp: claim_returned_def claim_run_read after_read_def)
next
  fix g rec u
  assume rs: "rs = [RGet g, RDelete u]" and g: "after_read (got key (Some (RGet g))) = Holding rec" and p: "p = after_delete rec u"
  from g have c: "claimable (got key (Some (RGet g))) = Some rec" by (auto simp: after_read_def split: option.splits)
  have "claim_pending E key rs = None" using stage_pending [OF assms] p by (cases u) (simp_all add: after_delete_def)
  with rs p c show ?thesis
    by (cases u) (auto simp: claim_returned_def claim_run_read after_delete_def new_world_def attempt_def on_store_def
        script_ops_def ask_def ret_def)
qed

lemma after_delete_not [simp]: "Holding x \<noteq> after_delete rec u" "Start \<noteq> after_delete rec u"
  by (simp_all add: after_delete_def split: sum.split)

text \<open>A step of the nodes is a step between their stages.\<close>

definition staged :: "string \<Rightarrow> 's claims \<Rightarrow> 's race \<Rightarrow> bool" where
  "staged key s a \<longleftrightarrow> ra_store a = cm_store s \<and> (\<forall>i. stage key (cm_node s i) (ra_node a i))"

lemma staged_start: "staged key (claims_start s) (race_init s)"
  by (simp add: staged_def claims_start_def race_init_def stage_def)

context cas_store
begin

lemma got_own: "st_Get ops key s = (g, t) \<Longrightarrow> got key (Some (RGet g)) = g"
  using get_found [of key s _ t] by (cases g) auto

end

lemma staged_step:
  assumes "claim_step E key s s'" and "staged key s a" and "cas_store (e_ops E) objs"
  shows "\<exists>a'. race_step (e_ops E) key a a' \<and> staged key s' a'"
  using assms(1)
proof (cases rule: claim_step.cases)
  case (node_calls i c r t)
  from assms(2) have st: "stage key (cm_node s i) (ra_node a i)" and same: "ra_store a = cm_store s" by (simp_all add: staged_def)
  have next_stage: "staged key s' (a\<lparr>ra_store := t, ra_node := (ra_node a)(i := p)\<rparr>)" if "stage key (cm_node s i @ [r]) p" for p
    using assms(2) that node_calls(1) by (simp add: staged_def)
  show ?thesis
  proof (cases "ra_node a i")
    case Start
    with st have rs: "cm_node s i = []"
      by (auto simp: stage_def after_read_def split: option.splits)
    with node_calls(2) have c: "c = CGet key" by (simp add: claim_run_start)
    with node_calls(3) obtain g where g: "st_Get (e_ops E) key (cm_store s) = (g, t)" "r = RGet g" by (auto split: prod.splits)
    have "race_step (e_ops E) key a (a\<lparr>ra_store := t, ra_node := (ra_node a)(i := after_read g)\<rparr>)"
      by (rule race_step.node_reads [OF Start]) (simp add: same g)
    moreover have "stage key (cm_node s i @ [r]) (after_read g)"
      using rs g(2) cas_store.got_own [OF assms(3) g(1)] by (simp add: stage_def)
    ultimately show ?thesis using next_stage by blast
  next
    case (Holding rec)
    with st obtain g where rs: "cm_node s i = [RGet g]" and g: "after_read (got key (Some (RGet g))) = Holding rec"
      by (auto simp: stage_def)
    from stage_pending [OF st, of E] node_calls(2) Holding have "c = CDelete key (sr_Version rec)" by simp
    with node_calls(3) obtain u where u: "st_Delete (e_ops E) key (sr_Version rec) (cm_store s) = (u, t)" "r = RDelete u"
      by (auto split: prod.splits)
    have "race_step (e_ops E) key a (a\<lparr>ra_store := t, ra_node := (ra_node a)(i := after_delete rec u)\<rparr>)"
      by (rule race_step.node_deletes [OF Holding]) (simp add: same u)
    moreover have "stage key (cm_node s i @ [r]) (after_delete rec u)" using rs g u(2) by (simp add: stage_def)
    ultimately show ?thesis using next_stage by blast
  next
    case (Won d)
    with stage_pending [OF st, of E] node_calls(2) show ?thesis by simp
  next
    case Lost
    with stage_pending [OF st, of E] node_calls(2) show ?thesis by simp
  qed
next
  case (other_calls c r t)
  from assms(2) have same: "ra_store a = cm_store s" by (simp add: staged_def)
  have "staged key s' (a\<lparr>ra_store := t\<rparr>)" using assms(2) other_calls(1) by (simp add: staged_def)
  moreover have "race_step (e_ops E) key a (a\<lparr>ra_store := t\<rparr>)"
    using other_calls(2,3) by (cases c) (auto simp: same split: prod.splits intro: race_step.intros)
  ultimately show ?thesis by blast
qed

lemma staged_run:
  assumes "claim_steps E key (claims_start s0) s" and "cas_store (e_ops E) objs"
  shows "\<exists>a. race_steps (e_ops E) key (race_init s0) a \<and> staged key s a"
  using assms(1)
proof (induction rule: rtranclp_induct)
  case base
  show ?case by (intro exI [of _ "race_init s0"]) (simp add: staged_start)
next
  case (step s1 s2)
  from step.IH obtain a where a: "race_steps (e_ops E) key (race_init s0) a" "staged key s1 a" by blast
  from staged_step [OF step.hyps(2) a(2) assms(2)] obtain a' where "race_step (e_ops E) key a a'" "staged key s2 a'" by blast
  with a(1) show ?case by (intro exI [of _ a'] conjI) (rule rtranclp.rtrancl_into_rtrancl)
qed

subsection \<open>At most one winner\<close>

context cas_store
begin

text \<open>
  The invariant: the record is there as it was at first and nobody has won, or it is gone. Who holds a
  copy holds that record, a winner has its data, and there is one winner at most.
\<close>

definition race_inv :: "string \<Rightarrow> string \<Rightarrow> blob \<Rightarrow> 's race \<Rightarrow> bool" where
  "race_inv key v d s \<longleftrightarrow>
     (objs (ra_store s) key = Some (v, d) \<and> (\<forall>i x. ra_node s i \<noteq> Won x) \<or> objs (ra_store s) key = None) \<and>
     (\<forall>i rec. ra_node s i = Holding rec \<longrightarrow> sr_Version rec = v \<and> sr_Data rec = d \<and> v \<noteq> []) \<and>
     (\<forall>i x. ra_node s i = Won x \<longrightarrow> x = d) \<and>
     (\<forall>i j x y. ra_node s i = Won x \<longrightarrow> ra_node s j = Won y \<longrightarrow> i = j)"

lemma race_inv_store:
  "race_inv key v d s \<Longrightarrow> objs t key = objs (ra_store s) key \<Longrightarrow> race_inv key v d (s\<lparr>ra_store := t\<rparr>)"
  by (simp add: race_inv_def)

lemma after_read_Holding:
  assumes "st_Get ops key s = (r, t)" and "after_read r = Holding rec"
  shows "objs s key = Some (sr_Version rec, sr_Data rec) \<and> sr_Version rec \<noteq> []"
proof (cases r)
  case (Inr rec')
  with assms(2) have "rec' = rec" "sr_Version rec \<noteq> []"
    by (auto simp: after_read_def claimable_def split: if_splits option.splits)
  with Inr get_found assms(1) show ?thesis by blast
qed (use assms(2) in \<open>simp add: after_read_def claimable_def\<close>)

lemma after_read_not_Won [simp]: "after_read r \<noteq> Won x"
  by (simp add: after_read_def split: option.split)

lemma race_inv_step:
  assumes "race_step ops key s s'" and "race_inv key v d s" and "v \<noteq> []" and "v \<noteq> MatchAnyVersion"
  shows "race_inv key v d s'"
  using assms(1)
proof (cases rule: race_step.cases)
  case (node_reads i r t)
  have t: "objs t = objs (ra_store s)" using node_reads(3) by (rule get_frame)
  have "sr_Version rec = v \<and> sr_Data rec = d" if "after_read r = Holding rec" for rec
    using after_read_Holding [OF node_reads(3) that] assms(2) by (auto simp: race_inv_def)
  with node_reads t assms(2,3) show ?thesis unfolding race_inv_def by auto
next
  case (node_deletes i rec dl t)
  from assms(2) node_deletes(2) have rec: "sr_Version rec = v" "sr_Data rec = d" by (auto simp: race_inv_def)
  show ?thesis
  proof (cases dl)
    case (Inl err)
    from node_deletes(3) have "objs t key = objs (ra_store s) key \<or> objs t key = None"
      by (cases rule: delete_cases) simp_all
    with node_deletes Inl rec assms(2) show ?thesis by (auto simp: race_inv_def after_delete_def)
  next
    case (Inr u)
    with node_deletes(3) rec have "objs (ra_store s) key \<noteq> None" "objs t = (objs (ra_store s))(key := None)"
      using delete_cas delete_done assms(3,4) by (metis option.distinct(1))+
    with node_deletes Inr rec assms(2) show ?thesis by (auto simp: race_inv_def after_delete_def)
  qed
next
  case (other_get k r t)
  have "objs t = objs (ra_store s)" using other_get(2) by (rule get_frame)
  with other_get(1) race_inv_store [OF assms(2)] show ?thesis by simp
next
  case (other_put k dd ev p t)
  have "objs t key = objs (ra_store s) key" using other_put(3) by (rule put_other) (use other_put(2) in simp)
  with other_put(1) race_inv_store [OF assms(2)] show ?thesis by simp
next
  case (other_delete k ev dl t)
  have "objs t key = objs (ra_store s) key" using other_delete(3) by (rule delete_other) (use other_delete(2) in simp)
  with other_delete(1) race_inv_store [OF assms(2)] show ?thesis by simp
next
  case (other_list p l t)
  have "objs t = objs (ra_store s)" using other_list(2) by (rule list_frame)
  with other_list(1) race_inv_store [OF assms(2)] show ?thesis by simp
qed

lemma race_invariant:
  assumes "race_steps ops key (race_init s0) s" and "objs s0 key = Some (v, d)"
    and "v \<noteq> []" and "v \<noteq> MatchAnyVersion"
  shows "race_inv key v d s"
  using assms(1)
proof (induction rule: rtranclp_induct)
  case base
  with assms(2) show ?case by (simp add: race_inv_def race_init_def)
next
  case (step s1 s2)
  with assms(3,4) show ?case by (blast intro: race_inv_step)
qed

lemma race_winners:
  assumes "race_steps ops key (race_init s0) s" and "objs s0 key = Some (v, d)"
    and "v \<noteq> []" and "v \<noteq> MatchAnyVersion" and "ra_node s i = Won x" and "ra_node s j = Won y"
  shows "i = j \<and> x = d \<and> objs (ra_store s) key = None"
proof -
  have inv: "race_inv key v d s" using assms(1-4) by (rule race_invariant)
  with assms(5) have "objs (ra_store s) key = None" unfolding race_inv_def by blast
  moreover from inv assms(5) have "x = d" unfolding race_inv_def by blast
  moreover from inv assms(5,6) have "i = j" unfolding race_inv_def by blast
  ultimately show ?thesis by simp
qed

end

subsection \<open>Somebody wins\<close>

context reliable_store
begin

text \<open>Over a store whose operations do not fail, the record is gone only when somebody has won.\<close>

definition race_live :: "string \<Rightarrow> 'a race \<Rightarrow> bool" where
  "race_live key s \<longleftrightarrow> (\<exists>i x. ra_node s i = Won x) \<or>
     (objs (ra_store s) key \<noteq> None \<and> (\<forall>i. ra_node s i \<noteq> Lost))"

lemma race_live_other:
  "race_live key s \<Longrightarrow> objs t key = objs (ra_store s) key \<Longrightarrow> race_live key (s\<lparr>ra_store := t\<rparr>)"
  by (simp add: race_live_def)

lemma race_live_step:
  assumes "race_step ops key s s'" and "race_inv key v d s" and "race_live key s"
    and "v \<noteq> []" and "\<not> blob_empty d"
  shows "race_live key s'"
  using assms(1)
proof (cases rule: race_step.cases)
  case (node_reads i r t)
  have t: "objs t = objs (ra_store s)" using node_reads(3) by (rule get_frame)
  show ?thesis
  proof (cases "\<exists>j x. ra_node s j = Won x")
    case True
    then obtain j x where "ra_node s j = Won x" by blast
    with node_reads(1,2) have "ra_node s' j = Won x" by auto
    then show ?thesis unfolding race_live_def by blast
  next
    case False
    with assms(2,3) have o: "objs (ra_store s) key = Some (v, d)" by (auto simp: race_live_def race_inv_def)
    with get_total node_reads(3) have "r = Inr \<lparr>sr_Key = key, sr_Version = v, sr_Data = d\<rparr>" by fastforce
    with assms(4,5) have "after_read r \<noteq> Lost" by (simp add: after_read_def claimable_def)
    with node_reads False assms(3) t o show ?thesis by (auto simp: race_live_def)
  qed
next
  case (node_deletes i rec dl t)
  from assms(2) node_deletes(2) have rec: "sr_Version rec = v" by (auto simp: race_inv_def)
  show ?thesis
  proof (cases "\<exists>j x. ra_node s j = Won x")
    case True
    then obtain j x where "ra_node s j = Won x" by blast
    with node_deletes(1,2) have "ra_node s' j = Won x" by auto
    then show ?thesis unfolding race_live_def by blast
  next
    case False
    with assms(2,3) have "objs (ra_store s) key = Some (v, d)" by (auto simp: race_live_def race_inv_def)
    with delete_total node_deletes(3) rec have "dl = Inr ()" by fastforce
    with node_deletes show ?thesis by (auto simp: race_live_def after_delete_def intro!: exI [of _ i])
  qed
next
  case (other_get k r t)
  have "objs t = objs (ra_store s)" using other_get(2) by (rule get_frame)
  with other_get(1) race_live_other [OF assms(3)] show ?thesis by simp
next
  case (other_put k dd ev p t)
  have "objs t key = objs (ra_store s) key" using other_put(3) by (rule put_other) (use other_put(2) in simp)
  with other_put(1) race_live_other [OF assms(3)] show ?thesis by simp
next
  case (other_delete k ev dl t)
  have "objs t key = objs (ra_store s) key" using other_delete(3) by (rule delete_other) (use other_delete(2) in simp)
  with other_delete(1) race_live_other [OF assms(3)] show ?thesis by simp
next
  case (other_list p l t)
  have "objs t = objs (ra_store s)" using other_list(2) by (rule list_frame)
  with other_list(1) race_live_other [OF assms(3)] show ?thesis by simp
qed

lemma race_somebody_wins:
  assumes "race_steps ops key (race_init s0) s" and "objs s0 key = Some (v, d)"
    and "v \<noteq> []" and "v \<noteq> MatchAnyVersion" and "\<not> blob_empty d"
    and "ra_node s i = Lost"
  shows "\<exists>j. ra_node s j = Won d"
proof -
  have "race_live key s" using assms(1)
  proof (induction rule: rtranclp_induct)
    case base
    with assms(2) show ?case by (simp add: race_live_def race_init_def)
  next
    case (step s1 s2)
    have "race_inv key v d s1" using step(1) assms(2-4) by (rule race_invariant)
    with step assms(3,5) show ?case by (blast intro: race_live_step)
  qed
  with assms(6) obtain j x where "ra_node s j = Won x" by (auto simp: race_live_def)
  moreover have "race_inv key v d s" using assms(1-4) by (rule race_invariant)
  ultimately show ?thesis by (auto simp: race_inv_def)
qed

end

subsection \<open>The property\<close>

text \<open>
  C14. Somebody gets it, and nobody else: let any number of nodes claim one record at once, each by running \<^verbatim>\<open>claimSingleUse\<close>, whose
  storage calls interleave with those of the other nodes and with other uses of the store, which may read and list anything and
  write and delete any other object. Over a store whose operations do not fail, and for a record with a payload and with a
  version (one that is not the wildcard), once one claim has come back without the payload, exactly one other has come back
  with it, and what it has is the payload that was stored.
\<close>

theorem claim_not_lost:
  assumes "reliable_store (e_ops E) objs" and "claim_steps E key (claims_start s0) s"
    and "objs s0 key = Some (v, d)" and "v \<noteq> []" and "v \<noteq> MatchAnyVersion" and "\<not> blob_empty d"
    and "claim_returned E key (cm_node s i) None"
  shows "(\<exists>!j. claim_returned E key (cm_node s j) (Some d)) \<and> (\<forall>j x. claim_returned E key (cm_node s j) (Some x) \<longrightarrow> x = d)"
proof -
  have c: "cas_store (e_ops E) objs" using assms(1) by (rule reliable_store.axioms)
  from staged_run [OF assms(2) c] obtain a where a: "race_steps (e_ops E) key (race_init s0) a" "staged key s a" by blast
  then have returned: "claim_returned E key (cm_node s j) x \<longleftrightarrow> (ra_node a j = Lost \<and> x = None) \<or> (\<exists>e. ra_node a j = Won e \<and> x = Some e)"
    for j x by (intro stage_returned) (simp add: staged_def)
  from assms(7) have "ra_node a i = Lost" by (simp add: returned)
  from reliable_store.race_somebody_wins [OF assms(1) a(1) assms(3-6) this] obtain j where j: "ra_node a j = Won d" by blast
  have won: "k = j \<and> x = d" if "ra_node a k = Won x" for k x
    using cas_store.race_winners [OF c a(1) assms(3-5) that j] by blast
  have "claim_returned E key (cm_node s k) (Some x) \<longleftrightarrow> ra_node a k = Won x" for k x by (simp add: returned)
  with won j show ?thesis by blast
qed

text \<open>A run of two nodes on JayDB's memory driver: both read, then both delete; the second delete finds the version gone.\<close>

definition race_store :: memdb where
  "race_store = \<lparr>md_objs = [(''k'', ''1'', Doc JNull)], md_next = 2\<rparr>"

definition race_env :: "memdb env" where
  "race_env = demo_env\<lparr>e_ops := JayDBStorage mem_ops\<rparr>"

definition race_record :: StoredRecord where
  "race_record = \<lparr>sr_Key = ''k'', sr_Version = ''1'', sr_Data = Doc JNull\<rparr>"

abbreviation emptied :: memdb where
  "emptied \<equiv> \<lparr>md_objs = [], md_next = 2\<rparr>"

lemma race_calls:
  "perform (JayDBStorage mem_ops) (CGet ''k'') race_store = (RGet (Inr race_record), race_store)"
  "perform (JayDBStorage mem_ops) (CDelete ''k'' ''1'') race_store = (RDelete (Inr ()), emptied)"
  "perform (JayDBStorage mem_ops) (CDelete ''k'' ''1'') emptied = (RDelete (Inl ErrNotFound), emptied)"
  by (simp_all add: jay_Get_def jay_Delete_def mem_Get_def mem_Delete_def attempt_def ret_def fail_def race_store_def race_record_def
      MatchAnyETag_def Let_def)

lemma race_stages:
  "stage ''k'' [RGet (Inr race_record)] (Holding race_record)"
  "stage ''k'' [RGet (Inr race_record), RDelete (Inr ())] (Won (Doc JNull))"
  "stage ''k'' [RGet (Inr race_record), RDelete (Inl ErrNotFound)] Lost"
  by (simp_all add: stage_def after_read_def after_delete_def claimable_def race_record_def blob_empty_def)

lemma claim_not_lost_witness:
  "\<exists>s. claim_steps race_env ''k'' (claims_start race_store) s \<and> claim_returned race_env ''k'' (cm_node s 1) None \<and>
     (\<exists>!j. claim_returned race_env ''k'' (cm_node s j) (Some (Doc JNull)))"
proof -
  have ops: "e_ops race_env = JayDBStorage mem_ops" by (simp add: race_env_def)
  let ?g = "RGet (Inr race_record)"
  let ?n1 = "(\<lambda>_. [])(0 := [?g])"
  let ?n2 = "?n1(1 := [?g])"
  let ?n3 = "?n2(0 := [?g, RDelete (Inr ())])"
  let ?n4 = "?n3(1 := [?g, RDelete (Inl ErrNotFound)])"
  note p = stage_pending [OF race_stages(1), of race_env]
  have version: "sr_Version race_record = ''1''" by (simp add: race_record_def)
  have s1: "claim_step race_env ''k'' (claims_start race_store) \<lparr>cm_store = race_store, cm_node = ?n1\<rparr>"
    using node_calls [of race_env "''k''" "claims_start race_store" 0 "CGet ''k''" ?g race_store] race_calls(1)
    by (simp add: claims_start_def claim_run_start ops del: perform.simps)
  have s2: "claim_step race_env ''k'' \<lparr>cm_store = race_store, cm_node = ?n1\<rparr> \<lparr>cm_store = race_store, cm_node = ?n2\<rparr>"
    using node_calls [of race_env "''k''" "\<lparr>cm_store = race_store, cm_node = ?n1\<rparr>" 1 "CGet ''k''" ?g race_store] race_calls(1)
    by (simp add: claim_run_start ops del: perform.simps)
  have s3: "claim_step race_env ''k'' \<lparr>cm_store = race_store, cm_node = ?n2\<rparr> \<lparr>cm_store = emptied, cm_node = ?n3\<rparr>"
    using node_calls [of race_env "''k''" "\<lparr>cm_store = race_store, cm_node = ?n2\<rparr>" 0 "CDelete ''k'' ''1''" "RDelete (Inr ())" emptied]
      race_calls(2) by (simp add: p version ops del: perform.simps)
  have s4: "claim_step race_env ''k'' \<lparr>cm_store = emptied, cm_node = ?n3\<rparr> \<lparr>cm_store = emptied, cm_node = ?n4\<rparr>"
    using node_calls [of race_env "''k''" "\<lparr>cm_store = emptied, cm_node = ?n3\<rparr>" 1 "CDelete ''k'' ''1''" "RDelete (Inl ErrNotFound)" emptied]
      race_calls(3) by (simp add: p version ops del: perform.simps)
  have run: "claim_steps race_env ''k'' (claims_start race_store) \<lparr>cm_store = emptied, cm_node = ?n4\<rparr>"
    using s1 s2 s3 s4 by (blast intro: converse_rtranclp_into_rtranclp)
  have lost: "claim_returned race_env ''k'' (cm_node \<lparr>cm_store = emptied, cm_node = ?n4\<rparr> 1) None"
    by (simp add: stage_returned [OF race_stages(3)])
  have here: "mem_view race_store ''k'' = Some (''1'', Doc JNull)" by (simp add: race_store_def mem_view_def)
  have r: "reliable_store (e_ops race_env) mem_view" unfolding ops by (rule memr.reliable_store_axioms)
  have "\<exists>!j. claim_returned race_env ''k'' (cm_node \<lparr>cm_store = emptied, cm_node = ?n4\<rparr> j) (Some (Doc JNull))"
    using claim_not_lost [OF r run here _ _ _ lost] by (simp add: MatchAnyVersion_def blob_empty_def)
  with run lost show ?thesis by blast
qed

end
