(* ===== verification/Upstream.thy ===== *)
theory Upstream
  imports Login
begin

text \<open>
  Properties of identity from upstream providers (\<^verbatim>\<open>claims.go\<close>, \<^verbatim>\<open>resolveUpstreamIDP\<close> and the callback) and of
  the keys that sign.
\<close>

subsection \<open>Providers\<close>

text \<open>
  Merging a provider with its preset never overrides what the record says: every field that is set is
  kept, identity, credentials and extra parameters are untouched, and merging twice changes nothing more.
\<close>

theorem effectiveProvider_explicit_wins:
  "(idp_AuthorizeURL p \<noteq> [] \<longrightarrow> idp_AuthorizeURL (effectiveProvider p) = idp_AuthorizeURL p) \<and>
   (idp_TokenURL p \<noteq> [] \<longrightarrow> idp_TokenURL (effectiveProvider p) = idp_TokenURL p) \<and>
   (idp_UserInfoURL p \<noteq> [] \<longrightarrow> idp_UserInfoURL (effectiveProvider p) = idp_UserInfoURL p) \<and>
   (idp_EmailsURL p \<noteq> [] \<longrightarrow> idp_EmailsURL (effectiveProvider p) = idp_EmailsURL p) \<and>
   (idp_Scopes p \<noteq> [] \<longrightarrow> idp_Scopes (effectiveProvider p) = idp_Scopes p) \<and>
   (cm_Subject (idp_ClaimMapping p) \<noteq> [] \<longrightarrow>
      cm_Subject (idp_ClaimMapping (effectiveProvider p)) = cm_Subject (idp_ClaimMapping p)) \<and>
   (cm_Email (idp_ClaimMapping p) \<noteq> [] \<longrightarrow>
      cm_Email (idp_ClaimMapping (effectiveProvider p)) = cm_Email (idp_ClaimMapping p)) \<and>
   (cm_EmailVerified (idp_ClaimMapping p) \<noteq> [] \<longrightarrow>
      cm_EmailVerified (idp_ClaimMapping (effectiveProvider p)) = cm_EmailVerified (idp_ClaimMapping p)) \<and>
   idp_ID (effectiveProvider p) = idp_ID p \<and> idp_ClientID (effectiveProvider p) = idp_ClientID p \<and>
   idp_ClientSecret (effectiveProvider p) = idp_ClientSecret p \<and>
   idp_ExtraAuthParams (effectiveProvider p) = idp_ExtraAuthParams p \<and>
   effectiveProvider (effectiveProvider p) = effectiveProvider p"
proof (cases "PresetFor (preset_name p)")
  case None
  then show ?thesis by (simp add: effectiveProvider_def)
next
  case (Some preset)
  have "preset_name (effectiveProvider p) = preset_name p"
    using Some by (simp add: effectiveProvider_def preset_name_def)
  then have "effectiveProvider (effectiveProvider p) = effectiveProvider p"
    using Some by (simp add: effectiveProvider_def)
  with Some show ?thesis by (simp add: effectiveProvider_def merge_mapping_def)
qed

lemma effectiveProvider_explicit_wins_witness:
  "idp_AuthorizeURL (effectiveProvider demo_idp) = ''https://idp/auth''"
proof -
  have "idp_AuthorizeURL demo_idp = ''https://idp/auth''" by (simp add: demo_idp_def)
  with effectiveProvider_explicit_wins [of demo_idp] show ?thesis by simp
qed

text \<open>The provider of a login: stored by the tenant or the default organization, enabled, with real credentials; or the platform's.\<close>

definition provider_for ::
  "('s \<Rightarrow> string \<Rightarrow> (string \<times> blob) option) \<Rightarrow> 's env \<Rightarrow> 's world \<Rightarrow> string \<Rightarrow> string \<Rightarrow> string \<Rightarrow> IdentityProvider \<Rightarrow> bool" where
  "provider_for objs E w org cid idp p \<longleftrightarrow>
    (if cid = ''admin_console'' then platformIDP (e_getenv E) idp = Inr p \<and> idp_ClientID p \<noteq> []
     else idp_Enabled p \<and> \<not> isPlaceholder (idp_ClientID p) \<and>
      (\<exists>o' v data. o' \<in> {org, ''default''} \<and> objs (w_store w) (IDPKey o' idp) = Some (v, data) \<and>
         unmarshal idp_fields zero_idp data = Some p))"

lemma resolveUpstreamIDP_for:
  assumes "cas_store (e_ops E) objs" and "resolveUpstreamIDP E org cid idp w = (Inr p, w')"
  shows "provider_for objs E w org cid idp p"
proof (cases "cid = ''admin_console''")
  case True
  with engine_store.resolveUpstreamIDP_Inr [OF engine_store.intro [OF assms(1)] assms(2)] show ?thesis
    by (auto simp: provider_for_def platformIDP_def Let_def google_provider_def github_provider_def split: if_splits)
next
  case False
  with engine_store.resolveUpstreamIDP_Inr [OF engine_store.intro [OF assms(1)] assms(2)] show ?thesis
    unfolding view_def decodeUsable_def provider_for_def by (auto split: option.splits if_splits)
qed

text \<open>
  C34. A tenant's login uses only a provider the tenant, or the default organization, has stored, enabled
  and configured with real credentials; the administration console uses only the platform's own
  credentials from the process environment, never a stored record.
\<close>

theorem resolveUpstreamIDP_sound:
  assumes "cas_store (e_ops E) objs" and "resolveUpstreamIDP E org cid idp w = (Inr p, w')"
  shows "if cid = ''admin_console'' then platformIDP (e_getenv E) idp = Inr p \<and> idp_ClientID p \<noteq> []
    else idp_Enabled p \<and> \<not> isPlaceholder (idp_ClientID p) \<and>
      (\<exists>o' v data. o' \<in> {org, ''default''} \<and> objs (w_store w) (IDPKey o' idp) = Some (v, data) \<and>
         unmarshal idp_fields zero_idp data = Some p)"
  using resolveUpstreamIDP_for [OF assms] by (simp only: provider_for_def)

lemma demo_resolve: "\<exists>w'. resolveUpstreamIDP demo_env ''acme'' ''web'' ''google'' demo_world = (Inr demo_idp, w')"
proof -
  from demo_live.get_ok [OF demo_view(3)] obtain t where
    t: "on_store (st_Get (JayDBStorage mem_ops) (IDPKey ''acme'' ''google'')) demo_world =
      (Inr \<lparr>sr_Key = IDPKey ''acme'' ''google'', sr_Version = ''1'', sr_Data = Doc (marshal idp_fields demo_idp)\<rparr>,
       demo_world\<lparr>w_store := t\<rparr>)" by auto
  have "decodeUsable (Doc (marshal idp_fields demo_idp)) = Some demo_idp"
    by (simp add: decodeUsable_def demo_records isPlaceholder_def) (simp add: demo_idp_def HasPrefix_def)
  with t show ?thesis
    by (simp add: resolveUpstreamIDP_def andThen_def stored_idp_def attempt_def ret_def del: JayDBStorage_simps)
qed

lemma resolveUpstreamIDP_sound_witness:
  "idp_Enabled demo_idp \<and> \<not> isPlaceholder (idp_ClientID demo_idp)"
proof -
  obtain w' where "resolveUpstreamIDP demo_env ''acme'' ''web'' ''google'' demo_world = (Inr demo_idp, w')"
    using demo_resolve by blast
  from resolveUpstreamIDP_sound [OF demo_cas this] show ?thesis by simp
qed

subsection \<open>Identity\<close>

text \<open>
  The identity a provider asserts: the subject is taken from the mapped field of the profile the
  provider served and is never invented, it is prefixed with the provider's id, the address was not
  reported as unverified, and there is at least one role. Nothing is written to the store.
\<close>

theorem fetchUpstreamClaims_sound:
  assumes "fetchUpstreamClaims E provider tok w = (Inr c, w')"
  shows "\<exists>profile. let cm = idp_ClaimMapping (effectiveProvider provider) in
    cl_UpstreamSubject c = stringField profile (cm_Subject cm) \<and> cl_UpstreamSubject c \<noteq> [] \<and>
    cl_Subject c = idp_ID provider @ ''_'' @ cl_UpstreamSubject c \<and> cl_OriginalIDP c = idp_ID provider \<and>
    (cl_Email c \<noteq> [] \<longrightarrow> cm_EmailVerified cm \<noteq> [] \<longrightarrow> boolField profile (cm_EmailVerified cm) \<noteq> (False, True)) \<and>
    cl_Roles c \<noteq> [] \<and> w_store w' = w_store w"
proof (rule fetchUpstreamClaims_Inr [OF assms])
  fix profile email w1
  have "w_store w' = w_store w" using keepsD [OF keeps_fetchUpstreamClaims assms] .
  moreover assume "stringField profile (cm_Subject (idp_ClaimMapping (effectiveProvider provider))) \<noteq> []"
    "\<not> (email \<noteq> [] \<and> cm_EmailVerified (idp_ClaimMapping (effectiveProvider provider)) \<noteq> [] \<and>
        boolField profile (cm_EmailVerified (idp_ClaimMapping (effectiveProvider provider))) = (False, True))"
    "c = claims_of_profile provider (idp_ClaimMapping (effectiveProvider provider)) profile
       (stringField profile (cm_Subject (idp_ClaimMapping (effectiveProvider provider)))) email"
  ultimately show ?thesis by (auto simp: claims_of_profile_def Let_def intro!: exI [of _ profile])
qed

text \<open>An upstream server that serves one profile.\<close>

definition profile_env :: "memdb env" where
  "profile_env = demo_env\<lparr>e_http := (\<lambda>_ _. Answer 200
     (print_json (\<lambda>_. []) (JObj [(''sub'', JStr ''7''), (''email'', JStr ''a@b''), (''email_verified'', JBool True)])) True)\<rparr>"

lemma profile_fetch: "\<exists>c w'. fetchUpstreamClaims profile_env demo_idp ''t'' demo_world = (Inr c, w')"
proof -
  let ?j = "JObj [(''sub'', JStr ''7''), (''email'', JStr ''a@b''), (''email_verified'', JBool True)]"
  have short: "length (print_json (\<lambda>_. []) ?j) \<le> maxProfileBytes"
    by (simp add: quote_def esc_def esc_char_def maxProfileBytes_def)
  have parse: "parse_json (print_json (\<lambda>_. []) ?j) = Some ?j" by (rule parse_print) (simp_all add: maxNestingDepth_def)
  have f: "\<exists>w1. fetchJSONObject profile_env url tok demo_world = (Inr [(''sub'', JStr ''7''), (''email'', JStr ''a@b''), (''email_verified'', JBool True)], w1)" for url tok
    using short parse by (simp add: fetchJSONObject_def fetchBody_def http_do_def andThen_def profile_env_def ret_def
        del: print_json.simps)
  have cm: "idp_ClaimMapping (effectiveProvider demo_idp) = zero_mapping\<lparr>cm_Subject := ''sub'', cm_Email := ''email'',
      cm_EmailVerified := ''email_verified'', cm_Name := ''name'', cm_Username := ''email''\<rparr>"
    and url: "idp_UserInfoURL (effectiveProvider demo_idp) = ''https://openidconnect.googleapis.com/v1/userinfo''"
    by (simp_all add: effectiveProvider_def demo_idp_def zero_idp_def preset_name_def PresetFor_def presets_def
        TrimSpace_def is_space_def ToLower_def lower_def merge_mapping_def orElse_def zero_mapping_def)
  obtain w1 where w1: "fetchJSONObject profile_env ''https://openidconnect.googleapis.com/v1/userinfo'' ''t'' demo_world =
      (Inr [(''sub'', JStr ''7''), (''email'', JStr ''a@b''), (''email_verified'', JBool True)], w1)" using f by blast
  show ?thesis
    by (simp add: fetchUpstreamClaims_def Let_def cm url andThen_def wrapErr_def w1 stringField_def lookupField_def
        obj_get_def boolField_def ret_def)
qed

lemma fetchUpstreamClaims_sound_witness:
  "\<exists>c w'. fetchUpstreamClaims profile_env demo_idp ''t'' demo_world = (Inr c, w') \<and> cl_UpstreamSubject c \<noteq> []"
proof -
  obtain c w' where x: "fetchUpstreamClaims profile_env demo_idp ''t'' demo_world = (Inr c, w')"
    using profile_fetch by blast
  from fetchUpstreamClaims_sound [OF x] have "cl_UpstreamSubject c \<noteq> []" by (auto simp: Let_def)
  with x show ?thesis by blast
qed

text \<open>
  Prefixing separates providers exactly when their ids hold no underscore: then equal subjects come
  from one provider and one upstream identifier. Without that, two providers of a tenant can produce the
  same subject for different users (the providers \<^verbatim>\<open>corp\<close> and \<^verbatim>\<open>corp_eu\<close>, say).
\<close>

theorem subject_namespacing:
  "(CHR ''_'' \<notin> set (idp_ID p) \<longrightarrow> CHR ''_'' \<notin> set (idp_ID q) \<longrightarrow>
      cl_Subject (claims_of_profile p cm pr s e) = cl_Subject (claims_of_profile q cm' pr' s' e') \<longrightarrow>
      idp_ID p = idp_ID q \<and> s = s') \<and>
   cl_Subject (claims_of_profile (zero_idp\<lparr>idp_ID := ''corp''\<rparr>) cm pr ''eu_7'' e) =
     cl_Subject (claims_of_profile (zero_idp\<lparr>idp_ID := ''corp_eu''\<rparr>) cm pr ''7'' e)"
  by (auto simp: claims_of_profile_def Let_def append_sep_inject)

lemma subject_namespacing_witness:
  "cl_Subject (claims_of_profile demo_idp zero_mapping [] ''7'' []) \<noteq>
     cl_Subject (claims_of_profile (demo_idp\<lparr>idp_ID := ''github''\<rparr>) zero_mapping [] ''7'' [])"
proof -
  have "idp_ID demo_idp = ''google''" by (simp add: demo_idp_def)
  with subject_namespacing [of demo_idp "demo_idp\<lparr>idp_ID := ''github''\<rparr>" zero_mapping "[]" "''7''" "[]"
      zero_mapping "[]" "''7''" "[]"] show ?thesis by auto
qed

text \<open>None of the calls before the token request is a request to the upstream provider.\<close>

lemma keeps_requests [keeps_rules]: "keeps w_req (on_store m)" "keeps w_req (clock E)" "keeps w_req (set_states f)"
  by (auto simp: keeps_def on_store_def clock_def set_states_def split: prod.splits)

lemma requests_before_exchange:
  "keeps w_req (fetchAndConsumeAuthState E st)" "keeps w_req (resolveUpstreamIDP E org cid idp)"
  unfolding fetchAndConsumeAuthState_def claimSingleUse_def live_state_def resolveUpstreamIDP_def stored_idp_def
  by (intro keeps_rules)+

text \<open>The access token the provider answers a callback's code with: the answer to the next request, if that is a success.\<close>

definition exchanged_token :: "'s env \<Rightarrow> 's world \<Rightarrow> IdentityProvider \<Rightarrow> string \<Rightarrow> string \<Rightarrow> string \<Rightarrow> bool" where
  "exchanged_token E w p base code tok \<longleftrightarrow> (\<exists>status body whole t.
     e_http E (w_req w) (token_request (effectiveProvider p) base code) = Answer status body whole \<and> 200 \<le> status \<and> status < 300 \<and>
     unmarshal_text upstream_fields zero_upstream body = Some t \<and> ut_Error t = [] \<and> ut_AccessToken t = tok \<and> tok \<noteq> [])"

lemma upstream_exchange_Inr:
  "upstream_exchange E (effectiveProvider p) base code w = (Inr tok, w') \<Longrightarrow>
     exchanged_token E w p base code tok \<and> w_req w' = Suc (w_req w) \<and> w_store w' = w_store w"
  by (auto simp: upstream_exchange_def exchanged_token_def andThen_Inr prims_eq split: http_result.splits option.splits if_splits)

text \<open>
  C32. A callback that redirects consumed the state of the login it continues and used the provider of that login: one
  that the login's tenant or the default organization has stored and enabled, or for the console the platform's own. It
  sent the callback's code to that provider's token endpoint, fetched the profile with the access token of the answer,
  built the claims from the profile, and stored one code that carries the login's client, redirect URI, challenge and
  nonce together with those claims. The state is gone, and no other object has changed.
\<close>

theorem callback_sound:
  assumes "cas_store (e_ops E) objs" and "ProcessUpstreamCallback E base st code w = (Inr url, w')"
  shows "\<exists>v data s p tok claims w3 w4 newcode now v'.
    objs (w_store w) (AuthStateKey st) = Some (v, data) \<and> unmarshal state_fields zero_state data = Some s \<and>
    provider_for objs E w (as_OrganizationID s) (as_ClientID s) (as_UpstreamIDP s) p \<and>
    exchanged_token E w p base code tok \<and>
    w_req w3 = Suc (w_req w) \<and> fetchUpstreamClaims E p tok w3 = (Inr claims, w4) \<and>
    url = client_redirect s newcode \<and> now \<in> range (e_now E) \<and>
    objs (w_store w') = (objs (w_store w))(AuthStateKey st := None, AuthCodeKey newcode \<mapsto>
      (v', Doc (marshal code_fields (code_of_state s (Some claims) newcode now))))"
proof -
  have e: "engine_store E objs" using assms(1) by (rule engine_store.intro)
  from assms(2) obtain s w1 p w2 tok w3 claims w4 where f: "fetchAndConsumeAuthState E st w = (Inr (Some s), w1)"
    and r: "resolveUpstreamIDP E (as_OrganizationID s) (as_ClientID s) (as_UpstreamIDP s) w1 = (Inr p, w2)"
    and x: "upstream_exchange E (effectiveProvider p) base code w2 = (Inr tok, w3)"
    and p: "fetchUpstreamClaims E p tok w3 = (Inr claims, w4)"
    and c: "CompleteUpstreamAuthenticationWithState E s (Some claims) w4 = (Inr url, w')"
    unfolding ProcessUpstreamCallback_def Let_def andThen_Inr wrapErr_Inr guard_Inr by blast
  from engine_store.consume_state_Some [OF e f] obtain v data where
    s: "view objs w (AuthStateKey st) = Some (v, data)" "unmarshal state_fields zero_state data = Some s"
    and w1: "view objs w1 = (view objs w)(AuthStateKey st := None)" by metis
  have req: "w_req w2 = w_req w"
    using keepsD [OF requests_before_exchange(1) f] keepsD [OF requests_before_exchange(2) r] by simp
  have tok: "exchanged_token E w p base code tok" "w_req w3 = Suc (w_req w)"
    using upstream_exchange_Inr [OF x] req by (simp_all add: exchanged_token_def)
  have "view objs w2 = view objs w1"
    using keepsD [OF engine_store.keeps_resolveUpstreamIDP [OF e] r] by (simp add: fun_eq_iff)
  moreover have "view objs w4 = view objs w2"
    using upstream_exchange_Inr [OF x] keepsD [OF keeps_fetchUpstreamClaims p] by (simp add: view_def fun_eq_iff)
  moreover from engine_store.complete_Inr [OF e c] obtain v' newcode now where
    "view objs w' = (view objs w4)(AuthCodeKey newcode \<mapsto>
       (v', Doc (marshal code_fields (code_of_state s (Some claims) newcode now))))" "url = client_redirect s newcode"
    "now \<in> range (e_now E)" by blast
  moreover have "provider_for objs E w (as_OrganizationID s) (as_ClientID s) (as_UpstreamIDP s) p"
    using resolveUpstreamIDP_for [OF assms(1) r] w1 by (auto simp: provider_for_def view_def fun_eq_iff key_defs)
  ultimately show ?thesis using s w1 p tok
    by (intro exI [of _ v] exI [of _ data] exI [of _ s] exI [of _ p] exI [of _ tok] exI [of _ claims]
        exI [of _ w3] exI [of _ w4] exI [of _ newcode] exI [of _ now] exI [of _ v']) (simp add: view_def fun_eq_iff)
qed

text \<open>An upstream server that answers the token request and the profile request alike.\<close>

definition callback_json :: jval where
  "callback_json = JObj [(''access_token'', JStr ''t''), (''sub'', JStr ''7'')]"

definition callback_env :: "memdb env" where
  "callback_env = demo_env\<lparr>e_http := (\<lambda>_ _. Answer 200 (print_json (\<lambda>_. []) callback_json) True)\<rparr>"

lemma callback_env_simps [simp]:
  "e_ops callback_env = JayDBStorage mem_ops" "e_now callback_env = (\<lambda>_. demo_now)"
  "e_rand callback_env = (\<lambda>n. Some (nat_str n))" "e_getenv callback_env = (\<lambda>_. [])"
  by (simp_all add: callback_env_def)

lemma callback_live: "reliable_engine callback_env mem_view"
  by (intro reliable_engine.intro engine_store.intro)
    (simp_all add: mem.jay.cas_store_axioms memr.reliable_store_axioms)

lemma callback_parse: "parse_json (print_json tf callback_json) = Some callback_json"
  by (rule parse_print) (simp_all add: callback_json_def maxNestingDepth_def)

lemma callback_exchange:
  "upstream_exchange callback_env cfg base code w = (Inr ''t'', w\<lparr>w_req := Suc (w_req w)\<rparr>)"
proof -
  have "unmarshal_text upstream_fields zero_upstream (print_json (\<lambda>_. []) callback_json) =
      Some (zero_upstream\<lparr>ut_AccessToken := ''t''\<rparr>)"
    unfolding unmarshal_text_def callback_parse
    by (simp add: callback_json_def unmarshal_def find_field_def upstream_fields_def
        str_field_def lens_set_def zero_upstream_def EqualFold_def ToLower_def lower_def)
  then show ?thesis
    by (simp add: upstream_exchange_def andThen_def http_do_def callback_env_def ret_def zero_upstream_def)
qed

lemma callback_claims: "\<exists>c w'. fetchUpstreamClaims callback_env demo_idp ''t'' w = (Inr c, w')"
proof -
  have short: "length (print_json (\<lambda>_. []) callback_json) \<le> maxProfileBytes"
    by (simp add: callback_json_def quote_def esc_def esc_char_def maxProfileBytes_def)
  have f: "fetchJSONObject callback_env url tok w = (Inr [(''access_token'', JStr ''t''), (''sub'', JStr ''7'')], w\<lparr>w_req := Suc (w_req w)\<rparr>)" for url tok
    using short callback_parse [of "\<lambda>_. []"]
    by (simp add: fetchJSONObject_def fetchBody_def http_do_def andThen_def callback_env_def ret_def)
      (simp add: callback_json_def)
  have cm: "idp_ClaimMapping (effectiveProvider demo_idp) = zero_mapping\<lparr>cm_Subject := ''sub'', cm_Email := ''email'',
      cm_EmailVerified := ''email_verified'', cm_Name := ''name'', cm_Username := ''email''\<rparr>"
    and url: "idp_UserInfoURL (effectiveProvider demo_idp) = ''https://openidconnect.googleapis.com/v1/userinfo''"
      "idp_EmailsURL (effectiveProvider demo_idp) = []"
    by (simp_all add: effectiveProvider_def demo_idp_def zero_idp_def preset_name_def PresetFor_def presets_def
        TrimSpace_def is_space_def ToLower_def lower_def merge_mapping_def orElse_def zero_mapping_def)
  show ?thesis
    by (simp add: fetchUpstreamClaims_def Let_def cm url andThen_def wrapErr_def f stringField_def lookupField_def
        obj_get_def boolField_def ret_def)
qed

lemma callback_resolve:
  assumes "mem_view (w_store w) (IDPKey ''acme'' ''google'') = Some (''1'', Doc (marshal idp_fields demo_idp))"
  shows "\<exists>w'. resolveUpstreamIDP callback_env ''acme'' ''web'' ''google'' w = (Inr demo_idp, w')"
proof -
  have "view mem_view w (IDPKey ''acme'' ''google'') = Some (''1'', Doc (marshal idp_fields demo_idp))"
    using assms by (simp add: view_def)
  from reliable_engine.get_ok [OF callback_live this] obtain t where
    t: "on_store (st_Get (JayDBStorage mem_ops) (IDPKey ''acme'' ''google'')) w =
      (Inr \<lparr>sr_Key = IDPKey ''acme'' ''google'', sr_Version = ''1'', sr_Data = Doc (marshal idp_fields demo_idp)\<rparr>,
       w\<lparr>w_store := t\<rparr>)" by auto
  have "decodeUsable (Doc (marshal idp_fields demo_idp)) = Some demo_idp"
    by (simp add: decodeUsable_def demo_records isPlaceholder_def) (simp add: demo_idp_def HasPrefix_def)
  with t show ?thesis
    by (simp add: resolveUpstreamIDP_def andThen_def stored_idp_def attempt_def ret_def del: JayDBStorage_simps)
qed

lemma callback_complete:
  "\<exists>url w'. CompleteUpstreamAuthenticationWithState callback_env s c w = (Inr url, w')"
proof -
  obtain code where st: "secure_token callback_env ''code_'' w = (Inr code, w\<lparr>w_draw := Suc (w_draw w)\<rparr>)"
    using reliable_engine.secure_token_ok [OF callback_live] by force
  obtain v u where "on_store (st_Put (JayDBStorage mem_ops) (AuthCodeKey code) (Doc (marshal code_fields
      (code_of_state s c code demo_now))) []) (w\<lparr>w_draw := Suc (w_draw w), w_tick := Suc (w_tick w)\<rparr>) = (Inr v, u)"
    using reliable_engine.put_ok [OF callback_live] by fastforce
  with st show ?thesis
    by (simp add: CompleteUpstreamAuthenticationWithState_def andThen_def wrapErr_def clock_def Let_def
        set_codes_def ret_def del: JayDBStorage_simps)
qed

lemma demo_callback: "\<exists>url w'. ProcessUpstreamCallback callback_env ''https://as'' ''st1'' ''u'' demo_world = (Inr url, w')"
proof -
  let ?w0 = "demo_world\<lparr>w_states := (w_states demo_world)(''st1'' := None)\<rparr>"
  have "view mem_view ?w0 (AuthStateKey ''st1'') = Some (''1'', Doc (marshal state_fields demo_state))"
    using demo_view(4) by (simp add: view_def del: demo_world_simps)
  from reliable_engine.claim_ok [OF callback_live this] obtain s where
    c: "claimSingleUse callback_env (AuthStateKey ''st1'') ?w0 = (Inr (Some (Doc (marshal state_fields demo_state))), ?w0\<lparr>w_store := s\<rparr>)"
    and s: "mem_view s = (view mem_view ?w0)(AuthStateKey ''st1'' := None)" by auto
  let ?w1 = "?w0\<lparr>w_store := s, w_tick := Suc (w_tick demo_world)\<rparr>"
  have f: "fetchAndConsumeAuthState callback_env ''st1'' demo_world = (Inr (Some demo_state), ?w1)"
    using c by (simp add: fetchAndConsumeAuthState_def andThen_def set_states_def live_state_def demo_records
        clock_def ret_def After_def authStateTTL_def Minute_def Second_def) (simp add: demo_state_def)
  have "mem_view (w_store ?w1) (IDPKey ''acme'' ''google'') = Some (''1'', Doc (marshal idp_fields demo_idp))"
    using s demo_view(3) by (simp add: view_def key_defs)
  from callback_resolve [OF this] obtain w2 where
    r: "resolveUpstreamIDP callback_env ''acme'' ''web'' ''google'' ?w1 = (Inr demo_idp, w2)" by blast
  obtain cl w4 where cl: "fetchUpstreamClaims callback_env demo_idp ''t'' (w2\<lparr>w_req := Suc (w_req w2)\<rparr>) = (Inr cl, w4)"
    using callback_claims by blast
  obtain url w5 where d: "CompleteUpstreamAuthenticationWithState callback_env demo_state (Some cl) w4 = (Inr url, w5)"
    using callback_complete by blast
  have "as_OrganizationID demo_state = ''acme''" "as_ClientID demo_state = ''web''" "as_UpstreamIDP demo_state = ''google''"
    "idp_TokenURL (effectiveProvider demo_idp) \<noteq> []"
    by (simp_all add: demo_state_def effectiveProvider_def demo_idp_def zero_idp_def preset_name_def PresetFor_def presets_def
        TrimSpace_def is_space_def ToLower_def lower_def)
  with f r cl d show ?thesis
    by (simp add: ProcessUpstreamCallback_def andThen_def wrapErr_def Let_def callback_exchange)
qed

lemma callback_sound_witness:
  "\<exists>url w'. ProcessUpstreamCallback callback_env ''https://as'' ''st1'' ''u'' demo_world = (Inr url, w') \<and>
     mem_view (w_store w') (AuthStateKey ''st1'') = None"
proof -
  obtain url w' where x: "ProcessUpstreamCallback callback_env ''https://as'' ''st1'' ''u'' demo_world = (Inr url, w')"
    using demo_callback by blast
  have "cas_store (e_ops callback_env) mem_view" by (simp add: mem.jay.cas_store_axioms)
  from callback_sound [OF this x] obtain newcode :: string and d where
    "mem_view (w_store w') = (mem_view (w_store demo_world))(AuthStateKey ''st1'' := None, AuthCodeKey newcode \<mapsto> d)" by metis
  then have "mem_view (w_store w') (AuthStateKey ''st1'') = None" by simp
  with x show ?thesis by blast
qed

end
