(* ===== verification/Console.thy ===== *)
theory Console
  imports Surface
begin

text \<open>
  Properties of the administrative surface: who passes for an administrator, what a refusal leaves, what a
  write does, and what the SVID endpoint gives out.
\<close>

subsection \<open>What the check of an administrator changes\<close>

context engine_store
begin

lemma admin_keys_keeps:
  shows cached_admin_keys_store: "keeps w_store (cached_admin_keys E org apps ks)"
    and cached_admin_keys_cache: "keeps w_cache (cached_admin_keys E org apps ks)"
  by (induction apps arbitrary: ks) (simp_all add: keeps_rules)

lemma list_keeps_objs: "keeps (\<lambda>w. objs (w_store w)) (on_store (st_List (e_ops E) p))"
  by (rule keeps_on_store [OF list_keeps])

lemma admin_keys_objs: "keeps (\<lambda>w. objs (w_store w)) (admin_keys E app orgs ks)"
  by (induction orgs arbitrary: ks)
    (auto intro!: keeps_rules list_keeps_objs keeps_view [OF cached_admin_keys_store] simp del: cached_admin_keys.simps)

lemma admin_keys_cache: "keeps w_cache (admin_keys E app orgs ks)"
  by (induction orgs arbitrary: ks)
    (auto intro!: keeps_rules cached_admin_keys_cache simp del: cached_admin_keys.simps)

lemma AuthenticateAdmin_objs: "keeps (\<lambda>w. objs (w_store w)) (AuthenticateAdmin E r)"
  by (auto simp: AuthenticateAdmin_def Let_def intro!: keeps_rules admin_keys_objs keeps_view [OF keeps_prims(11)])

lemma AuthenticateAdmin_cache: "keeps w_cache (AuthenticateAdmin E r)"
  by (auto simp: AuthenticateAdmin_def Let_def intro!: keeps_rules admin_keys_cache)

end

lemma cached_admin_keys_total:
  "\<exists>ks' w'. (cached_admin_keys E org apps ks :: ('s world, 'e, SigningKey list) eng) w = (Inr ks', w')"
  by (induction apps arbitrary: ks w) (simp_all add: ret_def andThen_def cached_def)

lemma admin_keys_total:
  "\<exists>keys w'. (admin_keys E app orgs ks :: ('s world, 'e, SigningKey list) eng) w = (Inr keys, w')"
proof (induction orgs arbitrary: ks w)
  case Nil
  show ?case by (simp add: ret_def)
next
  case (Cons org orgs)
  obtain ks' w1 where
    c: "(cached_admin_keys E org [app, ''admin_console'', []] ks :: ('s world, 'e, SigningKey list) eng) w = (Inr ks', w1)"
    using cached_admin_keys_total by blast
  obtain l w2 where "on_store (st_List (e_ops E) (KeysPrefix org)) w1 = (l, w2)" by fastforce
  with Cons c show ?case
    by (cases l) (simp_all add: andThen_def attempt_def del: cached_admin_keys.simps)
qed

lemma admin_keys_not_Inl: "(admin_keys E app orgs ks :: ('s world, 'e, SigningKey list) eng) w \<noteq> (Inl e, w')"
proof -
  obtain keys w1 where "(admin_keys E app orgs ks :: ('s world, 'e, SigningKey list) eng) w = (Inr keys, w1)"
    using admin_keys_total by blast
  then show ?thesis by simp
qed

lemma AuthenticateAdmin_Inl:
  "AuthenticateAdmin E r w = (Inl err, w') \<Longrightarrow> err = ErrUnauthorizedAdmin \<or> (\<exists>e. err = UnauthorizedBy e)"
  by (auto simp: AuthenticateAdmin_def Let_def andThen_Inl wrapErr_Inl admin_keys_not_Inl split: if_splits)

lemma AuthenticateAdmin_refusal:
  assumes "AuthenticateAdmin E r w = (Inl err, w')"
  shows "rs_Status (renderError h err 401) = 401 \<and> rs_Body (renderError h err 401) = ErrorJSON ''unauthorized_admin'' err"
  using AuthenticateAdmin_Inl [OF assms] by (auto simp: renderError_def)

subsection \<open>Refusals\<close>

lemma as_admin_refused:
  assumes "r_Method r \<noteq> ''OPTIONS''" and "AuthenticateAdmin E r w = (Inl err, w1)"
  shows "\<exists>h. answer (as_admin E h0 r body) w = (renderError h err 401, w1)"
  using assms by (auto simp: as_admin_def EnableCORS_Inr answer_def andThen_def wrapErr_def ofSum_def)

definition unguarded_api :: "string list" where
  "unguarded_api = [''/api/v1/auth/validate'', ''/api/v1/spiffe/svid'']"

text \<open>A handler that checks for an administrator before anything else.\<close>

definition guarded :: "'s env \<Rightarrow> 's handler \<Rightarrow> bool" where
  "guarded E H \<longleftrightarrow> (\<exists>body. \<forall>h0 r. H h0 r = answer (as_admin E h0 r (body r)))"

lemma guardedI: "(\<And>h0 r. H h0 r = answer (as_admin E h0 r (body r))) \<Longrightarrow> guarded E H"
  by (auto simp: guarded_def)

lemma guarded_handlers [simp]:
  "guarded E (HandleOrganizations E)" "guarded E (HandleApps E)" "guarded E (HandleIDPs E)" "guarded E (HandleKeys E)"
  "guarded E (HandleAdminUsers E)" "guarded E (HandleTeams E)" "guarded E (HandleRoles E)" "guarded E (HandleWorkloads E)"
  by (rule guardedI, rule HandleOrganizations_def HandleApps_def HandleIDPs_def HandleKeys_def HandleAdminUsers_def
      HandleTeams_def HandleRoles_def HandleWorkloads_def)+

lemma guarded_routes:
  "list_all (\<lambda>(pat, H). HasPrefix pat ''/api/v1/'' \<longrightarrow> pat \<notin> set unguarded_api \<longrightarrow>
     guarded (sv_env S) H \<and> pat \<noteq> ''/api/v1/user/organizations'' \<or>
     pat = ''/api/v1/user/organizations'' \<and> H = HandleUserOrganizations (sv_env S)) (routes S)"
  by (simp add: routes_def Let_def unguarded_api_def)

lemma HandleUserOrganizations_refused:
  assumes "r_Method r = ''GET''" and "AuthenticateAdmin E r w = (Inl err, w1)"
  shows "\<exists>h. HandleUserOrganizations E h0 r w = (renderError h err 401, w1)"
  using assms by (auto simp: HandleUserOrganizations_def EnableCORS_Inr answer_def andThen_def wrapErr_def ofSum_def)

text \<open>What is answered before the check.\<close>

lemma preflight_answer:
  "r_Method r = ''OPTIONS'' \<Longrightarrow> \<exists>h. answer (as_admin E h0 r body) w = (WriteHeader h 200, w)"
  "r_Method r = ''OPTIONS'' \<Longrightarrow> \<exists>h. HandleUserOrganizations E h0 r w = (WriteHeader h 200, w)"
  "r_Method r \<noteq> ''OPTIONS'' \<Longrightarrow> r_Method r \<noteq> ''GET'' \<Longrightarrow>
    \<exists>h. HandleUserOrganizations E h0 r w = (method_not_allowed h, w)"
  by (auto simp: as_admin_def HandleUserOrganizations_def EnableCORS_def answer_def andThen_def wrapErr_def ofSum_def fail_def Let_def)

text \<open>
  C21. Nothing under \<open>/api/v1/\<close> but the validation and SVID endpoints is open: whatever handler is registered
  there, a request that does not pass for an administrator changes no object of the store and no entry of the cache,
  and is answered 401 with the code \<open>unauthorized_admin\<close>. Two kinds of requests never come to that check, and are
  answered without it: a preflight (\<open>OPTIONS\<close>) is answered 200 with no body, and the list of a user's
  organizations answers 405 to any method but \<open>GET\<close>.
\<close>

theorem admin_guard:
  assumes "cas_store (e_ops (sv_env S)) objs" and "(pat, H) \<in> set (routes S)" and "HasPrefix pat ''/api/v1/''"
    and "pat \<notin> set unguarded_api" and "AuthenticateAdmin (sv_env S) r w = (Inl err, w1)" and "H h0 r w = (resp, w')"
  shows "objs (w_store w') = objs (w_store w) \<and> w_cache w' = w_cache w \<and>
    (if r_Method r = ''OPTIONS'' then rs_Status resp = 200 \<and> rs_Body resp = NoBody
     else if pat = ''/api/v1/user/organizations'' \<and> r_Method r \<noteq> ''GET'' then rs_Status resp = 405
     else rs_Status resp = 401 \<and> rs_Body resp = ErrorJSON ''unauthorized_admin'' err)"
proof -
  let ?E = "sv_env S"
  have e: "engine_store ?E objs" using assms(1) by (rule engine_store.intro)
  from guarded_routes [of S] assms(2-4) consider (guarded) "guarded ?E H" "pat \<noteq> ''/api/v1/user/organizations''"
    | (orgs) "pat = ''/api/v1/user/organizations''" "H = HandleUserOrganizations ?E"
    by (auto simp: list_all_iff)
  then have "(\<exists>h. H h0 r w = (renderError h err 401, w1) \<and> r_Method r \<noteq> ''OPTIONS'' \<and>
        (pat = ''/api/v1/user/organizations'' \<longrightarrow> r_Method r = ''GET'')) \<or>
      w' = w \<and> r_Method r = ''OPTIONS'' \<and> rs_Status resp = 200 \<and> rs_Body resp = NoBody \<or>
      w' = w \<and> r_Method r \<noteq> ''OPTIONS'' \<and> pat = ''/api/v1/user/organizations'' \<and> r_Method r \<noteq> ''GET'' \<and> rs_Status resp = 405"
  proof cases
    case guarded
    then obtain body where H: "H h0 r = answer (as_admin ?E h0 r body)" unfolding guarded_def by blast
    show ?thesis
    proof (cases "r_Method r = ''OPTIONS''")
      case True
      with assms(6) H preflight_answer(1) [of r ?E h0 body w] show ?thesis by auto
    next
      case False
      with H as_admin_refused [OF False assms(5)] guarded(2) show ?thesis by metis
    qed
  next
    case orgs
    show ?thesis
    proof (cases "r_Method r = ''GET''")
      case True
      with orgs(2) HandleUserOrganizations_refused [OF True assms(5)] show ?thesis by auto
    next
      case False
      have "rs_Status (method_not_allowed h) = 405" for h by (simp add: method_not_allowed_def renderError_def)
      with False assms(6) orgs preflight_answer(2,3) [of r ?E h0 w] show ?thesis
        by (cases "r_Method r = ''OPTIONS''") auto
    qed
  qed
  then show ?thesis
    using assms(6) AuthenticateAdmin_refusal [OF assms(5)] keepsD [OF engine_store.AuthenticateAdmin_objs [OF e] assms(5)]
      keepsD [OF engine_store.AuthenticateAdmin_cache [OF e] assms(5)] by auto
qed

lemma admin_guard_witness:
  "rs_Status (fst (HandleApps demo_env no_header demo_http demo_world)) = 401"
proof -
  have c: "cas_store (e_ops (sv_env demo_server)) mem_view" using demo_cas by (simp add: demo_server_def NewServer_def)
  have a: "AuthenticateAdmin (sv_env demo_server) demo_http demo_world = (Inl ErrUnauthorizedAdmin, demo_world)"
    by (simp add: AuthenticateAdmin_def bearer_token_def header_get_def demo_http_def no_header_def Header_Get_def fail_def)
  have m: "(''/api/v1/apps'', HandleApps demo_env) \<in> set (routes demo_server)"
    by (simp add: routes_def Let_def demo_server_def NewServer_def)
  obtain resp w' where h: "HandleApps demo_env no_header demo_http demo_world = (resp, w')" by fastforce
  from admin_guard [OF c m _ _ a h] have "rs_Status resp = 401" by (simp add: unguarded_api_def demo_http_def)
  with h show ?thesis by simp
qed

subsection \<open>Which keys the check uses\<close>

lemma collect_mono: "set keys \<subseteq> set (collect ks keys)"
  by (induction ks keys rule: collect.induct) auto

lemma collect_set:
  "k \<in> set (collect ks keys) \<Longrightarrow> k \<in> set keys \<or> Some k \<in> set ks \<and> key_Active k"
  "Some k \<in> set ks \<Longrightarrow> key_Active k \<Longrightarrow> \<exists>k' \<in> set (collect ks keys). key_ID k' = key_ID k"
proof -
  show "k \<in> set (collect ks keys) \<Longrightarrow> k \<in> set keys \<or> Some k \<in> set ks \<and> key_Active k"
    by (induction ks keys rule: collect.induct) (auto split: if_splits)
  show "Some k \<in> set ks \<Longrightarrow> key_Active k \<Longrightarrow> \<exists>k' \<in> set (collect ks keys). key_ID k' = key_ID k"
  proof (induction ks keys rule: collect.induct)
    case (3 k0 ks keys)
    let ?keys' = "if key_Active k0 \<and> \<not> list_ex (\<lambda>k'. key_ID k' = key_ID k0) keys then keys @ [k0] else keys"
    show ?case
    proof (cases "k0 = k")
      case True
      obtain k' where "k' \<in> set ?keys'" "key_ID k' = key_ID k"
      proof (cases "list_ex (\<lambda>k'. key_ID k' = key_ID k0) keys")
        case True
        then show ?thesis using that \<open>k0 = k\<close> by (auto simp: list_ex_iff)
      next
        case False
        then show ?thesis using that [of k0] \<open>k0 = k\<close> 3(3) by simp
      qed
      with collect_mono [of ?keys' ks] show ?thesis unfolding collect.simps by blast
    next
      case False
      with 3 show ?thesis by simp
    qed
  qed simp_all
qed

lemma decode_keys_mem:
  "Some k \<in> set (decode_keys recs) \<longleftrightarrow> (\<exists>rec \<in> set recs. unmarshal key_fields zero_key (sr_Data rec) = Some k)"
  by (induction recs rule: decode_keys.induct) (auto split: option.splits)

lemma cached_none:
  assumes "\<forall>app. GetSigningKeys (w_cache w) org app = (\<lambda>_. None)"
  shows "cached_admin_keys E org apps keys w = (Inr keys, w\<lparr>w_tick := w_tick w + length apps\<rparr>)"
  using assms by (induction apps arbitrary: w) (simp_all add: ret_def andThen_def cached_def)

text \<open>Over an empty cache: the stored keys of the organizations, one for each key id.\<close>

lemma stored_key_tick [simp]: "stored_key objs (w\<lparr>w_tick := t\<rparr>) = stored_key objs w"
  by (simp add: stored_key_def fun_eq_iff view_def)

lemma admin_keys_stored:
  fixes E :: "'s env"
  assumes "reliable_engine E objs" and "(admin_keys E app orgs acc :: ('s world, 'e, SigningKey list) eng) w = (Inr keys, w')"
    and "\<forall>org a. GetSigningKeys (w_cache w) org a = (\<lambda>_. None)" and "[] \<notin> set orgs"
  shows "set acc \<subseteq> set keys \<and>
    (\<forall>k \<in> set keys. k \<in> set acc \<or> (\<exists>org \<in> set orgs. stored_key objs w org [] k)) \<and>
    (\<forall>org \<in> set orgs. \<forall>k. stored_key objs w org [] k \<longrightarrow> (\<exists>k' \<in> set keys. key_ID k' = key_ID k))"
  using assms(2-4)
proof (induction orgs arbitrary: acc w)
  case Nil
  then show ?case by simp
next
  case (Cons org orgs)
  note list_ok = reliable_engine.list_ok [OF assms(1)]
    and list_step = engine_store.list_step [OF reliable_engine.axioms(1) [OF assms(1)]]
  let ?w1 = "w\<lparr>w_tick := Suc (Suc (Suc (w_tick w)))\<rparr>"
  obtain recs s where l: "on_store (st_List (e_ops E) (KeysPrefix org)) ?w1 = (Inr recs, ?w1\<lparr>w_store := s\<rparr>)"
    and all: "\<forall>k v d. HasPrefix k (KeysPrefix org) \<longrightarrow> view objs ?w1 k = Some (v, d) \<longrightarrow>
        \<lparr>sr_Key = k, sr_Version = v, sr_Data = d\<rparr> \<in> set recs"
    using list_ok by blast
  let ?acc = "collect (decode_keys recs) acc" and ?w2 = "?w1\<lparr>w_store := s\<rparr>"
  have ne: "org \<noteq> []" using Cons(4) by auto
  have c: "(cached_admin_keys E org [app, ''admin_console'', []] acc :: ('s world, 'e, SigningKey list) eng) w = (Inr acc, ?w1)"
    using Cons(3) by (subst cached_none) simp_all
  from list_step [OF l] have v: "view objs ?w2 = view objs w" by (auto simp: view_def)
  then have sk: "stored_key objs ?w2 = stored_key objs w" by (simp add: stored_key_def fun_eq_iff)
  have "(admin_keys E app orgs ?acc :: ('s world, 'e, SigningKey list) eng) ?w2 = (Inr keys, w')"
    using Cons(2) ne l by (simp add: andThen_def attempt_def c del: cached_admin_keys.simps)
  from Cons(1) [OF this] Cons(3,4) have ih: "set ?acc \<subseteq> set keys"
    "\<forall>k \<in> set keys. k \<in> set ?acc \<or> (\<exists>org \<in> set orgs. stored_key objs w org [] k)"
    "\<forall>org \<in> set orgs. \<forall>k. stored_key objs w org [] k \<longrightarrow> (\<exists>k' \<in> set keys. key_ID k' = key_ID k)"
    by (simp_all add: sk)
  have here: "Some k \<in> set (decode_keys recs) \<and> key_Active k \<longleftrightarrow> stored_key objs w org [] k" for k
  proof
    assume "Some k \<in> set (decode_keys recs) \<and> key_Active k"
    then obtain rec where r: "rec \<in> set recs" "unmarshal key_fields zero_key (sr_Data rec) = Some k" "key_Active k"
      by (auto simp: decode_keys_mem)
    with list_step [OF l] show "stored_key objs w org [] k" unfolding stored_key_def by (auto simp: view_def)
  next
    assume "stored_key objs w org [] k"
    then obtain path v d where "HasPrefix path (KeysPrefix org)" "view objs w path = Some (v, d)"
      "unmarshal key_fields zero_key d = Some k" "key_Active k" by (auto simp: stored_key_def)
    with all show "Some k \<in> set (decode_keys recs) \<and> key_Active k"
      by (auto simp: decode_keys_mem view_def) force
  qed
  show ?case
  proof (intro conjI ballI allI impI)
    show "set acc \<subseteq> set keys" using collect_mono ih(1) by blast
  next
    fix k
    assume "k \<in> set keys"
    with ih(2) here collect_set(1) [of k "decode_keys recs" acc]
    show "k \<in> set acc \<or> (\<exists>org \<in> set (org # orgs). stored_key objs w org [] k)" by auto
  next
    fix o' k
    assume "o' \<in> set (org # orgs)" and "stored_key objs w o' [] k"
    with ih(1,3) here collect_set(2) [of k "decode_keys recs" acc]
    show "\<exists>k' \<in> set keys. key_ID k' = key_ID k" by auto
  qed
qed

subsection \<open>Who passes\<close>

lemma still_valid:
  assumes "\<forall>i j. e_now E i \<le> e_now E j + DefaultLeeway" and "issued \<in> range (e_now E)"
    and "cl_ExpiresAt c = Unix (issued + 900000000000)" and "cl_NotBefore c = Unix issued"
  shows "validateClaims (e_now E n) c no_options = None"
proof -
  from assms(2) obtain i where i: "issued = e_now E i" by auto
  from assms(1) have "e_now E n - DefaultLeeway \<le> e_now E i" "e_now E i \<le> e_now E n + DefaultLeeway"
    by (metis diff_le_eq) (use assms(1) in blast)
  then have "Unix (e_now E n - DefaultLeeway) \<le> Unix (issued + 900000000000)" "Unix issued \<le> Unix (e_now E n + DefaultLeeway)"
    unfolding i by (intro Unix_mono; simp)+
  with assms(3,4) show ?thesis by (simp add: validateClaims_None no_options_def)
qed

lemma token_lifetimes:
  "cl_ExpiresAt (access_claims app b iss scope now jti) = Unix (now + 900000000000)"
  "cl_NotBefore (access_claims app b iss scope now jti) = Unix now"
  "cl_ExpiresAt (id_claims app b iss nonce now jti) = Unix (now + 900000000000)"
  "cl_NotBefore (id_claims app b iss nonce now jti) = Unix now"
  "cl_Subject (access_claims app b iss scope now jti) = cl_Subject b" "cl_Email (access_claims app b iss scope now jti) = cl_Email b"
  "cl_Subject (id_claims app b iss nonce now jti) = cl_Subject b" "cl_Email (id_claims app b iss nonce now jti) = cl_Email b"
  by (simp_all add: access_claims_def id_claims_def accessTokenTTL_def idTokenTTL_def Minute_def Second_def)

text \<open>
  C22. Any user is an administrator: the access token and the ID token of any login of any application of an
  organization pass the check for that organization, whatever roles their claims hold, once the verifier's keys
  contain the public half of the signing key under its id and while the clock stays within a minute of the issue.
\<close>

theorem any_user_is_admin:
  fixes E :: "'s env"
  assumes "issueTokens E app (Some base) scope nonce fam w0 = (Inr resp, w0')" and "cas_store (e_ops E) objs"
    and "sane_clock E" and "TokenAudiences (Some app) \<noteq> [[]]" and "app_ClientID app \<noteq> []"
    and "cl_Subject base \<noteq> [] \<or> cl_Email base \<noteq> []"
    and "bearer_token r \<in> {tp_AccessToken resp, tp_IDToken resp}" and "bearer_token r \<noteq> []"
    and "resolveSigningKey E (app_OrganizationID app) (app_ID app) w0 = (Inr key, wk)"
    and "(admin_keys E (header_get r ''X-App-ID'') (orgs_to_check (or_default (header_tenant r))) [] ::
           ('s world, goerr, SigningKey list) eng) w = (Inr keys, w1)"
    and "matchingKey (key_KID key) (map Some keys) = Some k" and "key_pair (e_rsa E) (key_PrivateKeyPEM key) (key_PublicKeyPEM k)"
    and "\<forall>i j. e_now E i \<le> e_now E j + DefaultLeeway"
  shows "fst (AuthenticateAdmin E r w) = Inr ()"
proof (rule engine_store.issueTokens_Inr [OF engine_store.intro [OF assms(2)] assms(1)])
  let ?iss = "IssuerFor E (app_OrganizationID app)"
  fix b key' now jti jti' w1'
  assume b: "Some base = Some b" and key: "resolveSigningKey E (app_OrganizationID app) (app_ID app) w0 = (Inr key', w1')"
    and now: "now \<in> range (e_now E)"
    and a: "SignJWT (e_rsa E) (access_claims app b ?iss scope now jti) (key_PrivateKeyPEM key') (key_KID key') = Inr (tp_AccessToken resp)"
    and i: "SignJWT (e_rsa E) (id_claims app b ?iss nonce now jti') (key_PrivateKeyPEM key') (key_KID key') = Inr (tp_IDToken resp)"
  let ?tok = "bearer_token r"
  have key': "key' = key" using key assms(9) by simp
  have "\<exists>c. VerifyJWTWithOptions (e_rsa E) (\<lambda>j. e_now E (w_tick w1 + j)) ?tok (map Some keys) no_options = Inr c \<and>
      (cl_Subject c \<noteq> [] \<or> cl_Email c \<noteq> [])"
  proof (cases "?tok = tp_AccessToken resp")
    case True
    with verify_signed [OF a [unfolded key'] token_claims_ok(1) [OF assms(3) now assms(4)] assms(11,12)]
      still_valid [OF assms(13) now] assms(6) b show ?thesis by (auto simp: token_lifetimes)
  next
    case False
    with assms(7) have "?tok = tp_IDToken resp" by simp
    with verify_signed [OF i [unfolded key'] token_claims_ok(2) [OF assms(3) now assms(5)] assms(11,12)]
      still_valid [OF assms(13) now] assms(6) b show ?thesis by (auto simp: token_lifetimes)
  qed
  moreover have "keys \<noteq> []" using assms(11) by (cases keys) simp_all
  ultimately show ?thesis using assms(8,10)
    by (auto simp: AuthenticateAdmin_def Let_def ret_def andThen_def wrapErr_def verify_jwt_def)
qed

lemma signed_nonempty: "SignJWT lib c pem kid = Inr tok \<Longrightarrow> tok \<noteq> []"
  by (auto simp: SignJWT_def Let_def split: option.splits)

definition demo_user_request :: "string \<Rightarrow> Request" where
  "demo_user_request tok = demo_http\<lparr>r_Header :=
     Header_Set (Header_Set no_header ''Authorization'' (''Bearer '' @ tok)) ''X-Organization-ID'' ''acme''\<rparr>"

lemma demo_user_request_simps [simp]:
  "bearer_token (demo_user_request tok) = tok" "header_tenant (demo_user_request tok) = ''acme''"
  "header_get (demo_user_request tok) ''X-App-ID'' = []"
  by (simp_all add: demo_user_request_def bearer_token_def header_tenant_def header_get_def no_header_def Header_Get_def
      Header_Set_def CanonicalKey_def token_char_def upper_def lower_def TrimPrefix_def)

lemma demo_admin_keys:
  "\<exists>keys w1. (admin_keys demo_env [] (orgs_to_check (or_default ''acme'')) [] :: (memdb world, goerr, SigningKey list) eng)
     demo_world = (Inr keys, w1) \<and> set keys = {demo_key}"
proof -
  obtain keys w1 where a: "(admin_keys demo_env [] (orgs_to_check (or_default ''acme'')) [] ::
      (memdb world, goerr, SigningKey list) eng) demo_world = (Inr keys, w1)"
    using admin_keys_total by blast
  have orgs: "set (orgs_to_check (or_default ''acme'')) = {''acme'', ''default''}"
    by (simp add: orgs_to_check_def or_default_def)
  have "\<not> stored_key mem_view demo_world ''default'' [] k" for k
    by (auto simp: stored_key_def view_def mem_view_def demo_objs_def key_defs KeysPrefix_def HasPrefix_iff split: if_splits)
  with admin_keys_stored [OF demo_live.reliable_engine_axioms a] demo_no_keys_cached
  have k: "\<forall>k \<in> set keys. stored_key mem_view demo_world ''acme'' [] k"
    "\<forall>k. stored_key mem_view demo_world ''acme'' [] k \<longrightarrow> (\<exists>k' \<in> set keys. key_ID k' = key_ID k)"
    by (simp_all add: orgs)
  from k(1) have "set keys \<subseteq> {demo_key}" using demo_only_key by blast
  moreover from k(2) have "\<exists>k' \<in> set keys. key_ID k' = key_ID demo_key" using demo_stored_key by blast
  ultimately have "set keys = {demo_key}" by auto
  with a show ?thesis by blast
qed

lemma any_user_is_admin_witness:
  "\<exists>resp w'. issueTokens demo_env demo_app (Some demo_claims) [] [] [] demo_world = (Inr resp, w') \<and>
     cl_Roles demo_claims = [''user''] \<and>
     fst (AuthenticateAdmin demo_env (demo_user_request (tp_AccessToken resp)) demo_world) = Inr ()"
proof -
  obtain resp w' where x: "issueTokens demo_env demo_app (Some demo_claims) [] [] [] demo_world = (Inr resp, w')"
    using demo_issue by blast
  obtain key wk where k: "resolveSigningKey demo_env (app_OrganizationID demo_app) (app_ID demo_app) demo_world = (Inr key, wk)"
    and tok: "tp_AccessToken resp \<noteq> []"
  proof (rule demo.issueTokens_Inr [OF x])
    fix base key now jti wk
    assume "resolveSigningKey demo_env (app_OrganizationID demo_app) (app_ID demo_app) demo_world = (Inr key, wk)"
      and "SignJWT (e_rsa demo_env) (access_claims demo_app base (IssuerFor demo_env (app_OrganizationID demo_app)) [] now jti)
        (key_PrivateKeyPEM key) (key_KID key) = Inr (tp_AccessToken resp)"
    with that signed_nonempty show ?thesis by blast
  qed
  have key: "key = demo_key" using k by (auto simp: demo_app_ids dest: demo_resolved)
  obtain keys w1 where a: "(admin_keys demo_env [] (orgs_to_check (or_default ''acme'')) [] ::
      (memdb world, goerr, SigningKey list) eng) demo_world = (Inr keys, w1)" and s: "set keys = {demo_key}"
    using demo_admin_keys by blast
  have m: "matchingKey (key_KID key) (map Some keys) = Some demo_key"
    by (rule matchingKey_unique) (auto simp: key s)
  have "fst (AuthenticateAdmin demo_env (demo_user_request (tp_AccessToken resp)) demo_world) = Inr ()"
    by (rule any_user_is_admin [OF x demo_cas demo_clock _ _ _ _ _ k _ m])
      (simp_all add: demo_ids demo_key_pair key a tok DefaultLeeway_def Second_def demo_claims_def)
  with x show ?thesis by (auto simp: demo_claims_def)
qed

subsection \<open>Writes\<close>

lemma answer_iff: "answer m w = (resp, w') \<longleftrightarrow> m w = (Inl resp, w') \<or> m w = (Inr resp, w')"
  by (auto simp: answer_def split: prod.splits sum.splits)

lemma answer_as_admin:
  assumes "cas_store (e_ops E) objs" and "r_Method r \<noteq> ''OPTIONS''" and "answer (as_admin E h0 r body) w = (resp, w')"
  obtains (refused) "rs_Status resp = 401" "objs (w_store w') = objs (w_store w)"
  | (passed) h w1 where "objs (w_store w1) = objs (w_store w)" "answer (body h) w1 = (resp, w')"
proof -
  have e: "engine_store E objs" using assms(1) by (rule engine_store.intro)
  obtain a w1 where a: "AuthenticateAdmin E r w = (a, w1)" by fastforce
  have o: "objs (w_store w1) = objs (w_store w)"
    by (rule keepsD [OF engine_store.AuthenticateAdmin_objs [OF e] a])
  show ?thesis
  proof (cases a)
    case (Inl err)
    with a have x: "AuthenticateAdmin E r w = (Inl err, w1)" by simp
    from as_admin_refused [OF assms(2) this, of h0 body] assms(3) obtain h where "resp = renderError h err 401" "w' = w1" by auto
    with AuthenticateAdmin_refusal [OF x] o show ?thesis by (intro refused) auto
  next
    case (Inr u)
    with a assms(2,3) have "\<exists>h. answer (body h) w1 = (resp, w')"
      by (auto simp: as_admin_def answer_iff EnableCORS_Inr andThen_def wrapErr_def ofSum_def)
    with o show ?thesis by (auto intro: passed)
  qed
qed

lemma quiet_calls:
  "keeps w_store (fresh_id E pre i)" "keeps w_store (created_at E t)"
  "fresh_id E pre i w \<noteq> (Inl e, w')" "created_at E t w \<noteq> (Inl e, w')" "clock E w \<noteq> (Inl e, w')" "set_cached E f w \<noteq> (Inl e, w')"
  by (auto simp: fresh_id_def created_at_def set_cached_def clock_def ret_def andThen_def intro!: keeps_rules)

lemma decode_body_Inl: "decode_body h r fs zero = Inl resp \<Longrightarrow> rs_Status resp = 400"
  by (auto simp: decode_body_def renderError_def split: option.splits prod.splits if_splits)

lemma put_item_Inr:
  assumes "cas_store (e_ops E) objs" and "put_item E h fs item key ver st w = (Inr v, w')"
  shows "cas_ok ver (objs (w_store w) key) \<and> v \<noteq> [] \<and> objs (w_store w') = (objs (w_store w))(key \<mapsto> (v, Doc (marshal fs item)))"
  using assms(2) by (auto simp: put_item_def wrapErr_Inr on_store_eq dest: cas_store.put_done [OF assms(1)])

lemma put_item_Inl:
  assumes "cas_store (e_ops E) objs" and "put_item E h fs item key ver st w = (Inl resp, w')"
  shows "(\<exists>err. resp = renderError h (StoreErr err) st) \<and>
    (objs (w_store w') = objs (w_store w) \<or>
     cas_ok ver (objs (w_store w) key) \<and> (\<exists>v. objs (w_store w') = (objs (w_store w))(key \<mapsto> (v, Doc (marshal fs item)))))"
proof -
  from assms(2) obtain err s where p: "st_Put (e_ops E) key (Doc (marshal fs item)) ver (w_store w) = (Inl err, s)"
    and "w' = w\<lparr>w_store := s\<rparr>" "resp = renderError h (StoreErr err) st"
    by (auto simp: put_item_def wrapErr_Inl on_store_eq)
  with cas_store.put_cases [OF assms(1) p] show ?thesis by (metis world.select_convs(1) world.surjective world.update_convs(1))
qed

lemma renderError_code: "rs_Status (renderError h (StoreErr err) 409) = 409"
  by (auto simp: renderError_def split: sterr.splits)

lemma renderError_status: "st \<noteq> 200 \<Longrightarrow> rs_Status (renderError h err st) \<noteq> 200"
  by (auto simp: renderError_def split: goerr.splits sterr.splits)

lemma renderJSON_etag: "v \<noteq> [] \<Longrightarrow> Header_Get (rs_Header (renderJSON h j v)) ''ETag'' = v"
  by (simp add: renderJSON_def WriteJSON_def Let_def)

lemma invalidated: "GetApp (InvalidateApp c org app) org app now = None"
  by (simp add: GetApp_def Cache_Get_def InvalidateApp_def CacheKeyApp_def Let_def)

text \<open>The application a request asks to be written: the body's, under the id of the body, of the path, or a new one.\<close>

definition requested_app :: "Request \<Rightarrow> Application \<Rightarrow> bool" where
  "requested_app r app \<longleftrightarrow> (\<exists>h app0 ident updated created. decode_body h r app_fields zero_app = Inr app0 \<and>
     app = completed_app app0 (admin_tenant r) ident updated created \<and>
     (let asked = (if app_ID app0 = [] then path_id ''/api/v1/apps'' r else app_ID app0) in asked \<noteq> [] \<longrightarrow> ident = asked))"

lemma fresh_id_Inr: "fresh_id E pre i w = (Inr ident, w') \<Longrightarrow> (i \<noteq> [] \<longrightarrow> ident = i) \<and> w_store w' = w_store w"
  using keepsD [OF quiet_calls(1), of E pre i w "Inr ident" w'] by (auto simp: fresh_id_def ret_def)

lemma save_app_put:
  assumes "save_app E h r (admin_tenant r) (path_id ''/api/v1/apps'' r) w = (res, w')"
  obtains (bad) resp where "decode_body h r app_fields zero_app = Inl resp" "res = Inl resp" "w' = w"
  | (put) app w1 p w2 where "requested_app r app" "w_store w1 = w_store w"
      "put_item E h app_fields app (AppKey (admin_tenant r) (app_ID app)) (expected_version r (app_Version app)) 409 w1 = (p, w2)"
      "case p of
         Inl resp \<Rightarrow> res = Inl resp \<and> w' = w2
       | Inr v \<Rightarrow> res = Inr (renderJSON h (marshal app_fields (app\<lparr>app_Version := v\<rparr>)) v) \<and> w_store w' = w_store w2 \<and>
           (\<forall>now. GetApp (w_cache w') (admin_tenant r) (app_ID app) now = None)"
proof (cases "decode_body h r app_fields zero_app")
  case (Inl resp)
  with assms show thesis by (intro bad) (auto simp: save_app_def andThen_def ofSum_def)
next
  case (Inr app0)
  let ?i = "if app_ID app0 = [] then path_id ''/api/v1/apps'' r else app_ID app0"
  obtain ident w1 where i: "fresh_id E ''app_'' ?i w = ((Inr ident :: Response + string), w1)"
    using quiet_calls(3) by (metis prod.exhaust sum.exhaust)
  obtain t1 w2 where t1: "clock E w1 = ((Inr t1 :: Response + gotime), w2)" by (auto simp: clock_def)
  obtain t2 w3 where t2: "created_at E (app_CreatedAt app0) w2 = ((Inr t2 :: Response + gotime), w3)"
    using quiet_calls(4) by (metis prod.exhaust sum.exhaust)
  let ?app = "completed_app app0 (admin_tenant r) ident t1 t2"
  obtain p w4 where p: "put_item E h app_fields ?app (AppKey (admin_tenant r) (app_ID ?app))
      (expected_version r (app_Version ?app)) 409 w3 = (p, w4)" by fastforce
  have w3: "w_store w3 = w_store w"
    using fresh_id_Inr [OF i] keepsD [OF quiet_calls(2) t2] t1 by (auto simp: clock_def)
  have app: "requested_app r ?app" unfolding requested_app_def Let_def using Inr fresh_id_Inr [OF i] by blast
  show thesis
  proof (rule put [OF app w3 p])
    show "case p of Inl resp \<Rightarrow> res = Inl resp \<and> w' = w4
       | Inr v \<Rightarrow> res = Inr (renderJSON h (marshal app_fields (?app\<lparr>app_Version := v\<rparr>)) v) \<and> w_store w' = w_store w4 \<and>
           (\<forall>now. GetApp (w_cache w') (admin_tenant r) (app_ID ?app) now = None)"
      using assms Inr i t1 t2 p
      by (auto simp: save_app_def andThen_def ofSum_def Let_def set_cached_def ret_def invalidated split: sum.splits)
  qed
qed

text \<open>
  C19. Writing an application is conditional on the version the caller expects. A POST or PUT to the applications endpoint
  that answers 200 replaced exactly the object of that application, over the expected version, by the application of the
  request with what the server fills in; it answers the application with its new version, which is also the \<open>ETag\<close>,
  and the application's cached copy is gone. One that answers anything else has left every object as it was, or it answers
  409 because the store's answer was lost, and then that same write was applied, over the expected version all the same. In
  no case is an object of another version replaced. The code takes a request that names no version as one that expects any.
\<close>

theorem app_write_cas:
  assumes "cas_store (e_ops E) objs" and "r_Method r = ''POST'' \<or> r_Method r = ''PUT''"
    and "HandleApps E h0 r w = (resp, w')"
  shows "if rs_Status resp = 200
    then \<exists>app v. requested_app r app \<and>
      cas_ok (expected_version r (app_Version app)) (objs (w_store w) (AppKey (admin_tenant r) (app_ID app))) \<and>
      objs (w_store w') = (objs (w_store w))(AppKey (admin_tenant r) (app_ID app) \<mapsto> (v, Doc (marshal app_fields app))) \<and>
      rs_Body resp = JSON (marshal app_fields (app\<lparr>app_Version := v\<rparr>)) \<and> Header_Get (rs_Header resp) ''ETag'' = v \<and>
      (\<forall>now. GetApp (w_cache w') (admin_tenant r) (app_ID app) now = None)
    else objs (w_store w') = objs (w_store w) \<or>
      (\<exists>app v. requested_app r app \<and> rs_Status resp = 409 \<and>
        cas_ok (expected_version r (app_Version app)) (objs (w_store w) (AppKey (admin_tenant r) (app_ID app))) \<and>
        objs (w_store w') = (objs (w_store w))(AppKey (admin_tenant r) (app_ID app) \<mapsto> (v, Doc (marshal app_fields app))))"
proof -
  have m: "r_Method r \<noteq> ''OPTIONS''" using assms(2) by auto
  show ?thesis
  proof (cases rule: answer_as_admin [OF assms(1) m assms(3) [unfolded HandleApps_def], case_names refused passed])
    case refused
    then show ?thesis by simp
  next
    case (passed h w1)
    from passed(2) assms(2) obtain res where
      res: "save_app E h r (admin_tenant r) (path_id ''/api/v1/apps'' r) w1 = (res, w')" "res = Inl resp \<or> res = Inr resp"
      unfolding answer_iff by (auto simp: Let_def)
    from res(1) show ?thesis
    proof (cases rule: save_app_put)
      case (bad resp')
      with res(2) passed(1) show ?thesis using decode_body_Inl by force
    next
      case (put app w2 p w3)
      show ?thesis
      proof (cases p)
        case (Inl e)
        with put(3) have "put_item E h app_fields app (AppKey (admin_tenant r) (app_ID app))
          (expected_version r (app_Version app)) 409 w2 = (Inl e, w3)" by simp
        from put_item_Inl [OF assms(1) this] put(1,2,4) Inl res(2) passed(1) renderError_code show ?thesis by auto
      next
        case (Inr v)
        with put(3) have "put_item E h app_fields app (AppKey (admin_tenant r) (app_ID app))
          (expected_version r (app_Version app)) 409 w2 = (Inr v, w3)" by simp
        from put_item_Inr [OF assms(1) this] have
          "cas_ok (expected_version r (app_Version app)) (objs (w_store w) (AppKey (admin_tenant r) (app_ID app)))" "v \<noteq> []"
          "objs (w_store w3) = (objs (w_store w))(AppKey (admin_tenant r) (app_ID app) \<mapsto> (v, Doc (marshal app_fields app)))"
          using passed(1) put(2) by auto
        with put Inr res(2) show ?thesis by (auto simp: renderJSON_etag)
      qed
    qed
  qed
qed

definition demo_app_post :: Request where
  "demo_app_post = demo_http\<lparr>r_Method := ''POST'', r_Path := ''/api/v1/apps/new'', r_JSON := Some (JObj []),
     r_Header := Header_Set (Header_Set no_header ''X-Admin-Token'' static_admin_token) ''X-Organization-ID'' ''acme''\<rparr>"

definition empty_world :: "memdb world" where
  "empty_world = new_world \<lparr>md_objs = [], md_next = 1\<rparr>"

lemma demo_app_posted: "rs_Status (fst (HandleApps demo_env no_header demo_app_post empty_world)) = 200"
  by code_simp

lemma app_write_cas_witness:
  "\<exists>app v. mem_view (w_store (snd (HandleApps demo_env no_header demo_app_post empty_world))) (AppKey ''acme'' (app_ID app)) =
     Some (v, Doc (marshal app_fields app))"
proof -
  obtain resp w' where x: "HandleApps demo_env no_header demo_app_post empty_world = (resp, w')" by fastforce
  have "rs_Status resp = 200" using demo_app_posted by (simp add: x)
  moreover have "r_Method demo_app_post = ''POST''" by (simp add: demo_app_post_def)
  moreover have "admin_tenant demo_app_post = ''acme''" by code_simp
  ultimately show ?thesis using app_write_cas [OF demo_cas _ x] by (auto simp: x)
qed

subsection \<open>The SVID endpoint\<close>

lemma aborted_status [simp]: "rs_Status (aborted h) = 0"
  by (simp add: aborted_def)

lemma org_keys_Inl: "org_keys E h org w = (Inl resp, w') \<Longrightarrow> rs_Status resp = 500"
  by (auto simp: org_keys_def first_org_key_def andThen_Inl wrapErr_Inl attempt_iff prims_eq
      split: option.splits list.splits if_splits sum.splits)

lemma org_keys_nonempty: "org_keys E h org w = (Inr keys, w') \<Longrightarrow> keys \<noteq> []"
  by (auto simp: org_keys_def first_org_key_def andThen_Inr wrapErr_Inr attempt_iff prims_eq
      split: option.splits list.splits if_splits sum.splits)

lemma sign_svid_Inl: "sign_svid E h wl org wid body w = (Inl resp, w') \<Longrightarrow> rs_Status resp \<noteq> 200"
  by (auto simp: sign_svid_def andThen_Inl wrapErr_Inl Let_def dest: org_keys_Inl split: option.splits)

lemma bind_workload_Inl: "bind_workload E h cert org wid w = (Inl resp, w') \<Longrightarrow> rs_Status resp \<noteq> 200"
  by (auto simp: bind_workload_def andThen_Inl wrapErr_Inl split: option.splits if_splits)

lemma bind_workload_Inr:
  assumes "cas_store (e_ops E) objs" and "bind_workload E h cert org wid w = (Inr wl, w')"
  shows "\<exists>v data. objs (w_store w) (SPIFFEWorkloadKey org wid) = Some (v, data) \<and>
    unmarshal workload_fields zero_workload data = Some wl \<and> wl_Active wl \<and> (\<exists>t \<in> range (e_now E). check_cert t cert wl = None) \<and>
    w_cache w' = w_cache w \<and> objs (w_store w') = objs (w_store w)"
proof -
  note get_step = engine_store.get_step [OF engine_store.intro [OF assms(1)]]
  from assms(2) obtain rec w1 where g: "on_store (st_Get (e_ops E) (SPIFFEWorkloadKey org wid)) w = (Inr rec, w1)"
    and u: "unmarshal workload_fields zero_workload (sr_Data rec) = Some wl" "wl_Active wl"
    and v: "ValidateWorkloadCert E (Some cert) (Some wl) w1 = (Inr (), w')"
    by (auto simp: bind_workload_def eng_Inr guard_Inr split: if_splits)
  from v have "(\<exists>t \<in> range (e_now E). check_cert t cert wl = None) \<and> w_cache w' = w_cache w1 \<and> w_store w' = w_store w1"
    by (auto simp: ValidateWorkloadCert_def andThen_Inr prims_eq split: option.splits)
  moreover from g have "w_cache w1 = w_cache w" by (auto simp: on_store_eq)
  ultimately show ?thesis using get_step [OF g] u by (auto simp: view_def fun_eq_iff)
qed

text \<open>The key the endpoint signs with: from the cache, from the store, or generated now, whether or not it could be stored.\<close>

definition endpoint_key ::
  "('s \<Rightarrow> string \<Rightarrow> (string \<times> blob) option) \<Rightarrow> 's env \<Rightarrow> 's world \<Rightarrow> string \<Rightarrow> SigningKey \<Rightarrow> bool" where
  "endpoint_key objs E w org key \<longleftrightarrow>
     (\<exists>t ks. GetSigningKeys (w_cache w) org [] (e_now E t) = Some (Some key # ks)) \<or> stored_key objs w org [] key \<or>
     (\<exists>g now. g \<in> range (e_genkey E) \<and> GenerateRSAKeyPair g now org [] = Inr key)"

lemma org_keys_Inr:
  assumes "cas_store (e_ops E) objs" and "org_keys E h org w1 = (Inr (Some key # ks), w')"
    and "w_cache w1 = w_cache w" and "objs (w_store w1) = objs (w_store w)"
  shows "endpoint_key objs E w org key"
proof -
  let ?hit = "GetSigningKeys (w_cache w1) org [] (e_now E (w_tick w1))" and ?w2 = "w1\<lparr>w_tick := Suc (w_tick w1)\<rparr>"
  consider (hit) "?hit = Some (Some key # ks)"
    | (miss) found w3 w4 where "attempt (on_store (st_List (e_ops E) (KeysPrefix org))) (\<lambda>l. case l of
               Inl err \<Rightarrow> ret []
             | Inr list \<Rightarrow> ret (map Some (usable_keys [] list))) ?w2 = ((Inr found :: Response + SigningKey option list), w3)"
        "(if found = [] then first_org_key E h org else ret found) w3 = (Inr (Some key # ks), w4)"
    using assms(2) by (auto simp: org_keys_def andThen_Inr prims_eq split: option.splits list.splits)
  then show ?thesis
  proof cases
    case hit
    with assms(3) show ?thesis unfolding endpoint_key_def by metis
  next
    case miss
    show ?thesis
    proof (cases "found = []")
      case True
      with miss(2) obtain w5 where "generate_key E org [] w3 = (Inr key, w5)"
        by (auto simp: first_org_key_def andThen_Inr wrapErr_Inr attempt_iff)
      then show ?thesis by (auto simp: endpoint_key_def generate_key_def andThen_Inr prims_eq)
    next
      case False
      with miss(2) have f: "found = Some key # ks" by simp
      with miss(1) obtain recs where l: "on_store (st_List (e_ops E) (KeysPrefix org)) ?w2 = (Inr recs, w3)"
        and k: "map Some (usable_keys [] recs) = Some key # ks"
        by (auto simp: attempt_sum)
      from k have "key \<in> set (usable_keys [] recs)" by (metis (no_types) list.set_intros(1) list.set_map image_iff option.inject)
      with engine_store.list_step [OF engine_store.intro [OF assms(1)] l] have "stored_key objs ?w2 org [] key"
        unfolding stored_key_def by (metis usable_keys_mem)
      with assms(4) show ?thesis by (simp add: endpoint_key_def stored_key_def view_def)
    qed
  qed
qed

text \<open>
  C24. What the SVID endpoint proves: apart from a preflight (\<open>OPTIONS\<close>), which is answered with no body, it answers 200
  only to a client whose certificate is verified (by TLS or by a trusted proxy) and is within its validity and has the
  fingerprint and the SPIFFE id of an active registered workload of the tenant. The SVID names that workload, lives
  fifteen minutes, is signed with a key cached or stored for the tenant or generated at that moment, and carries only
  scopes that the workload is allowed (all, if its list has \<open>*\<close>) and, if any were requested, that were requested. Its
  audience is the one the request names: the workload's list of audiences is not consulted.
\<close>

theorem svid_endpoint_sound:
  assumes "cas_store (e_ops E) objs" and "HandleSVID E x509 h0 r w = (resp, w')" and "rs_Status resp = 200"
  defines "org \<equiv> or_default (header_tenant r)"
  shows "(r_Method r = ''OPTIONS'' \<and> rs_Body resp = NoBody \<and> w' = w) \<or>
   (\<exists>cert v data wl key now tok c doc granted. VerifiedClientCert E x509 r = Inr cert \<and>
    objs (w_store w) (SPIFFEWorkloadKey org (svid_workload_id r)) = Some (v, data) \<and>
    unmarshal workload_fields zero_workload data = Some wl \<and> wl_Active wl \<and>
    (\<exists>t \<in> range (e_now E). check_cert t cert wl = None) \<and>
    rs_Body resp = JSON (JObj doc) \<and> map_of doc ''svid'' = Some (JStr tok) \<and>
    SignJWT (e_rsa E) c (key_PrivateKeyPEM key) (key_KID key) = Inr tok \<and> endpoint_key objs E w org key \<and>
    cl_WorkloadID c = wl_ID wl \<and> cl_OrganizationID c = org \<and> cl_ExpiresAt c = Unix (now + 15 * Minute) \<and>
    cl_IssuedAt c = Unix now \<and> now \<in> range (e_now E) \<and> cl_Scope c = Join granted '' '' \<and>
    (''*'' \<in> set (wl_AllowedScopes wl) \<or> set granted \<subseteq> set (wl_AllowedScopes wl)) \<and>
    (sb_RequestedScopes (svid_body r) = [] \<or> set granted \<subseteq> set (sb_RequestedScopes (svid_body r))) \<and>
    (sb_Audience (svid_body r) \<noteq> [] \<longrightarrow> cl_Audience c = [sb_Audience (svid_body r)]))"
proof (cases "r_Method r = ''OPTIONS''")
  case True
  with assms(2) show ?thesis by (auto simp: HandleSVID_def answer_def EnableCORS_def Let_def andThen_def ofSum_def)
next
  case False
  let ?wid = "svid_workload_id r" and ?body = "svid_body r"
  let ?granted = "\<lambda>wl. grantScopes wl (sb_RequestedScopes ?body)"
  obtain h where h: "EnableCORS h0 r = Inr h" using False by (simp add: EnableCORS_Inr)
  from assms(2,3) obtain cert wl w1 where cert: "VerifiedClientCert E x509 r = Inr cert"
    and b: "bind_workload E h cert org ?wid w = (Inr wl, w1)"
    and s: "sign_svid E h wl org ?wid ?body w1 = (Inr resp, w')"
    by (auto simp: HandleSVID_def answer_iff h Let_def andThen_Inr andThen_Inl org_def split: if_splits sum.splits
        dest: bind_workload_Inl sign_svid_Inl)
  note bound = bind_workload_Inr [OF assms(1) b]
  let ?c = "workload_claims wl org ?wid (sb_Audience ?body) (?granted wl)"
  from s obtain keys w2 key now tok where k: "org_keys E h org w1 = (Inr keys, w2)" "hd keys = Some key"
    and t: "Inr tok = SignJWT (e_rsa E) (?c\<lparr>cl_IssuedAt := Unix now, cl_ExpiresAt := Unix (now + 15 * Minute)\<rparr>)
        (key_PrivateKeyPEM key) (key_KID key)" and now: "now \<in> range (e_now E)" and r: "resp = svid_answer h tok ?c"
    by (auto simp: sign_svid_def andThen_Inr wrapErr_Inr Let_def IssueJWTSVID_def prims_eq split: option.splits)
  from org_keys_nonempty [OF k(1)] k(2) have "keys = Some key # tl keys" by (cases keys) auto
  with k(1) bound org_keys_Inr [OF assms(1)] have key: "endpoint_key objs E w org key" by metis
  obtain doc where doc: "rs_Body resp = JSON (JObj doc)" "map_of doc ''svid'' = Some (JStr tok)"
    by (simp add: r svid_answer_def)
  have g: "''*'' \<in> set (wl_AllowedScopes wl) \<or> set (?granted wl) \<subseteq> set (wl_AllowedScopes wl)"
    "sb_RequestedScopes ?body = [] \<or> set (?granted wl) \<subseteq> set (sb_RequestedScopes ?body)"
    using grantScopes_allowed by blast+
  let ?d = "?c\<lparr>cl_IssuedAt := Unix now, cl_ExpiresAt := Unix (now + 15 * Minute)\<rparr>"
  have c: "cl_WorkloadID ?d = wl_ID wl" "cl_OrganizationID ?d = org" "cl_Scope ?d = Join (?granted wl) '' ''"
    "cl_ExpiresAt ?d = Unix (now + 15 * Minute)" "cl_IssuedAt ?d = Unix now"
    "sb_Audience ?body \<noteq> [] \<longrightarrow> cl_Audience ?d = [sb_Audience ?body]"
    by (simp_all add: workload_claims_def Let_def)
  from bound obtain v data where rec: "objs (w_store w) (SPIFFEWorkloadKey org ?wid) = Some (v, data)"
    "unmarshal workload_fields zero_workload data = Some wl" "wl_Active wl" "\<exists>t \<in> range (e_now E). check_cert t cert wl = None" by blast
  show ?thesis
    by (intro disjI2 exI [of _ cert] exI [of _ v] exI [of _ data] exI [of _ wl] exI [of _ key] exI [of _ now] exI [of _ tok]
        exI [of _ ?d] exI [of _ doc] exI [of _ "?granted wl"] conjI cert rec doc t [symmetric] key c now g)
qed

text \<open>A workload bound to the demo certificate, and its tenant's signing key in the cache.\<close>

definition bound_workload :: SPIFFEWorkload where
  "bound_workload = demo_workload\<lparr>wl_CertFingerprint := ComputeCertFingerprintDER (ct_Raw demo_cert)\<rparr>"

definition endpoint_world :: "memdb world" where
  "endpoint_world = (new_world \<lparr>md_objs = [(SPIFFEWorkloadKey ''acme'' ''build'', ''1'', Doc (marshal workload_fields bound_workload))],
     md_next = 2\<rparr>)\<lparr>w_cache := SetSigningKeys NewMemoryCache ''acme'' [] [Some demo_key] (1 * Hour) demo_now\<rparr>"

definition demo_svid_post :: Request where
  "demo_svid_post = demo_http\<lparr>r_Method := ''POST'', r_Path := ''/api/v1/spiffe/svid'', r_TLS := Some [demo_cert],
     r_RawQuery := ''workload_id=build'', r_Header := Header_Set no_header ''X-Organization-ID'' ''acme''\<rparr>"

lemma zero_svid_body_simps: "sb_Audience zero_svid_body = []" "sb_RequestedScopes zero_svid_body = []"
  by (simp_all add: zero_svid_body_def)

lemma bound_cert: "check_cert demo_now demo_cert bound_workload = None"
proof -
  have "wl_SPIFFEID demo_workload = ''spiffe://authpole.local/ns/acme/sa/build''" by (simp add: demo_workload_def)
  then show ?thesis
    using hex_never_empty [of "ct_Raw demo_cert"]
    by (auto simp: check_cert_def bound_workload_def EqualFold_def ComputeCertFingerprintDER_def
        Before_def After_def demo_cert_def demo_now_def)
qed

lemma demo_bound:
  "bind_workload demo_env h demo_cert ''acme'' ''build'' endpoint_world = (Inr bound_workload, endpoint_world\<lparr>w_tick := 1\<rparr>)"
proof -
  have "wl_Active bound_workload" by (simp add: bound_workload_def demo_workload_def)
  then show ?thesis
    using bound_cert
    by (simp add: bind_workload_def andThen_def wrapErr_def on_store_def JayDBStorage_def jay_Get_def mem_ops_def mem_Get_def
        attempt_def ret_def workload_roundtrip ValidateWorkloadCert_def clock_def endpoint_world_def new_world_def)
qed

lemma demo_svid_signed: "\<exists>tok w'. sign_svid demo_env h wl ''acme'' ''build'' body (endpoint_world\<lparr>w_tick := 1\<rparr>) =
    (Inr (svid_answer h tok (workload_claims wl ''acme'' ''build'' (sb_Audience body) (grantScopes wl (sb_RequestedScopes body)))), w')"
proof -
  have "GetSigningKeys (w_cache endpoint_world) ''acme'' [] demo_now = Some [Some demo_key]"
    using mc.lookup_store [of demo_now demo_now "1 * Hour"]
    by (simp add: endpoint_world_def GetSigningKeys_def SetSigningKeys_def Hour_def Minute_def Second_def)
  moreover obtain t where "SignJWT demo_rsa (workload_claims wl ''acme'' ''build'' (sb_Audience body) (grantScopes wl (sb_RequestedScopes body))
      \<lparr>cl_IssuedAt := Unix demo_now, cl_ExpiresAt := Unix (demo_now + 15 * Minute)\<rparr>) (key_PrivateKeyPEM demo_key) (key_KID demo_key) = Inr t"
    using demo_signs [OF demo_can_sign] by blast
  ultimately show ?thesis
    by (simp add: sign_svid_def org_keys_def andThen_def wrapErr_def ret_def cached_def IssueJWTSVID_def clock_def ofSum_def Let_def) blast
qed

lemma svid_endpoint_sound_witness:
  "\<exists>resp w' tok c (key :: SigningKey). HandleSVID demo_env (\<lambda>_. None) no_header demo_svid_post endpoint_world = (resp, w') \<and>
     rs_Status resp = 200 \<and> SignJWT demo_rsa c (key_PrivateKeyPEM key) (key_KID key) = Inr tok \<and>
     cl_OrganizationID c = ''acme''"
proof -
  have f: "r_Method demo_svid_post = ''POST''" "svid_workload_id demo_svid_post = ''build''"
    "or_default (header_tenant demo_svid_post) = ''acme''" "svid_body demo_svid_post = zero_svid_body"
    by code_simp+
  have cert: "VerifiedClientCert demo_env (\<lambda>_. None) demo_svid_post = Inr demo_cert"
    by (simp add: VerifiedClientCert_def demo_svid_post_def)
  obtain h where h: "EnableCORS no_header demo_svid_post = Inr h" by (simp add: EnableCORS_Inr f(1))
  from demo_svid_signed obtain tok w' where
    "sign_svid demo_env h bound_workload ''acme'' ''build'' zero_svid_body (endpoint_world\<lparr>w_tick := 1\<rparr>) =
      (Inr (svid_answer h tok (workload_claims bound_workload ''acme'' ''build'' [] (grantScopes bound_workload []))), w')"
    by (metis zero_svid_body_simps)
  then have x: "HandleSVID demo_env (\<lambda>_. None) no_header demo_svid_post endpoint_world =
      (svid_answer h tok (workload_claims bound_workload ''acme'' ''build'' [] (grantScopes bound_workload [])), w')"
    by (simp add: HandleSVID_def answer_def h ofSum_def ret_def Let_def f andThen_def cert demo_bound)
  have ok: "rs_Status (svid_answer h tok c) = 200" for c by (simp add: svid_answer_def)
  from svid_endpoint_sound [OF demo_cas x ok] f obtain key :: SigningKey and c tok' where
    "SignJWT (e_rsa demo_env) c (key_PrivateKeyPEM key) (key_KID key) = Inr tok'" "cl_OrganizationID c = ''acme''"
    by auto
  then show ?thesis using x ok by auto
qed

end
