(* ===== verification/Scope.thy ===== *)
theory Scope
  imports Console
begin

text \<open>
  What the administrative handlers may write: each changes only the objects of its own kind in the tenant it takes from
  the request.
\<close>

subsection \<open>The scope of a route\<close>

definition body_of :: "Request \<Rightarrow> 'r field list \<Rightarrow> 'r \<Rightarrow> 'r option" where
  "body_of r fs zero = (case r_JSON r of None \<Rightarrow> None | Some j \<Rightarrow>
     (case decode_into fs j zero of (ok, item) \<Rightarrow> if ok then Some item else None))"

text \<open>The tenant of a user that is written is the one in the body, if it names one.\<close>

definition user_tenant :: "Request \<Rightarrow> string" where
  "user_tenant r = (case body_of r user_fields zero_user of
     Some u \<Rightarrow> (if user_OrganizationID u \<noteq> [] then user_OrganizationID u else or_default (header_tenant r))
   | None \<Rightarrow> or_default (header_tenant r))"

text \<open>An organization is named by its body or by the path, whatever tenant the administrator belongs to.\<close>

definition written_org :: "Request \<Rightarrow> string" where
  "written_org r = (case body_of r org_fields zero_org of
     Some g \<Rightarrow> (if org_ID g = [] then org_path_id r else org_ID g) | None \<Rightarrow> org_path_id r)"

definition admin_scope :: "string \<Rightarrow> Request \<Rightarrow> string \<Rightarrow> bool" where
  "admin_scope pat r k \<longleftrightarrow>
     (let T = or_default (header_tenant r); under = (\<lambda>org dir. HasPrefix k (''organizations/'' @ org @ dir)) in
      if pat \<in> {''/api/v1/organizations'', ''/api/v1/organizations/'', ''/api/v1/tenants'', ''/api/v1/tenants/''}
        then k = OrganizationKey (written_org r) \<or> under (written_org r) ''/admin/users/''
      else if pat \<in> {''/api/v1/apps'', ''/api/v1/apps/''} then under (admin_tenant r) ''/apps/''
      else if pat \<in> {''/api/v1/idps'', ''/api/v1/idps/''} then under (admin_tenant r) ''/idps/''
      else if pat = ''/api/v1/keys'' then under (admin_tenant r) ''/keys/''
      else if pat \<in> {''/api/v1/admin/users'', ''/api/v1/admin/users/''} then under (user_tenant r) ''/admin/users/''
      else if pat = ''/api/v1/admin/teams'' then under T ''/admin/teams/''
      else if pat = ''/api/v1/admin/roles'' then under T ''/admin/roles/''
      else if pat \<in> {''/api/v1/admin/spiffe/workloads'', ''/api/v1/admin/spiffe/workloads/''}
        then under T ''/spiffe/workloads/''
      else False)"

lemma decode_body_Inr: "decode_body h r fs zero = Inr item \<longleftrightarrow> body_of r fs zero = Some item"
  by (auto simp: decode_body_def body_of_def split: option.splits prod.splits)

lemma keys_under:
  "\<not> HasPrefix k (''organizations/'' @ org @ ''/apps/'') \<Longrightarrow> k \<noteq> AppKey org i"
  "\<not> HasPrefix k (''organizations/'' @ org @ ''/idps/'') \<Longrightarrow> k \<noteq> IDPKey org i"
  "\<not> HasPrefix k (''organizations/'' @ org @ ''/keys/'') \<Longrightarrow> k \<noteq> KeyPairKey org i"
  "\<not> HasPrefix k (''organizations/'' @ org @ ''/admin/users/'') \<Longrightarrow> k \<noteq> AdminUserKey org i"
  "\<not> HasPrefix k (''organizations/'' @ org @ ''/admin/teams/'') \<Longrightarrow> k \<noteq> TeamKey org i"
  "\<not> HasPrefix k (''organizations/'' @ org @ ''/admin/roles/'') \<Longrightarrow> k \<noteq> RoleKey org i"
  "\<not> HasPrefix k (''organizations/'' @ org @ ''/spiffe/workloads/'') \<Longrightarrow> k \<noteq> SPIFFEWorkloadKey org i"
  by (auto simp: HasPrefix_iff key_defs)

lemma keeps_ofSum_then: "(\<And>a. s = Inr a \<Longrightarrow> keeps g (f a)) \<Longrightarrow> keeps g (andThen (ofSum s) f)"
  by (cases s) (auto simp: keeps_def andThen_def ofSum_def)

lemma keeps_then_result:
  "keeps g m \<Longrightarrow> (\<And>a w w'. m w = (Inr a, w') \<Longrightarrow> keeps g (f a)) \<Longrightarrow> keeps g (andThen m f)"
  by (auto simp: keeps_def andThen_def split: prod.splits sum.splits) (metis snd_conv)+

lemma answer_keeps: "keeps g m \<Longrightarrow> answer m w = (resp, w') \<Longrightarrow> g w' = g w"
  by (auto simp: answer_iff dest: keepsD)

subsection \<open>What the handlers leave alone\<close>

context engine_store
begin

abbreviation holds :: "string \<Rightarrow> 's world \<Rightarrow> (string \<times> blob) option" where
  "holds k w \<equiv> view objs w k"

lemma keeps_admin [keeps_rules]:
  "(\<And>h. keeps (holds k) (body h)) \<Longrightarrow> keeps (holds k) (as_admin E h0 r body)"
  using AuthenticateAdmin_objs [of r] unfolding as_admin_def
  by (intro keeps_rules) (simp_all add: keeps_def view_def)

lemma keeps_items [keeps_rules]:
  "keeps (holds k) (list_items E h fs zero upd pre)" "keeps (holds k) (get_item E h fs zero upd key)"
  "keeps (holds k) (fresh_id E p ident)" "keeps (holds k) (created_at E t)" "keeps (holds k) (list_orgs E h)"
  "keeps (holds k) (list_keys E h org)"
  unfolding list_items_def get_item_def fresh_id_def created_at_def list_orgs_def list_keys_def
  by (intro keeps_rules)+

lemma keeps_put_item: "k \<noteq> key \<Longrightarrow> keeps (holds k) (put_item E h fs item key v st)"
  unfolding put_item_def by (intro keeps_rules keeps_put)

lemma keeps_saves:
  "\<not> HasPrefix k (''organizations/'' @ org @ ''/apps/'') \<Longrightarrow> keeps (holds k) (save_app E h r org ident)"
  "\<not> HasPrefix k (''organizations/'' @ org @ ''/idps/'') \<Longrightarrow> keeps (holds k) (save_idp E h r org ident)"
  "\<not> HasPrefix k (''organizations/'' @ org @ ''/keys/'') \<Longrightarrow> keeps (holds k) (add_key E h r org)"
  "\<not> HasPrefix k (''organizations/'' @ org @ ''/admin/teams/'') \<Longrightarrow> keeps (holds k) (save_team E h r org)"
  "\<not> HasPrefix k (''organizations/'' @ org @ ''/admin/roles/'') \<Longrightarrow> keeps (holds k) (save_role E h r org)"
  "\<not> HasPrefix k (''organizations/'' @ org @ ''/spiffe/workloads/'') \<Longrightarrow> keeps (holds k) (save_workload E h r org)"
  unfolding save_app_def save_idp_def add_key_def save_team_def save_role_def save_workload_def
  by (intro keeps_rules keeps_put_item keys_under; assumption)+

lemma keeps_save_user:
  assumes "\<not> HasPrefix k (''organizations/'' @ user_tenant r @ ''/admin/users/'')"
  shows "keeps (holds k) (save_user E h r (or_default (header_tenant r)))"
  unfolding save_user_def Let_def
proof (rule keeps_ofSum_then, goal_cases)
  case (1 u)
  then have t: "(if user_OrganizationID u \<noteq> [] then user_OrganizationID u else or_default (header_tenant r)) = user_tenant r"
    by (simp add: decode_body_Inr user_tenant_def)
  show ?case unfolding t by (intro keeps_rules keeps_put_item keys_under assms)
qed

lemma keeps_initial_user:
  "\<not> HasPrefix k (''organizations/'' @ org_ID org @ ''/admin/users/'') \<Longrightarrow> keeps (holds k) (create_initial_user E org)"
  unfolding create_initial_user_def by (intro keeps_rules keeps_put keys_under)

lemma initial_user_org: "create_initial_user E org w = (Inr org', w') \<Longrightarrow> org_ID org' = org_ID org"
  by (auto simp: create_initial_user_def Let_def andThen_Inr attempt_iff split: option.splits if_splits)

lemma keeps_save_org:
  assumes "k \<noteq> OrganizationKey (written_org r)" and "\<not> HasPrefix k (''organizations/'' @ written_org r @ ''/admin/users/'')"
  shows "keeps (holds k) (save_org E h r (org_path_id r))"
  unfolding save_org_def Let_def
proof (rule keeps_ofSum_then, goal_cases)
  case (1 g)
  let ?g = "if org_ID g = [] then g\<lparr>org_ID := org_path_id r\<rparr> else g"
  have t: "org_ID ?g = written_org r" using 1 by (simp add: decode_body_Inr written_org_def)
  have stored: "keeps (holds k) (andThen (create_initial_user E (?g\<lparr>org_UpdatedAt := u, org_CreatedAt := c\<rparr>)) (\<lambda>org.
     andThen (put_item E h org_fields org (OrganizationKey (org_ID org)) v 409) (f org)))"
    if "\<And>org ver. keeps (holds k) (f org ver)" for u c v f
  proof (rule keeps_then_result [OF keeps_initial_user])
    show "\<not> HasPrefix k (''organizations/'' @ org_ID (?g\<lparr>org_UpdatedAt := u, org_CreatedAt := c\<rparr>) @ ''/admin/users/'')"
      using assms(2) t by simp
    fix org w w'
    assume "create_initial_user E (?g\<lparr>org_UpdatedAt := u, org_CreatedAt := c\<rparr>) w = (Inr org, w')"
    with initial_user_org t have "org_ID org = written_org r" by fastforce
    with assms(1) that show "keeps (holds k) (andThen (put_item E h org_fields org (OrganizationKey (org_ID org)) v 409) (f org))"
      by (intro keeps_andThen keeps_put_item) simp_all
  qed
  show ?case
    by (rule keeps_if [OF keeps_fail], rule keeps_andThen [OF keeps_view_prims(1)], rule keeps_andThen [OF keeps_items(4)],
        rule stored) (intro keeps_rules)
qed

lemma keeps_visible_orgs: "keeps (holds k) (visible_orgs E all email recs)"
  by (induction recs) (auto simp: Let_def member_of_def split: option.splits intro!: keeps_rules)

lemma keeps_user_orgs: "HandleUserOrganizations E h0 r w = (resp, w') \<Longrightarrow> holds k w' = holds k w"
  unfolding HandleUserOrganizations_def
proof (erule answer_keeps [rotated])
  have "keeps (holds k) (user_email E r token)" for token
    unfolding user_email_def by (auto simp: Let_def split: option.splits list.splits intro!: keeps_rules)
  moreover have "keeps (holds k) (AuthenticateAdmin E r)"
    using AuthenticateAdmin_objs [of r] by (simp add: keeps_def view_def)
  ultimately show "keeps (holds k) (andThen (ofSum (EnableCORS h0 r)) (\<lambda>h.
     if r_Method r \<noteq> ''GET'' then fail (method_not_allowed h)
     else andThen (wrapErr (\<lambda>err. renderError h err 401) (AuthenticateAdmin E r)) (\<lambda>_.
       let token = bearer_token r in
       andThen (user_email E r token) (\<lambda>email.
       andThen (wrapErr (\<lambda>err. renderError h (StoreErr err) 500) (on_store (st_List (e_ops E) ''organizations/''))) (\<lambda>list.
       andThen (visible_orgs E (token = static_admin_token \<or> email = []) email list) (\<lambda>orgs.
       ret (renderJSON h (json_items org_fields orgs) [])))))))"
    by (intro keeps_rules keeps_visible_orgs)
qed

text \<open>The handlers, one by one.\<close>

lemma handler_scopes:
  "\<not> HasPrefix k (''organizations/'' @ admin_tenant r @ ''/apps/'') \<Longrightarrow> HandleApps E h0 r w = (resp, w') \<Longrightarrow> holds k w' = holds k w"
  "\<not> HasPrefix k (''organizations/'' @ admin_tenant r @ ''/idps/'') \<Longrightarrow> HandleIDPs E h0 r w = (resp, w') \<Longrightarrow> holds k w' = holds k w"
  "\<not> HasPrefix k (''organizations/'' @ admin_tenant r @ ''/keys/'') \<Longrightarrow> HandleKeys E h0 r w = (resp, w') \<Longrightarrow> holds k w' = holds k w"
  "\<not> HasPrefix k (''organizations/'' @ user_tenant r @ ''/admin/users/'') \<Longrightarrow> HandleAdminUsers E h0 r w = (resp, w') \<Longrightarrow> holds k w' = holds k w"
  "\<not> HasPrefix k (''organizations/'' @ or_default (header_tenant r) @ ''/admin/teams/'') \<Longrightarrow> HandleTeams E h0 r w = (resp, w') \<Longrightarrow> holds k w' = holds k w"
  "\<not> HasPrefix k (''organizations/'' @ or_default (header_tenant r) @ ''/admin/roles/'') \<Longrightarrow> HandleRoles E h0 r w = (resp, w') \<Longrightarrow> holds k w' = holds k w"
  "\<not> HasPrefix k (''organizations/'' @ or_default (header_tenant r) @ ''/spiffe/workloads/'') \<Longrightarrow> HandleWorkloads E h0 r w = (resp, w') \<Longrightarrow> holds k w' = holds k w"
  "k \<noteq> OrganizationKey (written_org r) \<Longrightarrow> \<not> HasPrefix k (''organizations/'' @ written_org r @ ''/admin/users/'') \<Longrightarrow>
     HandleOrganizations E h0 r w = (resp, w') \<Longrightarrow> holds k w' = holds k w"
  unfolding HandleApps_def HandleIDPs_def HandleKeys_def HandleAdminUsers_def HandleTeams_def HandleRoles_def
    HandleWorkloads_def HandleOrganizations_def Let_def
  by (erule answer_keeps [rotated], intro keeps_rules keeps_saves keeps_save_user keeps_save_org; assumption)+

end

text \<open>The routes that check for an administrator, and what each may write.\<close>

definition admin_routes :: "'s Server \<Rightarrow> 's routing" where
  "admin_routes S =
    [(''/api/v1/user/organizations'', HandleUserOrganizations (sv_env S)),
     (''/api/v1/organizations'', HandleOrganizations (sv_env S)),
     (''/api/v1/organizations/'', HandleOrganizations (sv_env S)),
     (''/api/v1/tenants'', HandleOrganizations (sv_env S)),
     (''/api/v1/tenants/'', HandleOrganizations (sv_env S)),
     (''/api/v1/apps'', HandleApps (sv_env S)),
     (''/api/v1/apps/'', HandleApps (sv_env S)),
     (''/api/v1/idps'', HandleIDPs (sv_env S)),
     (''/api/v1/idps/'', HandleIDPs (sv_env S)),
     (''/api/v1/keys'', HandleKeys (sv_env S)),
     (''/api/v1/admin/users'', HandleAdminUsers (sv_env S)),
     (''/api/v1/admin/users/'', HandleAdminUsers (sv_env S)),
     (''/api/v1/admin/teams'', HandleTeams (sv_env S)),
     (''/api/v1/admin/roles'', HandleRoles (sv_env S)),
     (''/api/v1/admin/spiffe/workloads'', HandleWorkloads (sv_env S)),
     (''/api/v1/admin/spiffe/workloads/'', HandleWorkloads (sv_env S))]"

lemma in_admin_routes:
  assumes "(pat, H) \<in> set (routes S)" and "HasPrefix pat ''/api/v1/''" and "pat \<notin> set unguarded_api"
  shows "(pat, H) \<in> set (admin_routes S)"
proof -
  from assms have "(pat, H) \<in> set [(pat, H) \<leftarrow> routes S. HasPrefix pat ''/api/v1/'' \<and> pat \<notin> set unguarded_api]" by simp
  then show ?thesis by (simp add: routes_def Let_def unguarded_api_def admin_routes_def)
qed

lemma admin_routes_scoped:
  assumes "cas_store (e_ops (sv_env S)) objs" and "(pat, H) \<in> set (admin_routes S)" and "H h0 r w = (resp, w')"
    and "\<not> admin_scope pat r k"
  shows "objs (w_store w') k = objs (w_store w) k"
proof -
  have e: "engine_store (sv_env S) objs" using assms(1) by (rule engine_store.intro)
  note scopes = engine_store.handler_scopes [OF e, unfolded view_def] engine_store.keeps_user_orgs [OF e, unfolded view_def]
  show ?thesis
    using assms(2-4) unfolding admin_routes_def by (auto simp: admin_scope_def Let_def intro: scopes)
qed

text \<open>
  C20. An administrative request writes only where its route and its tenant say: an application, provider, key, team,
  role or workload only among those of the tenant the request names (by header, or for the first three by query), a user
  only among those of the tenant in the body or else that of the header, an organization only its own record and its
  users; the list of a user's organizations writes nothing. Every other object, of this tenant or another, is as it was.
\<close>

theorem admin_write_scope:
  assumes "cas_store (e_ops (sv_env S)) objs" and "(pat, H) \<in> set (routes S)" and "HasPrefix pat ''/api/v1/''"
    and "pat \<notin> set unguarded_api" and "H h0 r w = (resp, w')" and "\<not> admin_scope pat r k"
  shows "objs (w_store w') k = objs (w_store w) k"
  using admin_routes_scoped [OF assms(1) in_admin_routes [OF assms(2-4)] assms(5,6)] .

lemma demo_app_written:
  "rs_Status (fst (HandleApps demo_env no_header demo_app_post demo_world)) = 200 \<and>
   mem_view (w_store (snd (HandleApps demo_env no_header demo_app_post demo_world))) \<noteq> mem_view (w_store demo_world)"
proof
  show "rs_Status (fst (HandleApps demo_env no_header demo_app_post demo_world)) = 200" by code_simp
  have "mem_view (w_store (snd (HandleApps demo_env no_header demo_app_post demo_world))) (AppKey ''acme'' ''new'') \<noteq> None"
    "mem_view (w_store demo_world) (AppKey ''acme'' ''new'') = None" by code_simp+
  then show "mem_view (w_store (snd (HandleApps demo_env no_header demo_app_post demo_world))) \<noteq> mem_view (w_store demo_world)"
    by metis
qed

lemma admin_write_scope_witness:
  "\<exists>resp w'. HandleApps demo_env no_header demo_app_post demo_world = (resp, w') \<and> rs_Status resp = 200 \<and>
     mem_view (w_store w') \<noteq> mem_view (w_store demo_world) \<and>
     mem_view (w_store w') (KeyPairKey ''acme'' ''key_1'') = mem_view (w_store demo_world) (KeyPairKey ''acme'' ''key_1'')"
proof -
  obtain resp w' where x: "HandleApps demo_env no_header demo_app_post demo_world = (resp, w')" by fastforce
  have m: "(''/api/v1/apps/'', HandleApps demo_env) \<in> set (routes demo_server)"
    by (simp add: routes_def Let_def demo_server_def NewServer_def)
  have n: "\<not> admin_scope ''/api/v1/apps/'' demo_app_post (KeyPairKey ''acme'' ''key_1'')" by code_simp
  have c: "cas_store (e_ops (sv_env demo_server)) mem_view" using demo_cas by (simp add: demo_server_def NewServer_def)
  have "mem_view (w_store w') (KeyPairKey ''acme'' ''key_1'') = mem_view (w_store demo_world) (KeyPairKey ''acme'' ''key_1'')"
    by (rule admin_write_scope [OF c m _ _ x n]) (simp_all add: unguarded_api_def HasPrefix_iff)
  with x demo_app_written show ?thesis by (metis fst_conv snd_conv)
qed

end
