(* ===== verification/Isolation.thy ===== *)
theory Isolation
  imports Scope Reach
begin

text \<open>
  Tenants in an embedding application: what a request that was resolved to one tenant can change of another. The public
  endpoints write sessions and signing keys only; the administrative ones are confined by \<open>admin_scope\<close>; and the
  tenant they take from the request is the pinned one.
\<close>

subsection \<open>Configuration\<close>

text \<open>What an administrator sets up: every object of a tenant but its signing keys.\<close>

definition config_key :: "string \<Rightarrow> bool" where
  "config_key k \<longleftrightarrow> HasPrefix k ''organizations/'' \<and> \<not> Contains k ''/keys/''"

lemma Contains_within: "Contains (s @ sub @ t) sub"
proof (induction s)
  case Nil
  have "HasPrefix (sub @ t) sub" by (simp add: HasPrefix_iff)
  then show ?case by (cases "sub @ t") auto
qed auto

lemma config_not_key: "config_key k \<Longrightarrow> k \<noteq> KeyPairKey org i"
  using Contains_within [of "''organizations/'' @ org" "''/keys/''" "i @ ''.json''"]
  by (auto simp: config_key_def KeyPairKey_def)

lemma keeps_list_case [keeps_rules]:
  "keeps g a \<Longrightarrow> (\<And>x xs. keeps g (f x xs)) \<Longrightarrow> keeps g (case l of [] \<Rightarrow> a | x # xs \<Rightarrow> f x xs)"
  by (cases l) auto

lemma keeps_http_case [keeps_rules]:
  "keeps g a \<Longrightarrow> keeps g b \<Longrightarrow> (\<And>s t u. keeps g (f s t u)) \<Longrightarrow>
     keeps g (case x of BadRequest \<Rightarrow> a | NoAnswer \<Rightarrow> b | Answer s t u \<Rightarrow> f s t u)"
  by (cases x) auto

locale spared_key = engine_store E objs
  for E :: "'s env" and objs :: "'s \<Rightarrow> string \<Rightarrow> (string \<times> blob) option" +
  fixes k :: string
  assumes config: "config_key k"
begin

lemma not_session: "k \<noteq> AuthStateKey s" "k \<noteq> AuthCodeKey c" "k \<noteq> RefreshTokenKey t"
  using config by (auto simp: config_key_def HasPrefix_iff key_defs)

lemma not_key: "k \<noteq> KeyPairKey org i"
  using config by (rule config_not_key)

lemma spares_login [keeps_rules]:
  "keeps (holds k) (begin_login E req app sel p)" "keeps (holds k) (claimSingleUse E (AuthStateKey s))"
  "keeps (holds k) (claimSingleUse E (AuthCodeKey s))" "keeps (holds k) (claimSingleUse E (RefreshTokenKey s))"
  by (intro keeps_begin_login keeps_claim allI not_session)+

lemma spares_prepare [keeps_rules]: "keeps (holds k) (PrepareAuthorization E req)"
  unfolding PrepareAuthorization_def by (intro keeps_rules)

lemma spares_consume [keeps_rules]: "keeps (holds k) (fetchAndConsumeAuthState E s)"
  unfolding fetchAndConsumeAuthState_def live_state_def by (intro keeps_rules)

lemma spares_complete [keeps_rules]:
  "keeps (holds k) (CompleteUpstreamAuthenticationWithState E st c)" "keeps (holds k) (CompleteUpstreamAuthentication E s c)"
  unfolding CompleteUpstreamAuthentication_def CompleteUpstreamAuthenticationWithState_def Let_def
  by (intro keeps_rules keeps_put not_session)+

lemma spares_callback [keeps_rules]: "keeps (holds k) (ProcessUpstreamCallback E base s code)"
  unfolding ProcessUpstreamCallback_def upstream_exchange_def by (intro keeps_rules)

lemma spares_tokens [keeps_rules]:
  "keeps (holds k) (issueTokens E app base scope nonce fam)" "keeps (holds k) (resolveSigningKey E org app')"
  by (intro keeps_issueTokens keeps_resolveSigningKey allI not_session not_key)+

lemma spares_redeem [keeps_rules]:
  "keeps (holds k) (redeem_code E rq ac)" "keeps (holds k) (redeem_refresh E rq data)"
  unfolding redeem_code_def redeem_refresh_def by (intro keeps_rules)+

lemma spares_exchange [keeps_rules]: "keeps (holds k) (ExchangeCodeForToken E rq)"
  unfolding ExchangeCodeForToken_def exchangeRefreshToken_def exchangeAuthorizationCode_def fetchAndConsumeAuthCode_def
  by (intro keeps_rules)

lemma spares_keys [keeps_rules]:
  "keeps (holds k) (SigningKeys E org app)" "keeps (holds k) (stored_keys E org app)" "keeps (holds k) (first_key E org app)"
  "keeps (holds k) (first_org_key E h org)" "keeps (holds k) (bundle_keys E org)"
  unfolding SigningKeys_def stored_keys_def first_key_def first_org_key_def bundle_keys_def
  by (intro keeps_rules keeps_put not_key)+

lemma spares_svid [keeps_rules]:
  "keeps (holds k) (bind_workload E h cert org w)" "keeps (holds k) (sign_svid E h wl org wid body)"
  unfolding bind_workload_def sign_svid_def org_keys_def ValidateWorkloadCert_def IssueJWTSVID_def by (intro keeps_rules)+

lemma spares_validate [keeps_rules]: "keeps (holds k) (Validate E (NewTokenValidatorWithSource (SigningKeys E)) org app tok opts)"
  unfolding Validate_def keysFor_def from_source_def NewTokenValidatorWithSource_def
  by (simp, intro conjI impI keeps_rules)

text \<open>The public handlers.\<close>

definition spares :: "'s handler \<Rightarrow> bool" where
  "spares H \<longleftrightarrow> (\<forall>h0 r w resp w'. H h0 r w = (resp, w') \<longrightarrow> holds k w' = holds k w)"

lemma sparesI: "(\<And>h0 r. H h0 r = answer (m h0 r)) \<Longrightarrow> (\<And>h0 r. keeps (holds k) (m h0 r)) \<Longrightarrow> spares H"
  unfolding spares_def by (metis answer_keeps)

lemma spares_public:
  "spares (WellKnownConfig E)" "spares (JWKS E)" "spares (Authorize E)" "spares (Token E)" "spares (MockLogin E)"
  "spares (Callback E)" "spares (HandleSVID E x509)" "spares (TrustBundle E)" "spares healthz"
  by (rule sparesI, rule WellKnownConfig_def JWKS_def Authorize_def Token_def MockLogin_def Callback_def HandleSVID_def
      TrustBundle_def healthz_def, intro keeps_rules)+

lemma spares_validate_endpoint: "spares (validateEndpoint (NewServer E x509))"
  by (rule sparesI, rule validateEndpoint_def, simp only: NewServer_def Server.simps, intro keeps_rules)

lemma spares_org_sub: "spares (orgSubHandler (NewServer E x509))"
  using spares_public(2,8) by (auto simp: spares_def orgSubHandler_def NewServer_def Let_def)

lemma spares_cors [keeps_rules]: "keeps (holds k) (applyCORS (NewServer E x509) h r)"
  unfolding applyCORS_def originAllowed_def NewServer_def Let_def by (simp, intro conjI impI keeps_rules)

end

interpretation demo_spared: spared_key demo_env mem_view "AppKey ''acme'' ''web''"
proof
  show "config_key (AppKey ''acme'' ''web'')" by code_simp
qed

subsection \<open>Every route\<close>

definition tenant_route :: "string \<Rightarrow> bool" where
  "tenant_route p \<longleftrightarrow> \<not> HasPrefix p ''/api/v1/organizations'' \<and> \<not> HasPrefix p ''/api/v1/tenants'' \<and>
     \<not> HasPrefix p ''/api/v1/admin/users''"

lemma NewServer_env: "sv_env (NewServer E x509) = E"
  by (simp add: NewServer_def)

lemma admin_scope_own:
  assumes "admin_scope pat r k" and "tenant_route pat" and "admin_tenant r = t" and "or_default (header_tenant r) = t"
  shows "HasPrefix k (''organizations/'' @ t @ ''/'')"
proof -
  have own: "HasPrefix k (''organizations/'' @ t @ CHR ''/'' # dir) \<Longrightarrow> HasPrefix k (''organizations/'' @ t @ ''/'')" for dir
    by (auto simp: HasPrefix_iff)
  have branch: "(if b then P else Q) \<Longrightarrow> (P \<Longrightarrow> C) \<Longrightarrow> (Q \<Longrightarrow> C) \<Longrightarrow> C" for b P Q C
    by (simp split: if_splits)
  from assms(2) have "pat \<notin> {''/api/v1/organizations'', ''/api/v1/organizations/'', ''/api/v1/tenants'', ''/api/v1/tenants/''}"
    and "pat \<notin> {''/api/v1/admin/users'', ''/api/v1/admin/users/''}"
    by (auto simp: tenant_route_def HasPrefix_iff)
  with assms(1) show ?thesis
    unfolding admin_scope_def Let_def assms(3,4) by (simp only: if_False) (elim branch own FalseE)
qed

text \<open>A route leaves the configuration of other tenants as it is.\<close>

lemma route_spares:
  assumes "cas_store (e_ops E) objs" and "config_key k" and "(pat, H) \<in> set (routes (NewServer E x509))"
    and "tenant_route pat" and "admin_tenant r = t" and "or_default (header_tenant r) = t"
    and "\<not> HasPrefix k (''organizations/'' @ t @ ''/'')" and "H h0 r w = (resp, w')"
  shows "objs (w_store w') k = objs (w_store w) k"
proof (cases "HasPrefix pat ''/api/v1/'' \<and> pat \<notin> set unguarded_api")
  case True
  have "\<not> admin_scope pat r k" using admin_scope_own [OF _ assms(4-6)] assms(7) by blast
  with True assms(1,3,8) show ?thesis
    using admin_routes_scoped [OF _ in_admin_routes] by (metis NewServer_env)
next
  case False
  have s: "spared_key E objs k" using assms(1,2) by (intro spared_key.intro engine_store.intro spared_key_axioms.intro)
  note public = spared_key.spares_public [OF s] spared_key.spares_validate_endpoint [OF s] spared_key.spares_org_sub [OF s]
  from False assms(3) have "(pat, H) \<in> set [(pat, H) \<leftarrow> routes (NewServer E x509). \<not> (HasPrefix pat ''/api/v1/'' \<and> pat \<notin> set unguarded_api)]"
    by simp
  then have "spared_key.spares objs k H"
    using public by (auto simp: routes_def Let_def unguarded_api_def NewServer_def)
  with assms(8) show ?thesis unfolding spared_key.spares_def [OF s] view_def by blast
qed

subsection \<open>The embedded provider\<close>

lemma best_match_matches: "best_match rs p b = Some (q, k) \<Longrightarrow> matches q p \<or> b = Some (q, k)"
  by (induction rs p b rule: best_match.induct) (auto split: if_splits)

lemma matched_tenant_route: "matches pat p \<Longrightarrow> tenant_route p \<Longrightarrow> tenant_route pat"
  unfolding matches_def tenant_route_def HasPrefix_iff by force

lemma mux_spares:
  assumes "cas_store (e_ops E) objs" and "config_key k" and "tenant_route (r_Path r)"
    and "admin_tenant r = t" and "or_default (header_tenant r) = t" and "\<not> HasPrefix k (''organizations/'' @ t @ ''/'')"
    and "ServeMux (routes (NewServer E x509)) h r w = (resp, w')"
  shows "objs (w_store w') k = objs (w_store w) k"
proof -
  have "w' = w \<or> (\<exists>pat H. best_match (routes (NewServer E x509)) (r_Path r) None = Some (pat, H) \<and> H h r w = (resp, w'))"
    using assms(7) by (auto simp: ServeMux_def Let_def split: if_splits option.splits)
  then show ?thesis
  proof (elim disjE exE conjE)
    fix pat H
    assume b: "best_match (routes (NewServer E x509)) (r_Path r) None = Some (pat, H)" and x: "H h r w = (resp, w')"
    from best_match_mem [OF b] have "(pat, H) \<in> set (routes (NewServer E x509))" by simp
    moreover from best_match_matches [OF b] assms(3) have "tenant_route pat" by (auto intro: matched_tenant_route)
    ultimately show ?thesis using route_spares [where H = H and ?h0.0 = h and r = r and w = w, OF assms(1,2) _ _ assms(4-6) x] by blast
  qed simp
qed

lemma server_spares:
  assumes "cas_store (e_ops E) objs" and "config_key k" and "tenant_route (r_Path r)"
    and "admin_tenant r = t" and "or_default (header_tenant r) = t" and "\<not> HasPrefix k (''organizations/'' @ t @ ''/'')"
    and "ServeHTTP (NewServer E x509) h0 r w = (resp, w')"
  shows "objs (w_store w') k = objs (w_store w) k"
proof -
  have s: "spared_key E objs k" using assms(1,2) by (intro spared_key.intro engine_store.intro spared_key_axioms.intro)
  obtain a w1 where c: "applyCORS (NewServer E x509) h0 r w = (a, w1)" by fastforce
  have cors: "objs (w_store w1) k = objs (w_store w) k"
    using keepsD [OF spared_key.spares_cors [OF s] c] by (simp add: view_def)
  show ?thesis
  proof (cases a)
    case (Inl e)
    with c assms(7) have "w' = w1" by (auto simp: ServeHTTP_def answer_def andThen_def)
    with cors show ?thesis by simp
  next
    case (Inr hr)
    obtain h r' where hr: "hr = (h, r')" by fastforce
    from c Inr hr have "r' = r \<or> r' = after_origin_check r"
      by (auto simp: applyCORS_def Let_def andThen_Inr ret_def split: if_splits)
    then have r': "r' = r \<or> r' = r\<lparr>r_JSON := None\<rparr>" by (auto simp: after_origin_check_def split: if_splits)
    then have t: "tenant_route (r_Path r')" "admin_tenant r' = t" "or_default (header_tenant r') = t"
      using assms(3-5) by (auto simp: admin_tenant_def Let_def)
    have "w' = w1 \<or> (\<exists>resp. ServeMux (routes (NewServer E x509)) h r' w1 = (resp, w'))"
      using assms(7) c Inr hr by (auto simp: ServeHTTP_def answer_def andThen_def ret_def split: if_splits prod.splits)
    with mux_spares [OF assms(1,2) t assms(6)] cors show ?thesis by auto
  qed
qed

text \<open>
  C7. Tenants of an embedding application are isolated: a request that the resolver puts into one tenant leaves the
  configuration of every other tenant (its organization, applications, providers, users, teams, roles, workloads) as it
  is, whatever its method, headers, query and body, on every route but those of organizations and of users, which write
  where the body says.
\<close>

theorem embedded_tenant_isolation:
  assumes "cas_store (e_ops (pv_env P)) objs" and "Handler P x509 h r w = (resp, w')" and "tenant_route (r_Path r)"
    and "config_key k" and "\<not> HasPrefix k (''organizations/'' @ or_default (pv_resolver P r) @ ''/'')"
  shows "objs (w_store w') k = objs (w_store w) k"
proof (cases "pv_resolver P r = [] \<and> pv_RequireTenant P")
  case True
  with assms(2) show ?thesis by (simp add: Handler_def withResolvedTenant_def Let_def)
next
  case False
  let ?r = "pin_tenant (pv_resolver P r) r"
  from assms(2) have x: "ServeHTTP (NewServer (pv_env P) x509) h ?r w = (resp, w')"
    unfolding Handler_def withResolvedTenant_def Let_def if_not_P [OF False] .
  have "header_tenant ?r = pv_resolver P r" "TenantFromQuery ?r = pv_resolver P r"
    by (simp_all add: header_tenant_def header_pinned TenantFromQuery_def query_pinned Let_def)
  then have t: "admin_tenant ?r = or_default (pv_resolver P r)" "or_default (header_tenant ?r) = or_default (pv_resolver P r)"
    unfolding admin_tenant_def Let_def by (simp_all only: if_cancel)
  moreover have "tenant_route (r_Path ?r)" using assms(3) by (simp add: pin_tenant_def Let_def)
  ultimately show ?thesis using server_spares [OF assms(1,4)] assms(5) x by blast
qed

text \<open>A write that claims another tenant, sent to the host of \<open>acme\<close>, leaves the other tenant's application alone.\<close>

definition two_tenants :: "memdb world" where
  "two_tenants = new_world \<lparr>md_objs = (AppKey ''globex'' ''web'', ''1'', Doc (marshal app_fields demo_app)) # demo_objs, md_next = 2\<rparr>"

definition cross_post :: Request where
  "cross_post = demo_app_post\<lparr>r_Path := ''/api/v1/apps/web'', r_Host := ''acme.as.example'',
     r_RawQuery := ''organization=globex'',
     r_Header := Header_Set (r_Header demo_app_post) ''X-Organization-ID'' ''globex''\<rparr>"

lemma embedded_tenant_isolation_witness:
  "\<exists>resp w'. Handler demo_provider (\<lambda>_. None) no_header cross_post two_tenants = (resp, w') \<and>
     mem_view (w_store w') (AppKey ''globex'' ''web'') = Some (''1'', Doc (marshal app_fields demo_app))"
proof -
  obtain resp w' where x: "Handler demo_provider (\<lambda>_. None) no_header cross_post two_tenants = (resp, w')" by fastforce
  have t: "pv_resolver demo_provider cross_post = ''acme''" by code_simp
  have r: "tenant_route (r_Path cross_post)" by code_simp
  have k: "config_key (AppKey ''globex'' ''web'')" by code_simp
  have n: "\<not> HasPrefix (AppKey ''globex'' ''web'') (''organizations/'' @ or_default (pv_resolver demo_provider cross_post) @ ''/'')"
    unfolding t by code_simp
  have c: "cas_store (e_ops (pv_env demo_provider)) mem_view" using demo_cas by (simp add: demo_provider_def)
  from embedded_tenant_isolation [OF c x r k n] x show ?thesis
    by (simp add: two_tenants_def mem_view_def new_world_def)
qed

end
