(* ===== verification/Typing.thy ===== *)
theory Typing
  imports Reach
begin

text \<open>
  The types of what the service stores: every object is the JSON of a record of the kind its key says, under its own
  id, and for ids without slashes the key determines the kind.
\<close>

subsection \<open>Keys and kinds\<close>

text \<open>Slashes in a key: with none in the ids, the kind of the key can be told from the second segment.\<close>

abbreviation slashes :: "string \<Rightarrow> nat" where
  "slashes s \<equiv> length (List.filter ((=) (CHR ''/'')) s)"

lemma no_slashes: "CHR ''/'' \<notin> set s \<longleftrightarrow> slashes s = 0"
  by (auto simp: filter_empty_conv)

lemma last_segment:
  assumes "CHR ''/'' \<notin> set a" and "CHR ''/'' \<notin> set b" and "x @ CHR ''/'' # a = y @ CHR ''/'' # b"
  shows "a = b"
proof -
  from assms(3) have "rev a @ CHR ''/'' # rev x = rev b @ CHR ''/'' # rev y" by (metis append.assoc append_Cons append_Nil rev.simps(2) rev_append)
  with append_sep_inject [of "CHR ''/''" "rev a" "rev b"] assms(1,2) show ?thesis by simp
qed

text \<open>A key of the form tenant, one of three kinds, id, that is also the key of an object.\<close>

lemma three_segments:
  assumes "CHR ''/'' \<notin> set org" and "CHR ''/'' \<notin> set a" and "a \<noteq> ''metadata''" and "CHR ''/'' \<notin> set kind"
    and "tenant_object (''organizations/'' @ org @ CHR ''/'' # kind @ CHR ''/'' # a @ ''.json'') d"
  shows "(kind = ''apps'' \<and> (\<exists>p. app_ID p = a \<and> d = Doc (marshal app_fields p))) \<or>
    (kind = ''idps'' \<and> (\<exists>p. idp_ID p = a \<and> d = Doc (marshal idp_fields p))) \<or>
    (kind = ''keys'' \<and> (\<exists>p. key_ID p = a \<and> d = Doc (marshal key_fields p)))"
proof -
  let ?k = "org @ CHR ''/'' # kind @ CHR ''/'' # a @ ''.json''"
  have two: "slashes ?k = 2" using assms(1,2,4) by (simp add: no_slashes)
  have same: "kind = kind' \<and> a = a'" if k: "?k = org' @ CHR ''/'' # kind' @ CHR ''/'' # a' @ ''.json''"
    and k': "CHR ''/'' \<notin> set kind'" for org' kind' a'
  proof -
    from two k k' have "slashes org' = 0" by (simp add: no_slashes)
    then have "CHR ''/'' \<notin> set org'" by (simp only: no_slashes)
    with k assms(1,4) k' show ?thesis by (simp add: append_sep_inject)
  qed
  have not_org: False if "?k = x @ ''/metadata.json''" for x
    using last_segment [of "a @ ''.json''" "''metadata.json''" "org @ CHR ''/'' # kind" x] that assms(2,3) by simp
  have not_deep: False if "?k = x @ CHR ''/'' # y @ CHR ''/'' # z @ CHR ''/'' # u" for x y z u
    using two that by simp
  from assms(5) show ?thesis
    unfolding tenant_object_def key_defs
    apply (elim disjE exE conjE)
    subgoal using not_org by simp
    subgoal for o' p using same [of o' "''apps''" "app_ID p"] by auto
    subgoal for o' p using same [of o' "''idps''" "idp_ID p"] by auto
    subgoal for o' p using same [of o' "''keys''" "key_ID p"] by auto
    subgoal for o' p using not_deep [of o' "''admin''" "''users''" "user_ID p @ ''.json''"] by simp
    subgoal for o' p using not_deep [of o' "''admin''" "''teams''" "team_ID p @ ''.json''"] by simp
    subgoal for o' p using not_deep [of o' "''admin''" "''roles''" "role_ID p @ ''.json''"] by simp
    subgoal for o' p using not_deep [of o' "''spiffe''" "''workloads''" "wl_ID p @ ''.json''"] by simp
    done
qed

lemma kind_determined:
  assumes "well_typed st" and "CHR ''/'' \<notin> set org" and "CHR ''/'' \<notin> set a" and "a \<noteq> ''metadata''"
  shows "st (AppKey org a) = Some (v, d) \<Longrightarrow> \<exists>p. app_ID p = a \<and> d = Doc (marshal app_fields p)"
    and "st (IDPKey org a) = Some (v, d) \<Longrightarrow> \<exists>p. idp_ID p = a \<and> d = Doc (marshal idp_fields p)"
    and "st (KeyPairKey org a) = Some (v, d) \<Longrightarrow> \<exists>p. key_ID p = a \<and> d = Doc (marshal key_fields p)"
proof -
  have obj: "tenant_object k d" if "st k = Some (v, d)" "HasPrefix k ''organizations/''" for k
    using assms(1) that by (auto simp: well_typed_def session_object_def key_defs HasPrefix_iff)
  note kind = three_segments [OF assms(2-4)]
  show "st (AppKey org a) = Some (v, d) \<Longrightarrow> \<exists>p. app_ID p = a \<and> d = Doc (marshal app_fields p)"
    using obj kind [of "''apps''" d] by (simp add: AppKey_def HasPrefix_iff)
  show "st (IDPKey org a) = Some (v, d) \<Longrightarrow> \<exists>p. idp_ID p = a \<and> d = Doc (marshal idp_fields p)"
    using obj kind [of "''idps''" d] by (simp add: IDPKey_def HasPrefix_iff)
  show "st (KeyPairKey org a) = Some (v, d) \<Longrightarrow> \<exists>p. key_ID p = a \<and> d = Doc (marshal key_fields p)"
    using obj kind [of "''keys''" d] by (simp add: KeyPairKey_def HasPrefix_iff)
qed

subsection \<open>Every step keeps the types\<close>

lemma steps_well_typed:
  assumes "(service_step env x509)\<^sup>*\<^sup>* s s'" and "service env x509 objs (fst s) (snd s)"
    and cas: "\<And>n. cas_store (e_ops (env n)) objs" and "well_typed (objs (fst s))"
  shows "well_typed (objs (fst s'))"
  using assms(1,4)
proof (induction rule: rtranclp_induct)
  case (step y z)
  have "service env x509 objs (fst y) (snd y)" by (rule service_steps [OF assms(2) step.hyps(1)])
  from step_keeps [of env x509 "fst y" "snd y" "fst z" "snd z", OF _ cas service_invariant [OF this cas]] step
  show ?case by auto
qed

text \<open>
  C6. The store stays well typed: from a reachable state in which every object is the JSON of a record of its kind under
  its own id, whatever the service does (requests to any endpoint on any node, SVIDs, restarts with seeding, cache
  sweeps) every object is one again. For a tenant and an id without slashes the key fixes the kind: what is found under
  the key of an application is an application with that id, and so for providers and signing keys. The id must not be
  the word metadata: an organization whose id ends in a kind name is stored under such a key.
\<close>

theorem store_well_typed:
  assumes "service env x509 objs st nodes" and "\<forall>n. cas_store (e_ops (env n)) objs" and "well_typed (objs st)"
    and "(service_step env x509)\<^sup>*\<^sup>* (st, nodes) (st', nodes')"
  shows "well_typed (objs st') \<and>
    (\<forall>org a v d. CHR ''/'' \<notin> set org \<longrightarrow> CHR ''/'' \<notin> set a \<longrightarrow> a \<noteq> ''metadata'' \<longrightarrow>
      (objs st' (AppKey org a) = Some (v, d) \<longrightarrow> (\<exists>p. app_ID p = a \<and> d = Doc (marshal app_fields p))) \<and>
      (objs st' (IDPKey org a) = Some (v, d) \<longrightarrow> (\<exists>p. idp_ID p = a \<and> d = Doc (marshal idp_fields p))) \<and>
      (objs st' (KeyPairKey org a) = Some (v, d) \<longrightarrow> (\<exists>p. key_ID p = a \<and> d = Doc (marshal key_fields p))))"
proof -
  from steps_well_typed [OF assms(4)] assms(1-3) have t: "well_typed (objs st')" by simp
  with kind_determined [OF t] show ?thesis by blast
qed

lemma tenant_store_typed: "well_typed (mem_view tenant_store)"
proof -
  have "tenant_object (AppKey ''acme'' ''web'') (Doc (marshal app_fields demo_app))"
    "tenant_object (KeyPairKey ''acme'' ''key_1'') (Doc (marshal key_fields demo_key))"
    "tenant_object (IDPKey ''acme'' ''google'') (Doc (marshal idp_fields demo_idp))"
    using tenant_objects(2) [of "''acme''" demo_app] tenant_objects(4) [of "''acme''" demo_key] tenant_objects(3) [of "''acme''" demo_idp]
    by (simp_all add: demo_app_def demo_key_def demo_idp_def)
  then show ?thesis
    by (auto simp: well_typed_def mem_view_def tenant_store_def demo_objs_def numeral_3_eq_3 split: if_splits)
qed

lemma store_well_typed_witness:
  "\<exists>w resp. ServeHTTP (NewServer demo_env (\<lambda>_. None)) no_header demo_login_request (new_world tenant_store) = (resp, w) \<and>
     mem_view (w_store w) (AuthStateKey ''state_MA'') \<noteq> None \<and> well_typed (mem_view (w_store w))"
proof -
  obtain resp w where x: "ServeHTTP (NewServer demo_env (\<lambda>_. None)) no_header demo_login_request (new_world tenant_store) = (resp, w)"
    by fastforce
  have s: "service (\<lambda>_. demo_env) (\<lambda>_. None) mem_view tenant_store (\<lambda>n. new_world tenant_store)"
    by (rule service.start) (rule tenant_only)
  have "(new_world tenant_store)\<lparr>w_store := tenant_store\<rparr> = new_world tenant_store" by (simp add: new_world_def)
  with x have "service_step (\<lambda>_. demo_env) (\<lambda>_. None) (tenant_store, \<lambda>n. new_world tenant_store)
      (w_store w, (\<lambda>n. new_world tenant_store)(0 := w))"
    by (intro service_step.serve) auto
  then have "(service_step (\<lambda>_. demo_env) (\<lambda>_. None))\<^sup>*\<^sup>* (tenant_store, \<lambda>n. new_world tenant_store)
      (w_store w, (\<lambda>n. new_world tenant_store)(0 := w))" by (rule r_into_rtranclp)
  from store_well_typed [OF s _ tenant_store_typed this] demo_cas
  have "well_typed (mem_view (w_store w))" by simp
  with x demo_login_served show ?thesis by auto
qed

end
