(* ===== verification/S3Driver.thy ===== *)
theory S3Driver
  imports JayDB
begin

text \<open>
  \<^verbatim>\<open>AWSS3Driver\<close> of \<^verbatim>\<open>pkg/storage/jaydb_storage.go\<close>: JayDB's driver interface on the AWS S3 client.
  The client is a package outside the repository, so its four calls are the parameter \<open>s3_client\<close>:
  an input record that names the bucket, and an output record or an error. An error is the typed \<^verbatim>\<open>NoSuchKey\<close> or any other,
  with its text. \<open>now\<close> is what \<^verbatim>\<open>time.Now()\<close> returns where the driver falls back to it.
\<close>

datatype awserr = NoSuchKey string | AwsErr string

fun awserr_Error :: "awserr \<Rightarrow> string" where
  "awserr_Error (NoSuchKey m) = m"
| "awserr_Error (AwsErr m) = m"

record GetObjectOutput =
  go_Body :: "string + blob"
  go_ETag :: "string option"
  go_LastModified :: "gotime option"

record PutObjectInput =
  pi_Bucket :: string
  pi_Key :: string
  pi_Body :: blob
  pi_IfNoneMatch :: "string option"
  pi_IfMatch :: "string option"

record DeleteObjectInput =
  di_Bucket :: string
  di_Key :: string
  di_IfMatch :: "string option"

record ListInput =
  li_Bucket :: string
  li_Prefix :: "string option"
  li_MaxKeys :: "int option"
  li_ContinuationToken :: "string option"
  li_Delimiter :: "string option"

record S3Content =
  sc_Key :: "string option"
  sc_ETag :: "string option"
  sc_LastModified :: "gotime option"
  sc_Size :: "int option"

record 's s3_client =
  s3_GetObject :: "string \<Rightarrow> string \<Rightarrow> ('s, awserr, GetObjectOutput) eng"
  s3_PutObject :: "PutObjectInput \<Rightarrow> ('s, awserr, string option) eng"
  s3_DeleteObject :: "DeleteObjectInput \<Rightarrow> ('s, awserr, unit) eng"
  s3_ListObjectsV2 :: "ListInput \<Rightarrow> ('s, awserr, S3Content list \<times> string option) eng"

record 's AWSS3Driver =
  dr_bucket :: string
  dr_client :: "'s s3_client"

record Object =
  ob_Key :: string
  ob_Value :: blob
  ob_ETag :: string
  ob_ModTime :: gotime

record KeyMeta =
  km_Key :: string
  km_Size :: int
  km_ETag :: string
  km_ModTime :: gotime

record ListOptions =
  lo_Limit :: int
  lo_Cursor :: string
  lo_Delimiter :: string

subsection \<open>Errors by their text\<close>

fun containsAny :: "string \<Rightarrow> string list \<Rightarrow> bool" where
  "containsAny s [] \<longleftrightarrow> False"
| "containsAny s (sub # subs) \<longleftrightarrow> (if Contains s sub then True else containsAny s subs)"

definition isS3NotFound :: "awserr option \<Rightarrow> bool" where
  "isS3NotFound err =
     (case err of
        None \<Rightarrow> False
      | Some (NoSuchKey _) \<Rightarrow> True
      | Some e \<Rightarrow> containsAny (awserr_Error e) [''NoSuchKey'', ''404'', ''NotFound''])"

definition isS3PreconditionFailed :: "awserr option \<Rightarrow> bool" where
  "isS3PreconditionFailed err =
     (case err of None \<Rightarrow> False | Some e \<Rightarrow> containsAny (awserr_Error e) [''PreconditionFailed'', ''412''])"

subsection \<open>The driver\<close>

text \<open>\<^verbatim>\<open>%q\<close> of a string: quotes and backslashes escaped, control characters by name or number; the bytes of other characters stay.\<close>

definition hex_digit :: "nat \<Rightarrow> char" where
  "hex_digit d = char_of (if d < 10 then 48 + d else 87 + d)"

definition quote_char :: "char \<Rightarrow> string" where
  "quote_char c =
     (let n = of_char c :: nat; named = [(7, CHR ''a''), (8, CHR ''b''), (9, CHR ''t''), (10, CHR ''n''), (11, CHR ''v''), (12, CHR ''f''), (13, CHR ''r'')] in
      if c = CHR 0x22 \<or> c = CHR 0x5C then [CHR 0x5C, c]
      else case map_of named n of
          Some l \<Rightarrow> [CHR 0x5C, l]
        | None \<Rightarrow> if n < 32 \<or> n = 127 then [CHR 0x5C, CHR ''x'', hex_digit (n div 16), hex_digit (n mod 16)] else [c])"

definition go_quote :: "string \<Rightarrow> string" where
  "go_quote s = [CHR 0x22] @ concat (map quote_char s) @ [CHR 0x22]"

definition quoted :: "string \<Rightarrow> string" where
  "quoted e = [CHR 0x22] @ TrimChar e CHR 0x22 @ [CHR 0x22]"

text \<open>\<^verbatim>\<open>%x\<close> of a non-negative number.\<close>

fun hex_str :: "nat \<Rightarrow> string" where
  "hex_str n = (if n < 16 then [hex_digit n] else hex_str (n div 16) @ [hex_digit (n mod 16)])"

declare hex_str.simps [simp del]

definition Driver_Get :: "'s AWSS3Driver \<Rightarrow> gotime \<Rightarrow> string \<Rightarrow> ('s, dberr, Object) eng" where
  "Driver_Get d now key =
     attempt (s3_GetObject (dr_client d) (dr_bucket d) key) (\<lambda>r. case r of
         Inl err \<Rightarrow>
           (if isS3NotFound (Some err) then fail DbNotFound
            else fail (DbOther (''s3 get '' @ go_quote key @ '': '' @ awserr_Error err)))
       | Inr out \<Rightarrow>
           (case go_Body out of
              Inl err \<Rightarrow> fail (DbOther (''s3 read body '' @ go_quote key @ '': '' @ err))
            | Inr data \<Rightarrow>
                (let etag = (case go_ETag out of None \<Rightarrow> [] | Some e \<Rightarrow> quoted e);
                     modTime = (case go_LastModified out of None \<Rightarrow> now | Some t \<Rightarrow> t) in
                 ret \<lparr>ob_Key = key, ob_Value = data, ob_ETag = etag, ob_ModTime = modTime\<rparr>)))"

definition Driver_Put ::
  "'s AWSS3Driver \<Rightarrow> gotime \<Rightarrow> string \<Rightarrow> blob \<Rightarrow> string \<Rightarrow> ('s, dberr, Object) eng" where
  "Driver_Put d now key val expectedETag =
     (let input = \<lparr>pi_Bucket = dr_bucket d, pi_Key = key, pi_Body = val, pi_IfNoneMatch = None, pi_IfMatch = None\<rparr>;
          input = (if expectedETag \<noteq> [] then
                     if expectedETag = MatchAnyETag then input\<lparr>pi_IfNoneMatch := Some ''*''\<rparr>
                     else input\<lparr>pi_IfMatch := Some expectedETag\<rparr>
                   else input) in
      attempt (s3_PutObject (dr_client d) input) (\<lambda>r. case r of
         Inl err \<Rightarrow>
           (if isS3PreconditionFailed (Some err) then
              if expectedETag = MatchAnyETag then fail DbAlreadyExists else fail DbVersionMismatch
            else fail (DbOther (''s3 put '' @ go_quote key @ '': '' @ awserr_Error err)))
       | Inr etag \<Rightarrow>
           (let newETag = (case etag of Some e \<Rightarrow> quoted e
                | None \<Rightarrow> [CHR 0x22] @ hex_str (nat now) @ [CHR 0x22]) in
            ret \<lparr>ob_Key = key, ob_Value = val, ob_ETag = newETag, ob_ModTime = now\<rparr>)))"

definition Driver_Delete :: "'s AWSS3Driver \<Rightarrow> string \<Rightarrow> string \<Rightarrow> ('s, dberr, unit) eng" where
  "Driver_Delete d key expectedETag =
     (let input = \<lparr>di_Bucket = dr_bucket d, di_Key = key, di_IfMatch = None\<rparr>;
          input = (if expectedETag \<noteq> [] \<and> expectedETag \<noteq> MatchAnyETag
                   then input\<lparr>di_IfMatch := Some expectedETag\<rparr> else input) in
      attempt (s3_DeleteObject (dr_client d) input) (\<lambda>r. case r of
         Inl err \<Rightarrow>
           (if isS3PreconditionFailed (Some err) then fail DbVersionMismatch
            else if isS3NotFound (Some err) then fail DbNotFound
            else fail (DbOther (''s3 delete '' @ go_quote key @ '': '' @ awserr_Error err)))
       | Inr _ \<Rightarrow> ret ()))"

text \<open>\<^verbatim>\<open>int32(n)\<close>: the low 32 bits, as a signed number.\<close>

definition int32 :: "int \<Rightarrow> int" where
  "int32 n = sint (word_of_int n :: 32 word)"

fun list_metas :: "gotime \<Rightarrow> S3Content list \<Rightarrow> KeyMeta list" where
  "list_metas now [] = []"
| "list_metas now (obj # objs) =
     (case sc_Key obj of
        None \<Rightarrow> list_metas now objs
      | Some key \<Rightarrow>
          \<lparr>km_Key = key,
           km_Size = (case sc_Size obj of None \<Rightarrow> 0 | Some n \<Rightarrow> n),
           km_ETag = (case sc_ETag obj of None \<Rightarrow> [] | Some e \<Rightarrow> quoted e),
           km_ModTime = (case sc_LastModified obj of None \<Rightarrow> now | Some t \<Rightarrow> t)\<rparr>
          # list_metas now objs)"

definition Driver_List ::
  "'s AWSS3Driver \<Rightarrow> gotime \<Rightarrow> string \<Rightarrow> ListOptions \<Rightarrow> ('s, dberr, KeyMeta list \<times> string) eng" where
  "Driver_List d now prefx opts =
     (let input = \<lparr>li_Bucket = dr_bucket d, li_Prefix = (if prefx \<noteq> [] then Some prefx else None),
                   li_MaxKeys = (if lo_Limit opts > 0 then Some (int32 (lo_Limit opts)) else None),
                   li_ContinuationToken = (if lo_Cursor opts \<noteq> [] then Some (lo_Cursor opts) else None),
                   li_Delimiter = (if lo_Delimiter opts \<noteq> [] then Some (lo_Delimiter opts) else None)\<rparr> in
      attempt (s3_ListObjectsV2 (dr_client d) input) (\<lambda>r. case r of
         Inl err \<Rightarrow> fail (DbOther (''s3 list '' @ go_quote prefx @ '': '' @ awserr_Error err))
       | Inr (contents, next) \<Rightarrow>
           ret (list_metas now contents, (case next of None \<Rightarrow> [] | Some t \<Rightarrow> t))))"

subsection \<open>What the driver promises JayDB\<close>

lemma containsAny_iff: "containsAny s subs \<longleftrightarrow> (\<exists>sub \<in> set subs. Contains s sub)"
  by (induction subs) auto

lemma Contains_append: "Contains t sub \<Longrightarrow> Contains (s @ t) sub"
proof (induction s)
  case (Cons c s)
  then show ?case by auto
qed simp

text \<open>A conditional write reaches S3 with the matching condition, and only a conditional write has one.\<close>

lemma Driver_Put_conditions:
  assumes "Driver_Put d now key val ev s = (Inr ob, s')"
  shows "\<exists>etag. s3_PutObject (dr_client d)
           \<lparr>pi_Bucket = dr_bucket d, pi_Key = key, pi_Body = val,
            pi_IfNoneMatch = (if ev = MatchAnyETag then Some ''*'' else None),
            pi_IfMatch = (if ev \<noteq> [] \<and> ev \<noteq> MatchAnyETag then Some ev else None)\<rparr> s = (Inr etag, s')
         \<and> ob_Key ob = key \<and> ob_Value ob = val \<and> ob_ETag ob \<noteq> []"
  using assms
  by (auto simp: Driver_Put_def Let_def attempt_sum MatchAnyETag_def quoted_def split: if_splits option.splits)

lemma Driver_Delete_conditions:
  assumes "Driver_Delete d key ev s = (Inr u, s')"
  shows "s3_DeleteObject (dr_client d)
           \<lparr>di_Bucket = dr_bucket d, di_Key = key, di_IfMatch = (if ev \<noteq> [] \<and> ev \<noteq> MatchAnyETag then Some ev else None)\<rparr> s
         = (Inr (), s')"
  using assms by (auto simp: Driver_Delete_def Let_def attempt_sum split: if_splits)

text \<open>Versions the driver hands out are always in one pair of quotes, however S3 spelled them, so a
  version read by \<^verbatim>\<open>Get\<close> is the one \<^verbatim>\<open>Put\<close> and \<^verbatim>\<open>List\<close> report.\<close>

lemma dropWhile_notin: "c \<notin> set e \<Longrightarrow> dropWhile (\<lambda>d. d = c) e = e"
  by (cases e) auto

lemma TrimChar_plain: "c \<notin> set e \<Longrightarrow> TrimChar e c = e"
  by (simp add: TrimChar_def TrimRight_def dropWhile_notin)

lemma quoted_plain: "CHR 0x22 \<notin> set e \<Longrightarrow> quoted e = [CHR 0x22] @ e @ [CHR 0x22]"
  by (simp add: quoted_def TrimChar_plain)

lemma quoted_quoted: "CHR 0x22 \<notin> set e \<Longrightarrow> quoted ([CHR 0x22] @ e @ [CHR 0x22]) = quoted e"
proof -
  assume c: "CHR 0x22 \<notin> set e"
  have "TrimChar ([CHR 0x22] @ e @ [CHR 0x22]) CHR 0x22 = e"
  proof (cases e)
    case Nil
    then show ?thesis by (simp add: TrimChar_def TrimRight_def)
  next
    case (Cons x xs)
    with c have "dropWhile (\<lambda>d. d = CHR 0x22) (e @ [CHR 0x22]) = e @ [CHR 0x22]" by auto
    moreover from c have "dropWhile (\<lambda>d. d = CHR 0x22) (rev e) = rev e" by (simp add: dropWhile_notin)
    ultimately show ?thesis by (simp add: TrimChar_def TrimRight_def)
  qed
  then show ?thesis using c by (simp add: quoted_def TrimChar_plain)
qed

end
