(* ===== verification/Boot.thy ===== *)
theory Boot
  imports Reach S3Driver
begin

text \<open>
  How the process comes up: the constructors of \<^verbatim>\<open>pkg/storage/jaydb_storage.go\<close>, which open a JayDB database over a
  memory, file or S3 driver, and \<^verbatim>\<open>main\<close> of \<^verbatim>\<open>cmd/server\<close> up to the point where it listens. JayDB's packages and
  the AWS SDK are the parameters \<open>jaydb_pkg\<close> and \<open>aws_sdk\<close>. What follows (signals, shutdown, logging) is I/O.
\<close>

subsection \<open>Opening a database\<close>

datatype codec = RawCodec

datatype 's driver = MemoryDriver | FSDriver string | S3Driver "'s AWSS3Driver"

record 's OpenOptions =
  jo_Storage :: "'s driver"
  jo_Codec :: codec
  jo_ShardingDepth :: int

text \<open>\<^verbatim>\<open>fs.NewDriver\<close> fails with an error, if it does; \<^verbatim>\<open>db.Open\<close> gives the operations of a database.\<close>

record 's jaydb_pkg =
  jp_NewFSDriver :: "string \<Rightarrow> string option"
  jp_Open :: "'s OpenOptions \<Rightarrow> string + 's jaydb_ops"

record s3_options =
  so_BaseEndpoint :: "string option"
  so_UsePathStyle :: bool

record ('c, 's) aws_sdk =
  aws_LoadDefaultConfig :: "string \<Rightarrow> string + 'c"
  aws_NewFromConfig :: "'c \<Rightarrow> (s3_options \<Rightarrow> s3_options) list \<Rightarrow> 's s3_client"

datatype 'a opened = OpenPanic string | OpenFailed string | Opened 'a

definition endpoint_option :: "string \<Rightarrow> s3_options \<Rightarrow> s3_options" where
  "endpoint_option endpoint so = so\<lparr>so_BaseEndpoint := Some endpoint, so_UsePathStyle := True\<rparr>"

text \<open>\<open>Inl\<close> is the panic.\<close>

definition NewAWSS3Driver :: "('c, 's) aws_sdk \<Rightarrow> string \<Rightarrow> string \<Rightarrow> string \<Rightarrow> string + 's AWSS3Driver" where
  "NewAWSS3Driver A bucketName region endpoint =
     (let region' = (if region = [] then ''us-east-1'' else region) in
      case aws_LoadDefaultConfig A region' of
        Inl err \<Rightarrow> Inl (''failed to load AWS config: '' @ err)
      | Inr cfg \<Rightarrow>
          (let opts = (if endpoint \<noteq> [] then [endpoint_option endpoint] else []) in
           Inr \<lparr>dr_bucket = bucketName, dr_client = aws_NewFromConfig A cfg opts\<rparr>))"

definition open_driver :: "'s jaydb_pkg \<Rightarrow> string \<Rightarrow> 's driver \<Rightarrow> 's jaydb_ops opened" where
  "open_driver J kind drv =
     (case jp_Open J \<lparr>jo_Storage = drv, jo_Codec = RawCodec, jo_ShardingDepth = 2\<rparr> of
        Inl err \<Rightarrow> OpenFailed (''failed to open JayDB '' @ kind @ '' store: '' @ err)
      | Inr db \<Rightarrow> Opened db)"

definition NewMemoryStorage :: "'s jaydb_pkg \<Rightarrow> 's jaydb_ops opened" where
  "NewMemoryStorage J = open_driver J ''memory'' MemoryDriver"

definition NewFSStorage :: "'s jaydb_pkg \<Rightarrow> string \<Rightarrow> 's jaydb_ops opened" where
  "NewFSStorage J dataDir =
     (case jp_NewFSDriver J dataDir of
        Some err \<Rightarrow> OpenFailed (''failed to create JayDB fs driver: '' @ err)
      | None \<Rightarrow> open_driver J ''fs'' (FSDriver dataDir))"

definition NewS3Storage :: "('c, 's) aws_sdk \<Rightarrow> 's jaydb_pkg \<Rightarrow> string \<Rightarrow> string \<Rightarrow> string \<Rightarrow> 's jaydb_ops opened" where
  "NewS3Storage A J bucketName region endpoint =
     (case NewAWSS3Driver A bucketName region endpoint of
        Inl err \<Rightarrow> OpenPanic err
      | Inr drv \<Rightarrow> open_driver J ''S3'' (S3Driver drv))"

subsection \<open>The process\<close>

record flags =
  fl_port :: string
  fl_dataDir :: string
  fl_s3Bucket :: string
  fl_s3Endpoint :: string

definition default_flags :: flags where
  "default_flags = \<lparr>fl_port = ''8080'', fl_dataDir = ''./data'', fl_s3Bucket = [], fl_s3Endpoint = []\<rparr>"

definition open_storage :: "('c, 's) aws_sdk \<Rightarrow> 's jaydb_pkg \<Rightarrow> storage_choice \<Rightarrow> 's jaydb_ops opened" where
  "open_storage A J c =
     (case c of
        S3Storage bucket region endpoint \<Rightarrow> NewS3Storage A J bucket region endpoint
      | FSStorage dir \<Rightarrow> NewFSStorage J dir
      | MemoryStorage \<Rightarrow> NewMemoryStorage J)"

record 's httpServer =
  hs_Addr :: string
  hs_Handler :: "'s Server"
  hs_ReadTimeout :: duration
  hs_WriteTimeout :: duration

datatype 's started = Panicked string | Fatal string | Serving "'s httpServer" "'s world"

text \<open>
  \<open>E0\<close> is the environment of the process (clock, randomness, network, its variables); \<open>aws\<close> runs the AWS command
  line tool; \<open>st\<close> is the state of the storage it opens.
\<close>

definition server_env :: "'s env \<Rightarrow> (string list \<Rightarrow> string option) \<Rightarrow> 's jaydb_ops \<Rightarrow> 's env" where
  "server_env E0 aws db = E0\<lparr>e_ops := JayDBStorage db,
     e_getenv := loadOAuthCredentialsFromSSM aws (e_getenv E0), e_resolver := None\<rparr>"

definition main_start ::
  "('c, 's) aws_sdk \<Rightarrow> 's jaydb_pkg \<Rightarrow> (string list \<Rightarrow> string option) \<Rightarrow> (string \<Rightarrow> Cert option) \<Rightarrow> flags \<Rightarrow> 's env \<Rightarrow> 's
     \<Rightarrow> 's started" where
  "main_start A J aws x509 fl E0 st =
     (let port = listen_port (e_getenv E0) (fl_port fl) in
      case open_storage A J (choose_storage (fl_s3Bucket fl) (fl_s3Endpoint fl) (fl_dataDir fl)) of
        OpenPanic m \<Rightarrow> Panicked m
      | OpenFailed err \<Rightarrow> Fatal (''Failed to initialize JayDB storage: '' @ err)
      | Opened db \<Rightarrow>
          (let E = server_env E0 aws db in
           case (seedInitialData E :: ('s world, unit, unit) eng) (new_world st) of
             (_, w) \<Rightarrow> Serving \<lparr>hs_Addr = '':'' @ port, hs_Handler = NewServer E x509,
                 hs_ReadTimeout = 10 * Second, hs_WriteTimeout = 10 * Second\<rparr> w))"

subsection \<open>Coming up\<close>

text \<open>Variables the operator has set are never replaced by parameters of the store.\<close>

lemma load_params_keeps: "env v \<noteq> [] \<Longrightarrow> load_params aws region ps env v = env v"
  by (induction aws region ps env rule: load_params.induct)
    (auto simp: Let_def split: option.splits)

lemma load_params_only: "v \<notin> fst ` set ps \<Longrightarrow> load_params aws region ps env v = env v"
  by (induction aws region ps env rule: load_params.induct)
    (auto simp: Let_def split: option.splits)

lemma loaded_credentials:
  "env v \<noteq> [] \<Longrightarrow> loadOAuthCredentialsFromSSM aws env v = env v"
  "v \<notin> fst ` set ssm_params \<Longrightarrow> loadOAuthCredentialsFromSSM aws env v = env v"
  unfolding loadOAuthCredentialsFromSSM_def by (rule load_params_keeps; assumption) (rule load_params_only)

definition chosen_driver :: "('c, 's) aws_sdk \<Rightarrow> flags \<Rightarrow> 's driver \<Rightarrow> bool" where
  "chosen_driver A fl drv \<longleftrightarrow>
     (if fl_s3Bucket fl \<noteq> [] then
        \<exists>d. drv = S3Driver d \<and> dr_bucket d = fl_s3Bucket fl \<and>
          NewAWSS3Driver A (fl_s3Bucket fl) ''us-east-1'' (fl_s3Endpoint fl) = Inr d
      else drv = (if fl_dataDir fl \<noteq> [] then FSDriver (fl_dataDir fl) else MemoryDriver))"

lemma open_driver_Opened:
  "open_driver J kind drv = Opened db \<longleftrightarrow> jp_Open J \<lparr>jo_Storage = drv, jo_Codec = RawCodec, jo_ShardingDepth = 2\<rparr> = Inr db"
  by (simp add: open_driver_def split: sum.splits)

lemma open_storage_Opened:
  assumes "open_storage A J (choose_storage (fl_s3Bucket fl) (fl_s3Endpoint fl) (fl_dataDir fl)) = Opened db"
  obtains drv where "chosen_driver A fl drv"
    and "jp_Open J \<lparr>jo_Storage = drv, jo_Codec = RawCodec, jo_ShardingDepth = 2\<rparr> = Inr db"
proof -
  consider (s3) "fl_s3Bucket fl \<noteq> []" | (fs) "fl_s3Bucket fl = []" "fl_dataDir fl \<noteq> []" | (mem) "fl_s3Bucket fl = []" "fl_dataDir fl = []"
    by blast
  then show thesis
  proof cases
    case s3
    with assms obtain d where d: "NewAWSS3Driver A (fl_s3Bucket fl) ''us-east-1'' (fl_s3Endpoint fl) = Inr d"
      and db: "open_driver J ''S3'' (S3Driver d) = Opened db"
      by (auto simp: open_storage_def choose_storage_def NewS3Storage_def split: sum.splits)
    from d have "dr_bucket d = fl_s3Bucket fl" by (auto simp: NewAWSS3Driver_def Let_def split: sum.splits)
    with d s3 have "chosen_driver A fl (S3Driver d)" by (simp add: chosen_driver_def)
    with that db show thesis by (simp add: open_driver_Opened)
  next
    case fs
    with assms have "open_driver J ''fs'' (FSDriver (fl_dataDir fl)) = Opened db"
      by (auto simp: open_storage_def choose_storage_def NewFSStorage_def split: option.splits)
    with that [of "FSDriver (fl_dataDir fl)"] fs show thesis by (simp add: open_driver_Opened chosen_driver_def)
  next
    case mem
    with assms that [of MemoryDriver] show thesis
      by (simp add: open_storage_def choose_storage_def NewMemoryStorage_def open_driver_Opened chosen_driver_def)
  qed
qed

text \<open>
  C40. Coming up is a step of the service: when \<^verbatim>\<open>main\<close> starts to listen on a store that held no sessions, the database is the
  one the flags choose (S3, then files, then memory), opened with the raw codec; the node it is and the store are a state
  the service can reach, so that what holds in every such state holds for this process; variables set by the operator
  are as they were; and if the store answers, the default organization exists.
\<close>

theorem startup_reachable:
  fixes st :: 's
  assumes "main_start A J aws x509 fl E0 st = Serving hs w"
    and jaydb: "\<And>opts db. jp_Open J opts = Inr db \<Longrightarrow> jaydb db objs"
    and no_sessions: "\<And>k. \<not> HasPrefix k ''organizations/'' \<Longrightarrow> objs st k = None"
  shows "\<exists>drv db. chosen_driver A fl drv \<and>
    jp_Open J \<lparr>jo_Storage = drv, jo_Codec = RawCodec, jo_ShardingDepth = 2\<rparr> = Inr db \<and>
    hs_Handler hs = NewServer (server_env E0 aws db) x509 \<and>
    service (\<lambda>_. server_env E0 aws db) x509 objs (w_store w) ((\<lambda>_. new_world st)(0 := w)) \<and>
    (\<forall>v. e_getenv E0 v \<noteq> [] \<longrightarrow> e_getenv (server_env E0 aws db) v = e_getenv E0 v) \<and>
    (reliable_store (JayDBStorage db) objs \<longrightarrow> objs (w_store w) (OrganizationKey ''default'') \<noteq> None)"
proof -
  from assms(1) obtain db r where
    o: "open_storage A J (choose_storage (fl_s3Bucket fl) (fl_s3Endpoint fl) (fl_dataDir fl)) = Opened db"
    and s: "(seedInitialData (server_env E0 aws db) :: ('s world, unit, unit) eng) (new_world st) = (r, w)"
    and h: "hs_Handler hs = NewServer (server_env E0 aws db) x509"
    by (auto simp: main_start_def Let_def split: opened.splits prod.splits)
  let ?env = "\<lambda>n::nat. server_env E0 aws db"
  from open_storage_Opened [OF o] obtain drv where d: "chosen_driver A fl drv"
    "jp_Open J \<lparr>jo_Storage = drv, jo_Codec = RawCodec, jo_ShardingDepth = 2\<rparr> = Inr db" .
  have "restarted st (new_world st) = new_world st" by (simp add: restarted_def new_world_def)
  with s have "service_step ?env x509 (st, \<lambda>_. new_world st) (w_store w, (\<lambda>_. new_world st)(0 := w))"
    by (intro service_step.boot) simp
  moreover have "service ?env x509 objs st (\<lambda>_. new_world st)" by (rule service.start) (rule no_sessions)
  ultimately have "service ?env x509 objs (w_store w) ((\<lambda>_. new_world st)(0 := w))" by (metis service.step)
  moreover have "objs (w_store w) (OrganizationKey ''default'') \<noteq> None" if "reliable_store (JayDBStorage db) objs"
    using reliable_engine.default_exists [OF reliable_engineI s] that by (simp add: server_env_def)
  ultimately show ?thesis
    using d h by (auto simp: server_env_def loaded_credentials)
qed

text \<open>The memory driver, opened by the flags \<^verbatim>\<open>-data-dir=\<close>: the process comes up and serves.\<close>

definition mem_pkg :: "memdb jaydb_pkg" where
  "mem_pkg = \<lparr>jp_NewFSDriver = (\<lambda>_. Some ''read-only file system''),
     jp_Open = (\<lambda>opts. case jo_Storage opts of MemoryDriver \<Rightarrow> Inr mem_ops | _ \<Rightarrow> Inl ''unsupported'')\<rparr>"

definition no_aws :: "(unit, memdb) aws_sdk" where
  "no_aws = \<lparr>aws_LoadDefaultConfig = (\<lambda>_. Inl ''no region''),
     aws_NewFromConfig = (\<lambda>_ _. \<lparr>s3_GetObject = (\<lambda>_ _. fail (AwsErr ''offline'')), s3_PutObject = (\<lambda>_. fail (AwsErr ''offline'')),
       s3_DeleteObject = (\<lambda>_. fail (AwsErr ''offline'')), s3_ListObjectsV2 = (\<lambda>_. fail (AwsErr ''offline''))\<rparr>)\<rparr>"

lemma startup_reachable_witness:
  "\<exists>hs w. main_start no_aws mem_pkg (\<lambda>_. None) (\<lambda>_. None) (default_flags\<lparr>fl_dataDir := []\<rparr>) demo_env mem_empty = Serving hs w \<and>
     mem_view (w_store w) (OrganizationKey ''default'') \<noteq> None"
proof -
  obtain hs w where s: "main_start no_aws mem_pkg (\<lambda>_. None) (\<lambda>_. None) (default_flags\<lparr>fl_dataDir := []\<rparr>) demo_env mem_empty = Serving hs w"
    by (cases "(seedInitialData (server_env demo_env (\<lambda>_. None) mem_ops) :: (memdb world, unit, unit) eng) (new_world mem_empty)")
      (auto simp: main_start_def open_storage_def choose_storage_def default_flags_def NewMemoryStorage_def open_driver_def mem_pkg_def)
  have o: "jp_Open mem_pkg opts = Inr db \<Longrightarrow> db = mem_ops" for opts db
    by (auto simp: mem_pkg_def split: driver.splits)
  have "jaydb mem_ops mem_view" "reliable_store (JayDBStorage mem_ops) mem_view"
    by (rule mem.jaydb_axioms, rule memr.reliable_store_axioms)
  with startup_reachable [OF s, of mem_view] o s show ?thesis
    by (auto simp: mem_view_def mem_empty_def)
qed

text \<open>
  What keeps the process from coming up, each with its text: without a usable AWS configuration \<^verbatim>\<open>main\<close> panics; a data
  directory or a database that cannot be opened is fatal. Nothing has been written then.
\<close>

lemma startup_failures:
  "fl_s3Bucket fl \<noteq> [] \<Longrightarrow> aws_LoadDefaultConfig A ''us-east-1'' = Inl e \<Longrightarrow>
     main_start A J aws x509 fl E0 st = Panicked (''failed to load AWS config: '' @ e)"
  "fl_s3Bucket fl = [] \<Longrightarrow> fl_dataDir fl \<noteq> [] \<Longrightarrow> jp_NewFSDriver J (fl_dataDir fl) = Some e \<Longrightarrow>
     main_start A J aws x509 fl E0 st = Fatal (''Failed to initialize JayDB storage: failed to create JayDB fs driver: '' @ e)"
  by (simp_all add: main_start_def open_storage_def choose_storage_def NewS3Storage_def NewAWSS3Driver_def NewFSStorage_def)

end
