(* ===== verification/Shutdown.thy ===== *)
theory Shutdown
  imports Boot
begin

text \<open>
  The end of \<^verbatim>\<open>main\<close> in \<^verbatim>\<open>cmd/server\<close>: a goroutine that listens beside the main goroutine that waits for a signal and then shuts the HTTP
  server down. Of \<^verbatim>\<open>net/http\<close> there is what the program relies on: \<^verbatim>\<open>Shutdown\<close> closes the listener at once, so that
  \<^verbatim>\<open>ListenAndServe\<close> returns \<^verbatim>\<open>ErrServerClosed\<close>, and waits for the requests in progress or for the deadline; \<^verbatim>\<open>Close\<close> drops them.
\<close>

subsection \<open>The process\<close>

datatype stop_signal = Interrupt | SIGTERM | SIGQUIT | SIGHUP

text \<open>Where the main goroutine is. The store has a deferred \<^verbatim>\<open>Close\<close>, which a return from \<^verbatim>\<open>main\<close> would run.\<close>

datatype main_at = Waiting | Caught stop_signal | Quiet | ShuttingDown | TimedOut string | Stopped | Exited int

record process =
  pr_main :: main_at
  pr_listening :: bool
  pr_keepAlives :: bool
  pr_busy :: nat
  pr_cut :: nat

text \<open>The process that has come up and catches its signals, or has not come up: \<^verbatim>\<open>log.Fatalf\<close> exits with 1, a panic with 2.\<close>

definition process_of :: "'s started \<Rightarrow> process" where
  "process_of r = (case r of
       Serving hs w \<Rightarrow> \<lparr>pr_main = Waiting, pr_listening = True, pr_keepAlives = True, pr_busy = 0, pr_cut = 0\<rparr>
     | Fatal msg \<Rightarrow> \<lparr>pr_main = Exited 1, pr_listening = False, pr_keepAlives = True, pr_busy = 0, pr_cut = 0\<rparr>
     | Panicked msg \<Rightarrow> \<lparr>pr_main = Exited 2, pr_listening = False, pr_keepAlives = True, pr_busy = 0, pr_cut = 0\<rparr>)"

definition alive :: "process \<Rightarrow> bool" where
  "alive p \<longleftrightarrow> (case pr_main p of Exited _ \<Rightarrow> False | _ \<Rightarrow> True)"

text \<open>
  The channel holds one signal and is read once, so a second signal has no effect. When the process exits the requests in
  progress are lost with it.
\<close>

inductive proc_step :: "process \<Rightarrow> process \<Rightarrow> bool" where
  accepts: "alive p \<Longrightarrow> pr_listening p \<Longrightarrow> proc_step p (p\<lparr>pr_busy := Suc (pr_busy p)\<rparr>)"
| finishes: "alive p \<Longrightarrow> pr_busy p = Suc n \<Longrightarrow> proc_step p (p\<lparr>pr_busy := n\<rparr>)"
| listen_fails: "alive p \<Longrightarrow> pr_listening p \<Longrightarrow>
    proc_step p (p\<lparr>pr_main := Exited 1, pr_listening := False, pr_busy := 0, pr_cut := pr_cut p + pr_busy p\<rparr>)"
| signalled: "pr_main p = Waiting \<Longrightarrow> proc_step p (p\<lparr>pr_main := Caught sig\<rparr>)"
| keep_alives_off: "pr_main p = Caught sig \<Longrightarrow> proc_step p (p\<lparr>pr_main := Quiet, pr_keepAlives := False\<rparr>)"
| shutdown_begins: "pr_main p = Quiet \<Longrightarrow> proc_step p (p\<lparr>pr_main := ShuttingDown, pr_listening := False\<rparr>)"
| shutdown_done: "pr_main p = ShuttingDown \<Longrightarrow> pr_busy p = 0 \<Longrightarrow> proc_step p (p\<lparr>pr_main := Stopped\<rparr>)"
| shutdown_fails: "pr_main p = ShuttingDown \<Longrightarrow> proc_step p (p\<lparr>pr_main := TimedOut err\<rparr>)"
| closes: "pr_main p = TimedOut err \<Longrightarrow>
    proc_step p (p\<lparr>pr_main := Stopped, pr_busy := 0, pr_cut := pr_cut p + pr_busy p\<rparr>)"
| exits: "pr_main p = Stopped \<Longrightarrow> proc_step p (p\<lparr>pr_main := Exited 0\<rparr>)"

inductive_cases proc_stepE: "proc_step p q"

abbreviation proc_run :: "process \<Rightarrow> process \<Rightarrow> bool" where
  "proc_run \<equiv> proc_step\<^sup>*\<^sup>*"

subsection \<open>How it ends\<close>

definition shut_down :: "process \<Rightarrow> bool" where
  "shut_down p \<longleftrightarrow> (case pr_main p of
       Waiting \<Rightarrow> pr_listening p \<and> pr_keepAlives p \<and> pr_cut p = 0
     | Caught _ \<Rightarrow> pr_listening p \<and> pr_keepAlives p \<and> pr_cut p = 0
     | Quiet \<Rightarrow> pr_listening p \<and> \<not> pr_keepAlives p \<and> pr_cut p = 0
     | ShuttingDown \<Rightarrow> \<not> pr_listening p \<and> \<not> pr_keepAlives p \<and> pr_cut p = 0
     | TimedOut _ \<Rightarrow> \<not> pr_listening p \<and> \<not> pr_keepAlives p \<and> pr_cut p = 0
     | Stopped \<Rightarrow> \<not> pr_listening p \<and> \<not> pr_keepAlives p \<and> pr_busy p = 0
     | Exited c \<Rightarrow> \<not> pr_listening p \<and> pr_busy p = 0 \<and> (c = 0 \<longrightarrow> \<not> pr_keepAlives p))"

lemma shut_down_step: "proc_step p q \<Longrightarrow> shut_down p \<Longrightarrow> shut_down q"
  by (erule proc_stepE) (auto simp: shut_down_def alive_def split: main_at.splits)

lemma shut_down_start: "shut_down (process_of r)"
  by (simp add: shut_down_def process_of_def split: started.split)

text \<open>
  The process exits with 0 only after a signal, with the listener closed, connections not kept alive and no request in progress; as
  long as it runs no request has been dropped, except by the \<^verbatim>\<open>Close\<close> that follows a failed \<^verbatim>\<open>Shutdown\<close>.
\<close>

theorem clean_exit:
  assumes "proc_run (process_of r) p"
  shows "shut_down p"
  using assms shut_down_start by (induction rule: rtranclp_induct) (auto intro: shut_down_step)

text \<open>Once \<^verbatim>\<open>Shutdown\<close> has been called the process ends: every step brings it closer, and there is one until it has.\<close>

definition left_to_do :: "process \<Rightarrow> nat" where
  "left_to_do p = pr_busy p + (case pr_main p of ShuttingDown \<Rightarrow> 3 | TimedOut _ \<Rightarrow> 2 | Stopped \<Rightarrow> 1 | _ \<Rightarrow> 0)"

definition stopping :: "process \<Rightarrow> bool" where
  "stopping p \<longleftrightarrow> (case pr_main p of ShuttingDown \<Rightarrow> True | TimedOut _ \<Rightarrow> True | Stopped \<Rightarrow> True | Exited _ \<Rightarrow> True | _ \<Rightarrow> False)"

lemma stopping_step:
  assumes "proc_step p q" and "shut_down p" and "stopping p"
  shows "stopping q \<and> left_to_do q < left_to_do p"
  using assms by (elim proc_stepE) (auto simp: shut_down_def alive_def stopping_def left_to_do_def split: main_at.splits)

lemma stopping_moves: "stopping p \<Longrightarrow> alive p \<Longrightarrow> \<exists>q. proc_step p q"
  unfolding stopping_def alive_def by (auto split: main_at.splits intro: proc_step.intros)

theorem shutdown_ends:
  assumes "shut_down p" and "stopping p"
  shows "(proc_step\<^sup>+\<^sup>+ p q \<longrightarrow> left_to_do q < left_to_do p) \<and> (\<exists>q. proc_run p q \<and> (\<exists>c. pr_main q = Exited c))"
proof
  have "stopping q \<and> shut_down q \<and> left_to_do q < left_to_do p" if "proc_step\<^sup>+\<^sup>+ p q" for q
    using that
  proof (induction rule: tranclp_induct)
    case (base q)
    with assms stopping_step shut_down_step show ?case by blast
  next
    case (step q r)
    with stopping_step shut_down_step less_trans show ?case by metis
  qed
  then show "proc_step\<^sup>+\<^sup>+ p q \<longrightarrow> left_to_do q < left_to_do p" by blast
  show "\<exists>q. proc_run p q \<and> (\<exists>c. pr_main q = Exited c)"
    using assms
  proof (induction "left_to_do p" arbitrary: p rule: less_induct)
    case less
    show ?case
    proof (cases "alive p")
      case False
      then show ?thesis by (intro exI [of _ p]) (auto simp: alive_def split: main_at.splits)
    next
      case True
      with less.prems stopping_moves obtain q where "proc_step p q" by blast
      with less stopping_step shut_down_step show ?thesis by (meson converse_rtranclp_into_rtranclp)
    qed
  qed
qed

end
