(* ===== verification/CertGen.thy ===== *)
theory CertGen
  imports Spiffe
begin

text \<open>
  \<^verbatim>\<open>GenerateSelfSignedLongExpiryCert\<close> of \<^verbatim>\<open>pkg/spiffe/spiffe.go\<close>: a workload's self-signed certificate, its key and the
  fingerprint to register. Key generation, DER and PEM are Go's \<^verbatim>\<open>crypto\<close> packages, the parameter \<open>cert_lib\<close>; the
  locale \<open>x509_lib\<close> says what a certificate that was created reads back as. A duration has 64 bits, so the validity
  of a certificate is bounded.
\<close>

subsection \<open>The certificate\<close>

datatype ext_usage = ExtKeyUsageServerAuth | ExtKeyUsageClientAuth

record 'u cert_template =
  tp_SerialNumber :: int
  tp_Organization :: "string list"
  tp_CommonName :: string
  tp_NotBefore :: gotime
  tp_NotAfter :: gotime
  tp_KeyUsage :: int
  tp_ExtKeyUsage :: "ext_usage list"
  tp_BasicConstraintsValid :: bool
  tp_URIs :: "'u list"

text \<open>
  The library: \<open>'k\<close> private keys, \<open>'p\<close> public keys, \<open>'u\<close> parsed URLs. What draws from the random source is given the
  number of the draw.
\<close>

record ('k, 'p, 'u) cert_lib =
  cl_GenerateKey :: "nat \<Rightarrow> nat \<Rightarrow> string + 'k"
  cl_Public :: "'k \<Rightarrow> 'p"
  cl_ParseURL :: "string \<Rightarrow> string + 'u"
  cl_URLString :: "'u \<Rightarrow> string"
  cl_RandInt :: "nat \<Rightarrow> int \<Rightarrow> string + int"
  cl_CreateCertificate :: "nat \<Rightarrow> 'u cert_template \<Rightarrow> 'u cert_template \<Rightarrow> 'p \<Rightarrow> 'k \<Rightarrow> string + string"
  cl_MarshalPKCS1PrivateKey :: "'k \<Rightarrow> string"
  cl_EncodeToMemory :: "string \<Rightarrow> string \<Rightarrow> string"

text \<open>One use of the random source.\<close>

definition drawing :: "(nat \<Rightarrow> string + 'a) \<Rightarrow> ('s world, string, 'a) eng" where
  "drawing f w = (f (w_draw w), w\<lparr>w_draw := Suc (w_draw w)\<rparr>)"

definition year_duration :: "int \<Rightarrow> duration" where
  "year_duration years = wrap64 (wrap64 (wrap64 (years * 365) * 24) * Hour)"

definition workload_template :: "string \<Rightarrow> 'u \<Rightarrow> int \<Rightarrow> gotime \<Rightarrow> int \<Rightarrow> 'u cert_template" where
  "workload_template spiffeID url serial now durationYears =
     (let notBefore = now + (-1) * Hour in
      \<lparr>tp_SerialNumber = serial, tp_Organization = [''Auth Pole SPIFFE Workloads''], tp_CommonName = spiffeID,
       tp_NotBefore = notBefore, tp_NotAfter = notBefore + year_duration durationYears,
       tp_KeyUsage = 1 OR 4, tp_ExtKeyUsage = [ExtKeyUsageClientAuth, ExtKeyUsageServerAuth],
       tp_BasicConstraintsValid = True, tp_URIs = [url]\<rparr>)"

definition GenerateSelfSignedLongExpiryCert ::
  "'s env \<Rightarrow> ('k, 'p, 'u) cert_lib \<Rightarrow> string \<Rightarrow> int \<Rightarrow> ('s world, string, string \<times> string \<times> string) eng" where
  "GenerateSelfSignedLongExpiryCert E L spiffeID durationYears =
     andThen (drawing (\<lambda>n. cl_GenerateKey L n 2048)) (\<lambda>priv.
     andThen (ofSum (cl_ParseURL L spiffeID)) (\<lambda>spiffeURL.
     andThen (drawing (\<lambda>n. cl_RandInt L n (2 ^ 128))) (\<lambda>serialNumber.
     andThen (clock E) (\<lambda>now.
     let template = workload_template spiffeID spiffeURL serialNumber now durationYears in
     andThen (drawing (\<lambda>n. cl_CreateCertificate L n template template (cl_Public L priv) priv)) (\<lambda>certBytes.
     ret (cl_EncodeToMemory L ''CERTIFICATE'' certBytes,
          cl_EncodeToMemory L ''RSA PRIVATE KEY'' (cl_MarshalPKCS1PrivateKey L priv),
          hex_encode (Sum256 certBytes)))))))"

subsection \<open>What the library promises\<close>

text \<open>Certificates hold times to the second.\<close>

definition seconds :: "gotime \<Rightarrow> gotime" where
  "seconds t = t - t mod Second"

definition plain_part :: "string \<Rightarrow> bool" where
  "plain_part s \<longleftrightarrow> s \<noteq> [] \<and> list_all url_plain s"

locale x509_lib =
  fixes L :: "('k, 'p, 'u) cert_lib" and x509 :: "string \<Rightarrow> Cert option" and lib :: rsa_lib
  assumes reads_back: "cl_CreateCertificate L n t t (cl_Public L k) k = Inr der \<Longrightarrow>
      x509 der = Some \<lparr>ct_Raw = der, ct_NotBefore = seconds (tp_NotBefore t), ct_NotAfter = seconds (tp_NotAfter t),
        ct_URIs = map (cl_URLString L) (tp_URIs t)\<rparr>"
    and pem_reads_back: "pem_decode lib (cl_EncodeToMemory L ty b) = Some b"
    and plain_url: "plain_part d \<Longrightarrow> plain_part org \<Longrightarrow> plain_part wl \<Longrightarrow>
      cl_ParseURL L (BuildSPIFFEID d org wl) = Inr u \<Longrightarrow> cl_URLString L u = BuildSPIFFEID d org wl"
begin

lemma generated:
  assumes "GenerateSelfSignedLongExpiryCert E L spiffeID years w = (Inr (certPEM, keyPEM, fp), w1)"
  obtains der u where "pem_decode lib certPEM = Some der" and "fp = hex_encode (Sum256 der)"
    and "cl_ParseURL L spiffeID = Inr u"
    and "x509 der = Some \<lparr>ct_Raw = der, ct_NotBefore = seconds (e_now E (w_tick w) - Hour),
        ct_NotAfter = seconds (e_now E (w_tick w) - Hour + year_duration years), ct_URIs = [cl_URLString L u]\<rparr>"
proof -
  from assms obtain k u n serial m der where u: "cl_ParseURL L spiffeID = Inr u"
    and c: "cl_CreateCertificate L m (workload_template spiffeID u serial (e_now E (w_tick w)) years)
        (workload_template spiffeID u serial (e_now E (w_tick w)) years) (cl_Public L k) k = Inr der"
    and o: "certPEM = cl_EncodeToMemory L ''CERTIFICATE'' der" "fp = hex_encode (Sum256 der)"
    by (auto simp: GenerateSelfSignedLongExpiryCert_def Let_def andThen_Inr drawing_def ofSum_def clock_def ret_def
        split: sum.splits)
  from reads_back [OF c] have "x509 der = Some \<lparr>ct_Raw = der, ct_NotBefore = seconds (e_now E (w_tick w) - Hour),
      ct_NotAfter = seconds (e_now E (w_tick w) - Hour + year_duration years), ct_URIs = [cl_URLString L u]\<rparr>"
    by (simp add: workload_template_def Let_def)
  with that [of der u] o u pem_reads_back show thesis by simp
qed

end

subsection \<open>How long a certificate lasts\<close>

lemma seconds_le: "seconds t \<le> t" "t < seconds t + Second"
  by (simp_all add: seconds_def Second_def)

lemma seconds_mono: "t \<le> u \<Longrightarrow> seconds t \<le> seconds u"
  by (simp add: seconds_def Second_def minus_mod_eq_mult_div zdiv_mono1)

lemma year_duration_exact: "0 \<le> y \<Longrightarrow> y \<le> 292 \<Longrightarrow> year_duration y = y * (365 * 24 * Hour)"
  by (simp add: year_duration_def wrap64_id Hour_def Minute_def Second_def)

lemma wrap64_shift: "wrap64 (n + 2 ^ 64) = wrap64 n"
  unfolding wrap64_def int_word_sint using mod_add_self2 [of "n + 2 ^ 63" "2 ^ 64"] by (simp add: algebra_simps)

lemma year_duration_wraps: "293 \<le> y \<Longrightarrow> y \<le> 584 \<Longrightarrow> year_duration y = y * (365 * 24 * Hour) - 2 ^ 64"
  using wrap64_shift [of "y * (365 * 24 * Hour) - 2 ^ 64"] wrap64_id [of "y * (365 * 24 * Hour) - 2 ^ 64"]
  by (simp add: year_duration_def wrap64_id Hour_def Minute_def Second_def algebra_simps)

text \<open>
  C28. A generated certificate is one the service accepts, for the years it can hold: registered under its fingerprint and
  SPIFFE id, it is accepted exactly from an hour before it was made (to the second) until the years have passed, for up to 292 years;
  for 293 to 584 years the 64-bit duration wraps around and it is accepted at no time.
\<close>

theorem generated_cert_accepted:
  assumes "x509_lib L x509 lib"
    and "GenerateSelfSignedLongExpiryCert E L (BuildSPIFFEID d org wl) years w = (Inr (certPEM, keyPEM, fp), w1)"
    and "plain_part d" and "plain_part org" and "plain_part wl"
    and "wl_CertFingerprint workload = fp" and "wl_SPIFFEID workload = BuildSPIFFEID d org wl"
  shows "\<exists>der cert. pem_decode lib certPEM = Some der \<and> x509 der = Some cert \<and>
    ComputeCertFingerprint lib certPEM = Some fp \<and>
    (1 \<le> years \<and> years \<le> 292 \<longrightarrow> (\<forall>(E' :: 'e env) w'. fst (ValidateWorkloadCert E' (Some cert) (Some workload) w') = Inr () \<longleftrightarrow>
       e_now E' (w_tick w') \<in> {seconds (e_now E (w_tick w) - Hour) .. seconds (e_now E (w_tick w) - Hour + years * (365 * 24 * Hour))})) \<and>
    (293 \<le> years \<and> years \<le> 584 \<longrightarrow> (\<forall>(E' :: 'e env) w'. fst (ValidateWorkloadCert E' (Some cert) (Some workload) w') \<noteq> Inr ()))"
proof -
  let ?b = "e_now E (w_tick w) - Hour"
  from x509_lib.generated [OF assms(1,2)] obtain der u where der: "pem_decode lib certPEM = Some der"
    and fp: "fp = hex_encode (Sum256 der)" and u: "cl_ParseURL L (BuildSPIFFEID d org wl) = Inr u"
    and c: "x509 der = Some \<lparr>ct_Raw = der, ct_NotBefore = seconds ?b, ct_NotAfter = seconds (?b + year_duration years),
        ct_URIs = [cl_URLString L u]\<rparr>" (is "_ = Some ?cert") .
  have uri: "cl_URLString L u = BuildSPIFFEID d org wl" using x509_lib.plain_url [OF assms(1,3-5) u] .
  have iff: "fst (ValidateWorkloadCert E' (Some ?cert) (Some workload) w') = Inr () \<longleftrightarrow>
      e_now E' (w_tick w') \<in> {seconds ?b .. seconds (?b + year_duration years)}" for E' :: "'e env" and w'
    using assms(6,7) by (simp add: ValidateWorkloadCert_passes check_cert_passes uri fp)
  have "year_duration years < - Second" if "293 \<le> years" "years \<le> 584"
    using that by (simp add: year_duration_wraps Hour_def Minute_def Second_def)
  then have "seconds (?b + year_duration years) < seconds ?b" if "293 \<le> years" "years \<le> 584"
    using that seconds_le(1) [of "?b + year_duration years"] seconds_le(2) [of ?b] by simp
  then have none: "fst (ValidateWorkloadCert E' (Some ?cert) (Some workload) w') \<noteq> Inr ()"
    if "293 \<le> years" "years \<le> 584" for E' :: "'e env" and w'
    using that unfolding iff by simp
  have span: "fst (ValidateWorkloadCert E' (Some ?cert) (Some workload) w') = Inr () \<longleftrightarrow>
      e_now E' (w_tick w') \<in> {seconds ?b .. seconds (?b + years * (365 * 24 * Hour))}"
    if "1 \<le> years" "years \<le> 292" for E' :: "'e env" and w'
    unfolding iff using that by (simp add: year_duration_exact)
  from der have "ComputeCertFingerprint lib certPEM = Some fp"
    by (simp add: ComputeCertFingerprint_def ComputeCertFingerprintDER_def fp)
  with der c none span show ?thesis by blast
qed

text \<open>A library that makes one certificate, of ten years.\<close>

definition ten_years :: "string cert_template" where
  "ten_years = workload_template ''spiffe://authpole.local/ns/acme/sa/build'' ''spiffe://authpole.local/ns/acme/sa/build'' 7 demo_now 10"

definition one_cert :: "(unit, unit, string) cert_lib" where
  "one_cert = \<lparr>cl_GenerateKey = (\<lambda>_ _. Inr ()), cl_Public = (\<lambda>_. ()), cl_ParseURL = Inr, cl_URLString = id,
     cl_RandInt = (\<lambda>_ _. Inr 7),
     cl_CreateCertificate = (\<lambda>_ t _ _ _. if t = ten_years then Inr ''der'' else Inl ''unsupported''),
     cl_MarshalPKCS1PrivateKey = (\<lambda>_. ''key''), cl_EncodeToMemory = (\<lambda>_ b. b)\<rparr>"

definition one_x509 :: "string \<Rightarrow> Cert option" where
  "one_x509 der = Some \<lparr>ct_Raw = der, ct_NotBefore = seconds (tp_NotBefore ten_years),
     ct_NotAfter = seconds (tp_NotAfter ten_years), ct_URIs = tp_URIs ten_years\<rparr>"

interpretation one: x509_lib one_cert one_x509 "demo_rsa\<lparr>pem_decode := Some\<rparr>"
  by unfold_locales (auto simp: one_cert_def one_x509_def split: if_splits)

lemma demo_time: "demo_now \<in> {seconds (demo_now - Hour) .. seconds (demo_now - Hour + 10 * (365 * 24 * Hour))}"
  by (simp add: demo_now_def seconds_def Hour_def Minute_def Second_def)

lemma generated_cert_accepted_witness:
  "\<exists>fp w1 cert. GenerateSelfSignedLongExpiryCert demo_env one_cert (BuildSPIFFEID ''authpole.local'' ''acme'' ''build'') 10 (new_world mem_empty)
       = (Inr (''der'', ''key'', fp), w1) \<and>
     fst (ValidateWorkloadCert demo_env (Some cert)
       (Some (zero_workload\<lparr>wl_CertFingerprint := fp, wl_SPIFFEID := BuildSPIFFEID ''authpole.local'' ''acme'' ''build''\<rparr>))
       (new_world mem_empty)) = Inr ()"
proof -
  let ?id = "BuildSPIFFEID ''authpole.local'' ''acme'' ''build''" and ?w = "new_world mem_empty"
  have i: "?id = ''spiffe://authpole.local/ns/acme/sa/build''" by (simp add: BuildSPIFFEID_def)
  obtain fp w1 where g: "GenerateSelfSignedLongExpiryCert demo_env one_cert ?id 10 ?w = (Inr (''der'', ''key'', fp), w1)"
    unfolding i by (simp add: GenerateSelfSignedLongExpiryCert_def andThen_def drawing_def ofSum_def clock_def ret_def one_cert_def
        ten_years_def)
  have p: "plain_part ''authpole.local''" "plain_part ''acme''" "plain_part ''build''" by code_simp+
  let ?wl = "zero_workload\<lparr>wl_CertFingerprint := fp, wl_SPIFFEID := ?id\<rparr>"
  have "wl_CertFingerprint ?wl = fp" "wl_SPIFFEID ?wl = ?id" by simp_all
  from generated_cert_accepted [where ?'e = memdb, OF one.x509_lib_axioms g p this] obtain cert where
    "\<forall>(E' :: memdb env) w'. fst (ValidateWorkloadCert E' (Some cert) (Some ?wl) w') = Inr () \<longleftrightarrow>
       e_now E' (w_tick w') \<in> {seconds (e_now demo_env (w_tick ?w) - Hour) ..
         seconds (e_now demo_env (w_tick ?w) - Hour + 10 * (365 * 24 * Hour))}"
    by (elim exE conjE) simp
  then have "fst (ValidateWorkloadCert demo_env (Some cert) (Some ?wl) ?w) = Inr ()"
    using demo_time by simp
  with g show ?thesis by blast
qed

end
