(* ===== verification/Downstream.thy ===== *)
theory Downstream
  imports World Crypto JsonText
begin

text \<open>
  \<^verbatim>\<open>examples/verify_jwt\<close>: a service that means to validate the tokens it is sent with the key set it has downloaded from
  the provider. It shows how a resource server is to be written, so what it accepts matters.
\<close>

record DownstreamService =
  ds_authPoleURL :: string
  ds_orgID :: string
  ds_keys :: "SigningKey option list"

datatype ds_err = JWKSFetch | JWKSDecode

subsection \<open>The key set\<close>

definition zero_jwk :: JWK where
  "zero_jwk = \<lparr>jwk_Kty = [], jwk_Use = [], jwk_Alg = [], jwk_Kid = [], jwk_N = [], jwk_E = []\<rparr>"

fun set_jwks :: "jval \<Rightarrow> JWK list \<Rightarrow> bool \<times> JWK list" where
  "set_jwks (JArr vs) old =
     (list_all (\<lambda>v. fst (decode_into jwk_fields v zero_jwk)) vs, map (\<lambda>v. snd (decode_into jwk_fields v zero_jwk)) vs)"
| "set_jwks JNull old = (True, [])"
| "set_jwks _ old = (False, old)"

record JWKSet =
  ks_Keys :: "JWK list"

definition jwks_fields :: "JWKSet field list" where
  "jwks_fields = [Field ''keys'' (lens_set ks_Keys ks_Keys_update set_jwks)
     (\<lambda>r. Some (if ks_Keys r = [] then JNull else JArr (map (marshal jwk_fields) (ks_Keys r))))]"

text \<open>\<^verbatim>\<open>Decoder.Decode\<close>: the first value of the body, whatever follows it.\<close>

definition decode_jwks :: "string \<Rightarrow> JWKSet option" where
  "decode_jwks body =
     (case read_value body of
        None \<Rightarrow> None
      | Some (v, _) \<Rightarrow>
          (case decode_into jwks_fields v \<lparr>ks_Keys = []\<rparr> of (ok, jwks) \<Rightarrow> if ok then Some jwks else None))"

subsection \<open>The service\<close>

definition jwks_url :: "DownstreamService \<Rightarrow> string" where
  "jwks_url s = ds_authPoleURL s @ ''/.well-known/jwks.json?organization='' @ ds_orgID s"

text \<open>Fetching gives the number of keys that is logged; the key set itself goes out of scope.\<close>

definition refreshJWKS :: "'s env \<Rightarrow> DownstreamService \<Rightarrow> ('s world, ds_err, nat \<times> DownstreamService) eng" where
  "refreshJWKS E s =
     andThen (http_do E \<lparr>rq_Method = ''GET'', rq_URL = jwks_url s, rq_Header = [], rq_Body = []\<rparr>) (\<lambda>resp.
     case resp of
       Answer status body whole \<Rightarrow>
         (case decode_jwks body of None \<Rightarrow> fail JWKSDecode | Some jwks \<Rightarrow> ret (length (ks_Keys jwks), s))
     | _ \<Rightarrow> fail JWKSFetch)"

definition NewDownstreamService :: "'s env \<Rightarrow> string \<Rightarrow> string \<Rightarrow> ('s world, ds_err, DownstreamService) eng" where
  "NewDownstreamService E authPoleURL orgID =
     (let s = \<lparr>ds_authPoleURL = authPoleURL, ds_orgID = orgID, ds_keys = []\<rparr> in
      andThen (refreshJWKS E s) (\<lambda>(_, s'). ret s'))"

definition ValidateRequestToken :: "rsa_lib \<Rightarrow> (nat \<Rightarrow> gotime) \<Rightarrow> DownstreamService \<Rightarrow> string \<Rightarrow> cerr + AuthClaims" where
  "ValidateRequestToken lib now_at s tokenString = VerifyJWT lib now_at tokenString (ds_keys s)"

subsection \<open>What it does\<close>

text \<open>A key set the provider publishes is decoded, key by key.\<close>

lemma decode_jwk: "decode_into jwk_fields (marshal jwk_fields k) zero_jwk = (True, k)"
  by (simp add: jwk_fields_def marshal_def zero_jwk_def str_field_def lens_set_def find_field_def)

lemma decode_published: "decode_into jwks_fields (BuildJWKS lib keys) \<lparr>ks_Keys = []\<rparr> = (True, \<lparr>ks_Keys = jwks_loop lib keys\<rparr>)"
  by (simp add: jwks_fields_def BuildJWKS_def Let_def find_field_def lens_set_def decode_jwk list_all_iff comp_def)

lemma no_keys_no_token: "\<exists>e. VerifyJWT lib now_at tok [] = Inl e"
  by (simp add: VerifyJWT_def VerifyJWTWithOptions_def split: list.splits option.splits)

text \<open>
  The sample resource server accepts no token at all: the downloaded key set is counted and dropped, so a service that
  has come up successfully refuses every token, the valid ones of its provider included.
\<close>

theorem downstream_refuses_all:
  assumes "NewDownstreamService E url org w = (Inr s, w')"
  shows "\<forall>tok. \<exists>e. ValidateRequestToken lib now_at s tok = Inl e"
proof -
  from assms have "ds_keys s = []"
    by (auto simp: NewDownstreamService_def refreshJWKS_def Let_def andThen_Inr prims_eq split: http_result.splits option.splits)
  then show ?thesis using no_keys_no_token by (simp add: ValidateRequestToken_def)
qed

end
