(* ===== verification/JsonFuel.thy ===== *)
theory JsonFuel
  imports JsonText
begin

text \<open>
  The JSON reader recurses on fuel. Here: what it reads, it reads with as much fuel as it consumes characters, so the
  fuel that \<^verbatim>\<open>parse_json\<close> gives (one more than the length of the text) is always enough, and the reader accepts what
  it would accept with any fuel.
\<close>

lemma skip_length: "length (skip s) \<le> length s"
  by (simp add: skip_def length_dropWhile_le)

lemma push_str_eq: "push_str p x = Some (t, r) \<longleftrightarrow> (\<exists>t'. x = Some (t', r) \<and> t = p @ t')"
  by (auto simp: push_str_def split: option.splits)

lemma unq_u_length: "unq_u s = Some (n, r) \<Longrightarrow> length r < length s"
  by (induction s rule: unq_u.induct) auto

lemma low_surrogate_length: "low_surrogate s = Some (n, r) \<Longrightarrow> length r < length s"
  by (auto simp: low_surrogate_def split: list.splits if_splits option.splits dest: unq_u_length)

text \<open>Strings.\<close>

lemma unq_step:
  assumes "unq (Suc f) (c # s) = Some (t, r)"
  obtains (stop) "t = []" "r = s" "\<And>g. unq (Suc g) (c # s) = Some (t, r)"
  | (more) u q where "length u < length (c # s)" "unq f u = Some (q, r)"
      "\<And>g. unq g u = Some (q, r) \<Longrightarrow> unq (Suc g) (c # s) = Some (t, r)"
proof -
  have low: "length r' < length s'" if "(if 55296 \<le> n \<and> n < 56320 then low_surrogate s' else None) = Some (m, r')" for n m s' r'
    using that by (auto dest: low_surrogate_length split: if_splits)
  consider "c = CHR 0x22" | (esc) e t' where "c = CHR 0x5C" "s = e # t'" | (plain) "c \<noteq> CHR 0x22" "c \<noteq> CHR 0x5C"
    using assms by (cases "c = CHR 0x22"; cases "c = CHR 0x5C"; cases s) auto
  then show thesis
  proof cases
    case 1
    with assms show thesis by (intro stop) auto
  next
    case plain
    with assms obtain q where "unq f s = Some (q, r)" "t = [c] @ q" by (auto simp: push_str_eq split: if_splits)
    with plain assms show thesis by (intro more [of s q]) (auto simp: push_str_eq split: if_splits)
  next
    case esc
    show thesis
    proof (cases "e = CHR ''u''")
      case False
      with esc assms obtain p q where "simple_esc e = Some p" "unq f t' = Some (q, r)" "t = p @ q"
        by (auto simp: push_str_eq split: option.splits)
      with esc False show thesis by (intro more [of t' q]) (auto simp: push_str_eq)
    next
      case True
      with esc assms obtain n s' where u: "unq_u t' = Some (n, s')"
        and x: "(case (if 55296 \<le> n \<and> n < 56320 then low_surrogate s' else None) of
            Some (m, r') \<Rightarrow> push_str (utf8 ((n - 55296) * 1024 + (m - 56320) + 65536)) (unq f r')
          | None \<Rightarrow> push_str (utf8 n) (unq f s')) = Some (t, r)"
        by (auto split: option.splits)
      note len = unq_u_length [OF u]
      show thesis
      proof (cases "if 55296 \<le> n \<and> n < 56320 then low_surrogate s' else None")
        case None
        with x obtain q where "unq f s' = Some (q, r)" "t = utf8 n @ q" by (auto simp: push_str_eq)
        with esc True u None len show thesis by (intro more [of s' q]) (auto simp: push_str_eq)
      next
        case (Some mr)
        obtain m r' where mr: "mr = (m, r')" by fastforce
        with x Some obtain q where "unq f r' = Some (q, r)" "t = utf8 ((n - 55296) * 1024 + (m - 56320) + 65536) @ q"
          by (auto simp: push_str_eq)
        with esc True u Some mr len low [of n s' m r'] show thesis by (intro more [of r' q]) (auto simp: push_str_eq)
      qed
    qed
  qed
qed

lemma unq_enough: "unq f s = Some (t, r) \<Longrightarrow> length r < length s \<and> (\<forall>g \<ge> length s. unq g s = Some (t, r))"
proof (induction f arbitrary: s t r)
  case (Suc f)
  then obtain c s' where s: "s = c # s'" by (cases s) auto
  from Suc.prems [unfolded s] show ?case
  proof (cases rule: unq_step)
    case stop
    have "unq g s = Some (t, r)" if "length s \<le> g" for g
      using that stop(3) s by (cases g) auto
    with stop s show ?thesis by simp
  next
    case (more u q)
    with Suc.IH [OF more(2)] have "unq g s = Some (t, r)" if "length s \<le> g" for g
      using that s by (cases g) auto
    with more Suc.IH [OF more(2)] s show ?thesis by fastforce
  qed
qed simp

text \<open>\<open>consumes p s x r\<close>: the reader \<open>p\<close> reads \<open>x\<close> off \<open>s\<close>, with any fuel that covers the characters it takes.\<close>

definition consumes :: "(nat \<Rightarrow> string \<Rightarrow> ('a \<times> string) option) \<Rightarrow> string \<Rightarrow> 'a \<Rightarrow> string \<Rightarrow> bool" where
  "consumes p s x r \<longleftrightarrow> length r < length s \<and> (\<forall>g. length s - length r \<le> g \<longrightarrow> p g s = Some (x, r))"

lemma consumesI: "length r < length s \<Longrightarrow> (\<And>g. length s - length r \<le> Suc g \<Longrightarrow> p (Suc g) s = Some (x, r)) \<Longrightarrow> consumes p s x r"
proof -
  assume l: "length r < length s" and x: "\<And>g. length s - length r \<le> Suc g \<Longrightarrow> p (Suc g) s = Some (x, r)"
  have "p g s = Some (x, r)" if "length s - length r \<le> g" for g
    using that l x by (cases g) auto
  with l show ?thesis by (simp add: consumes_def)
qed

lemma consumesD: "consumes p s x r \<Longrightarrow> length r < length s" "consumes p s x r \<Longrightarrow> length s - length r \<le> g \<Longrightarrow> p g s = Some (x, r)"
  by (simp_all add: consumes_def)

lemma skip_shrinks: "skip s = c # t \<Longrightarrow> length t < length s"
  using skip_length [of s] by simp

text \<open>Scalars do not look at the fuel.\<close>

lemma literal_length: "literal w v s = Some (x, r) \<Longrightarrow> w \<noteq> [] \<Longrightarrow> length r < length s"
  by (cases w) (auto simp: literal_def HasPrefix_def split: if_splits)

lemma number_Nil: "number [] = None"
  by (simp add: number_def int_part_ok_def)

lemma number_length:
  assumes "number (takeWhile num_char s) = Some v"
  shows "length (dropWhile num_char s) < length s"
proof -
  from assms number_Nil have "takeWhile num_char s \<noteq> []" by auto
  moreover have "length (takeWhile num_char s) + length (dropWhile num_char s) = length s"
    by (metis length_append takeWhile_dropWhile_id)
  ultimately show ?thesis by (cases "takeWhile num_char s") auto
qed

text \<open>What starts with neither bracket is read without fuel.\<close>

lemma pval_cases:
  assumes "pval (Suc f) s = Some (v, r)" and s: "skip s = c # t"
  obtains (arr) vs where "c = CHR ''[''" "v = JArr vs" "parr f t = Some (vs, r)" "\<And>u. skip t \<noteq> CHR '']'' # u" "skip t \<noteq> []"
    | (obj) es where "c = CHR ''{''" "v = JObj es" "pobj f t = Some (es, r)" "\<And>u. skip t \<noteq> CHR ''}'' # u" "skip t \<noteq> []"
    | (scalar) "length r < length s" "\<And>g. pval (Suc g) s = Some (v, r)"
proof -
  note len = skip_shrinks [OF s]
  consider "c = CHR ''[''" "(\<exists>u. skip t = CHR '']'' # u)" | "c = CHR ''[''" "\<not> (\<exists>u. skip t = CHR '']'' # u)"
    | "c = CHR ''{''" "(\<exists>u. skip t = CHR ''}'' # u)" | "c = CHR ''{''" "\<not> (\<exists>u. skip t = CHR ''}'' # u)"
    | "c \<noteq> CHR ''[''" "c \<noteq> CHR ''{''" by blast
  then show thesis
  proof cases
    case 1
    with assms(1) s len skip_shrinks show thesis by (intro scalar) fastforce+
  next
    case 2
    with assms(1) s obtain vs where "v = JArr vs" "parr f t = Some (vs, r)" by (auto split: list.splits if_splits)
    with 2 assms(1) s show thesis by (intro arr [of vs]) auto
  next
    case 3
    with assms(1) s len skip_shrinks show thesis by (intro scalar) fastforce+
  next
    case 4
    with assms(1) s obtain es where "v = JObj es" "pobj f t = Some (es, r)" by (auto split: list.splits if_splits)
    with 4 assms(1) s show thesis by (intro obj [of es]) auto
  next
    case 5
    from 5 s have "pval (Suc g) s = pval (Suc f) s" for g by simp
    with assms(1) have g: "pval (Suc g) s = Some (v, r)" for g by simp
    from 5 assms(1) s have "length r < length (c # t)"
      by (auto split: if_splits simp del: takeWhile.simps dropWhile.simps dest!: unq_enough literal_length number_length)
    with g s skip_length [of s] show thesis by (intro scalar) auto
  qed
qed

lemma pval_enough:
  assumes "pval (Suc f) s = Some (v, r)"
    and arr: "\<And>s vs r. parr f s = Some (vs, r) \<Longrightarrow> consumes parr s vs r"
    and obj: "\<And>s es r. pobj f s = Some (es, r) \<Longrightarrow> consumes pobj s es r"
  shows "consumes pval s v r"
proof -
  from assms(1) obtain c t where s: "skip s = c # t" by (auto split: list.splits)
  note len = skip_shrinks [OF s]
  from assms(1) s show ?thesis
  proof (cases rule: pval_cases)
    case (arr vs)
    note c = assms(2) [OF arr(3)]
    show ?thesis
    proof (rule consumesI)
      show "length r < length s" using consumesD(1) [OF c] len by simp
      fix g
      assume "length s - length r \<le> Suc g"
      with len have "length t - length r \<le> g" by simp
      from consumesD(2) [OF c this] arr s show "pval (Suc g) s = Some (v, r)" by (auto split: list.splits)
    qed
  next
    case (obj es)
    note c = assms(3) [OF obj(3)]
    show ?thesis
    proof (rule consumesI)
      show "length r < length s" using consumesD(1) [OF c] len by simp
      fix g
      assume "length s - length r \<le> Suc g"
      with len have "length t - length r \<le> g" by simp
      from consumesD(2) [OF c this] obj s show "pval (Suc g) s = Some (v, r)" by (auto split: list.splits)
    qed
  next
    case scalar
    then show ?thesis by (rule consumesI)
  qed
qed

lemma parr_enough:
  assumes "parr (Suc f) s = Some (vs, r)"
    and val: "\<And>s v r. pval f s = Some (v, r) \<Longrightarrow> consumes pval s v r"
    and arr: "\<And>s vs r. parr f s = Some (vs, r) \<Longrightarrow> consumes parr s vs r"
  shows "consumes parr s vs r"
proof -
  from assms(1) obtain v t c u where v: "pval f s = Some (v, t)" and t: "skip t = c # u"
    and rest: "c = CHR '']'' \<and> vs = [v] \<and> r = u \<or>
      c = CHR '','' \<and> (\<exists>ws. parr f u = Some (ws, r) \<and> vs = v # ws)"
    by (auto split: option.splits list.splits if_splits)
  note c = val [OF v]
  have len: "length u < length t" "length t < length s" using skip_shrinks [OF t] consumesD(1) [OF c] by simp_all
  from rest show ?thesis
  proof (elim disjE conjE exE)
    assume e: "c = CHR '']''" "vs = [v]" "r = u"
    show ?thesis
    proof (rule consumesI)
      show "length r < length s" using e len by simp
      fix g
      assume "length s - length r \<le> Suc g"
      then have "pval g s = Some (v, t)" using e len by (intro consumesD(2) [OF c]) simp
      with e t show "parr (Suc g) s = Some (vs, r)" by simp
    qed
  next
    fix ws
    assume e: "c = CHR '',''" "parr f u = Some (ws, r)" "vs = v # ws"
    note d = arr [OF e(2)]
    show ?thesis
    proof (rule consumesI)
      show "length r < length s" using consumesD(1) [OF d] len by simp
      fix g
      assume g: "length s - length r \<le> Suc g"
      then have "pval g s = Some (v, t)" using consumesD(1) [OF d] len by (intro consumesD(2) [OF c]) simp
      moreover from g len have "parr g u = Some (ws, r)" by (intro consumesD(2) [OF d]) simp
      ultimately show "parr (Suc g) s = Some (vs, r)" using e t by simp
    qed
  qed
qed

lemma pobj_enough:
  assumes "pobj (Suc f) s = Some (es, r)"
    and val: "\<And>s v r. pval f s = Some (v, r) \<Longrightarrow> consumes pval s v r"
    and obj: "\<And>s es r. pobj f s = Some (es, r) \<Longrightarrow> consumes pobj s es r"
  shows "consumes pobj s es r"
proof -
  from assms(1) obtain t k a b v t2 d u where s: "skip s = CHR 0x22 # t" and k: "unq (Suc (length t)) t = Some (k, a)"
    and a: "skip a = CHR '':'' # b" and v: "pval f b = Some (v, t2)" and t2: "skip t2 = d # u"
    and rest: "d = CHR ''}'' \<and> es = [(k, v)] \<and> r = u \<or>
      d = CHR '','' \<and> (\<exists>fs. pobj f u = Some (fs, r) \<and> es = (k, v) # fs)"
    by (auto split: option.splits list.splits if_splits)
  note c = val [OF v]
  have len: "length u < length t2" "length t2 < length b" "length b < length a" "length a < length t" "length t < length s"
    using skip_shrinks [OF t2] consumesD(1) [OF c] skip_shrinks [OF a] unq_enough [OF k] skip_shrinks [OF s] by simp_all
  from rest show ?thesis
  proof (elim disjE conjE exE)
    assume e: "d = CHR ''}''" "es = [(k, v)]" "r = u"
    show ?thesis
    proof (rule consumesI)
      show "length r < length s" using e len by simp
      fix g
      assume "length s - length r \<le> Suc g"
      then have "pval g b = Some (v, t2)" using e len by (intro consumesD(2) [OF c]) simp
      with e s k a t2 show "pobj (Suc g) s = Some (es, r)" by simp
    qed
  next
    fix fs
    assume e: "d = CHR '',''" "pobj f u = Some (fs, r)" "es = (k, v) # fs"
    note ob = obj [OF e(2)]
    show ?thesis
    proof (rule consumesI)
      show "length r < length s" using consumesD(1) [OF ob] len by simp
      fix g
      assume g: "length s - length r \<le> Suc g"
      then have "pval g b = Some (v, t2)" using consumesD(1) [OF ob] len by (intro consumesD(2) [OF c]) simp
      moreover from g len have "pobj g u = Some (fs, r)" by (intro consumesD(2) [OF ob]) simp
      ultimately show "pobj (Suc g) s = Some (es, r)" using e s k a t2 by simp
    qed
  qed
qed

lemma readers_enough:
  "(pval f s = Some (v, r) \<longrightarrow> consumes pval s v r) \<and> (parr f s = Some (vs, r) \<longrightarrow> consumes parr s vs r) \<and>
   (pobj f s = Some (es, r) \<longrightarrow> consumes pobj s es r)"
proof (induction f arbitrary: s v vs es r)
  case (Suc f)
  then have ih: "\<And>s v r. pval f s = Some (v, r) \<Longrightarrow> consumes pval s v r"
    "\<And>s vs r. parr f s = Some (vs, r) \<Longrightarrow> consumes parr s vs r"
    "\<And>s es r. pobj f s = Some (es, r) \<Longrightarrow> consumes pobj s es r" by blast+
  show ?case
    by (intro conjI impI pval_enough [OF _ ih(2,3)] parr_enough [OF _ ih(1,2)] pobj_enough [OF _ ih(1,3)])
qed simp

text \<open>So the reader of whole documents accepts exactly what it would accept with any amount of fuel.\<close>

lemma read_value_complete:
  "read_value s = Some (v, r) \<longleftrightarrow> (\<exists>f. pval f s = Some (v, r)) \<and> shallow maxNestingDepth v"
proof
  assume "(\<exists>f. pval f s = Some (v, r)) \<and> shallow maxNestingDepth v"
  then obtain f where p: "pval f s = Some (v, r)" "shallow maxNestingDepth v" by blast
  with readers_enough [of f s v r] have "pval (Suc (length s)) s = Some (v, r)" by (intro consumesD(2)) auto
  with p(2) show "read_value s = Some (v, r)" by (simp add: read_value_def)
next
  assume "read_value s = Some (v, r)"
  then show "(\<exists>f. pval f s = Some (v, r)) \<and> shallow maxNestingDepth v"
    by (auto simp: read_value_def simp del: pval.simps split: option.splits if_splits)
qed

lemma parse_json_complete:
  "parse_json s = Some v \<longleftrightarrow> (\<exists>f r. pval f s = Some (v, r) \<and> skip r = []) \<and> shallow maxNestingDepth v"
proof -
  have "parse_json s = Some v \<longleftrightarrow> (\<exists>r. read_value s = Some (v, r) \<and> skip r = [])"
    by (auto simp: parse_json_def split: option.splits if_splits)
  then show ?thesis by (auto simp: read_value_complete)
qed

end
