(* ===== verification/SvidCache.thy ===== *)
theory SvidCache
  imports Console
begin

text \<open>
  Two components over one cache entry: the token validator and the SVID endpoint both keep a tenant's keys under
  \<^verbatim>\<open>CacheKeySigningKeys\<close>, the validator without their private halves.
\<close>

text \<open>After a token has been accepted on a node whose cache had no keys of the tenant, the entry has public copies only.\<close>

lemma SigningKeys_stripped: "SigningKeys E org app w = (Inr ks, w') \<Longrightarrow> k \<in> set ks \<Longrightarrow> \<exists>k0. k = Some (k0\<lparr>key_PrivateKeyPEM := []\<rparr>)"
  by (auto simp: SigningKeys_def andThen_Inr ret_def)

lemma validation_caches:
  assumes "Validate E (NewTokenValidatorWithSource (SigningKeys E)) org app tok opts w = (Inr c, w1)"
    and "GetSigningKeys (w_cache w) org app (e_now E (w_tick w)) = None"
  obtains ks now where "ks \<noteq> []" and "\<forall>k \<in> set ks. \<exists>k0. k = Some (k0\<lparr>key_PrivateKeyPEM := []\<rparr>)"
    and "now \<in> range (e_now E)" and "w_cache w1 = SetSigningKeys (w_cache w) org app ks Hour now"
proof -
  let ?V = "NewTokenValidatorWithSource (SigningKeys E)" and ?w = "w\<lparr>w_tick := Suc (w_tick w)\<rparr>"
  from assms(1) obtain ks w2 where k: "keysFor E ?V org app w = (Inr ks, w2)"
    and v: "verify_jwt E tok ks (verify_options opts) w2 = (Inr c, w1)"
    by (auto simp: Validate_def andThen_Inr wrapErr_Inr guard_Inr split: if_splits)
  from k assms(2) have "from_source E ?V org app ?w = (Inr ks, w2)"
    by (simp add: keysFor_def andThen_Inr prims_eq)
  then obtain w3 where s: "SigningKeys E org app ?w = (Inr ks, w3)" and ne: "ks \<noteq> []"
    and w2: "w_cache w2 = SetSigningKeys (w_cache w3) org app ks Hour (e_now E (w_tick w3))"
    by (auto simp: from_source_def NewTokenValidatorWithSource_def andThen_Inr wrapErr_Inr guard_Inr prims_eq Let_def
        Hour_def Minute_def Second_def split: if_splits)
  have "w_cache w1 = w_cache w2" using arg_cong [OF v, of "\<lambda>x. w_cache (snd x)"] by (simp add: verify_jwt_def)
  moreover have "w_cache w3 = w_cache w" using keepsD [OF SigningKeys_keeps_cache s] by simp
  ultimately show thesis using that [of ks "e_now E (w_tick w3)"] ne w2 SigningKeys_stripped [OF s] by auto
qed

lemma bind_workload_cache: "bind_workload E h cert org wid w = (r, w') \<Longrightarrow> w_cache w' = w_cache w"
proof -
  have "keeps w_cache (bind_workload E h cert org wid)"
    unfolding bind_workload_def ValidateWorkloadCert_def by (intro keeps_rules)
  then show "bind_workload E h cert org wid w = (r, w') \<Longrightarrow> w_cache w' = w_cache w" by (rule keepsD)
qed

lemma stripped_cannot_sign:
  assumes "pem_decode (e_rsa E) [] = None" and "GetSigningKeys (w_cache w) org [] (e_now E (w_tick w)) = Some ks"
    and "ks \<noteq> []" and "\<forall>k \<in> set ks. \<exists>k0. k = Some (k0\<lparr>key_PrivateKeyPEM := []\<rparr>)"
  shows "sign_svid E h wl org wid body w \<noteq> (Inr resp, w')"
proof -
  from assms(3,4) obtain k0 ks' where k: "ks = Some (k0\<lparr>key_PrivateKeyPEM := []\<rparr>) # ks'" by (cases ks) auto
  have "SignJWT (e_rsa E) c [] kid = Inl PrivatePEMInvalid" for c kid
    using assms(1) by (simp add: SignJWT_def Let_def)
  then show ?thesis
    using assms(2) k
    by (auto simp: sign_svid_def org_keys_def andThen_Inr wrapErr_Inr IssueJWTSVID_def prims_eq Let_def)
qed

text \<open>
  C26. Validating a token takes SVIDs away: once a node whose cache held no keys of a tenant has accepted a token of it, the
  endpoint of that node issues no SVID for the tenant, whatever the certificate and the workload, as long as the entry is
  in the cache; it has found the keys the validator left there, which cannot sign.
\<close>

theorem validation_blocks_svids:
  assumes "Validate E (NewTokenValidatorWithSource (SigningKeys E)) org [] tok opts w0 = (Inr c, w1)"
    and "GetSigningKeys (w_cache w0) org [] (e_now E (w_tick w0)) = None"
    and "pem_decode (e_rsa E) [] = None" and "\<forall>m n. e_now E m \<le> e_now E n + Hour"
    and "w_cache w = w_cache w1" and "or_default (header_tenant r) = org" and "r_Method r \<noteq> ''OPTIONS''"
    and "HandleSVID E x509 h0 r w = (resp, w')"
  shows "rs_Status resp \<noteq> 200"
proof
  assume "rs_Status resp = 200"
  obtain h where h: "EnableCORS h0 r = Inr h" using assms(7) by (simp add: EnableCORS_Inr)
  from assms(8) \<open>rs_Status resp = 200\<close> obtain cert wl w2 where
    b: "bind_workload E h cert org (svid_workload_id r) w = (Inr wl, w2)"
    and s: "sign_svid E h wl org (svid_workload_id r) (svid_body r) w2 = (Inr resp, w')"
    by (auto simp: HandleSVID_def answer_iff h Let_def andThen_Inr andThen_Inl assms(6) split: if_splits sum.splits
        dest: bind_workload_Inl sign_svid_Inl)
  from validation_caches [OF assms(1,2)] obtain ks now where ks: "ks \<noteq> []"
    "\<forall>k \<in> set ks. \<exists>k0. k = Some (k0\<lparr>key_PrivateKeyPEM := []\<rparr>)"
    and now: "now \<in> range (e_now E)" and c: "w_cache w1 = SetSigningKeys (w_cache w0) org [] ks Hour now" .
  from now assms(4) have t: "e_now E (w_tick w2) \<le> now + Hour" by auto
  have "GetSigningKeys (w_cache w2) org [] (e_now E (w_tick w2)) = Some ks"
    unfolding bind_workload_cache [OF b] assms(5) c using mc.lookup_store [OF t]
    by (simp add: GetSigningKeys_def SetSigningKeys_def)
  from stripped_cannot_sign [OF assms(3) this ks] s show False by blast
qed

lemma validation_blocks_svids_witness:
  "\<exists>tok w1 resp w'. Validate demo_env (NewTokenValidatorWithSource (SigningKeys demo_env)) ''acme'' [] tok
       \<lparr>op_Issuer = ''iss'', op_Audience = ''api'', op_TokenUse = TokenUseAccess\<rparr> demo_world = (Inr demo_bearer, w1) \<and>
     HandleSVID demo_env (\<lambda>_. None) no_header demo_svid_post (endpoint_world\<lparr>w_cache := w_cache w1\<rparr>) = (resp, w') \<and>
     rs_Status resp \<noteq> 200"
proof -
  have "\<exists>tok. SignJWT demo_rsa demo_bearer ''priv'' ''1'' = Inr tok"
    using demo_signed [of demo_bearer] by (simp only: demo_key_simps)
  then obtain tok where tok: "SignJWT demo_rsa demo_bearer ''priv'' ''1'' = Inr tok" ..
  from demo_validated [OF tok demo_bearer_ok demo_bearer_valid] obtain w1 where
    v: "Validate demo_env (NewTokenValidatorWithSource (SigningKeys demo_env)) ''acme'' [] tok
       \<lparr>op_Issuer = ''iss'', op_Audience = ''api'', op_TokenUse = TokenUseAccess\<rparr> demo_world = (Inr demo_bearer, w1)" ..
  obtain resp w' where x: "HandleSVID demo_env (\<lambda>_. None) no_header demo_svid_post (endpoint_world\<lparr>w_cache := w_cache w1\<rparr>) = (resp, w')"
    by fastforce
  have "or_default (header_tenant demo_svid_post) = ''acme''" by code_simp
  moreover have "r_Method demo_svid_post \<noteq> ''OPTIONS''" by (simp add: demo_svid_post_def)
  moreover have "pem_decode (e_rsa demo_env) [] = None" by (simp add: demo_rsa_def)
  moreover have "\<forall>m n. e_now demo_env m \<le> e_now demo_env n + Hour" by (simp add: Hour_def Minute_def Second_def)
  moreover have "GetSigningKeys (w_cache demo_world) ''acme'' [] (e_now demo_env (w_tick demo_world)) = None"
    by (simp add: demo_no_keys_cached no_keys_cached)
  ultimately have "rs_Status resp \<noteq> 200" using validation_blocks_svids [OF v _ _ _ _ _ _ x] by simp
  with v x show ?thesis by blast
qed

end
