(* ===== verification/Overlap.thy ===== *)
theory Overlap
  imports Script
begin

text \<open>
  Requests that overlap. Nodes share one store and work on their jobs at the same time; what is atomic is a single storage call, and
  the calls of the nodes come in any order. A job in progress is its starting point with the replies it has had (\<open>Script\<close>). A node
  stands for one request at a time, so a process that serves many at once is many nodes: a job starts with any contents of the
  cache, and the engine's maps are written but not read.
\<close>

subsection \<open>Nodes at work\<close>

datatype activity = Idle "script world" | Busy job "script world" "reply list"

record 's cluster =
  k_store :: 's
  k_nodes :: "nat \<Rightarrow> activity"
  k_answers :: "(nat \<times> job \<times> outcome) list"

definition cluster_start :: "'s \<Rightarrow> 's cluster" where
  "cluster_start st = \<lparr>k_store = st, k_nodes = (\<lambda>n. Idle (new_world (script_of []))), k_answers = []\<rparr>"

inductive overlap_step :: "(nat \<Rightarrow> 's env) \<Rightarrow> (string \<Rightarrow> Cert option) \<Rightarrow> 's cluster \<Rightarrow> 's cluster \<Rightarrow> bool"
  for env :: "nat \<Rightarrow> 's env" and x509
where
  begins: "k_nodes s n = Idle w \<Longrightarrow>
    overlap_step env x509 s (s\<lparr>k_nodes := (k_nodes s)(n := Busy j (w\<lparr>w_cache := c\<rparr>) [])\<rparr>)"
| calls: "k_nodes s n = Busy j w rs \<Longrightarrow> pending (env n) x509 j w rs = Some c \<Longrightarrow>
    perform (e_ops (env n)) c (k_store s) = (r, st) \<Longrightarrow>
    overlap_step env x509 s (s\<lparr>k_store := st, k_nodes := (k_nodes s)(n := Busy j w (rs @ [r]))\<rparr>)"
| answers: "k_nodes s n = Busy j w rs \<Longrightarrow> pending (env n) x509 j w rs = None \<Longrightarrow> resume (env n) x509 j w rs = (out, w') \<Longrightarrow>
    overlap_step env x509 s (s\<lparr>k_nodes := (k_nodes s)(n := Idle w'), k_answers := k_answers s @ [(n, j, out)]\<rparr>)"
| crashes: "k_nodes s n = Busy j w rs \<Longrightarrow> resume (env n) x509 j w rs = (out, w') \<Longrightarrow>
    overlap_step env x509 s (s\<lparr>k_nodes := (k_nodes s)(n := Idle (restarted (w_store w') w'))\<rparr>)"

abbreviation overlap :: "(nat \<Rightarrow> 's env) \<Rightarrow> (string \<Rightarrow> Cert option) \<Rightarrow> 's cluster \<Rightarrow> 's cluster \<Rightarrow> bool" where
  "overlap env x509 \<equiv> (overlap_step env x509)\<^sup>*\<^sup>*"

text \<open>The memory a node's job started from, the calls it has made, and the replies it has had.\<close>

primrec memory :: "activity \<Rightarrow> script world" where
  "memory (Idle w) = w"
| "memory (Busy j w rs) = w"

primrec history :: "'s env \<Rightarrow> (string \<Rightarrow> Cert option) \<Rightarrow> activity \<Rightarrow> (call \<times> reply) list" where
  "history E x509 (Idle w) = []"
| "history E x509 (Busy j w rs) = past E x509 j w rs"

primrec replies :: "activity \<Rightarrow> reply list" where
  "replies (Idle w) = []"
| "replies (Busy j w rs) = rs"

subsection \<open>What a call does to the objects\<close>

definition versions_ok :: "(string \<Rightarrow> (string \<times> blob) option) \<Rightarrow> bool" where
  "versions_ok st \<longleftrightarrow> (\<forall>k v d. st k = Some (v, d) \<longrightarrow> v \<noteq> MatchAnyVersion)"

text \<open>No write gives an object the wild card as its version.\<close>

definition proper_versions :: "'s store_ops \<Rightarrow> ('s \<Rightarrow> string \<Rightarrow> (string \<times> blob) option) \<Rightarrow> bool" where
  "proper_versions ops objs \<longleftrightarrow>
     (\<forall>k d ev s r s'. st_Put ops k d ev s = (r, s') \<longrightarrow> versions_ok (objs s) \<longrightarrow> versions_ok (objs s'))"

context cas_store
begin

lemma perform_effect:
  assumes "perform ops c s = (r, s')"
  obtains (same) "objs s' = objs s" "\<And>k v. (c, r) \<noteq> (CDelete k v, RDelete (Inr ()))"
    | (put) k d ev v p where "c = CPut k d ev" "objs s' = (objs s)(k \<mapsto> (v, d))" "st_Put ops k d ev s = (p, s')"
    | (deleted) k v u where "c = CDelete k v" "r = RDelete u" "objs s' = (objs s)(k := None)"
        "v \<noteq> [] \<Longrightarrow> v \<noteq> MatchAnyVersion \<Longrightarrow> objs s k \<noteq> None"
proof (cases c)
  case (CGet k)
  with assms obtain g where "st_Get ops k s = (g, s')" "r = RGet g" by (auto split: prod.splits)
  with get_frame CGet show thesis by (intro same) auto
next
  case (CPut k d ev)
  with assms obtain p where p: "st_Put ops k d ev s = (p, s')" "r = RPut p" by (auto split: prod.splits)
  from p(1) show thesis
  proof (cases rule: put_cases)
    case (same e)
    with CPut p show thesis by (intro that(1)) auto
  next
    case (put v)
    with CPut p show thesis by (intro that(2)) auto
  qed
next
  case (CDelete k v)
  with assms obtain u where u: "st_Delete ops k v s = (u, s')" "r = RDelete u" by (auto split: prod.splits)
  from u(1) show thesis
  proof (cases rule: delete_cases)
    case (same e)
    with CDelete u show thesis by (intro that(1)) auto
  next
    case deleted
    with CDelete u show thesis by (intro that(3)) auto
  qed
next
  case (CList p)
  with assms obtain l where "st_List ops p s = (l, s')" "r = RList l" by (auto split: prod.splits)
  with list_frame CList show thesis by (intro same) auto
qed

lemma perform_good:
  assumes "perform ops c s = (r, s')" and "sessions_ok (objs s)" and "versions_ok (objs s)"
  shows "good_reply r"
proof (cases c)
  case (CGet k)
  with assms(1) obtain g where g: "st_Get ops k s = (g, s')" "r = RGet g" by (auto split: prod.splits)
  show ?thesis
  proof (cases g)
    case (Inr rec)
    with get_found g(1) have "sr_Key rec = k" "objs s k = Some (sr_Version rec, sr_Data rec)" by blast+
    with assms(2,3) Inr g(2) sessions_ok_readable show ?thesis by (auto simp: versions_ok_def)
  qed (simp add: g(2))
qed (use assms(1) in \<open>auto split: prod.splits\<close>)

end

subsection \<open>The invariant\<close>

text \<open>
  The record of a handle has been put, at some time: the handle is one that a node drew in a job it has finished, or the put is
  among the calls of a job in progress. A job has claimed the record if a versioned delete of it succeeded.
\<close>

definition issued :: "(nat \<Rightarrow> 's env) \<Rightarrow> (string \<Rightarrow> Cert option) \<Rightarrow> (nat \<Rightarrow> activity) \<Rightarrow> string \<Rightarrow> string \<Rightarrow> string \<Rightarrow> bool" where
  "issued env x509 nodes pre t k \<longleftrightarrow>
     (\<exists>n. drawn (env n) 0 (w_draw (memory (nodes n))) pre t \<or> k \<in> set (put_keys (map fst (history (env n) x509 (nodes n)))))"

definition claimed :: "(call \<times> reply) list \<Rightarrow> string \<Rightarrow> bool" where
  "claimed es k \<longleftrightarrow> (\<exists>v. (CDelete k v, RDelete (Inr ())) \<in> set es \<and> v \<noteq> [] \<and> v \<noteq> MatchAnyVersion)"

definition winners :: "string \<Rightarrow> (nat \<times> job \<times> outcome) list \<Rightarrow> (nat \<times> job \<times> outcome) list" where
  "winners k as = List.filter (\<lambda>(n, j, out). redeems k j out) as"

definition cluster_ok :: "('s \<Rightarrow> string \<Rightarrow> (string \<times> blob) option) \<Rightarrow> bool \<Rightarrow> 's cluster \<Rightarrow> bool" where
  "cluster_ok objs typed s \<longleftrightarrow> sessions_ok (objs (k_store s)) \<and> versions_ok (objs (k_store s)) \<and> (typed \<longrightarrow> well_typed (objs (k_store s))) \<and>
     (\<forall>n. \<forall>r \<in> set (replies (k_nodes s n)). good_reply r)"

text \<open>A record is claimed once: by one job in progress or by one that has been answered.\<close>

definition claimed_once ::
  "(nat \<Rightarrow> 's env) \<Rightarrow> (string \<Rightarrow> Cert option) \<Rightarrow> string \<Rightarrow> string \<Rightarrow> string \<Rightarrow> (string \<times> blob) option \<Rightarrow> (nat \<Rightarrow> activity) \<Rightarrow>
     nat \<Rightarrow> bool" where
  "claimed_once env x509 pre t k obj nodes wins \<longleftrightarrow>
     (obj \<noteq> None \<longrightarrow> issued env x509 nodes pre t k) \<and>
     (wins > 0 \<or> (\<exists>n. claimed (history (env n) x509 (nodes n)) k) \<longrightarrow> obj = None \<and> issued env x509 nodes pre t k) \<and>
     (\<forall>n m. claimed (history (env n) x509 (nodes n)) k \<longrightarrow> claimed (history (env m) x509 (nodes m)) k \<longrightarrow> n = m) \<and>
     (wins > 0 \<longrightarrow> (\<forall>n. \<not> claimed (history (env n) x509 (nodes n)) k)) \<and> wins \<le> 1"

lemma claimed_snoc: "claimed (es @ [(c, r)]) k \<longleftrightarrow>
    claimed es k \<or> (\<exists>v. c = CDelete k v \<and> r = RDelete (Inr ()) \<and> v \<noteq> [] \<and> v \<noteq> MatchAnyVersion)"
  by (auto simp: claimed_def)

lemma winners_snoc: "length (winners k (as @ [(n, j, out)])) = length (winners k as) + (if redeems k j out then 1 else 0)"
  by (simp add: winners_def)

locale overlapping =
  fixes env :: "nat \<Rightarrow> 's env" and x509 :: "string \<Rightarrow> Cert option" and objs :: "'s \<Rightarrow> string \<Rightarrow> (string \<times> blob) option"
  assumes contract: "cas_store (e_ops (env n)) objs" and proper: "proper_versions (e_ops (env n)) objs" and fresh: "fresh_draws env"
begin

abbreviation hist :: "nat \<Rightarrow> activity \<Rightarrow> (call \<times> reply) list" where
  "hist n a \<equiv> history (env n) x509 a"

abbreviation put_in :: "nat \<Rightarrow> activity \<Rightarrow> string set" where
  "put_in n a \<equiv> set (put_keys (map fst (hist n a)))"

lemma once: "draws_once (env n)"
  using fresh unfolding fresh_draws_def draws_once_def by blast

text \<open>What is known of a job in progress.\<close>

lemma busy_conduct:
  assumes "resume (env n) x509 j w rs = (out, w')" and "\<forall>x \<in> set rs. good_reply x"
  shows "conduct (env n) (w_draw w) None (w_draw w') (w_store w')"
  by (rule resume_conduct [OF once assms])

lemma busy_draws:
  assumes "resume (env n) x509 j w rs = (out, w')" and "\<forall>x \<in> set rs. good_reply x"
  shows "w_draw w \<le> w_draw w'"
  using busy_conduct [OF assms] by (simp add: conduct_def)

lemma busy_put:
  assumes x: "resume (env n) x509 j w rs = (out, w')" and good: "\<forall>x \<in> set rs. good_reply x"
    and "one_time pre t k" and "k \<in> put_in n (Busy j w rs)"
  shows "drawn (env n) (w_draw w) (w_draw w') pre t"
  using busy_conduct [OF x good] assms(3,4) x by (auto simp: conduct_def drawn_puts_def asked_def past_def)

lemma pending_put:
  assumes good: "\<forall>x \<in> set rs. good_reply x" and "pending (env n) x509 j w rs = Some (CPut k d v)"
  shows "tenant_object k d \<or> session_entry k d"
    and "one_time pre t k \<Longrightarrow> k \<notin> put_in n (Busy j w rs) \<and> (\<exists>e. drawn (env n) (w_draw w) e pre t)"
proof -
  obtain out w' where x: "resume (env n) x509 j w rs = (out, w')" by fastforce
  note c = busy_conduct [OF x good]
  have a: "asked (w_store w') = map fst (past (env n) x509 j w rs) @ [CPut k d v]"
    using assms(2) x by (simp add: asked_def past_def pending_def)
  from c a show "tenant_object k d \<or> session_entry k d" by (auto simp: conduct_def typed_puts_def)
  assume k: "one_time pre t k"
  from c a have "single_puts (map fst (past (env n) x509 j w rs) @ [CPut k d v])" by (simp add: conduct_def)
  with k have "count_list (put_keys (map fst (past (env n) x509 j w rs) @ [CPut k d v])) k \<le> 1"
    unfolding single_puts_def by blast
  then have "k \<notin> put_in n (Busy j w rs)" by (simp add: count_list_0_iff)
  moreover from c k a have "drawn (env n) (w_draw w) (w_draw w') pre t" by (auto simp: conduct_def drawn_puts_def)
  ultimately show "k \<notin> put_in n (Busy j w rs) \<and> (\<exists>e. drawn (env n) (w_draw w) e pre t)" by blast
qed

text \<open>The handle of a one-time record that is about to be put has never been put.\<close>

lemma pending_not_issued:
  assumes good: "\<forall>m. \<forall>x \<in> set (replies (nodes m)). good_reply x" and n: "nodes n = Busy j w rs"
    and p: "pending (env n) x509 j w rs = Some (CPut k d v)" and k: "one_time pre t k"
  shows "\<not> issued env x509 nodes pre t k"
proof
  have rs: "\<forall>x \<in> set rs. good_reply x" using good n by (metis replies.simps(2))
  from pending_put(2) [OF rs p k] obtain e where new: "k \<notin> put_in n (Busy j w rs)" and d: "drawn (env n) (w_draw w) e pre t" by blast
  assume "issued env x509 nodes pre t k"
  then obtain m where "drawn (env m) 0 (w_draw (memory (nodes m))) pre t \<or> k \<in> put_in m (nodes m)" unfolding issued_def by blast
  then show False
  proof
    assume "drawn (env m) 0 (w_draw (memory (nodes m))) pre t"
    from drawn_once [OF fresh this d] n show False by auto
  next
    assume m: "k \<in> put_in m (nodes m)"
    then obtain j' w1 rs' where b: "nodes m = Busy j' w1 rs'" by (cases "nodes m") auto
    have rs': "\<forall>x \<in> set rs'. good_reply x" using good b by (metis replies.simps(2))
    obtain out w' where x: "resume (env m) x509 j' w1 rs' = (out, w')" by fastforce
    from busy_put [OF x rs' k] m b have "drawn (env m) (w_draw w1) (w_draw w') pre t" by simp
    then have "drawn (env m) 0 (w_draw w') pre t" unfolding drawn_def by blast
    from drawn_once [OF fresh this d] have "m = n" by blast
    with m n new show False by simp
  qed
qed

text \<open>The store stays well formed and, if it is, well typed, and the replies are what it holds.\<close>

lemma cluster_ok_step:
  assumes "overlap_step env x509 s s'" and ok: "cluster_ok objs typed s"
  shows "cluster_ok objs typed s'"
  using assms(1)
proof cases
  case (begins n w j c)
  with ok show ?thesis by (simp add: cluster_ok_def)
next
  case (calls n j w rs c r st)
  have rs: "\<forall>x \<in> set rs. good_reply x" using ok calls(2) unfolding cluster_ok_def by (metis replies.simps(2))
  have st: "sessions_ok (objs (k_store s))" "versions_ok (objs (k_store s))" "typed \<longrightarrow> well_typed (objs (k_store s))"
    using ok by (simp_all add: cluster_ok_def)
  have r: "good_reply r" by (rule cas_store.perform_good [OF contract calls(4) st(1,2)])
  have "sessions_ok (objs st) \<and> versions_ok (objs st) \<and> (typed \<longrightarrow> well_typed (objs st))"
  proof (rule cas_store.perform_effect [OF contract calls(4)])
    show ?thesis if "objs st = objs (k_store s)" using st that by simp
  next
    fix k d ev v p
    assume c: "c = CPut k d ev" and o': "objs st = (objs (k_store s))(k \<mapsto> (v, d))" and p: "st_Put (e_ops (env n)) k d ev (k_store s) = (p, st)"
    from pending_put(1) [OF rs] calls(3) c have "tenant_object k d \<or> session_entry k d" by blast
    moreover have "versions_ok (objs st)" using proper p st(2) unfolding proper_versions_def by blast
    ultimately show ?thesis using st sessions_ok_put well_typed_put session_entry_object o' by auto
  next
    fix k
    assume "objs st = (objs (k_store s))(k := None)"
    with st sessions_ok_delete well_typed_delete show ?thesis by (simp add: versions_ok_def)
  qed
  with ok r rs calls(1) show ?thesis by (simp add: cluster_ok_def)
next
  case (answers n j w rs out w')
  with ok show ?thesis by (simp add: cluster_ok_def)
next
  case (crashes n j w rs out w')
  with ok show ?thesis by (simp add: cluster_ok_def)
qed

text \<open>A node that begins a job: nothing is called yet.\<close>

lemma begins_keeps:
  assumes "nodes n = Idle w"
  shows "claimed_once env x509 pre t k obj (nodes(n := Busy j (w\<lparr>w_cache := c\<rparr>) [])) wins =
    claimed_once env x509 pre t k obj nodes wins"
proof -
  have "hist m ((nodes(n := Busy j (w\<lparr>w_cache := c\<rparr>) [])) m) = hist m (nodes m)" for m
    using assms by (simp add: past_start)
  moreover have "w_draw (memory ((nodes(n := Busy j (w\<lparr>w_cache := c\<rparr>) [])) m)) = w_draw (memory (nodes m))" for m
    using assms by simp
  ultimately show ?thesis unfolding claimed_once_def issued_def by presburger
qed

text \<open>A node that ends its job, answered or not: its calls are behind it, and the handles it drew count as drawn.\<close>

lemma issued_ended:
  assumes n: "nodes n = Busy j w rs" and x: "resume (env n) x509 j w rs = (out, w')" and good: "\<forall>x \<in> set rs. good_reply x"
    and k: "one_time pre t k" and i: "issued env x509 nodes pre t k" and w: "w_draw w'' = w_draw w'"
  shows "issued env x509 (nodes(n := Idle w'')) pre t k"
proof -
  from i obtain m where m: "drawn (env m) 0 (w_draw (memory (nodes m))) pre t \<or> k \<in> put_in m (nodes m)" unfolding issued_def by blast
  show ?thesis
  proof (cases "m = n")
    case False
    with m show ?thesis unfolding issued_def by (intro exI [of _ m]) simp
  next
    case True
    from m have "drawn (env n) 0 (w_draw w') pre t"
    proof
      assume "drawn (env m) 0 (w_draw (memory (nodes m))) pre t"
      with True n busy_draws [OF x good] show ?thesis by (auto intro: drawn_later)
    next
      assume "k \<in> put_in m (nodes m)"
      with True n busy_put [OF x good k] have "drawn (env n) (w_draw w) (w_draw w') pre t" by simp
      then show ?thesis unfolding drawn_def by blast
    qed
    with w show ?thesis unfolding issued_def by (intro exI [of _ n]) simp
  qed
qed

lemma ended_keeps:
  assumes "nodes n = Busy j w rs" and "resume (env n) x509 j w rs = (out, w')" and good: "\<forall>x \<in> set rs. good_reply x"
    and k: "one_time pre t k" and "w_draw w'' = w_draw w'" and once: "claimed_once env x509 pre t k obj nodes wins"
    and won: "won \<Longrightarrow> claimed (past (env n) x509 j w rs) k"
  shows "claimed_once env x509 pre t k obj (nodes(n := Idle w'')) (wins + (if won then 1 else 0))"
proof -
  let ?nodes = "nodes(n := Idle w'')"
  note issued = issued_ended [where nodes = nodes and n = n, OF assms(1-3) k _ assms(5)]
  have claims: "claimed (hist m (?nodes m)) k \<longleftrightarrow> m \<noteq> n \<and> claimed (hist m (nodes m)) k" for m
    by (simp add: claimed_def)
  have holder: "claimed (hist n (nodes n)) k" if won using won that assms(1) by simp
  show ?thesis
  proof (cases won)
    case True
    from holder [OF True] once have "wins = 0" "obj = None" "issued env x509 nodes pre t k"
      "\<And>m. claimed (hist m (nodes m)) k \<Longrightarrow> m = n"
      unfolding claimed_once_def by blast+
    with True issued show ?thesis unfolding claimed_once_def claims by auto
  next
    case False
    with once issued show ?thesis unfolding claimed_once_def claims by simp blast
  qed
qed

text \<open>A storage call of a node.\<close>

lemma issued_called:
  assumes "nodes n = Busy j w rs" and "pending (env n) x509 j w rs = Some c" and "issued env x509 nodes pre t k"
  shows "issued env x509 (nodes(n := Busy j w (rs @ [r]))) pre t k"
proof -
  from assms(3) obtain m where m: "drawn (env m) 0 (w_draw (memory (nodes m))) pre t \<or> k \<in> put_in m (nodes m)"
    unfolding issued_def by blast
  with assms(1,2) show ?thesis
    unfolding issued_def by (intro exI [of _ m]) (auto simp: past_further [OF assms(2)])
qed

lemma called_keeps:
  assumes n: "nodes n = Busy j w rs" and p: "pending (env n) x509 j w rs = Some c" and c: "perform (e_ops (env n)) c st = (r, st')"
    and good: "\<forall>m. \<forall>x \<in> set (replies (nodes m)). good_reply x" and k: "one_time pre t k"
    and once: "claimed_once env x509 pre t k (objs st k) nodes wins"
  shows "claimed_once env x509 pre t k (objs st' k) (nodes(n := Busy j w (rs @ [r]))) wins"
proof -
  let ?nodes = "nodes(n := Busy j w (rs @ [r]))"
  note issued = issued_called [where nodes = nodes and n = n and r = r, OF n p]
  have claims: "claimed (hist m (?nodes m)) k \<longleftrightarrow> claimed (hist m (nodes m)) k \<or>
      m = n \<and> (\<exists>v. c = CDelete k v \<and> r = RDelete (Inr ()) \<and> v \<noteq> [] \<and> v \<noteq> MatchAnyVersion)" for m
    using n by (simp add: past_further [OF p] claimed_snoc)
  show ?thesis
  proof (rule cas_store.perform_effect [OF contract c])
    assume "objs st' = objs st" and "\<And>k v. (c, r) \<noteq> (CDelete k v, RDelete (Inr ()))"
    then have "claimed (hist m (?nodes m)) k \<longleftrightarrow> claimed (hist m (nodes m)) k" for m unfolding claims by auto
    with once issued \<open>objs st' = objs st\<close> show ?thesis unfolding claimed_once_def by simp
  next
    fix k' d ev v
    assume e: "c = CPut k' d ev" "objs st' = (objs st)(k' \<mapsto> (v, d))"
    have same: "claimed (hist m (?nodes m)) k \<longleftrightarrow> claimed (hist m (nodes m)) k" for m using claims [of m] e(1) by simp
    show ?thesis
    proof (cases "k' = k")
      case False
      with once issued e(2) show ?thesis unfolding claimed_once_def same by simp
    next
      case True
      have "k \<in> put_in n (?nodes n)" using True e(1) by (simp add: past_further [OF p])
      then have new: "issued env x509 ?nodes pre t k" unfolding issued_def by blast
      have "\<not> issued env x509 nodes pre t k" using pending_not_issued [where nodes = nodes, OF good n _ k] p e(1) True by blast
      with once new show ?thesis unfolding claimed_once_def same by blast
    qed
  next
    fix k' v u
    assume e: "c = CDelete k' v" "r = RDelete u" "objs st' = (objs st)(k' := None)"
      "v \<noteq> [] \<Longrightarrow> v \<noteq> MatchAnyVersion \<Longrightarrow> objs st k' \<noteq> None"
    show ?thesis
    proof (cases "k' = k \<and> u = Inr () \<and> v \<noteq> [] \<and> v \<noteq> MatchAnyVersion")
      case False
      then have same: "claimed (hist m (?nodes m)) k \<longleftrightarrow> claimed (hist m (nodes m)) k" for m using claims [of m] e(1,2) by auto
      have "objs st' k = None \<or> objs st' k = objs st k" using e(3) by simp
      with once issued show ?thesis unfolding claimed_once_def same by metis
    next
      case True
      with e(4) have here: "objs st k \<noteq> None" by simp
      with once have "issued env x509 nodes pre t k" "wins = 0" "\<And>m. \<not> claimed (hist m (nodes m)) k"
        unfolding claimed_once_def by (blast, simp, blast)
      moreover from claims True e(1,2) have "claimed (hist m (?nodes m)) k \<longleftrightarrow> m = n \<or> claimed (hist m (nodes m)) k" for m by auto
      ultimately show ?thesis using True e(3) issued unfolding claimed_once_def by auto
    qed
  qed
qed

lemma claimed_once_step:
  assumes "overlap_step env x509 s s'" and ok: "cluster_ok objs typed s" and k: "one_time pre t k"
    and once: "claimed_once env x509 pre t k (objs (k_store s) k) (k_nodes s) (length (winners k (k_answers s)))"
  shows "claimed_once env x509 pre t k (objs (k_store s') k) (k_nodes s') (length (winners k (k_answers s')))"
  using assms(1)
proof cases
  case (begins n w j c)
  with once begins_keeps show ?thesis by simp
next
  case (calls n j w rs c r st)
  with called_keeps [OF calls(2-4) _ k once] ok show ?thesis by (simp add: cluster_ok_def)
next
  case (answers n j w rs out w')
  have good: "\<forall>x \<in> set rs. good_reply x" using ok answers(2) unfolding cluster_ok_def by (metis replies.simps(2))
  have "claimed (past (env n) x509 j w rs) k" if "redeems k j out"
    using redeems_claimed [OF that answers(4) good] unfolding claimed_def by blast
  from ended_keeps [OF answers(2,4) good k refl once this] answers(1) show ?thesis by (simp add: winners_snoc)
next
  case (crashes n j w rs out w')
  have good: "\<forall>x \<in> set rs. good_reply x" using ok crashes(2) unfolding cluster_ok_def by (metis replies.simps(2))
  have "w_draw (restarted (w_store w') w') = w_draw w'" by (simp add: restarted_def)
  from ended_keeps [OF crashes(2,3) good k this once, of False] crashes(1) show ?thesis by simp
qed

text \<open>In every state the nodes can reach.\<close>

lemma overlap_invariant:
  assumes "overlap env x509 (cluster_start st) s" and "\<And>k. \<not> HasPrefix k ''organizations/'' \<Longrightarrow> objs st k = None"
    and "versions_ok (objs st)"
  shows "cluster_ok objs (well_typed (objs st)) s \<and> (\<forall>pre t k. one_time pre t k \<longrightarrow>
    claimed_once env x509 pre t k (objs (k_store s) k) (k_nodes s) (length (winners k (k_answers s))))"
  using assms(1)
proof (induction rule: rtranclp_induct)
  case base
  have none: "objs st k = None" if "one_time pre t k" for pre t k
    using assms(2) that by (auto simp: one_time_def key_defs HasPrefix_def)
  then show ?case
    using assms(3) by (auto simp: cluster_start_def cluster_ok_def sessions_ok_def claimed_once_def claimed_def winners_def)
next
  case (step y z)
  then show ?case using cluster_ok_step claimed_once_step by blast
qed

end

end
