(* ===== verification/Serial.thy ===== *)
theory Serial
  imports Overlap Typing
begin

text \<open>
  A job that is not interrupted is a run over the real store: the calls it makes, recorded, are a script on which it does the same.
  So what \<open>service\<close> does in one step the nodes of \<open>Overlap\<close> can do call by call.
\<close>

subsection \<open>Recording a run\<close>

primrec perform_all :: "'s store_ops \<Rightarrow> call list \<Rightarrow> 's \<Rightarrow> reply list \<times> 's" where
  "perform_all ops [] s = ([], s)"
| "perform_all ops (c # cs) s =
     (case perform ops c s of (r, s1) \<Rightarrow> (case perform_all ops cs s1 of (rs, s2) \<Rightarrow> (r # rs, s2)))"

lemma perform_all_snoc:
  "perform_all ops (cs @ [c]) s =
     (case perform_all ops cs s of (rs, s1) \<Rightarrow> (case perform ops c s1 of (r, s2) \<Rightarrow> (rs @ [r], s2)))"
  by (induction cs arbitrary: s) (auto split: prod.splits)

type_synonym 's recorder = "'s \<times> (call \<times> reply) list"

definition record_call :: "'s store_ops \<Rightarrow> call \<Rightarrow> 's recorder \<Rightarrow> reply \<times> 's recorder" where
  "record_call ops c s = (case perform ops c (fst s) of (r, t) \<Rightarrow> (r, (t, snd s @ [(c, r)])))"

definition recording :: "'s store_ops \<Rightarrow> 's recorder store_ops" where
  "recording ops = \<lparr>
     st_Get = (\<lambda>k s. case record_call ops (CGet k) s of (r, s') \<Rightarrow> (got k (Some r), s')),
     st_Put = (\<lambda>k d v s. case record_call ops (CPut k d v) s of (r, s') \<Rightarrow> (put_result (Some r), s')),
     st_Delete = (\<lambda>k v s. case record_call ops (CDelete k v) s of (r, s') \<Rightarrow> (delete_result (Some r), s')),
     st_List = (\<lambda>p s. case record_call ops (CList p) s of (r, s') \<Rightarrow> (list_result (Some r), s'))\<rparr>"

text \<open>The recorder makes the calls of the store under it.\<close>

definition recorded :: "'s store_ops \<Rightarrow> 's \<Rightarrow> 's \<Rightarrow> 's recorder \<Rightarrow> bool" where
  "recorded ops s0 s t \<longleftrightarrow> fst t = s \<and> perform_all ops (map fst (snd t)) s0 = (map snd (snd t), s)"

lemma recorded_pair:
  assumes "\<And>s r s'. perform ops c s = (r, s') \<Longrightarrow> m s = (f r, s')"
  shows "paired (recorded ops s0) (\<lambda>_ _. False) m (\<lambda>t. case record_call ops c t of (r, t') \<Rightarrow> (f r, t'))"
proof (rule pairedI)
  fix s t x s' y t'
  assume st: "recorded ops s0 s t" and m: "m s = (x, s')" and r: "(case record_call ops c t of (r, t') \<Rightarrow> (f r, t')) = (y, t')"
  obtain r' s1 where p: "perform ops c s = (r', s1)" by fastforce
  with assms m have "x = f r'" "s' = s1" by auto
  moreover from p st r have "y = f r'" "t' = (s1, snd t @ [(c, r')])" by (auto simp: recorded_def record_call_def)
  ultimately show "x = y \<and> recorded ops s0 s' t' \<or> False" using p st by (simp add: recorded_def perform_all_snoc)
qed simp_all

lemma recording_pair:
  assumes "cas_store (e_ops E) objs"
  shows "paired_stores E (over (recording (e_ops E)) E) (recorded (e_ops E) s0) (\<lambda>_ _. False)"
proof (rule paired_stores.intro)
  have got: "got k (Some (RGet g)) = g" if "st_Get (e_ops E) k s = (g, s')" for k s g s'
    using cas_store.get_found [OF assms] that by (cases g) auto
  let ?P = "paired (recorded (e_ops E) s0) (\<lambda>_ _. False)" and ?F = "over (recording (e_ops E)) E"
  show "same_surroundings E ?F" by (rule over_surroundings)
  fix k d v
  show "?P (st_Get (e_ops E) k) (st_Get (e_ops ?F) k)"
    unfolding recording_def over_simps store_ops.simps by (rule recorded_pair) (auto simp: got split: prod.splits)
  show "?P (st_Put (e_ops E) k d v) (st_Put (e_ops ?F) k d v)"
    unfolding recording_def over_simps store_ops.simps by (rule recorded_pair) (auto split: prod.splits)
  show "?P (st_Delete (e_ops E) k v) (st_Delete (e_ops ?F) k v)"
    unfolding recording_def over_simps store_ops.simps by (rule recorded_pair) (auto split: prod.splits)
  show "?P (st_List (e_ops E) k) (st_List (e_ops ?F) k)"
    unfolding recording_def over_simps store_ops.simps by (rule recorded_pair) (auto split: prod.splits)
qed

text \<open>A script of what is recorded in the end gives the same replies.\<close>

definition replays :: "(call \<times> reply) list \<Rightarrow> 's recorder \<Rightarrow> script \<Rightarrow> bool" where
  "replays es t s \<longleftrightarrow> (\<exists>zs. es = snd t @ zs \<and> sc_past s = snd t \<and> sc_rest s = map snd zs \<and> sc_next s = None)"

definition departed :: "(call \<times> reply) list \<Rightarrow> 's recorder \<Rightarrow> script \<Rightarrow> bool" where
  "departed es t s \<longleftrightarrow> (\<forall>zs. es \<noteq> snd t @ zs)"

lemma departs: "departed es t s \<Longrightarrow> record_call ops c t = (r, t') \<Longrightarrow> departed es t' s"
  by (auto simp: departed_def record_call_def split: prod.splits)

lemma replays_call:
  assumes "replays es t s" and "record_call ops c t = (r, t')" and "ask c s = (q, s')"
  shows "q = Some r \<and> replays es t' s' \<or> departed es t' s'"
proof -
  from assms(1) obtain zs where zs: "es = snd t @ zs" "sc_past s = snd t" "sc_rest s = map snd zs" "sc_next s = None"
    unfolding replays_def by blast
  from assms(2) have t': "snd t' = snd t @ [(c, r)]" by (auto simp: record_call_def split: prod.splits)
  show ?thesis
  proof (cases "\<exists>ys. zs = (c, r) # ys")
    case True
    with assms(3) zs t' show ?thesis by (auto simp: ask_def replays_def)
  next
    case False
    with zs(1) t' show ?thesis by (auto simp: departed_def)
  qed
qed

lemma replaying_pair: "paired_stores (over (recording ops) E) (scripted E) (replays es) (departed es)"
proof (rule paired_stores.intro)
  have p: "paired (replays es) (departed es) (\<lambda>t. case record_call ops c t of (r, t') \<Rightarrow> (f (Some r), t'))
      (\<lambda>s. case ask c s of (q, s') \<Rightarrow> (f q, s'))" for c and f :: "reply option \<Rightarrow> 'x"
  proof (rule pairedI)
    fix t s x t' y s'
    assume ts: "replays es t s" and "(case record_call ops c t of (r, t') \<Rightarrow> (f (Some r), t')) = (x, t')"
      and "(case ask c s of (q, s') \<Rightarrow> (f q, s')) = (y, s')"
    then obtain r q where "record_call ops c t = (r, t')" "x = f (Some r)" "ask c s = (q, s')" "y = f q"
      by (auto split: prod.splits)
    with replays_call [OF ts] show "x = y \<and> replays es t' s' \<or> departed es t' s'" by blast
  next
    fix t s x t'
    assume "departed es t s" and "(case record_call ops c t of (r, t') \<Rightarrow> (f (Some r), t')) = (x, t')"
    then show "departed es t' s" by (auto dest: departs split: prod.splits)
  qed (simp add: departed_def)
  fix k d v
  let ?P = "paired (replays es) (departed es)"
  show "same_surroundings (over (recording ops) E) (scripted E)" by (rule over_surroundings)
  show "?P (st_Get (e_ops (over (recording ops) E)) k) (st_Get (e_ops (scripted E)) k)"
    by (simp add: recording_def script_ops_def p)
  show "?P (st_Put (e_ops (over (recording ops) E)) k d v) (st_Put (e_ops (scripted E)) k d v)"
    by (simp add: recording_def script_ops_def p)
  show "?P (st_Delete (e_ops (over (recording ops) E)) k v) (st_Delete (e_ops (scripted E)) k v)"
    by (simp add: recording_def script_ops_def p)
  show "?P (st_List (e_ops (over (recording ops) E)) k) (st_List (e_ops (scripted E)) k)"
    by (simp add: recording_def script_ops_def p)
qed

interpretation replaying: paired_stores "over (recording ops) E" "scripted E" "replays es" "departed es" for ops E es
  by (rule replaying_pair)

text \<open>A world over another store.\<close>

definition with_store :: "'t \<Rightarrow> 's world \<Rightarrow> 't world" where
  "with_store t w = \<lparr>w_store = t, w_cache = w_cache w, w_states = w_states w, w_codes = w_codes w, w_tick = w_tick w,
     w_draw = w_draw w, w_gen = w_gen w, w_req = w_req w\<rparr>"

lemma with_store_memory: "same_memory w (with_store t w)" "same_memory (with_store t w) (with_store t' w)" "w_store (with_store t w) = t"
  by (simp_all add: with_store_def same_memory_def)

lemma same_memory_store: "same_memory v w \<Longrightarrow> w\<lparr>w_store := t\<rparr> = with_store t v"
  by (simp add: same_memory_def with_store_def)

lemma run_recorded:
  assumes x: "run E x509 j w = (out, w')" and cas: "cas_store (e_ops E) objs" and v: "same_memory w v"
  obtains es v' where "perform_all (e_ops E) (map fst es) (w_store w) = (map snd es, w_store w')"
    and "resume E x509 j v (map snd es) = (out, v')" and "same_memory w' v'" and "past E x509 j v (map snd es) = es"
    and "pending E x509 j v (map snd es) = None"
proof -
  let ?R = "over (recording (e_ops E)) E"
  obtain q t where r: "run ?R x509 j (with_store (w_store w, []) w) = (q, t)" by fastforce
  have "alike (recorded (e_ops E) (w_store w)) w (with_store (w_store w, []) w)"
    by (simp add: alike_def with_store_memory recorded_def)
  from paired_step [OF paired_stores.pair_run [OF recording_pair [OF cas]] this x r]
  have rec: "out = q" "same_memory w' t" "recorded (e_ops E) (w_store w) (w_store w') (w_store t)"
    by (auto simp: alike_def apart_def)
  let ?es = "snd (w_store t)"
  obtain p v' where s: "resume E x509 j v (map snd ?es) = (p, v')" by fastforce
  have "alike (replays ?es) (with_store (w_store w, []) w) (v\<lparr>w_store := script_of (map snd ?es)\<rparr>)"
    using same_memory_store [OF v] by (simp add: alike_def with_store_memory replays_def script_of_def)
  from paired_step [OF replaying.pair_run this r] s
  have rep: "q = p" "same_memory t v'" "replays ?es (w_store t) (w_store v')"
    by (auto simp: resume_def alike_def apart_def departed_def)
  from rep(3) s have "past E x509 j v (map snd ?es) = ?es" "pending E x509 j v (map snd ?es) = None"
    by (auto simp: replays_def past_def pending_def)
  moreover from rec(2) rep(2) have "same_memory w' v'" by (simp add: same_memory_def)
  ultimately show thesis using that [of ?es v'] rec rep(1) s by (simp add: recorded_def)
qed

subsection \<open>Call by call\<close>

text \<open>After the first of the recorded replies a job waits for the reply to the next call.\<close>

lemma script_waits:
  assumes "past E x509 j v (map snd (ds @ e # es)) = ds @ e # es"
  shows "pending E x509 j v (map snd ds) = Some (fst e)"
proof -
  let ?extra = "map snd (e # es)"
  obtain out u where x: "resume E x509 j v (map snd ds) = (out, u)" by fastforce
  obtain out' u' where y: "resume E x509 j v (map snd ds @ ?extra) = (out', u')" by fastforce
  from assms y have p: "sc_past (w_store u') = ds @ e # es" by (simp add: past_def)
  from resume_further [OF _ x y] have "in_step (map snd ds) ?extra (w_store u) (w_store u') \<or> ahead (map snd ds) ?extra (w_store u) (w_store u')"
    by auto
  then show ?thesis
  proof
    assume "in_step (map snd ds) ?extra (w_store u) (w_store u')"
    then have "map snd (ds @ e # es) @ sc_rest (w_store u) = map snd ds" using p by (simp add: in_step_def)
    then have False by (auto dest: arg_cong [where f = length])
    then show ?thesis ..
  next
    assume "ahead (map snd ds) ?extra (w_store u) (w_store u')"
    then obtain c cs where c: "sc_next (w_store u) = Some c" "ds @ e # es = sc_past (w_store u) @ (c, snd e) # cs"
      "map snd (sc_past (w_store u)) = map snd ds" using p by (auto simp: ahead_def)
    from c(3) have "length (sc_past (w_store u)) = length ds" by (metis length_map)
    with c(2) have "e = (c, snd e)" by auto
    with c(1) x show ?thesis by (simp add: pending_def) (metis fst_conv)
  qed
qed

lemma job_steps:
  assumes "perform_all (e_ops (env n)) (map fst es) (k_store s) = (map snd es, st')"
    and "k_nodes s n = Busy j v (map snd ds)" and "past (env n) x509 j v (map snd (ds @ es)) = ds @ es"
  shows "overlap env x509 s (s\<lparr>k_store := st', k_nodes := (k_nodes s)(n := Busy j v (map snd (ds @ es)))\<rparr>)"
  using assms
proof (induction es arbitrary: ds s)
  case Nil
  then have "k_store s = st'" "k_nodes s n = Busy j v (map snd ds)" by simp_all
  then have "s\<lparr>k_store := st', k_nodes := (k_nodes s)(n := Busy j v (map snd ds))\<rparr> = s" by (cases s) (auto simp: fun_upd_idem)
  then show ?case by (simp only: append_Nil2 rtranclp.rtrancl_refl)
next
  case (Cons e es)
  obtain st1 where c: "perform (e_ops (env n)) (fst e) (k_store s) = (snd e, st1)"
    and cs: "perform_all (e_ops (env n)) (map fst es) st1 = (map snd es, st')"
    using Cons.prems(1) by (auto split: prod.splits)
  let ?s = "s\<lparr>k_store := st1, k_nodes := (k_nodes s)(n := Busy j v (map snd ds @ [snd e]))\<rparr>"
  have "overlap_step env x509 s ?s"
    by (rule overlap_step.calls [where w = v and rs = "map snd ds"]) (use Cons.prems(2) script_waits [OF Cons.prems(3)] c in simp_all)
  also have "overlap env x509 ?s (?s\<lparr>k_store := st', k_nodes := (k_nodes ?s)(n := Busy j v (map snd ((ds @ [e]) @ es)))\<rparr>)"
    by (rule Cons.IH) (use cs Cons.prems(3) in simp_all)
  finally show ?case by (simp add: fun_upd_def cong: if_cong)
qed

text \<open>A job that runs alone, on a node whose memory is that of a world of the service but for the cache.\<close>

definition resting :: "'s world \<Rightarrow> activity \<Rightarrow> bool" where
  "resting w a \<longleftrightarrow> (\<exists>v. a = Idle v \<and> same_memory w (v\<lparr>w_cache := w_cache w\<rparr>))"

lemma serial_job:
  assumes x: "run (env n) x509 j w = (out, w')" and cas: "cas_store (e_ops (env n)) objs"
    and n: "resting w (k_nodes s n)" and st: "k_store s = w_store w"
  obtains v' where "resting w' (Idle v')"
    and "overlap env x509 s
      (s\<lparr>k_store := w_store w', k_nodes := (k_nodes s)(n := Idle v'), k_answers := k_answers s @ [(n, j, out)]\<rparr>)"
proof -
  from n obtain v where v: "k_nodes s n = Idle v" "same_memory w (v\<lparr>w_cache := w_cache w\<rparr>)" unfolding resting_def by blast
  let ?v = "v\<lparr>w_cache := w_cache w\<rparr>" and ?ops = "e_ops (env n)"
  obtain es v' where es: "perform_all ?ops (map fst es) (w_store w) = (map snd es, w_store w')"
    and r: "resume (env n) x509 j ?v (map snd es) = (out, v')" and m: "same_memory w' v'"
    and p: "past (env n) x509 j ?v (map snd es) = es" and d: "pending (env n) x509 j ?v (map snd es) = None"
    by (rule run_recorded [OF x cas v(2)])
  let ?s = "s\<lparr>k_nodes := (k_nodes s)(n := Busy j ?v [])\<rparr>"
  let ?t = "?s\<lparr>k_store := w_store w', k_nodes := (k_nodes ?s)(n := Busy j ?v (map snd ([] @ es)))\<rparr>"
  have "overlap_step env x509 s ?s" by (rule overlap_step.begins [OF v(1)])
  also have "overlap env x509 ?s ?t" by (rule job_steps) (use es p st in simp_all)
  also have "overlap_step env x509 ?t (?t\<lparr>k_nodes := (k_nodes ?t)(n := Idle v'), k_answers := k_answers ?t @ [(n, j, out)]\<rparr>)"
    by (rule overlap_step.answers [where w = ?v and rs = "map snd es"]) (use d r in simp_all)
  finally show thesis using that [of v'] m by (simp add: resting_def same_memory_def)
qed

text \<open>The steps of the service are jobs, but for a sweep, which shows in the cache the next job starts with.\<close>

lemma service_step_job:
  assumes "service_step env x509 (st, nodes) (st', nodes')"
  obtains (job) n j out where "run (env n) x509 j ((nodes n)\<lparr>w_store := st\<rparr>) = (out, nodes' n)" "st' = w_store (nodes' n)"
      "\<forall>m. m \<noteq> n \<longrightarrow> nodes' m = nodes m"
    | (sweep) n c where "st' = st" "nodes' = nodes(n := (nodes n)\<lparr>w_cache := c\<rparr>)"
  using assms
proof cases
  case (boot n r w)
  have "restarted st ((nodes n)\<lparr>w_store := st\<rparr>) = restarted st (nodes n)" by (simp add: restarted_def)
  with boot show thesis by (intro job [of n Boot Booted]) simp_all
next
  case (serve n h rq resp w)
  then show thesis by (intro job [of n "Serve h rq" "Answered resp"]) simp_all
next
  case (embed P n h rq resp w)
  have "Handler (provider_over (env n) (pv_resolver P) (pv_RequireTenant P)) x509 = Handler P x509"
    using embed(3) unfolding Handler_def provider_over_def by (simp add: fun_eq_iff withResolvedTenant_def)
  with embed show thesis by (intro job [of n "Embed (pv_resolver P) (pv_RequireTenant P) h rq" "Answered resp"]) simp_all
next
  case (svid n sq sr w)
  then show thesis by (intro job [of n "Issue sq" "Issued sr"]) simp_all
next
  case (sweep n now)
  then show thesis using that(2) by blast
qed

lemma service_step_overlaps:
  assumes "service_step env x509 (st, nodes) (st', nodes')" and cas: "\<And>n. cas_store (e_ops (env n)) objs"
    and s: "k_store s = st" "\<forall>n. resting (nodes n) (k_nodes s n)"
  shows "\<exists>s'. overlap env x509 s s' \<and> k_store s' = st' \<and> (\<forall>n. resting (nodes' n) (k_nodes s' n))"
  using assms(1)
proof (cases rule: service_step_job)
  case (job n j out)
  have r: "resting ((nodes n)\<lparr>w_store := st\<rparr>) (k_nodes s n)" using s(2) by (auto simp: resting_def same_memory_def)
  have "k_store s = w_store ((nodes n)\<lparr>w_store := st\<rparr>)" using s(1) by simp
  with serial_job [where s = s and n = n and env = env and objs = objs, OF job(1) cas r]
  obtain v' where v': "resting (nodes' n) (Idle v')"
    and o: "overlap env x509 s (s\<lparr>k_store := w_store (nodes' n), k_nodes := (k_nodes s)(n := Idle v'),
      k_answers := k_answers s @ [(n, j, out)]\<rparr>)" by blast
  from o s(2) v' job(2,3) show ?thesis by (intro exI conjI) (assumption | simp)+
next
  case (sweep n c)
  with s show ?thesis by (intro exI [of _ s]) (auto simp: resting_def same_memory_def)
qed

text \<open>What \<open>service\<close> does, the nodes of \<open>overlap\<close> can do.\<close>

theorem serial_runs_overlap:
  assumes "(service_step env x509)\<^sup>*\<^sup>* (st, nodes) (st', nodes')" and cas: "\<And>n. cas_store (e_ops (env n)) objs"
    and s: "k_store s = st" "\<forall>n. resting (nodes n) (k_nodes s n)"
  shows "\<exists>s'. overlap env x509 s s' \<and> k_store s' = st' \<and> (\<forall>n. resting (nodes' n) (k_nodes s' n))"
  using assms(1)
proof (induction rule: rtranclp_induct2)
  case refl
  with s show ?case by blast
next
  case (step st1 nodes1 st2 nodes2)
  then obtain t where "overlap env x509 s t" "k_store t = st1" "\<forall>n. resting (nodes1 n) (k_nodes t n)" by blast
  moreover from service_step_overlaps [OF step.hyps(2) cas this(2,3)]
  obtain u where "overlap env x509 t u" "k_store u = st2" "\<forall>n. resting (nodes2 n) (k_nodes u n)" by blast
  ultimately show ?case by (blast intro: rtranclp_trans)
qed

lemma cluster_start_rests: "k_store (cluster_start st) = st" "resting (new_world st) (k_nodes (cluster_start st) n)"
  by (simp_all add: cluster_start_def resting_def same_memory_def new_world_def)

subsection \<open>No double redemption\<close>

text \<open>
  C2. However the storage calls of concurrent requests interleave, nothing is redeemed twice: among all the answers the nodes
  have given, at most one is a 200 to a token request for a given code or refresh token, and once it has been given the
  record is gone. Jobs may overlap in any way, run over any contents of the cache and be cut off by a crash between two calls.
\<close>

theorem redeemed_once:
  assumes "overlap env x509 (cluster_start st) s"
    and "\<forall>n. cas_store (e_ops (env n)) objs" and "\<forall>n. proper_versions (e_ops (env n)) objs" and "fresh_draws env"
    and "\<forall>k. \<not> HasPrefix k ''organizations/'' \<longrightarrow> objs st k = None" and "versions_ok (objs st)"
  shows "length (winners k (k_answers s)) \<le> 1 \<and> (winners k (k_answers s) \<noteq> [] \<longrightarrow> objs (k_store s) k = None)"
proof (cases "winners k (k_answers s) = []")
  case False
  then obtain n j out where "redeems k j out" by (auto simp: winners_def filter_empty_conv)
  then obtain r where "grant_key (token_request_of r) = k"
    by (auto simp: redeems_def spends_def split: option.splits outcome.splits)
  then obtain pre t where t: "one_time pre t k" unfolding grant_key_def by (metis one_time_keys(2,3))
  have o: "overlapping env objs" using assms(2-4) by (simp add: overlapping_def)
  from overlapping.overlap_invariant [OF o assms(1)] assms(5,6) t
  have "claimed_once env x509 pre t k (objs (k_store s) k) (k_nodes s) (length (winners k (k_answers s)))" by blast
  with False show ?thesis by (simp add: claimed_once_def)
qed simp

text \<open>
  C5. The records stay sound when requests overlap: after every storage call, in the middle of other requests and after
  crashes as well as between requests, a state, a code or a refresh token is stored under its own handle with the lifetime
  of its kind, a challenge comes with the method S256, a refresh token has a family and the claims of its subject, and a
  store in which every object is the JSON of a record of the kind its key says stays one.
\<close>

theorem overlap_records_sound:
  assumes "overlap env x509 (cluster_start st) s"
    and "\<forall>n. cas_store (e_ops (env n)) objs" and "\<forall>n. proper_versions (e_ops (env n)) objs" and "fresh_draws env"
    and "\<forall>k. \<not> HasPrefix k ''organizations/'' \<longrightarrow> objs st k = None" and "versions_ok (objs st)"
  shows "records_sound (objs (k_store s)) \<and> (well_typed (objs st) \<longrightarrow> well_typed (objs (k_store s)))"
proof -
  have o: "overlapping env objs" using assms(2-4) by (simp add: overlapping_def)
  from overlapping.overlap_invariant [OF o assms(1)] assms(5,6) have "cluster_ok objs (well_typed (objs st)) s" by blast
  then have "sessions_ok (objs (k_store s))" "well_typed (objs st) \<longrightarrow> well_typed (objs (k_store s))" by (simp_all add: cluster_ok_def)
  with sessions_ok_records show ?thesis by blast
qed

text \<open>JayDB's memory driver returns quoted versions, so it is an instance.\<close>

lemma mem_proper: "proper_versions (JayDBStorage mem_ops) mem_view"
  unfolding proper_versions_def
proof (intro allI impI)
  fix k d ev s r s'
  assume p: "st_Put (JayDBStorage mem_ops) k d ev s = (r, s')" and ok: "versions_ok (mem_view s)"
  show "versions_ok (mem_view s')"
  proof (cases r)
    case (Inl e)
    with p obtain e' where "mem_Put k d (if ev \<noteq> [] then Some ev else None) s = (Inl e', s')" by (auto dest: jay_Put_Inl)
    then have "s' = s" by (auto simp: mem_Put_def Let_def split: option.splits if_splits prod.splits)
    with ok show ?thesis by simp
  next
    case (Inr v)
    with p have "mem_view s' = (mem_view s)(k \<mapsto> (v, d))" using mem.jay.put_done by blast
    moreover have "v \<noteq> MatchAnyVersion" using p Inr
      by (auto simp: jay_Put_Inr mem_Put_def Let_def mem_etag_def MatchAnyVersion_def split: option.splits if_splits prod.splits)
    ultimately show ?thesis using ok by (auto simp: versions_ok_def)
  qed
qed

text \<open>The nodes of the login run, over that driver.\<close>

interpretation memory_nodes: overlapping replay_env x509 mem_view for x509
  by (rule overlapping.intro [OF replay_cas _ replay_fresh]) (simp add: replay_env_def mem_proper)

lemma tenant_versions: "versions_ok (mem_view tenant_store)"
  by (auto simp: versions_ok_def mem_view_def tenant_store_def demo_objs_def MatchAnyVersion_def numeral_3_eq_3)

lemma tenants_only: "\<forall>k. \<not> HasPrefix k ''organizations/'' \<longrightarrow> mem_view tenant_store k = None"
  using tenant_only by blast

lemma memory_contract: "\<forall>n. cas_store (e_ops (replay_env n)) mem_view" "\<forall>n. proper_versions (e_ops (replay_env n)) mem_view"
  using replay_cas memory_nodes.proper by blast+

text \<open>A run in which node 2 has begun to redeem the code when node 1 redeems it.\<close>

lemma redeemed_once_witness:
  "\<exists>s v. overlap replay_env (\<lambda>_. None) (cluster_start tenant_store) s \<and> k_nodes s 2 = Busy (Serve no_header redeem_post) v [] \<and>
     length (winners (AuthCodeKey ''code_YmI'') (k_answers s)) = 1 \<and> mem_view (k_store s) (AuthCodeKey ''code_YmI'') = None"
proof -
  let ?start = "\<lambda>n::nat. new_world tenant_store" and ?job = "Serve no_header redeem_post" and ?k = "AuthCodeKey ''code_YmI''"
  obtain st w2 where steps: "(service_step replay_env (\<lambda>_. None))\<^sup>*\<^sup>* (tenant_store, ?start) (st, ?start(0 := w2))"
    and ok: "rs_Status (fst (ServeHTTP (NewServer (replay_env 1) (\<lambda>_. None)) no_header redeem_post (new_world st))) = 200"
    using login_run by blast
  obtain s where s: "overlap replay_env (\<lambda>_. None) (cluster_start tenant_store) s" "k_store s = st"
    and rests: "\<forall>n. resting ((?start(0 := w2)) n) (k_nodes s n)"
    by (rule exE [OF serial_runs_overlap [OF steps replay_cas cluster_start_rests(1) allI [OF cluster_start_rests(2)]]]) (elim conjE)
  from rests [rule_format, of 2] obtain u where u: "k_nodes s 2 = Idle u" by (auto simp: resting_def)
  let ?v = "u\<lparr>w_cache := NewMemoryCache\<rparr>"
  let ?s1 = "s\<lparr>k_nodes := (k_nodes s)(2 := Busy ?job ?v [])\<rparr>"
  have b: "overlap_step replay_env (\<lambda>_. None) s ?s1" by (rule overlap_step.begins [OF u])
  from rests [rule_format, of 1] have r1: "resting (new_world st) (k_nodes ?s1 1)"
    by (auto simp: resting_def same_memory_def new_world_def)
  obtain resp w3 where x: "ServeHTTP (NewServer (replay_env 1) (\<lambda>_. None)) no_header redeem_post (new_world st) = (resp, w3)" by fastforce
  have serve: "run (replay_env 1) (\<lambda>_. None) ?job (new_world st) = (Answered resp, w3)" using x by simp
  have here: "k_store ?s1 = w_store (new_world st)" using s(2) by (simp add: new_world_def)
  from serial_job [where env = replay_env and n = 1 and s = ?s1, OF serve replay_cas r1 here] obtain v' where
    j: "overlap replay_env (\<lambda>_. None) ?s1
      (?s1\<lparr>k_store := w_store w3, k_nodes := (k_nodes ?s1)(1 := Idle v'), k_answers := k_answers ?s1 @ [(1, ?job, Answered resp)]\<rparr>)"
    (is "overlap _ _ _ ?s2") by metis
  note run = rtranclp_trans [OF rtranclp.rtrancl_into_rtrancl [OF s(1) b] j]
  have "redeems ?k ?job (Answered resp)" using x ok redeem_spends by (simp add: redeems_def)
  then have won: "winners ?k (k_answers ?s2) \<noteq> []" by (simp add: winners_def)
  note once = redeemed_once [where objs = mem_view and st = tenant_store and s = ?s2 and k = ?k,
      OF run memory_contract replay_fresh tenants_only tenant_versions]
  from won once have "length (winners ?k (k_answers ?s2)) = 1" "mem_view (k_store ?s2) ?k = None"
    by (simp_all add: le_Suc_eq)
  with run show ?thesis by (intro exI [of _ ?s2] exI [of _ ?v]) simp
qed

text \<open>The code of the login run.\<close>

lemma overlap_records_sound_witness:
  "\<exists>s v c. overlap replay_env (\<lambda>_. None) (cluster_start tenant_store) s \<and> well_typed (mem_view (k_store s)) \<and>
     mem_view (k_store s) (AuthCodeKey ''code_YmI'') = Some (v, Doc (marshal code_fields c)) \<and> ac_Code c = ''code_YmI''"
proof -
  let ?start = "\<lambda>n::nat. new_world tenant_store" and ?k = "AuthCodeKey ''code_YmI''"
  obtain st w2 where steps: "(service_step replay_env (\<lambda>_. None))\<^sup>*\<^sup>* (tenant_store, ?start) (st, ?start(0 := w2))"
    and code: "mem_view st ?k \<noteq> None"
    using login_run by blast
  obtain s where s: "overlap replay_env (\<lambda>_. None) (cluster_start tenant_store) s" "k_store s = st"
    by (rule exE [OF serial_runs_overlap [OF steps replay_cas cluster_start_rests(1) allI [OF cluster_start_rests(2)]]]) (elim conjE)
  from code s(2) obtain v d where d: "mem_view (k_store s) ?k = Some (v, d)" by auto
  note sound = overlap_records_sound [where objs = mem_view and st = tenant_store and s = s,
      OF s(1) memory_contract replay_fresh tenants_only tenant_versions]
  then obtain c where "d = Doc (marshal code_fields c)" "ac_Code c = ''code_YmI''" using d unfolding records_sound_def by blast
  moreover have "well_typed (mem_view (k_store s))" using sound tenant_store_typed by blast
  ultimately show ?thesis using s(1) d by blast
qed

end
