(* ===== verification/Machine.thy ===== *)
theory Machine
  imports CertGen Workloads
begin

text \<open>
  \<^verbatim>\<open>examples/verify_spiffe_svid\<close>: a workload that makes itself a certificate, asks the provider for a JWT-SVID and, when it gets
  none, signs one itself. The lines it prints are the constructors of \<open>line\<close> with what varies in them. A string cut
  beyond its end is a panic: the result is then \<open>Inl\<close> of the lines printed up to there.
\<close>

datatype line = CertFailed string | CertMade string string | Requesting string | Received string | Simulating
  | SelfIssued string | Refreshing string | Bundle string | NoBundle | Complete

subsection \<open>Slices and panics\<close>

text \<open>\<^verbatim>\<open>s[:n]\<close>\<close>

definition slice_to :: "nat \<Rightarrow> string \<Rightarrow> string option" where
  "slice_to n s = (if n \<le> length s then Some (take n s) else None)"

text \<open>Printing what a slice gives, and going on after lines that have been printed.\<close>

definition show_slice :: "nat \<Rightarrow> string \<Rightarrow> (string \<Rightarrow> line) \<Rightarrow> ('s world, line list, line list) eng" where
  "show_slice n s c = (case slice_to n s of None \<Rightarrow> fail [] | Some t \<Rightarrow> ret [c t])"

definition print_then :: "line list \<Rightarrow> ('s world, line list, line list) eng \<Rightarrow> ('s world, line list, line list) eng" where
  "print_then ls m = attempt m (\<lambda>r. case r of Inl ms \<Rightarrow> fail (ls @ ms) | Inr ms \<Rightarrow> ret (ls @ ms))"

subsection \<open>The walk-through\<close>

definition machine_id :: string where
  "machine_id = ''spiffe://authpole.local/ns/default/sa/payment-service''"

definition authPoleURL :: string where
  "authPoleURL = ''http://localhost:8080''"

definition svid_request :: "string \<Rightarrow> http_request" where
  "svid_request clientCertPEM =
     \<lparr>rq_Method = ''POST'', rq_URL = authPoleURL @ ''/api/v1/spiffe/svid'',
      rq_Header = [(''Content-Type'', ''application/json''), (''X-Organization-ID'', ''default'')],
      rq_Body = print_json (\<lambda>_. []) (JObj
        [(''audience'', JStr ''spiffe://authpole.local/ns/default''), (''client_cert_pem'', JStr clientCertPEM),
         (''requested_scopes'', JArr [JStr ''read:transactions'', JStr ''write:payments'']), (''workload_id'', JStr ''payment_service'')])\<rparr>"

text \<open>\<^verbatim>\<open>res["svid"].(string)\<close> of the decoded answer: of equal keys the last counts, and whatever is no string is empty.\<close>

definition svid_field :: "string \<Rightarrow> string" where
  "svid_field body =
     (case read_value body of
        Some (JObj es, _) \<Rightarrow> (case map_of (rev es) ''svid'' of Some (JStr s) \<Rightarrow> s | _ \<Rightarrow> [])
      | _ \<Rightarrow> [])"

definition machine_claims :: AuthClaims where
  "machine_claims = zero_claims\<lparr>cl_Subject := machine_id, cl_Issuer := ''https://authpole.io/organizations/default'',
     cl_Audience := [''spiffe://authpole.local/ns/default''], cl_OrganizationID := ''default'', cl_WorkloadID := ''payment_service'',
     cl_SPIFFEID := machine_id, cl_Scope := ''read:transactions write:payments''\<rparr>"

text \<open>Without a key pair the nil pointer panics, without a token the slice of the empty string.\<close>

definition simulate_svid :: "'s env \<Rightarrow> ('s world, line list, line list) eng" where
  "simulate_svid E = print_then [Simulating]
     (attempt (andThen (draw_key E) (\<lambda>g. andThen (clock E) (\<lambda>now. ofSum (GenerateRSAKeyPair g now ''default'' [])))) (\<lambda>k. case k of
         Inl err \<Rightarrow> fail []
       | Inr keyPair \<Rightarrow> attempt (IssueJWTSVID E machine_claims keyPair 15) (\<lambda>t.
           show_slice 30 (case t of Inl err \<Rightarrow> [] | Inr svidToken \<Rightarrow> svidToken) SelfIssued)))"

definition obtain_svid :: "'s env \<Rightarrow> string \<Rightarrow> ('s world, line list, line list) eng" where
  "obtain_svid E clientCertPEM =
     andThen (http_do E (svid_request clientCertPEM)) (\<lambda>resp. case resp of
         Answer status body whole \<Rightarrow> if status = 200 then show_slice 30 (svid_field body) Received else simulate_svid E
       | _ \<Rightarrow> simulate_svid E)"

definition bundleEndpoint :: string where
  "bundleEndpoint = authPoleURL @ ''/.well-known/spiffe/bundle?organization=default''"

text \<open>
  The bytes of the bundle are a slice, which can be cut beyond its length as long as its capacity reaches: \<^verbatim>\<open>io.ReadAll\<close> starts with
  512 zero bytes, so a shorter bundle is printed with zero bytes after it.
\<close>

definition cut_bytes :: "nat \<Rightarrow> string \<Rightarrow> string" where
  "cut_bytes n s = take n (s @ replicate n (CHR 0x00))"

definition fetch_bundle :: "'s env \<Rightarrow> ('s world, line list, line list) eng" where
  "fetch_bundle E = print_then [Refreshing bundleEndpoint]
     (andThen (http_do E \<lparr>rq_Method = ''GET'', rq_URL = bundleEndpoint, rq_Header = [], rq_Body = []\<rparr>) (\<lambda>resp. case resp of
         Answer status body whole \<Rightarrow> if status = 200 then ret [Bundle (cut_bytes 100 body)] else ret [NoBundle]
       | _ \<Rightarrow> ret [NoBundle]))"

definition machine_main :: "'s env \<Rightarrow> ('k, 'p, 'u) cert_lib \<Rightarrow> ('s world, line list, line list) eng" where
  "machine_main E L = attempt (GenerateSelfSignedLongExpiryCert E L machine_id 5) (\<lambda>c. case c of
       Inl err \<Rightarrow> ret [CertFailed err]
     | Inr (clientCertPEM, _, fingerprint) \<Rightarrow>
         andThen (show_slice 16 fingerprint (CertMade machine_id)) (\<lambda>made.
         andThen (print_then (made @ [Requesting (rq_URL (svid_request clientCertPEM))]) (obtain_svid E clientCertPEM)) (\<lambda>ls.
         andThen (print_then ls (fetch_bundle E)) (\<lambda>ms. ret (ms @ [Complete])))))"

subsection \<open>What it does\<close>

definition printed :: "line list + line list \<Rightarrow> line list" where
  "printed r = (case r of Inl ls \<Rightarrow> ls | Inr ls \<Rightarrow> ls)"

lemma printed_simps [simp]: "printed (Inl ls) = ls" "printed (Inr ls) = ls"
  by (simp_all add: printed_def)

text \<open>Its request as a server gets it: without a TLS certificate, and without the header a proxy would set.\<close>

definition arrives :: "http_request \<Rightarrow> 's env \<Rightarrow> Request \<Rightarrow> bool" where
  "arrives rq E r \<longleftrightarrow> r_Method r = rq_Method rq \<and> r_Body r = rq_Body rq \<and> r_TLS r = None \<and>
     header_get r (px_header (proxyTrustConfig (e_getenv E))) = []"

lemma svid_refused:
  assumes "arrives (svid_request pem) E r"
  shows "rs_Status (fst (HandleSVID E x509 h r w)) = 401"
proof -
  from assms have r: "r_Method r = ''POST''" "r_TLS r = None" "header_get r (px_header (proxyTrustConfig (e_getenv E))) = []"
    by (simp_all add: arrives_def svid_request_def)
  then have "VerifiedClientCert E x509 r = Inl ErrNoClientCertificate" by (simp add: VerifiedClientCert_def Let_def)
  with r(1) show ?thesis
    by (simp add: HandleSVID_def EnableCORS_def answer_def andThen_def ofSum_def fail_def Let_def)
qed

definition silent :: "('s world, line list, line list) eng \<Rightarrow> bool" where
  "silent m \<longleftrightarrow> (\<forall>w t. Received t \<notin> set (printed (fst (m w))))"

lemma silent_rules:
  "silent (ret ls) \<longleftrightarrow> (\<forall>t. Received t \<notin> set ls)" "silent (fail ls) \<longleftrightarrow> (\<forall>t. Received t \<notin> set ls)"
  "silent m \<Longrightarrow> (\<And>t. Received t \<notin> set ls) \<Longrightarrow> silent (print_then ls m)"
  "(\<And>s t. c s \<noteq> Received t) \<Longrightarrow> silent (show_slice n s c)"
  by (auto simp: silent_def ret_def fail_def print_then_def attempt_def show_slice_def split: prod.splits sum.splits option.splits)
    (metis fst_conv printed_simps)+

lemma silent_attempt: "(\<And>r. silent (f r)) \<Longrightarrow> silent (attempt m f)"
  unfolding silent_def attempt_def by (auto split: prod.split)

lemma silent_simulate: "silent (simulate_svid E)"
  unfolding simulate_svid_def by (auto intro!: silent_rules silent_attempt split: sum.split simp: silent_rules(2))

lemma silent_bundle: "silent (fetch_bundle E)"
  unfolding fetch_bundle_def
  by (rule silent_rules) (auto simp: silent_def http_do_def andThen_def ret_def split: http_result.split)

lemma silent_andThen:
  assumes "silent m" and "\<And>ls. (\<And>t. Received t \<notin> set ls) \<Longrightarrow> silent (f ls)"
  shows "silent (andThen m f)"
  unfolding silent_def
proof (intro allI)
  fix w t
  obtain r w1 where x: "m w = (r, w1)" by fastforce
  with assms(1) have "Received u \<notin> set (printed r)" for u unfolding silent_def by (metis fst_conv)
  with assms(2) x show "Received t \<notin> set (printed (fst (andThen m f w)))"
    unfolding silent_def andThen_def by (cases r) auto
qed

lemma silent_obtain:
  assumes "\<And>i st body whole. e_http E i (svid_request pem) = Answer st body whole \<Longrightarrow> st \<noteq> 200"
  shows "silent (obtain_svid E pem)"
  unfolding silent_def
proof (intro allI)
  fix w t
  show "Received t \<notin> set (printed (fst (obtain_svid E pem w)))"
    using assms silent_simulate [of E] unfolding obtain_svid_def http_do_def andThen_def silent_def
    by (auto split: http_result.split)
qed

text \<open>
  Client and server together: the certificate goes into the body, where the endpoint does not look for it. As long as what answers
  is the service, no token of the service is ever shown; the workload prints one it has signed itself.
\<close>

theorem machine_never_served:
  fixes E :: "'s env" and L :: "('k, 'p, 'u) cert_lib"
  assumes "\<And>i pem st body whole. e_http E i (svid_request pem) = Answer st body whole \<Longrightarrow>
      \<exists>(E' :: 't env) x509 h r w. arrives (svid_request pem) E' r \<and> st = int (rs_Status (fst (HandleSVID E' x509 h r w)))"
  shows "Received t \<notin> set (printed (fst (machine_main E L w)))"
proof -
  have o: "silent (obtain_svid E pem)" for pem
  proof (rule silent_obtain)
    fix i st body whole
    assume "e_http E i (svid_request pem) = Answer st body whole"
    from assms [OF this] svid_refused show "st \<noteq> 200" by fastforce
  qed
  have "silent (machine_main E L)"
    unfolding machine_main_def
    by (auto intro!: silent_attempt silent_andThen silent_rules o silent_bundle split: sum.split simp: silent_rules(1))
  then show ?thesis by (simp add: silent_def)
qed

text \<open>An answer without a token of thirty bytes ends the program with a panic.\<close>

lemma short_token_panics:
  assumes "e_http E (w_req w) (svid_request pem) = Answer 200 body whole" and "length (svid_field body) < 30"
  shows "fst (obtain_svid E pem w) = Inl []"
  using assms by (simp add: obtain_svid_def http_do_def andThen_def show_slice_def slice_to_def fail_def)

end
