(* ===== verification/Spec2Isabelle.thy ===== *)
theory Spec2Isabelle
  imports Journey Race Upstream Isolation Typing Shutdown CertGen Downstream JsonFuel SvidCache Serial Machine
begin

text \<open>
  AuthPole is a multi-tenant OpenID Connect provider written in Go. It sits between the applications of
  many organizations (tenants) and upstream identity providers (Google, GitHub, generic OAuth servers):
  it checks authorization requests, sends the browser to the upstream provider, turns the profile it
  gets back into claims, and issues authorization codes, access tokens, ID tokens and rotating refresh
  tokens signed with the tenant's RSA key. Workloads get SPIFFE JWT-SVIDs for a client certificate. All
  durable state is in an object store with compare-and-swap writes, so any number of nodes can serve one
  deployment. This development models the service from the storage adapter up to the HTTP routes.

  \<^bold>\<open>How Go is modelled.\<close> A fallible call returns a sum, \<open>Inl\<close> the error and \<open>Inr\<close> the value; a call with
  effects is a function from a state to a result and a state, composed with \<open>andThen\<close> and \<open>attempt\<close>
  (\<open>Prelude\<close>), so that every early return and every failing call of the source is a branch. Go strings
  are byte lists (\<open>string\<close>); structs are records; instants are integers in nanoseconds; the 32-bit
  arithmetic of SHA-256 and FNV-1a is on words. Mutable state is the record \<open>world\<close> (\<open>World\<close>): the store,
  the node's cache, the engine's two maps, and the positions of the oracles (clock, random source, key
  generator, network) of the environment \<open>env\<close>. Each step under a mutex is one transition.

  \<^bold>\<open>Standard library.\<close> \<open>GoStrings\<close> (\<^verbatim>\<open>strings\<close>, \<^verbatim>\<open>fmt\<close>), \<open>Encoding\<close> (base64url, hex), \<open>Sha256\<close>, \<open>Floats\<close> (\<^verbatim>\<open>float64\<close>: the
  number a numeral is rounded to, and its shortest text in the two formats of \<^verbatim>\<open>fmt\<close> that the claims use), \<open>Json\<close> and
  \<open>JsonText\<close> (\<^verbatim>\<open>encoding/json\<close>: documents and struct tags, then their text and its reader), \<open>NetURL\<close>
  (\<^verbatim>\<open>net/url\<close>), \<open>NetIP\<close> (\<^verbatim>\<open>net\<close>), \<open>Http\<close> (\<^verbatim>\<open>net/http\<close>: headers, forms, answers). They define the part
  the program uses. The JSON reader refuses a text nested deeper than 10000, as Go's does, and a profile with a number outside
  the range of \<^verbatim>\<open>float64\<close> is refused where it is decoded. The reader has fuel, which \<open>parse_json\<close> sets to one more than
  the length of the text: \<open>JsonFuel\<close> shows that no fuel would read more, and \<open>parse_print\<close> that every document that is written
  is read back. The IPv6 reader is bounded by the eight groups of an address.

  \<^bold>\<open>The components\<close>, in the order in which they build on each other:

  \<^item> \<open>Models\<close>: \<^verbatim>\<open>pkg/models/models.go\<close>, every stored struct with its JSON field table and its methods.
  \<^item> \<open>Storage\<close>, \<open>JayDB\<close>, \<open>S3Driver\<close>: \<^verbatim>\<open>pkg/storage\<close>. The Go interface \<^verbatim>\<open>Storage\<close> is the record of operations
    \<open>store_ops\<close>; its contract of conditional writes is the locale \<open>cas_store\<close>, and \<open>reliable_store\<close> adds that
    nothing fails. The contract promises an unchanged store only of a call that is answered with a version mismatch: after
    any other error the write or delete may have been applied, under its condition, and only its answer lost. \<^verbatim>\<open>JayDBStorage\<close> is an adapter over the JayDB module, a parameter with the laws of the
    locale \<open>jaydb\<close>; a \<open>sublocale\<close> shows that the adapter meets \<open>cas_store\<close>, and JayDB's memory driver is an
    instance. \<open>S3Driver\<close> is the driver over the AWS client, \<open>Boot\<close> has the constructors that open a database.
  \<^item> \<open>Cache\<close>: \<^verbatim>\<open>pkg/cache\<close>, the map with expiry (contract: locale \<open>expiring_map\<close>) and the placement of shards.
  \<^item> \<open>Crypto\<close>: \<^verbatim>\<open>pkg/crypto\<close>, random handles, PKCE, key pairs, JWTs and key sets. RSA and PEM are the parameter
    \<open>rsa_lib\<close>.
  \<^item> \<open>Claims\<close>, \<open>Engine\<close>, \<open>Tokens\<close>, \<open>Svid\<close>: \<^verbatim>\<open>pkg/idp\<close>: provider presets and profile claims; authorization
    requests, single-use records, upstream callbacks, signing keys; the token endpoint; JWT-SVIDs.
  \<^item> \<open>Auth\<close>: \<^verbatim>\<open>pkg/auth/jwt.go\<close>, the token validator and its middleware (contract of a source of keys: locale
    \<open>key_source\<close>). \<open>Provider\<close>: \<^verbatim>\<open>authpole.go\<close>, tenant resolution and the embedding API.
  \<^item> \<open>Spiffe\<close>, \<open>CertGen\<close>: \<^verbatim>\<open>pkg/spiffe\<close>, SPIFFE ids, client certificates and trusted proxies; making a certificate,
    with the library's promises as the locale \<open>x509_lib\<close>.
  \<^item> \<open>Api\<close>, \<open>Admin\<close>, \<open>Oidc\<close>, \<open>Workloads\<close>, \<open>Server\<close>: \<^verbatim>\<open>pkg/api\<close>: what handlers share, the administrative
    handlers, the OIDC endpoints, the SPIFFE endpoints, and the routes with the cross-origin policy.
  \<^item> \<open>Seed\<close>, \<open>Boot\<close>, \<open>Shutdown\<close>: \<^verbatim>\<open>cmd/server/main.go\<close>, the records of the default tenant, credentials, choice of storage;
    \<^verbatim>\<open>main\<close> up to the point where it listens; then the listening goroutine, signals and the end of the process.
    \<open>Downstream\<close>, \<open>Machine\<close>: \<^verbatim>\<open>examples/verify_jwt\<close> and \<^verbatim>\<open>examples/verify_spiffe_svid\<close>, clients of the service.

  \<^bold>\<open>The properties.\<close> \<open>Sessions\<close>, \<open>Flows\<close>, \<open>KeyStore\<close> and \<open>Progress\<close> hold the lemmas that properties share, proved in the
  locales \<open>engine_store\<close> (the engine over any store with the contract) and \<open>reliable_engine\<close>; \<open>Demo\<close> is the
  concrete environment and store in which witnesses evaluate.

  \<^item> \<open>Login\<close>, \<open>Journey\<close>: codes and refresh handles are single-use and bound to client, redirect URI and PKCE
    challenge, from the first request to the tokens; valid codes are honoured; refused requests leave no trace.
  \<^item> \<open>Race\<close>: claims of one record by any number of nodes, each running \<^verbatim>\<open>claimSingleUse\<close>, as an interleaving of their storage
    calls (\<open>claim_step\<close>; its proof goes through the stages of a claim, \<open>race_step\<close>).
  \<^item> \<open>Calls\<close>, \<open>Conduct\<close>: rules for what a composed operation keeps, and the locale \<open>session_calls\<close>, an invariant of storage
    calls that every operation of the engine, every handler and the seeding keep. Three invariants are instances: that of the store
    (\<open>Reach\<close>) and two of the calls a request has made (\<open>Script\<close>).
  \<^item> \<open>Reach\<close>, \<open>Replay\<close>: the whole service as a transition system \<open>service\<close> of nodes over one store (steps: requests to the
    server or through the embedding API, SVIDs, restarts with seeding, cache sweeps); the records are sound, and no code or
    refresh token is honoured twice in the life of the service.
  \<^item> \<open>Paired\<close>, \<open>Script\<close>, \<open>Overlap\<close>, \<open>Serial\<close>: requests that overlap, call by call. The store is a parameter of every definition,
    so a request can be run over a script of replies (\<open>resume\<close>), which tells the calls it has made (\<open>past\<close>) and the one it waits for
    (\<open>pending\<close>); the locale \<open>paired_stores\<close> relates the runs of one request over two kinds of store. In \<open>overlap\<close> any number of
    nodes have jobs in progress, a step is one storage call of one of them, and a node can crash between two calls. At most one
    redemption of a code or refresh token is ever answered, and the records are sound after every call. What \<open>service\<close> does is
    among what \<open>overlap\<close> does (\<open>serial_runs_overlap\<close>).
  \<^item> \<open>Typing\<close>: every object the service stores is the JSON of a record of the kind its key says, in every run.
  \<^item> \<open>Upstream\<close>, \<open>Keys\<close>: identity from upstream, choice of provider; which key signs and which are published.
  \<^item> \<open>Access\<close>, \<open>Provider\<close>: what an accepted token proves, confinement of tokens and requests to a tenant.
  \<^item> \<open>Surface\<close>, \<open>Console\<close>, \<open>Scope\<close>: the HTTP endpoints refine the engine's calls; who passes for an administrator;
    writes are compare-and-swap where they name a version, and stay in the scope of their route; what the SVID endpoint gives out.
  \<^item> \<open>Isolation\<close>: through the embedding API, no request of one tenant changes the configuration of another (locale
    \<open>spared_key\<close>: what the public endpoints leave alone).
  \<^item> \<open>SvidCache\<close>: the token validator and the SVID endpoint over one cache entry; the former disables the latter.
  \<^item> \<open>Boot\<close>: the process comes up in a state of \<open>service\<close>, or does not come up. \<open>Shutdown\<close>: it exits cleanly, and it does exit.
  \<^item> \<open>Machine\<close>: the example client and the SVID endpoint together; it is never served.
  \<^item> \<open>Svid\<close>, \<open>Spiffe\<close>, \<open>CertGen\<close>, \<open>Seed\<close>, \<open>Cache\<close> state the properties of their component beside it.

  \<^bold>\<open>Parameters\<close> (code that is not in the repository): the JayDB module, the AWS SDK, RSA with PEM and PKIX,
  X.509, \<^verbatim>\<open>crypto/rand\<close>, the HTTP client, the AWS command line and the clock. Nothing is assumed of them but the laws a theorem names.

  \<^bold>\<open>Not modelled\<close>: failures of \<^verbatim>\<open>json.Marshal\<close> (it has none on these types); Unicode case and white space beyond
  ASCII; multipart forms; request paths with percent escapes in the multiplexer; the text of X.509 errors;
  \<^verbatim>\<open>Close\<close> of the storage, which only calls the module; what is logged. A request in \<open>service\<close> is one step, in \<open>overlap\<close> one step
  for each storage call. There a node has one request at a time and starts it with any contents of its cache, so a process
  that serves several at once is several nodes; the cache does not change under a request in progress. \<^verbatim>\<open>List\<close> is one call of \<^verbatim>\<open>Storage\<close> and so
  one step, though the adapter reads the objects it lists one by one.
\<close>

end
